(* ===== verification/Barn_Prelude.thy ===== *)
theory Barn_Prelude
  imports
    Main
    "HOL-Library.Multiset"
    "HOL-Library.Sublist"
    "HOL-Library.Char_ord"
    "HOL-Library.List_Lexorder"
begin

text \<open>
  Shared vocabulary of the development: the effects of the C++ code as a
  state-and-exception type, the sequencing combinators used by every component, and
  the lemmas that let the simplifier run them.

  A computation takes the state of the process and its surroundings and either does not
  return (\<open>None\<close>) or ends in a new state with a value (\<open>Inr\<close>) or with an abnormal
  outcome (\<open>Inl\<close>). Strings are lists of bytes; the order on them is the
  lexicographic order of \<open>std::string\<close> (List\_Lexorder over Char\_ord).
\<close>

section \<open>Abnormal outcomes and computations\<close>

text \<open>
  \<open>Abort\<close> is a failed \<open>assert\<close> or \<open>BOOST_ASSERT\<close> (neither build defines
  \<open>NDEBUG\<close>), which kills the process and which no handler catches. The others are C++
  exceptions, told apart as far as the handlers of the code tell them apart.
\<close>

datatype exn =
    Abort string
  | Filesystem_Error string
  | System_Error string
  | Thrown_Literal string

fun catchable :: "exn \<Rightarrow> bool" where
  "catchable (Abort _) = False"
| "catchable _ = True"

type_synonym ('a, 'w) io = "'w \<Rightarrow> ((exn + 'a) \<times> 'w) option"

named_theorems io_simps "rules that run sequenced computations"

definition ret :: "'a \<Rightarrow> ('a, 'w) io" where
  "ret a w = Some (Inr a, w)"

definition throw :: "exn \<Rightarrow> ('a, 'w) io" where
  "throw e w = Some (Inl e, w)"

definition bindE :: "('a, 'w) io \<Rightarrow> ('a \<Rightarrow> ('b, 'w) io) \<Rightarrow> ('b, 'w) io" where
  "bindE m f w =
     (case m w of
        None \<Rightarrow> None
      | Some (Inl e, w') \<Rightarrow> Some (Inl e, w')
      | Some (Inr a, w') \<Rightarrow> f a w')"

definition thenE :: "(unit, 'w) io \<Rightarrow> ('b, 'w) io \<Rightarrow> ('b, 'w) io" where
  "thenE m n = bindE m (\<lambda>_. n)"

text \<open>\<open>try_catch m p h\<close>: the handler \<open>h\<close> runs for the exceptions that satisfy \<open>p\<close>.\<close>

definition try_catch ::
  "('a, 'w) io \<Rightarrow> (exn \<Rightarrow> bool) \<Rightarrow> (exn \<Rightarrow> ('a, 'w) io) \<Rightarrow> ('a, 'w) io" where
  "try_catch m p h w =
     (case m w of
        None \<Rightarrow> None
      | Some (Inl e, w') \<Rightarrow> if catchable e \<and> p e then h e w' else Some (Inl e, w')
      | Some (Inr a, w') \<Rightarrow> Some (Inr a, w'))"

text \<open>
  \<open>on_exit m c\<close>: the state change \<open>c\<close> of a destructor runs when the scope of \<open>m\<close> is
  left, by return or by exception. After an abort no destructor runs.
\<close>

definition on_exit :: "('a, 'w) io \<Rightarrow> ('w \<Rightarrow> 'w) \<Rightarrow> ('a, 'w) io" where
  "on_exit m c w =
     (case m w of
        None \<Rightarrow> None
      | Some (Inl e, w') \<Rightarrow> Some (Inl e, if catchable e then c w' else w')
      | Some (Inr a, w') \<Rightarrow> Some (Inr a, c w'))"

text \<open>\<open>on_throw m c\<close>: the same for a destructor that runs only when an exception leaves the scope.\<close>

definition on_throw :: "('a, 'w) io \<Rightarrow> ('w \<Rightarrow> 'w) \<Rightarrow> ('a, 'w) io" where
  "on_throw m c w =
     (case m w of
        None \<Rightarrow> None
      | Some (Inl e, w') \<Rightarrow> Some (Inl e, if catchable e then c w' else w')
      | Some (Inr a, w') \<Rightarrow> Some (Inr a, w'))"

definition assertE :: "bool \<Rightarrow> string \<Rightarrow> (unit, 'w) io" where
  "assertE b what = (if b then ret () else throw (Abort what))"

definition getE :: "('w \<Rightarrow> 'a) \<Rightarrow> ('a, 'w) io" where
  "getE f w = Some (Inr (f w), w)"

definition modifyE :: "('w \<Rightarrow> 'w) \<Rightarrow> (unit, 'w) io" where
  "modifyE f w = Some (Inr (), f w)"

section \<open>Running computations\<close>

lemma ret_run [io_simps]: "ret a w = Some (Inr a, w)"
  by (simp add: ret_def)

lemma throw_run [io_simps]: "throw e w = Some (Inl e, w)"
  by (simp add: throw_def)

lemma getE_run [io_simps]: "getE f w = Some (Inr (f w), w)"
  by (simp add: getE_def)

lemma modifyE_run [io_simps]: "modifyE f w = Some (Inr (), f w)"
  by (simp add: modifyE_def)

lemma bindE_value [io_simps]: "m w = Some (Inr a, w') \<Longrightarrow> bindE m f w = f a w'"
  by (simp add: bindE_def)

lemma bindE_exn [io_simps]: "m w = Some (Inl e, w') \<Longrightarrow> bindE m f w = Some (Inl e, w')"
  by (simp add: bindE_def)

lemma bindE_stuck [io_simps]: "m w = None \<Longrightarrow> bindE m f w = None"
  by (simp add: bindE_def)

lemma thenE_run [io_simps]: "thenE m n w = bindE m (\<lambda>_. n) w"
  by (simp add: thenE_def)

lemma assertE_run [io_simps]:
  "assertE b what w = (if b then Some (Inr (), w) else Some (Inl (Abort what), w))"
  by (simp add: assertE_def ret_def throw_def)

lemma bindE_ret [simp]: "bindE (ret a) f = f a"
  by (rule ext) (simp add: bindE_def ret_def)

lemma bindE_throw [simp]: "bindE (throw e) f = throw e"
  by (rule ext) (simp add: bindE_def throw_def)

lemma bindE_assoc: "bindE (bindE m f) g = bindE m (\<lambda>a. bindE (f a) g)"
  by (rule ext) (simp add: bindE_def split: option.splits prod.splits sum.splits)

text \<open>Taking a finished run of a sequence apart, for proofs about every run.\<close>

lemma bindE_Some:
  "bindE m f w = Some r \<longleftrightarrow>
     (\<exists>e w'. m w = Some (Inl e, w') \<and> r = (Inl e, w')) \<or>
     (\<exists>a w'. m w = Some (Inr a, w') \<and> f a w' = Some r)"
  by (auto simp: bindE_def split: option.splits sum.splits)

lemma bindE_Inr:
  "bindE m f w = Some (Inr b, w'') \<longleftrightarrow>
     (\<exists>a w'. m w = Some (Inr a, w') \<and> f a w' = Some (Inr b, w''))"
  by (auto simp: bindE_Some)

section \<open>Frames: what a computation leaves alone\<close>

text \<open>
  \<open>keeps m f\<close>: however \<open>m\<close> ends, the view \<open>f\<close> of the state is what it was. Components
  are combined by showing what each leaves alone.
\<close>

definition keeps :: "('a, 'w) io \<Rightarrow> ('w \<Rightarrow> 'v) \<Rightarrow> bool" where
  "keeps m f \<longleftrightarrow> (\<forall>w r w'. m w = Some (r, w') \<longrightarrow> f w' = f w)"

named_theorems keeps_intros "frame rules"

lemma keepsD: "keeps m f \<Longrightarrow> m w = Some (r, w') \<Longrightarrow> f w' = f w"
  by (auto simp: keeps_def)

lemma keepsI: "(\<And>w r w'. m w = Some (r, w') \<Longrightarrow> f w' = f w) \<Longrightarrow> keeps m f"
  by (auto simp: keeps_def)

lemma keeps_ret [keeps_intros]: "keeps (ret a) f"
  by (simp add: keeps_def ret_def)

lemma keeps_throw [keeps_intros]: "keeps (throw e) f"
  by (simp add: keeps_def throw_def)

lemma keeps_getE [keeps_intros]: "keeps (getE g) f"
  by (simp add: keeps_def getE_def)

lemma keeps_assertE [keeps_intros]: "keeps (assertE b s) f"
  by (simp add: keeps_def assertE_def ret_def throw_def)

lemma keeps_modifyE [keeps_intros]: "(\<And>w. f (g w) = f w) \<Longrightarrow> keeps (modifyE g) f"
  by (simp add: keeps_def modifyE_def)

lemma keeps_bindE [keeps_intros]:
  assumes "keeps m f" and "\<And>a. keeps (g a) f"
  shows "keeps (bindE m g) f"
  using assms unfolding keeps_def by (fastforce simp: bindE_Some)

lemma keeps_thenE [keeps_intros]: "keeps m f \<Longrightarrow> keeps n f \<Longrightarrow> keeps (thenE m n) f"
  by (simp add: thenE_def keeps_bindE)

lemma keeps_try_catch [keeps_intros]:
  assumes "keeps m f" and "\<And>e. keeps (h e) f"
  shows "keeps (try_catch m p h) f"
  using assms unfolding keeps_def try_catch_def
  by (fastforce split: option.splits sum.splits if_splits)

lemma keeps_on_exit [keeps_intros]:
  assumes "keeps m f" and "\<And>w. f (c w) = f w"
  shows "keeps (on_exit m c) f"
  using assms unfolding keeps_def on_exit_def
  by (fastforce split: option.splits sum.splits if_splits)

lemma keeps_on_throw [keeps_intros]:
  assumes "keeps m f" and "\<And>w. f (c w) = f w"
  shows "keeps (on_throw m c) f"
  using assms unfolding keeps_def on_throw_def
  by (fastforce split: option.splits sum.splits if_splits)

lemma keeps_if [keeps_intros]:
  "(b \<Longrightarrow> keeps m f) \<Longrightarrow> (\<not> b \<Longrightarrow> keeps n f) \<Longrightarrow> keeps (if b then m else n) f"
  by simp

lemma keeps_case_sum [keeps_intros]:
  "(\<And>e. keeps (g e) f) \<Longrightarrow> (\<And>a. keeps (h a) f) \<Longrightarrow>
   keeps (case x of Inl e \<Rightarrow> g e | Inr a \<Rightarrow> h a) f"
  by (cases x) auto

lemma keeps_case_option [keeps_intros]:
  "keeps g f \<Longrightarrow> (\<And>a. keeps (h a) f) \<Longrightarrow>
   keeps (case x of None \<Rightarrow> g | Some a \<Rightarrow> h a) f"
  by (cases x) auto

lemma keeps_case_prod [keeps_intros]:
  "(\<And>a b. keeps (g a b) f) \<Longrightarrow> keeps (case x of (a, b) \<Rightarrow> g a b) f"
  by (cases x) auto

section \<open>The C and C++ library\<close>

text \<open>C strings end at the first null character.\<close>

definition c_str :: "string \<Rightarrow> string" where
  "c_str s = takeWhile (\<lambda>c. c \<noteq> CHR 0x00) s"

lemma c_str_id: "CHR 0x00 \<notin> set s \<Longrightarrow> c_str s = s"
  by (auto simp: c_str_def takeWhile_eq_all_conv)

text \<open>\<open>isspace\<close> in the C locale: a blank, and the control characters 9 to 13.\<close>

definition is_space :: "char \<Rightarrow> bool" where
  "is_space c \<longleftrightarrow> of_char c = (32 :: nat) \<or> (9 \<le> (of_char c :: nat) \<and> (of_char c :: nat) \<le> 13)"

text \<open>Numbers on a standard stream.\<close>

fun show_nat :: "nat \<Rightarrow> string" where
  "show_nat n = (if n < 10 then [char_of (48 + n)] else show_nat (n div 10) @ [char_of (48 + n mod 10)])"

declare show_nat.simps [simp del]

definition show_int :: "int \<Rightarrow> string" where
  "show_int i = (if i < 0 then CHR ''-'' # show_nat (nat (- i)) else show_nat (nat i))"

text \<open>\<open>std::map::insert\<close> on a list in ascending order of keys: a key that is there stays.\<close>

fun map_insert :: "'k::linorder \<Rightarrow> 'v \<Rightarrow> ('k \<times> 'v) list \<Rightarrow> ('k \<times> 'v) list" where
  "map_insert k v [] = [(k, v)]"
| "map_insert k v ((k', v') # m) =
     (if k < k' then (k, v) # (k', v') # m
      else if k = k' then (k', v') # m
      else (k', v') # map_insert k v m)"

lemma keys_map_insert: "fst ` set (map_insert k v m) = insert k (fst ` set m)"
  by (induction k v m rule: map_insert.induct) (simp_all add: insert_commute)

lemma sorted_map_insert: "sorted (map fst m) \<Longrightarrow> sorted (map fst (map_insert k v m))"
proof (induction k v m rule: map_insert.induct)
  case (2 k v k' v' m)
  have "x \<ge> k'" if "x \<in> fst ` set (map_insert k v m)" "\<not> k < k'" for x
    using that "2.prems" by (auto simp: keys_map_insert)
  with 2 show ?case by (force intro: less_imp_le order.trans)
qed simp

lemma map_of_map_insert:
  "sorted (map fst m) \<Longrightarrow> map_of (map_insert k v m) x =
    (if x = k \<and> map_of m k = None then Some v else map_of m x)"
proof (induction m)
  case Nil
  then show ?case by simp
next
  case (Cons p m)
  obtain k' v' where p: "p = (k', v')" by fastforce
  have "map_of m k = None" if "k < k'"
    using Cons.prems p that by (force simp: map_of_eq_None_iff)
  then show ?case using Cons p by auto
qed

section \<open>Sorted lists\<close>

lemma sorted_distinct_append_less:
  fixes xs ys :: "'a::linorder list"
  assumes "sorted (xs @ ys)" and "distinct (xs @ ys)" and "x \<in> set xs" and "y \<in> set ys"
  shows "x < y"
  using assms by (auto simp: sorted_append order.strict_iff_order)

lemma mset_minus_all_less:
  assumes "\<forall>y \<in> set ys. x < (y :: 'a::linorder)"
  shows "mset (x # xs) - mset ys = add_mset x (mset xs - mset ys)"
proof -
  have "x \<notin># mset ys" using assms by auto
  then show ?thesis by (simp add: add_mset_diff_bothsides diff_add_mset_swap)
qed

end
