(* ===== verification/Barn_World.thy ===== *)
theory Barn_World
  imports Barn_Prelude
begin

text \<open>
  The state of a barn-agent process and the calls it makes to the outside.

  The operating system is not code of the repository: its calls are a parameter \<open>os\<close>, a
  record of state transformers over an arbitrary type \<open>'e\<close> of surroundings (file system,
  clock, other processes, network). A call that blocks forever returns \<open>None\<close>. The state of
  the process itself, \<open>world\<close>, is concrete: its global variables and its descriptor table.
\<close>

section \<open>Open files and descriptors\<close>

text \<open>
  What a descriptor of a process refers to: an end of a pipe, or something opened by name
  (the standard streams the agent was started with are such).
\<close>

datatype open_file =
    Pipe_Read_End nat
  | Pipe_Write_End nat
  | Opened string

type_synonym fd_table = "int \<Rightarrow> open_file option"

text \<open>
  What becomes of a forked child: it calls \<open>execve\<close> for a program, or it ends or hangs before.
\<close>

record program_image =
  image_path :: string
  image_argv :: "string list"
  image_envp :: "string list"
  image_cwd :: string
  image_fds :: fd_table

datatype child_fate =
    Child_Execs program_image
  | Child_Exits int
  | Child_Aborts
  | Child_Hangs

text \<open>The calls by which a child changes its own surroundings; each succeeds or fails.\<close>

datatype child_call =
    Call_Chroot string
  | Call_Setgid int
  | Call_Setegid int
  | Call_Setuid int
  | Call_Seteuid int
  | Call_Chdir string

record ids =
  id_uid :: int
  id_euid :: int
  id_gid :: int
  id_egid :: int

section \<open>Calls to the operating system\<close>

type_synonym ('a, 'e) sys = "'e \<Rightarrow> ('a \<times> 'e) option"

record 'e OS =
  sys_time :: "(int, 'e) sys"
  sys_rand :: "(int, 'e) sys"
  sys_sleep :: "int \<Rightarrow> (unit, 'e) sys"
  sys_getenv :: "string \<Rightarrow> (string option, 'e) sys"
  sys_access_x :: "string \<Rightarrow> (bool, 'e) sys"
  sys_getcwd :: "(string option, 'e) sys"
  sys_open_max :: "(int, 'e) sys"
  sys_getids :: "(ids, 'e) sys"
  sys_pipe :: "fd_table \<Rightarrow> ((int \<times> int) option, 'e) sys"
  sys_fork :: "(int, 'e) sys"
  sys_child_open :: "string \<Rightarrow> fd_table \<Rightarrow> (int option, 'e) sys"
  sys_child_call :: "child_call \<Rightarrow> (bool, 'e) sys"
  sys_child_runs :: "int \<Rightarrow> child_fate \<Rightarrow> (unit, 'e) sys"
  sys_read :: "open_file \<Rightarrow> nat \<Rightarrow> (string option, 'e) sys"
  sys_waitpid :: "int \<Rightarrow> (int option, 'e) sys"
  sys_list_directory :: "string \<Rightarrow> (string list option, 'e) sys"
  sys_exists :: "string \<Rightarrow> (bool option, 'e) sys"
  sys_send_udp :: "int \<Rightarrow> string \<Rightarrow> (bool, 'e) sys"

section \<open>The process\<close>

text \<open>
  \<open>child_pid_global\<close> is the variable of \<^verbatim>\<open>sighandle.cpp\<close>; \<open>host_name_static\<close> the static of
  \<open>get_rsync_target\<close>, which is set on its first call; \<open>next_pipe\<close> names the next pipe.
\<close>

record 'e world =
  child_pid_global :: int
  host_name_static :: "string option"
  fds :: fd_table
  next_pipe :: nat
  env :: 'e

definition syscall :: "('a, 'e) sys \<Rightarrow> ('a, ('e, 'z) world_scheme) io" where
  "syscall c w =
     (case c (env w) of None \<Rightarrow> None | Some (a, e) \<Rightarrow> Some (Inr a, w\<lparr>env := e\<rparr>))"

lemma syscall_run [io_simps]: "c (env w) = Some (a, e) \<Longrightarrow> syscall c w = Some (Inr a, w\<lparr>env := e\<rparr>)"
  by (simp add: syscall_def)

lemma syscall_blocks [io_simps]: "c (env w) = None \<Longrightarrow> syscall c w = None"
  by (simp add: syscall_def)

lemma syscall_Some:
  "syscall c w = Some r \<longleftrightarrow> (\<exists>a e. c (env w) = Some (a, e) \<and> r = (Inr a, w\<lparr>env := e\<rparr>))"
  by (auto simp: syscall_def split: option.splits)

lemma keeps_syscall [keeps_intros]:
  assumes "\<And>w e. f (w\<lparr>env := e\<rparr>) = f w"
  shows "keeps (syscall c) f"
  using assms by (auto simp: keeps_def syscall_Some)

section \<open>The C library's int\<close>

text \<open>Conversion to a 32-bit \<open>int\<close>, as gcc does it: modulo \<open>2 ^ 32\<close>.\<close>

definition to_int32 :: "int \<Rightarrow> int" where
  "to_int32 x = (x + 2 ^ 31) mod 2 ^ 32 - 2 ^ 31"

definition is_int32 :: "int \<Rightarrow> bool" where
  "is_int32 x \<longleftrightarrow> - (2 ^ 31) \<le> x \<and> x < 2 ^ 31"

text \<open>Where C++ takes an \<open>unsigned int\<close>, as \<open>sleep(3)\<close> does.\<close>

definition unsigned32 :: "int \<Rightarrow> int" where
  "unsigned32 n = n mod 2 ^ 32"

lemma to_int32_id: "is_int32 x \<Longrightarrow> to_int32 x = x"
  by (simp add: to_int32_def is_int32_def)

lemma to_int32_range: "is_int32 (to_int32 x)"
  by (simp add: to_int32_def is_int32_def)

end
