(* ===== verification/Boost_Process.thy ===== *)
theory Boost_Process
  imports Barn_World
begin

text \<open>
  The part of the vendored Boost.Process (\<^verbatim>\<open>barn-agent/src/external/boost/process\<close>) that the
  agent runs on POSIX: finding an executable, what a child does with its descriptors between
  fork and exec, what the parent does with its own, reading a child's output to its end, and
  the child's status. The environment of a context is an association list ordered by name,
  like every \<open>std::map\<close> here.
\<close>

section \<open>find\_executable\_in\_path (operations.hpp)\<close>

definition ends_with_slash :: "string \<Rightarrow> bool" where
  "ends_with_slash dir \<longleftrightarrow> dir \<noteq> [] \<and> last dir = CHR ''/''"

lemma length_tl_dropWhile: "dropWhile P xs \<noteq> [] \<Longrightarrow> length (tl (dropWhile P xs)) < length xs"
  by (metis dropWhile_eq_Nil_conv length_dropWhile_le length_tl less_imp_diff_less diff_less
      length_greater_0_conv less_le_trans zero_less_one)

text \<open>The loop over the components of the path, from the position of the next component.\<close>

function find_in_path ::
  "'e OS \<Rightarrow> string \<Rightarrow> string \<Rightarrow> (string, ('e, 'z) world_scheme) io" where
  "find_in_path os file path =
     (let dir = takeWhile (\<lambda>c. c \<noteq> CHR '':'') path;
          pos2 = dropWhile (\<lambda>c. c \<noteq> CHR '':'') path;
          f = dir @ (if ends_with_slash dir then '''' else ''/'') @ file
      in bindE (syscall (sys_access_x os f)) (\<lambda>accessible.
           let result = (if accessible then f else '''') in
           if pos2 \<noteq> [] \<and> result = [] then find_in_path os file (tl pos2)
           else ret result))"
  by pat_completeness auto
termination
proof (relation "measure (\<lambda>(os, fname, path). length path)", goal_cases)
  case (2 os fname path dir pos2)
  then show ?case using length_tl_dropWhile [of _ path] by simp
qed simp

declare find_in_path.simps [simp del]

definition find_executable_in_path ::
  "'e OS \<Rightarrow> string \<Rightarrow> (string, ('e, 'z) world_scheme) io" where
  "find_executable_in_path os file =
     thenE (assertE (CHR ''/'' \<notin> set file) ''file.find('/') == std::string::npos'')
    (bindE (syscall (sys_getenv os ''PATH'')) (\<lambda>envpath.
       case envpath of
         None \<Rightarrow> throw (Filesystem_Error ''find_executable_in_path: retrieving PATH failed'')
       | Some path \<Rightarrow>
           thenE (assertE (path \<noteq> []) ''!path.empty()'')
          (bindE (find_in_path os file path) (\<lambda>result.
             if result = []
             then throw (Filesystem_Error ''find_executable_in_path: file not found'')
             else ret result))))"

section \<open>file\_handle, pipe and stream\_info (detail)\<close>

type_synonym file_handle = int

definition invalid_value :: file_handle where
  "invalid_value = -1"

definition valid :: "file_handle \<Rightarrow> bool" where
  "valid h \<longleftrightarrow> h \<noteq> invalid_value"

text \<open>\<open>close(2)\<close> on the descriptor table of the agent, and the destructor of a handle.\<close>

definition fd_close :: "file_handle \<Rightarrow> ('e, 'z) world_scheme \<Rightarrow> ('e, 'z) world_scheme" where
  "fd_close h w = w\<lparr>fds := (fds w)(h := None)\<rparr>"

definition destroy_handle :: "file_handle \<Rightarrow> ('e, 'z) world_scheme \<Rightarrow> ('e, 'z) world_scheme" where
  "destroy_handle h w = (if valid h then fd_close h w else w)"

text \<open>The method \<open>close\<close>; the handle it leaves is returned.\<close>

definition close_handle :: "file_handle \<Rightarrow> (file_handle, ('e, 'z) world_scheme) io" where
  "close_handle h =
     thenE (assertE (valid h) ''valid()'')
    (thenE (modifyE (fd_close h)) (ret invalid_value))"

text \<open>
  A new pipe. The kernel chooses the two descriptors: \<open>pipe_documented\<close> is what \<open>pipe(2)\<close>
  documents, that they are distinct, not negative and not in use.
\<close>

definition new_pipe :: "'e OS \<Rightarrow> (file_handle \<times> file_handle, ('e, 'z) world_scheme) io" where
  "new_pipe os =
     bindE (getE fds) (\<lambda>t.
     bindE (syscall (sys_pipe os t)) (\<lambda>hs.
       case hs of
         None \<Rightarrow> throw (System_Error ''pipe::pipe: pipe(2) failed'')
       | Some (r, wr) \<Rightarrow>
           thenE (modifyE (\<lambda>w. w\<lparr>fds := (fds w)(r := Some (Pipe_Read_End (next_pipe w)),
                                               wr := Some (Pipe_Write_End (next_pipe w))),
                                next_pipe := Suc (next_pipe w)\<rparr>))
                 (ret (r, wr))))"

definition pipe_documented :: "'e OS \<Rightarrow> bool" where
  "pipe_documented os \<longleftrightarrow>
     (\<forall>t e r wr e'. sys_pipe os t e = Some (Some (r, wr), e') \<longrightarrow>
        0 \<le> r \<and> 0 \<le> wr \<and> r \<noteq> wr \<and> t r = None \<and> t wr = None)"

datatype stream_behavior =
    Capture
  | Close
  | Inherit
  | Redirect_To_Stdout
  | Silence
  | Posix_Redirect int

definition capture_stream :: stream_behavior where "capture_stream = Capture"
definition close_stream :: stream_behavior where "close_stream = Close"
definition inherit_stream :: stream_behavior where "inherit_stream = Inherit"
definition redirect_stream_to_stdout :: stream_behavior where
  "redirect_stream_to_stdout = Redirect_To_Stdout"
definition silence_stream :: stream_behavior where "silence_stream = Silence"
definition posix_redirect_stream :: "int \<Rightarrow> stream_behavior" where
  "posix_redirect_stream to = Posix_Redirect to"

datatype stream_type =
    Type_Close | Type_Inherit | Type_Redirect | Type_Use_File | Type_Use_Handle | Type_Use_Pipe

record stream_info =
  si_type :: stream_type
  si_desc_to :: int
  si_file :: string
  si_handle :: file_handle
  si_rend :: file_handle
  si_wend :: file_handle

definition STDIN_FILENO :: int where "STDIN_FILENO = 0"
definition STDOUT_FILENO :: int where "STDOUT_FILENO = 1"
definition STDERR_FILENO :: int where "STDERR_FILENO = 2"

definition blank_stream_info :: stream_info where
  "blank_stream_info =
     \<lparr>si_type = Type_Close, si_desc_to = 0, si_file = '''', si_handle = invalid_value,
      si_rend = invalid_value, si_wend = invalid_value\<rparr>"

fun new_stream_info ::
  "'e OS \<Rightarrow> stream_behavior \<Rightarrow> bool \<Rightarrow> (stream_info, ('e, 'z) world_scheme) io" where
  "new_stream_info os Close out = ret (blank_stream_info\<lparr>si_type := Type_Close\<rparr>)"
| "new_stream_info os Inherit out = ret (blank_stream_info\<lparr>si_type := Type_Inherit\<rparr>)"
| "new_stream_info os Redirect_To_Stdout out =
     ret (blank_stream_info\<lparr>si_type := Type_Redirect, si_desc_to := STDOUT_FILENO\<rparr>)"
| "new_stream_info os (Posix_Redirect to) out =
     ret (blank_stream_info\<lparr>si_type := Type_Redirect, si_desc_to := to\<rparr>)"
| "new_stream_info os Silence out =
     ret (blank_stream_info\<lparr>si_type := Type_Use_File,
            si_file := (if out then ''/dev/null'' else ''/dev/zero'')\<rparr>)"
| "new_stream_info os Capture out =
     bindE (new_pipe os) (\<lambda>(r, wr).
       ret (blank_stream_info\<lparr>si_type := Type_Use_Pipe, si_rend := r, si_wend := wr\<rparr>))"

text \<open>The destructor: the handle and the two ends of the pipe, where valid.\<close>

definition destroy_stream_info ::
  "stream_info \<Rightarrow> ('e, 'z) world_scheme \<Rightarrow> ('e, 'z) world_scheme" where
  "destroy_stream_info si w =
     destroy_handle (si_handle si) (destroy_handle (si_rend si) (destroy_handle (si_wend si) w))"

type_synonym info_map = "(int \<times> stream_info) list"

definition destroy_info_map :: "info_map \<Rightarrow> ('e, 'z) world_scheme \<Rightarrow> ('e, 'z) world_scheme" where
  "destroy_info_map info w = fold (\<lambda>(d, si). destroy_stream_info si) info w"

section \<open>What the child does before exec (posix\_ops.hpp)\<close>

text \<open>The forked child works on its own copy of the descriptor table.\<close>

record 'e child_state =
  child_fds :: fd_table
  child_env :: 'e

definition child_syscall :: "('a, 'e) sys \<Rightarrow> ('a, 'e child_state) io" where
  "child_syscall c s =
     (case c (child_env s) of
        None \<Rightarrow> None
      | Some (a, e) \<Rightarrow> Some (Inr a, s\<lparr>child_env := e\<rparr>))"

definition child_close :: "file_handle \<Rightarrow> (unit, 'e child_state) io" where
  "child_close h = modifyE (\<lambda>s. s\<lparr>child_fds := (child_fds s)(h := None)\<rparr>)"

text \<open>
  \<open>close(2)\<close> of an open descriptor is taken to succeed. \<open>dup2(2)\<close> fails when the old descriptor
  is not open or the new one is negative.
\<close>

definition child_dup2 :: "file_handle \<Rightarrow> file_handle \<Rightarrow> (bool, 'e child_state) io" where
  "child_dup2 h d s =
     (if child_fds s h = None \<or> d < 0 then Some (Inr False, s)
      else Some (Inr True, s\<lparr>child_fds := (child_fds s)(d := child_fds s h)\<rparr>))"

definition posix_remap :: "file_handle \<Rightarrow> file_handle \<Rightarrow> (unit, 'e child_state) io" where
  "posix_remap handle h =
     thenE (assertE (valid handle) ''valid()'')
    (bindE (child_dup2 handle h) (\<lambda>ok.
       if \<not> ok then throw (System_Error ''file_handle::posix_remap: dup2(2) failed'')
       else child_close handle))"

definition posix_dup :: "file_handle \<Rightarrow> file_handle \<Rightarrow> (unit, 'e child_state) io" where
  "posix_dup h1 h2 =
     bindE (child_dup2 h1 h2) (\<lambda>ok.
       if \<not> ok then throw (System_Error ''file_handle::posix_dup: dup2(2) failed'')
       else ret ())"

text \<open>Opening a file onto the descriptor \<open>d\<close>.\<close>

definition open_onto :: "'e OS \<Rightarrow> string \<Rightarrow> int \<Rightarrow> (unit, 'e child_state) io" where
  "open_onto os file d =
     bindE (getE child_fds) (\<lambda>t.
     bindE (child_syscall (sys_child_open os file t)) (\<lambda>res.
       case res of
         None \<Rightarrow> throw (System_Error (''open(2) of '' @ file @ '' failed''))
       | Some fd \<Rightarrow>
           thenE (modifyE (\<lambda>s. s\<lparr>child_fds := (child_fds s)(fd := Some (Opened file))\<rparr>))
                 (if fd \<noteq> d then posix_remap fd d else ret ())))"

text \<open>
  One descriptor of \<open>setup_input\<close>, then of \<open>setup_output\<close>. The flags that say which
  descriptors stay open are the set of the keys of the two maps; see \<open>child_main\<close>.
\<close>

definition setup_input_one :: "'e OS \<Rightarrow> int \<Rightarrow> int \<Rightarrow> stream_info \<Rightarrow> (unit, 'e child_state) io" where
  "setup_input_one os maxdescs d si =
     thenE (assertE (d < maxdescs) ''d < maxdescs'')
     (case si_type si of
        Type_Use_File \<Rightarrow> open_onto os (si_file si) d
      | Type_Use_Handle \<Rightarrow>
          thenE (assertE (valid (si_handle si)) ''valid()'')
                (if si_handle si \<noteq> d then posix_remap (si_handle si) d else ret ())
      | Type_Use_Pipe \<Rightarrow>
          thenE (assertE (valid (si_wend si)) ''valid()'')
         (thenE (child_close (si_wend si))
         (thenE (assertE (valid (si_rend si)) ''valid()'')
                (if d \<noteq> si_rend si then posix_remap (si_rend si) d else ret ())))
      | _ \<Rightarrow> assertE (si_type si = Type_Inherit) ''si.si_type == stream_info::inherit'')"

definition setup_output_one :: "'e OS \<Rightarrow> int \<Rightarrow> int \<Rightarrow> stream_info \<Rightarrow> (unit, 'e child_state) io" where
  "setup_output_one os maxdescs d si =
     thenE (assertE (d < maxdescs) ''d < maxdescs'')
     (case si_type si of
        Type_Redirect \<Rightarrow> ret ()
      | Type_Use_File \<Rightarrow> open_onto os (si_file si) d
      | Type_Use_Handle \<Rightarrow>
          thenE (assertE (valid (si_handle si)) ''valid()'')
                (if si_handle si \<noteq> d then posix_remap (si_handle si) d else ret ())
      | Type_Use_Pipe \<Rightarrow>
          thenE (assertE (valid (si_rend si)) ''valid()'')
         (thenE (child_close (si_rend si))
         (thenE (assertE (valid (si_wend si)) ''valid()'')
                (if d \<noteq> si_wend si then posix_remap (si_wend si) d else ret ())))
      | _ \<Rightarrow> assertE (si_type si = Type_Inherit) ''si.si_type == stream_info::inherit'')"

fun setup_input :: "'e OS \<Rightarrow> int \<Rightarrow> info_map \<Rightarrow> (unit, 'e child_state) io" where
  "setup_input os maxdescs [] = ret ()"
| "setup_input os maxdescs ((d, si) # info) =
     thenE (setup_input_one os maxdescs d si) (setup_input os maxdescs info)"

fun setup_output_first :: "'e OS \<Rightarrow> int \<Rightarrow> info_map \<Rightarrow> (unit, 'e child_state) io" where
  "setup_output_first os maxdescs [] = ret ()"
| "setup_output_first os maxdescs ((d, si) # info) =
     thenE (setup_output_one os maxdescs d si) (setup_output_first os maxdescs info)"

fun setup_output_redirects :: "info_map \<Rightarrow> (unit, 'e child_state) io" where
  "setup_output_redirects [] = ret ()"
| "setup_output_redirects ((d, si) # info) =
     thenE (if si_type si = Type_Redirect then posix_dup (si_desc_to si) d else ret ())
           (setup_output_redirects info)"

definition setup_output :: "'e OS \<Rightarrow> int \<Rightarrow> info_map \<Rightarrow> (unit, 'e child_state) io" where
  "setup_output os maxdescs info =
     thenE (setup_output_first os maxdescs info) (setup_output_redirects info)"

text \<open>The loop that closes every descriptor below \<open>maxdescs\<close> whose flag is still set.\<close>

definition close_unlisted :: "int \<Rightarrow> int list \<Rightarrow> (unit, 'e child_state) io" where
  "close_unlisted maxdescs listed =
     modifyE (\<lambda>s. s\<lparr>child_fds := (\<lambda>i. if 0 \<le> i \<and> i < maxdescs \<and> i \<notin> set listed then None
                                     else child_fds s i)\<rparr>)"

record posix_setup =
  work_directory :: string
  chroot :: string
  setup_ids :: ids

definition child_call :: "'e OS \<Rightarrow> child_call \<Rightarrow> string \<Rightarrow> (unit, 'e child_state) io" where
  "child_call os c what =
     bindE (child_syscall (sys_child_call os c)) (\<lambda>ok.
       if ok then ret () else throw (System_Error what))"

definition run_posix_setup :: "'e OS \<Rightarrow> posix_setup \<Rightarrow> (unit, 'e child_state) io" where
  "run_posix_setup os s =
     thenE (if chroot s \<noteq> [] then child_call os (Call_Chroot (chroot s)) ''chroot(2) failed''
            else ret ())
    (bindE (child_syscall (sys_getids os)) (\<lambda>ids1.
     thenE (if id_gid (setup_ids s) \<noteq> id_gid ids1
            then child_call os (Call_Setgid (id_gid (setup_ids s))) ''setgid(2) failed'' else ret ())
    (bindE (child_syscall (sys_getids os)) (\<lambda>ids2.
     thenE (if id_egid (setup_ids s) \<noteq> id_egid ids2
            then child_call os (Call_Setegid (id_egid (setup_ids s))) ''setegid(2) failed'' else ret ())
    (bindE (child_syscall (sys_getids os)) (\<lambda>ids3.
     thenE (if id_uid (setup_ids s) \<noteq> id_uid ids3
            then child_call os (Call_Setuid (id_uid (setup_ids s))) ''setuid(2) failed'' else ret ())
    (bindE (child_syscall (sys_getids os)) (\<lambda>ids4.
     thenE (if id_euid (setup_ids s) \<noteq> id_euid ids4
            then child_call os (Call_Seteuid (id_euid (setup_ids s))) ''seteuid(2) failed'' else ret ())
    (thenE (assertE (work_directory s \<noteq> []) ''!work_directory.empty()'')
           (child_call os (Call_Chdir (work_directory s)) ''chdir(2) failed''))))))))))"

definition collection_to_posix_argv :: "string list \<Rightarrow> string list" where
  "collection_to_posix_argv args = map c_str args"

definition environment_to_envp :: "(string \<times> string) list \<Rightarrow> string list" where
  "environment_to_envp envir = map (\<lambda>(k, v). c_str (k @ ''='' @ v)) envir"

text \<open>What the child does: the exceptions of the set-up end it with \<open>EXIT_FAILURE\<close>.\<close>

definition EXIT_FAILURE :: int where "EXIT_FAILURE = 1"

definition child_setup ::
  "'e OS \<Rightarrow> info_map \<Rightarrow> info_map \<Rightarrow> posix_setup \<Rightarrow> (unit, 'e child_state) io" where
  "child_setup os infoin infoout pset =
     bindE (child_syscall (sys_open_max os)) (\<lambda>open_max.
       let maxdescs = (if open_max = -1 then 1024 else open_max) in
       thenE (setup_input os maxdescs infoin)
      (thenE (setup_output os maxdescs infoout)
      (thenE (close_unlisted maxdescs (map fst infoin @ map fst infoout))
             (run_posix_setup os pset))))"

definition child_main ::
  "'e OS \<Rightarrow> string \<Rightarrow> string list \<Rightarrow> (string \<times> string) list \<Rightarrow> info_map \<Rightarrow> info_map \<Rightarrow>
   posix_setup \<Rightarrow> 'e child_state \<Rightarrow> child_fate \<times> 'e" where
  "child_main os exe args envir infoin infoout pset s =
     (case child_setup os infoin infoout pset s of
        None \<Rightarrow> (Child_Hangs, child_env s)
      | Some (Inl (Abort _), s') \<Rightarrow> (Child_Aborts, child_env s')
      | Some (Inl _, s') \<Rightarrow> (Child_Exits EXIT_FAILURE, child_env s')
      | Some (Inr _, s') \<Rightarrow>
          (if args = [] then (Child_Aborts, child_env s')
           else (Child_Execs \<lparr>image_path = c_str exe,
                              image_argv = collection_to_posix_argv args,
                              image_envp = environment_to_envp envir,
                              image_cwd = work_directory pset,
                              image_fds = child_fds s'\<rparr>, child_env s')))"

section \<open>posix\_start, posix\_child and posix\_launch\<close>

text \<open>
  \<open>fork\<close>: the child gets a copy of the descriptor table. Its steps are run here before the
  parent's next ones; the two share nothing but the surroundings. The parent then closes the
  child's ends of the pipes.
\<close>

fun close_child_ends :: "bool \<Rightarrow> info_map \<Rightarrow> (info_map, ('e, 'z) world_scheme) io" where
  "close_child_ends out [] = ret []"
| "close_child_ends out ((d, si) # info) =
     bindE (if si_type si = Type_Use_Pipe
            then (if out
                  then bindE (close_handle (si_wend si)) (\<lambda>h. ret (si\<lparr>si_wend := h\<rparr>))
                  else bindE (close_handle (si_rend si)) (\<lambda>h. ret (si\<lparr>si_rend := h\<rparr>)))
            else ret si) (\<lambda>si'.
     bindE (close_child_ends out info) (\<lambda>info'. ret ((d, si') # info')))"

definition run_child ::
  "(('e child_state) \<Rightarrow> child_fate \<times> 'e) \<Rightarrow> (child_fate, ('e, 'z) world_scheme) io" where
  "run_child child w =
     (case child \<lparr>child_fds = fds w, child_env = env w\<rparr> of
        (fate, e) \<Rightarrow> Some (Inr fate, w\<lparr>env := e\<rparr>))"

definition posix_start ::
  "'e OS \<Rightarrow> string \<Rightarrow> string list \<Rightarrow> (string \<times> string) list \<Rightarrow> info_map \<Rightarrow> info_map \<Rightarrow>
   posix_setup \<Rightarrow> (int \<times> info_map \<times> info_map, ('e, 'z) world_scheme) io" where
  "posix_start os exe args envir infoin infoout pset =
     bindE (syscall (sys_fork os)) (\<lambda>pid.
       if pid = -1 then throw (System_Error ''posix_start: fork(2) failed'')
       else
         bindE (run_child (child_main os exe args envir infoin infoout pset)) (\<lambda>fate.
         thenE (syscall (sys_child_runs os pid fate))
        (thenE (assertE (pid > 0) ''pid > 0'')
        (bindE (close_child_ends False infoin) (\<lambda>infoin'.
         bindE (close_child_ends True infoout) (\<lambda>infoout'.
           ret (pid, infoin', infoout')))))))"

text \<open>
  Takes the parent's end of the pipe of a descriptor out of the map, which loses the entry.
  \<open>release\<close> asserts that the handle is valid.
\<close>

definition posix_info_locate_pipe ::
  "info_map \<Rightarrow> int \<Rightarrow> bool \<Rightarrow> (file_handle \<times> info_map, ('e, 'z) world_scheme) io" where
  "posix_info_locate_pipe info desc out =
     (case map_of info desc of
        None \<Rightarrow> ret (invalid_value, info)
      | Some si \<Rightarrow>
          let info' = filter (\<lambda>(d, _). d \<noteq> desc) info in
          if si_type si = Type_Use_Pipe
          then let fh = (if out then si_rend si else si_wend si)
               in thenE (assertE (valid fh) ''valid()'') (ret (fh, info'))
          else ret (invalid_value, info'))"

text \<open>
  The handles that a child object owns: its three streams, and in the derived class
  \<open>posix_child\<close> those of other descriptors.
\<close>

record child =
  child_id :: int
  child_stdin :: "file_handle option"
  child_stdout :: "file_handle option"
  child_stderr :: "file_handle option"

record posix_child = child +
  input_map_of :: "(int \<times> file_handle) list"
  output_map_of :: "(int \<times> file_handle) list"

text \<open>
  A stream over a handle, which \<open>systembuf\<close> asserts is not negative; none over an invalid one.
\<close>

definition stream_of_handle ::
  "file_handle \<Rightarrow> (file_handle option, ('e, 'z) world_scheme) io" where
  "stream_of_handle fh =
     (if valid fh then thenE (assertE (0 \<le> fh) ''handle_ >= 0'') (ret (Some fh)) else ret None)"

fun pipes_of ::
  "bool \<Rightarrow> info_map \<Rightarrow> ((int \<times> file_handle) list, ('e, 'z) world_scheme) io" where
  "pipes_of out [] = ret []"
| "pipes_of out ((d, si) # info) =
     (if si_type si = Type_Use_Pipe
      then let fh = (if out then si_rend si else si_wend si)
           in thenE (assertE (valid fh) (if out then ''si.pipe_->rend().valid()''
                                         else ''si.pipe_->wend().valid()''))
             (thenE (assertE (0 \<le> fh) ''handle_ >= 0'')
             (bindE (pipes_of out info) (\<lambda>rest. ret ((d, fh) # rest))))
      else pipes_of out info)"

definition new_posix_child ::
  "int \<Rightarrow> info_map \<Rightarrow> info_map \<Rightarrow> (posix_child, ('e, 'z) world_scheme) io" where
  "new_posix_child pid infoin infoout =
     bindE (posix_info_locate_pipe infoin STDIN_FILENO False) (\<lambda>(fhstdin, infoin1).
     bindE (posix_info_locate_pipe infoout STDOUT_FILENO True) (\<lambda>(fhstdout, infoout1).
     bindE (posix_info_locate_pipe infoout1 STDERR_FILENO True) (\<lambda>(fhstderr, infoout2).
     bindE (stream_of_handle fhstdin) (\<lambda>s0.
     bindE (stream_of_handle fhstdout) (\<lambda>s1.
     bindE (stream_of_handle fhstderr) (\<lambda>s2.
     bindE (pipes_of False infoin1) (\<lambda>ins.
     bindE (pipes_of True infoout2) (\<lambda>outs.
       ret \<lparr>child_id = pid, child_stdin = s0, child_stdout = s1, child_stderr = s2,
            input_map_of = ins, output_map_of = outs\<rparr>))))))))"

definition stream_handles :: "'c child_scheme \<Rightarrow> file_handle list" where
  "stream_handles c =
     concat (map (\<lambda>s. case s of None \<Rightarrow> [] | Some h \<Rightarrow> [h])
                 [child_stdin c, child_stdout c, child_stderr c])"

definition child_handles :: "posix_child \<Rightarrow> file_handle list" where
  "child_handles c = stream_handles c @ map snd (input_map_of c) @ map snd (output_map_of c)"

definition destroy_posix_child ::
  "posix_child \<Rightarrow> ('e, 'z) world_scheme \<Rightarrow> ('e, 'z) world_scheme" where
  "destroy_posix_child c w = fold destroy_handle (child_handles c) w"

definition get_stdout :: "'c child_scheme \<Rightarrow> (file_handle, ('e, 'z) world_scheme) io" where
  "get_stdout c =
     (case child_stdout c of None \<Rightarrow> throw (Abort ''stdout_'') | Some h \<Rightarrow> ret h)"

record posix_context =
  input_behavior :: "(int \<times> stream_behavior) list"
  output_behavior :: "(int \<times> stream_behavior) list"
  ctx_ids :: ids
  ctx_chroot :: string
  ctx_work_directory :: string
  ctx_environment :: "(string \<times> string) list"

text \<open>
  The base of the contexts, which holds the current directory: asking for it, \<open>pathconf\<close> and
  \<open>getcwd\<close>, is one call that may fail.
\<close>

definition new_work_directory_context :: "'e OS \<Rightarrow> (string, ('e, 'z) world_scheme) io" where
  "new_work_directory_context os =
     bindE (syscall (sys_getcwd os)) (\<lambda>cwd.
       case cwd of
         None \<Rightarrow> throw (System_Error ''basic_work_directory_context: getcwd(2) failed'')
       | Some dir \<Rightarrow> thenE (assertE (dir \<noteq> []) ''!work_directory.empty()'') (ret dir))"

text \<open>The default context of POSIX: no streams, no environment, the current directory and ids.\<close>

definition new_posix_context :: "'e OS \<Rightarrow> (posix_context, ('e, 'z) world_scheme) io" where
  "new_posix_context os =
     bindE (new_work_directory_context os) (\<lambda>dir.
     bindE (syscall (sys_getids os)) (\<lambda>i.
       ret \<lparr>input_behavior = [], output_behavior = [], ctx_ids = i, ctx_chroot = '''',
            ctx_work_directory = dir, ctx_environment = []\<rparr>))"

fun new_info_map ::
  "'e OS \<Rightarrow> bool \<Rightarrow> (int \<times> stream_behavior) list \<Rightarrow> (info_map, ('e, 'z) world_scheme) io" where
  "new_info_map os out [] = ret []"
| "new_info_map os out ((fd, sb) # bs) =
     (if sb \<noteq> Close
      then bindE (new_stream_info os sb out) (\<lambda>si.
           bindE (on_throw (new_info_map os out bs) (destroy_stream_info si)) (\<lambda>info.
             ret ((fd, si) # info)))
      else new_info_map os out bs)"

definition posix_launch ::
  "'e OS \<Rightarrow> string \<Rightarrow> string list \<Rightarrow> posix_context \<Rightarrow> (posix_child, ('e, 'z) world_scheme) io" where
  "posix_launch os exe args ctx =
     bindE (new_info_map os False (input_behavior ctx)) (\<lambda>input_info.
     bindE (on_throw (new_info_map os True (output_behavior ctx)) (destroy_info_map input_info))
       (\<lambda>output_info.
     let s = \<lparr>work_directory = ctx_work_directory ctx, chroot = ctx_chroot ctx,
              setup_ids = ctx_ids ctx\<rparr> in
     bindE (on_throw (posix_start os exe args (ctx_environment ctx) input_info output_info s)
              (destroy_info_map input_info \<circ> destroy_info_map output_info))
       (\<lambda>(pid, input_info', output_info').
       new_posix_child pid input_info' output_info')))"

section \<open>Reading a child's output (systembuf.hpp, pistream.hpp)\<close>

text \<open>
  \<open>underflow\<close>: the next bytes of the stream, or the end. A read error counts as the end.
\<close>

definition bufsize :: nat where "bufsize = 8192"

definition underflow :: "'e OS \<Rightarrow> file_handle \<Rightarrow> (string option, ('e, 'z) world_scheme) io" where
  "underflow os h =
     bindE (getE (\<lambda>w. fds w h)) (\<lambda>f.
       case f of
         None \<Rightarrow> ret None
       | Some opened \<Rightarrow>
           bindE (syscall (sys_read os opened bufsize)) (\<lambda>res.
             ret (case res of None \<Rightarrow> None
                  | Some bytes \<Rightarrow> if bytes = [] then None else Some bytes)))"

text \<open>
  Reading to the end by \<open>istreambuf_iterator\<close>. A child that never ends its output is a loop
  that does not return: the result is then \<open>None\<close>.
\<close>

partial_function (option) read_to_end ::
  "'e OS \<Rightarrow> file_handle \<Rightarrow> string \<Rightarrow> ('e, 'z) world_scheme \<Rightarrow>
   ((exn + string) \<times> ('e, 'z) world_scheme) option" where
  "read_to_end os h acc w =
     (case underflow os h w of
        None \<Rightarrow> None
      | Some (Inl e, w') \<Rightarrow> Some (Inl e, w')
      | Some (Inr None, w') \<Rightarrow> Some (Inr acc, w')
      | Some (Inr (Some bytes), w') \<Rightarrow> read_to_end os h (acc @ bytes) w')"

declare read_to_end.simps [code]

section \<open>The status of a child (child.hpp, status.hpp)\<close>

type_synonym status = int

definition child_wait :: "'e OS \<Rightarrow> 'c child_scheme \<Rightarrow> (status, ('e, 'z) world_scheme) io" where
  "child_wait os c =
     bindE (syscall (sys_waitpid os (child_id c))) (\<lambda>s.
       case s of
         None \<Rightarrow> throw (System_Error ''child::wait: waitpid(2) failed'')
       | Some flags \<Rightarrow> ret flags)"

text \<open>\<open>WIFEXITED\<close> and \<open>WEXITSTATUS\<close> of Linux: the low seven bits, and the byte above.\<close>

definition exited :: "status \<Rightarrow> bool" where
  "exited flags \<longleftrightarrow> flags mod 128 = 0"

definition exit_status :: "status \<Rightarrow> (int, ('e, 'z) world_scheme) io" where
  "exit_status flags =
     thenE (assertE (exited flags) ''exited()'') (ret (flags div 256 mod 256))"

section \<open>Frames\<close>

text \<open>
  No operation here touches what lies outside the descriptors, the pipe counter and the
  surroundings: the program's variables, and whatever a larger state adds to them.
\<close>

definition program_state :: "('e, 'z) world_scheme \<Rightarrow> int \<times> string option \<times> 'z" where
  "program_state w = (child_pid_global w, host_name_static w, world.more w)"

lemma program_state_simps [simp]:
  "program_state (w\<lparr>env := e\<rparr>) = program_state w"
  "program_state (w\<lparr>fds := t\<rparr>) = program_state w"
  "program_state (w\<lparr>next_pipe := n\<rparr>) = program_state w"
  by (simp_all add: program_state_def)

lemma keeps_program_stateD:
  assumes "keeps m program_state" and "m w = Some (r, w')"
  shows "child_pid_global w' = child_pid_global w" "host_name_static w' = host_name_static w"
    "world.more w' = world.more w"
  using keepsD [OF assms] by (simp_all add: program_state_def)

lemma fd_close_frame [simp]: "program_state (fd_close h w) = program_state w"
  by (simp add: fd_close_def)

lemma destroy_handle_frame [simp]: "program_state (destroy_handle h w) = program_state w"
  by (simp add: destroy_handle_def)

lemma fold_frame: "(\<And>x w. f (g x w) = f w) \<Longrightarrow> f (fold g xs w) = f w"
  by (induction xs arbitrary: w) auto

lemma destroy_stream_info_frame [simp]: "program_state (destroy_stream_info si w) = program_state w"
  by (simp add: destroy_stream_info_def)

lemma destroy_info_map_frame [simp]: "program_state (destroy_info_map info w) = program_state w"
  unfolding destroy_info_map_def by (rule fold_frame) auto

lemma destroy_posix_child_frame [simp]: "program_state (destroy_posix_child c w) = program_state w"
  unfolding destroy_posix_child_def by (rule fold_frame) auto

lemma keeps_find_in_path:
  assumes [simp]: "\<And>w e. f (w\<lparr>env := e\<rparr>) = f w"
  shows "keeps (find_in_path os fname path) f"
proof (induction path rule: measure_induct_rule [where f = length])
  case (less path)
  show ?case
    by (subst find_in_path.simps, simp only: Let_def, intro keeps_intros less)
       (simp, rule length_tl_dropWhile, blast)
qed

lemma keeps_find_executable:
  assumes [simp]: "\<And>w e. f (w\<lparr>env := e\<rparr>) = f w"
  shows "keeps (find_executable_in_path os fname) f"
  unfolding find_executable_in_path_def
  by (intro keeps_intros keeps_find_in_path) simp_all

lemma keeps_new_pipe: "keeps (new_pipe os) program_state"
  unfolding new_pipe_def by (intro keeps_intros) (simp_all add: program_state_def)

lemma keeps_new_stream_info: "keeps (new_stream_info os sb out) program_state"
  by (cases sb) (auto intro!: keeps_intros keeps_new_pipe)

lemma keeps_new_info_map: "keeps (new_info_map os out bs) program_state"
  by (induction os out bs rule: new_info_map.induct)
     (auto intro!: keeps_intros keeps_new_stream_info)

lemma keeps_close_handle: "keeps (close_handle h) program_state"
  unfolding close_handle_def by (intro keeps_intros) simp

lemma keeps_close_child_ends: "keeps (close_child_ends out info) program_state"
  by (induction out info rule: close_child_ends.induct)
     (auto intro!: keeps_intros keeps_close_handle)

lemma keeps_run_child: "keeps (run_child c) program_state"
  by (auto simp: keeps_def run_child_def split: prod.splits)

lemma keeps_posix_start:
  "keeps (posix_start os exe args envir infoin infoout pset) program_state"
  unfolding posix_start_def
  by (intro keeps_intros keeps_run_child keeps_close_child_ends) simp_all

lemma keeps_pipes_of: "keeps (pipes_of out info) f"
  by (induction out info rule: pipes_of.induct) (auto simp: Let_def intro!: keeps_intros)

lemma keeps_new_posix_child: "keeps (new_posix_child pid infoin infoout) f"
  unfolding new_posix_child_def Let_def posix_info_locate_pipe_def stream_of_handle_def
  by (intro keeps_intros keeps_pipes_of)

lemma keeps_posix_launch: "keeps (posix_launch os exe args ctx) program_state"
  unfolding posix_launch_def Let_def
  by (intro keeps_intros keeps_new_info_map keeps_posix_start keeps_new_posix_child) simp_all

lemma keeps_new_posix_context:
  assumes [simp]: "\<And>w e. f (w\<lparr>env := e\<rparr>) = f w"
  shows "keeps (new_posix_context os) f"
  unfolding new_posix_context_def new_work_directory_context_def by (intro keeps_intros) simp_all

text \<open>From launch to status, only the surroundings change.\<close>

definition process_state :: "('e, 'z) world_scheme \<Rightarrow> fd_table \<times> nat \<times> int \<times> string option \<times> 'z" where
  "process_state w = (fds w, next_pipe w, program_state w)"

lemma process_state_env [simp]: "process_state (w\<lparr>env := e\<rparr>) = process_state w"
  by (simp add: process_state_def)

lemma keeps_underflow: "keeps (underflow os h) process_state"
  unfolding underflow_def by (intro keeps_intros) simp

lemma read_to_end_frame:
  assumes "read_to_end os h acc w = Some p"
  shows "process_state (snd p) = process_state w"
proof (rule read_to_end.raw_induct [where P = "\<lambda>os h acc w p. process_state (snd p) = process_state w",
      OF _ assms])
  fix rec os h acc w p
  assume IH: "\<And>os h acc w p. rec os h acc w = Some p \<Longrightarrow> process_state (snd p) = process_state w"
    and step: "(case underflow os h w of None \<Rightarrow> None
      | Some (Inl e, w') \<Rightarrow> Some (Inl e, w')
      | Some (Inr None, w') \<Rightarrow> Some (Inr acc, w')
      | Some (Inr (Some bytes), w') \<Rightarrow> rec os h (acc @ bytes) w') = Some p"
  obtain r w1 where u: "underflow os h w = Some (r, w1)"
    using step by (cases "underflow os h w") auto
  have "process_state w1 = process_state w" by (rule keepsD [OF keeps_underflow u])
  then show "process_state (snd p) = process_state w"
    using step u IH by (auto split: sum.splits option.splits)
qed

lemma keeps_read_to_end: "keeps (read_to_end os h acc) process_state"
  by (rule keepsI) (use read_to_end_frame in fastforce)

lemma keeps_child_wait: "keeps (child_wait os c) process_state"
  unfolding child_wait_def by (intro keeps_intros) simp_all

lemma keeps_exit_status: "keeps (exit_status s) f"
  unfolding exit_status_def by (intro keeps_intros)

lemma keeps_get_stdout: "keeps (get_stdout c) f"
  unfolding get_stdout_def by (intro keeps_intros)

lemma keeps_process_stateD:
  "keeps m process_state \<Longrightarrow> keeps m program_state"
  by (auto simp: keeps_def process_state_def)

section \<open>What reading to the end reads\<close>

text \<open>
  The bytes an open file gives from one state of the surroundings to another: reads of at
  most a buffer until one gives nothing, or fails.
\<close>

inductive stream_bytes :: "'e OS \<Rightarrow> open_file \<Rightarrow> 'e \<Rightarrow> string \<Rightarrow> 'e \<Rightarrow> bool" for os f where
  stream_end: "sys_read os f bufsize e = Some (res, e') \<Longrightarrow> res = None \<or> res = Some [] \<Longrightarrow>
    stream_bytes os f e [] e'"
| stream_more: "sys_read os f bufsize e = Some (Some bs, e1) \<Longrightarrow> bs \<noteq> [] \<Longrightarrow>
    stream_bytes os f e1 rest e' \<Longrightarrow> stream_bytes os f e (bs @ rest) e'"

text \<open>
  The same reads with the way they ended: the code does not tell an end of file from a read
  that failed.
\<close>

datatype reading_end = End_Of_File | Read_Failed

inductive stream_read :: "'e OS \<Rightarrow> open_file \<Rightarrow> 'e \<Rightarrow> string \<Rightarrow> reading_end \<Rightarrow> 'e \<Rightarrow> bool" for os f where
  read_eof: "sys_read os f bufsize e = Some (Some [], e') \<Longrightarrow> stream_read os f e [] End_Of_File e'"
| read_fails: "sys_read os f bufsize e = Some (None, e') \<Longrightarrow> stream_read os f e [] Read_Failed e'"
| read_more: "sys_read os f bufsize e = Some (Some bs, e1) \<Longrightarrow> bs \<noteq> [] \<Longrightarrow>
    stream_read os f e1 rest how e' \<Longrightarrow> stream_read os f e (bs @ rest) how e'"

lemma stream_bytes_read_iff:
  "stream_bytes os f e bytes e' \<longleftrightarrow> (\<exists>how. stream_read os f e bytes how e')"
proof
  assume "stream_bytes os f e bytes e'"
  then show "\<exists>how. stream_read os f e bytes how e'"
    by induction (auto intro: stream_read.intros)
next
  assume "\<exists>how. stream_read os f e bytes how e'"
  then obtain how where "stream_read os f e bytes how e'" ..
  then show "stream_bytes os f e bytes e'"
    by induction (auto intro: stream_bytes.intros)
qed

lemma stream_read_failed:
  "stream_read os f e bytes how e' \<Longrightarrow> how = Read_Failed \<Longrightarrow>
   \<exists>e1. sys_read os f bufsize e1 = Some (None, e')"
  by (induction rule: stream_read.induct) auto

lemma underflow_run:
  assumes "fds w h = Some f"
  shows "underflow os h w = (case sys_read os f bufsize (env w) of
      None \<Rightarrow> None
    | Some (res, e) \<Rightarrow> Some (Inr (if res = Some [] then None else res), w\<lparr>env := e\<rparr>))"
  using assms
  by (cases "sys_read os f bufsize (env w)")
     (auto simp: underflow_def bindE_def getE_run syscall_def ret_run split: option.splits)

lemma stream_bytes_read:
  assumes "stream_bytes os f e bytes e'" and "fds w h = Some f" and "env w = e"
  shows "read_to_end os h acc w = Some (Inr (acc @ bytes), w\<lparr>env := e'\<rparr>)"
  using assms
proof (induction arbitrary: w acc)
  case (stream_end e res e')
  then show ?case by (subst read_to_end.simps) (auto simp: underflow_run)
next
  case (stream_more e bs e1 rest e')
  have "read_to_end os h acc w = read_to_end os h (acc @ bs) (w\<lparr>env := e1\<rparr>)"
    using stream_more.hyps(1,2) stream_more.prems
    by (subst read_to_end.simps) (simp add: underflow_run)
  then show ?case using stream_more.IH [of "w\<lparr>env := e1\<rparr>" "acc @ bs"] stream_more.prems by simp
qed

lemma read_to_end_bytes:
  assumes "read_to_end os h acc w = Some p" and "fds w h = Some f"
  shows "\<exists>bytes e'. stream_bytes os f (env w) bytes e' \<and> p = (Inr (acc @ bytes), w\<lparr>env := e'\<rparr>)"
proof (rule read_to_end.raw_induct [where P = "\<lambda>os h acc w p. \<forall>f. fds w h = Some f \<longrightarrow>
      (\<exists>bytes e'. stream_bytes os f (env w) bytes e' \<and> p = (Inr (acc @ bytes), w\<lparr>env := e'\<rparr>))",
      OF _ assms(1), THEN spec, THEN mp, OF _ assms(2)])
  fix rec os h acc w p
  assume IH: "\<And>os h acc w p. rec os h acc w = Some p \<Longrightarrow> \<forall>f. fds w h = Some f \<longrightarrow>
      (\<exists>bytes e'. stream_bytes os f (env w) bytes e' \<and> p = (Inr (acc @ bytes), w\<lparr>env := e'\<rparr>))"
    and step: "(case underflow os h w of None \<Rightarrow> None
      | Some (Inl e, w') \<Rightarrow> Some (Inl e, w')
      | Some (Inr None, w') \<Rightarrow> Some (Inr acc, w')
      | Some (Inr (Some bytes), w') \<Rightarrow> rec os h (acc @ bytes) w') = Some p"
  show "\<forall>f. fds w h = Some f \<longrightarrow>
      (\<exists>bytes e'. stream_bytes os f (env w) bytes e' \<and> p = (Inr (acc @ bytes), w\<lparr>env := e'\<rparr>))"
  proof (intro allI impI)
    fix f assume f: "fds w h = Some f"
    then obtain res e1 where r: "sys_read os f bufsize (env w) = Some (res, e1)"
      using step by (auto simp: underflow_run split: option.splits)
    show "\<exists>bytes e'. stream_bytes os f (env w) bytes e' \<and> p = (Inr (acc @ bytes), w\<lparr>env := e'\<rparr>)"
    proof (cases "res = None \<or> res = Some []")
      case True
      then have "p = (Inr (acc @ []), w\<lparr>env := e1\<rparr>)" using step r f by (auto simp: underflow_run)
      then show ?thesis using stream_bytes.stream_end [OF r True] by blast
    next
      case False
      then obtain bs where bs: "res = Some bs" "bs \<noteq> []" by auto
      then have "rec os h (acc @ bs) (w\<lparr>env := e1\<rparr>) = Some p"
        using step r f by (simp add: underflow_run)
      from IH [OF this] f obtain rest e' where "stream_bytes os f e1 rest e'"
        "p = (Inr (acc @ bs @ rest), w\<lparr>env := e'\<rparr>)" by auto
      then show ?thesis using stream_bytes.stream_more [OF r [unfolded bs(1)] bs(2)] by auto
    qed
  qed
qed

end
