(* ===== verification/Helpers.thy ===== *)
theory Helpers
  imports Barn_Prelude
begin

text \<open>
  \<^verbatim>\<open>barn-agent/src/helpers.h\<close> and \<^verbatim>\<open>helpers.cpp\<close>: the \<open>Validation\<close> type, \<open>split\<close>,
  \<open>prepend_each\<close>, and the two list algorithms that decide what is shipped and what was
  lost, \<open>tail_intersection\<close> and \<open>count_missing\<close>.
\<close>

section \<open>Types\<close>

type_synonym FileName = string
type_synonym FileNameList = "FileName list"
type_synonym BarnError = string

text \<open>\<open>boost::variant<BarnError, T>\<close>: the error alternative on the left.\<close>

type_synonym 'a Validation = "BarnError + 'a"

definition isFailure :: "'a Validation \<Rightarrow> bool" where
  "isFailure v = (case v of Inl _ \<Rightarrow> True | Inr _ \<Rightarrow> False)"

definition get :: "'a Validation \<Rightarrow> ('a, 'w) io" where
  "get v = (case v of Inl _ \<Rightarrow> throw (Abort ''!isFailure(v)'') | Inr x \<Rightarrow> ret x)"

definition error :: "'a Validation \<Rightarrow> (BarnError, 'w) io" where
  "error v = (case v of Inl e \<Rightarrow> ret e | Inr _ \<Rightarrow> throw (Abort ''isFailure(v)''))"

lemma isFailure_simps [simp]: "isFailure (Inl e)" "\<not> isFailure (Inr x)"
  by (simp_all add: isFailure_def)

lemma get_Inr [simp]: "get (Inr x) = ret x"
  by (simp add: get_def)

lemma error_Inl [simp]: "error (Inl e) = ret e"
  by (simp add: error_def)

lemma keeps_get [keeps_intros]: "keeps (get v) f"
  by (auto simp: get_def intro: keeps_intros split: sum.splits)

lemma keeps_error [keeps_intros]: "keeps (error v) f"
  by (auto simp: error_def intro: keeps_intros split: sum.splits)

section \<open>Tokens\<close>

text \<open>
  \<open>boost::split\<close> is library code outside the repository. It is a parameter: from a string
  and a predicate on characters to the tokens. \<open>split_documented\<close> is what its
  documentation promises in the default mode (adjacent separators are not merged): the
  tokens hold no separator, there is at least one, and they are the input cut at the
  separators, in order.
\<close>

type_synonym splitter = "string \<Rightarrow> (char \<Rightarrow> bool) \<Rightarrow> string list"

definition split :: "splitter \<Rightarrow> string \<Rightarrow> char \<Rightarrow> string list" where
  "split boost_split str delim = boost_split str (\<lambda>c. c \<in> set [delim])"

fun join_with :: "char \<Rightarrow> string list \<Rightarrow> string" where
  "join_with d [] = []"
| "join_with d [t] = t"
| "join_with d (t # ts) = t @ d # join_with d ts"

definition split_documented :: "splitter \<Rightarrow> bool" where
  "split_documented boost_split \<longleftrightarrow>
     (\<forall>s d. let ts = boost_split s (\<lambda>c. c \<in> set [d]) in
        ts \<noteq> [] \<and> (\<forall>t \<in> set ts. d \<notin> set t) \<and> join_with d ts = s)"

text \<open>A function with the documented behaviour, so that the hypothesis can hold.\<close>

fun reference_split :: splitter where
  "reference_split [] p = [[]]"
| "reference_split (c # cs) p =
     (if p c then [] # reference_split cs p
      else case reference_split cs p of [] \<Rightarrow> [[c]] | t # ts \<Rightarrow> (c # t) # ts)"

lemma reference_split_nonempty [simp]: "reference_split s p \<noteq> []"
  by (cases s) (auto split: list.splits)

lemma join_with_Cons: "ts \<noteq> [] \<Longrightarrow> join_with d (t # ts) = t @ d # join_with d ts"
  by (cases ts) auto

lemma join_with_cons_head: "join_with d ((c # t) # ts) = c # join_with d (t # ts)"
  by (cases ts) auto

lemma reference_split_documented: "split_documented reference_split"
proof -
  have "\<forall>t \<in> set (reference_split s (\<lambda>c. c = d)). d \<notin> set t" for s d
    by (induction s) (auto split: list.splits)
  moreover have "join_with d (reference_split s (\<lambda>c. c = d)) = s" for s d
    by (induction s) (auto simp: join_with_Cons join_with_cons_head split: list.splits)
  ultimately show ?thesis by (simp add: split_documented_def Let_def)
qed

definition prepend_each :: "string list \<Rightarrow> string \<Rightarrow> string list" where
  "prepend_each vec pre = fold (\<lambda>el new_vec. new_vec @ [pre @ el]) vec []"

lemma prepend_each_map: "prepend_each vec pre = map (\<lambda>el. pre @ el) vec"
proof -
  have "fold (\<lambda>el new_vec. new_vec @ [pre @ el]) vec acc = acc @ map (\<lambda>el. pre @ el) vec"
    for acc by (induction vec arbitrary: acc) auto
  then show ?thesis by (simp add: prepend_each_def)
qed

section \<open>count\_missing\<close>

text \<open>The loop, with the two iterators as the lists that are left to visit.\<close>

fun count_missing_loop :: "string list \<Rightarrow> string list \<Rightarrow> int \<Rightarrow> int" where
  "count_missing_loop [] bg missing = missing"
| "count_missing_loop (s # sm) [] missing = count_missing_loop sm [] (missing + 1)"
| "count_missing_loop (s # sm) (b # bg) missing =
     (if s < b then count_missing_loop sm (b # bg) (missing + 1)
      else if s = b then count_missing_loop sm bg missing
      else count_missing_loop (s # sm) bg missing)"

definition count_missing :: "string list \<Rightarrow> string list \<Rightarrow> int" where
  "count_missing small big = count_missing_loop small big 0"

lemma count_missing_loop_diff:
  assumes "sorted small" and "sorted big"
  shows "count_missing_loop small big n = n + int (size (mset small - mset big))"
  using assms
proof (induction small big n rule: count_missing_loop.induct)
  case (1 bg missing)
  then show ?case by simp
next
  case (2 s sm missing)
  then show ?case by simp
next
  case (3 s sm b bg missing)
  consider "s < b" | "s = b" | "b < s" by (rule linorder_cases)
  then show ?case
  proof cases
    case 1
    have less: "\<forall>y \<in> set (b # bg). s < y" using 1 "3.prems" by auto
    show ?thesis
      using 1 3 mset_minus_all_less [OF less, of sm] by simp
  next
    case 2
    then show ?thesis using 3 by simp
  next
    case 3
    have "b \<notin># mset (s # sm)" using 3 "3.prems" by auto
    then have "mset (s # sm) - mset (b # bg) = mset (s # sm) - mset bg"
      by (metis diff_union_swap2 insert_noteq_member mset.simps(2) diff_add_mset_swap
          minus_add_mset_if_not_in_lhs)
    then show ?thesis using 3 "3.IH"(3) "3.prems" by auto
  qed
qed

section \<open>tail\_intersection\<close>

fun tail_intersection_loop :: "string list \<Rightarrow> string list \<Rightarrow> string list \<Rightarrow> string list" where
  "tail_intersection_loop (a # as) (b # bs) result =
     (if a = b then tail_intersection_loop as bs (result @ [a]) else result)"
| "tail_intersection_loop as bs result = result"

definition tail_intersection :: "string list \<Rightarrow> string list \<Rightarrow> string list" where
  "tail_intersection A B = rev (tail_intersection_loop (rev A) (rev B) [])"

lemma tail_intersection_loop_lcp:
  "tail_intersection_loop as bs result = result @ longest_common_prefix as bs"
  by (induction as bs result rule: tail_intersection_loop.induct) auto

lemma tail_intersection_lcp: "tail_intersection A B = rev (longest_common_prefix (rev A) (rev B))"
  by (simp add: tail_intersection_def tail_intersection_loop_lcp)

lemma tail_intersection_empty [simp]: "tail_intersection [] B = []" "tail_intersection A [] = []"
  by (simp_all add: tail_intersection_def)

lemma tail_intersection_suffix: "suffix (tail_intersection A B) A" "suffix (tail_intersection A B) B"
  by (simp_all add: tail_intersection_lcp suffix_to_prefix longest_common_prefix_prefix1
      longest_common_prefix_prefix2)

lemma sorted_suffix: "suffix xs ys \<Longrightarrow> sorted ys \<Longrightarrow> sorted xs"
  by (auto simp: suffix_def sorted_append)

lemma distinct_suffix: "suffix xs ys \<Longrightarrow> distinct ys \<Longrightarrow> distinct xs"
  by (auto simp: suffix_def)

lemmas tail_intersection_sorted = sorted_suffix [OF tail_intersection_suffix(1)]

lemmas tail_intersection_distinct = distinct_suffix [OF tail_intersection_suffix(1)]

lemma tail_intersection_subset: "set (tail_intersection A B) \<subseteq> set A \<inter> set B"
  using tail_intersection_suffix [of A B] by (auto dest: set_mono_suffix)

text \<open>The part of a list that a filter leaves untouched at its front.\<close>

lemma lcp_filter: "distinct xs \<Longrightarrow> longest_common_prefix xs (filter P xs) = takeWhile P xs"
proof (induction xs)
  case Nil
  then show ?case by simp
next
  case (Cons x xs)
  show ?case
  proof (cases "P x")
    case True
    then show ?thesis using Cons by simp
  next
    case False
    have "x \<notin> set (filter P xs)" using Cons.prems by simp
    with False show ?thesis by (cases "filter P xs") auto
  qed
qed

lemma rev_takeWhile_newer:
  assumes "sorted A" and "distinct A"
  shows "rev (takeWhile P (rev A)) = filter (\<lambda>f. \<forall>g \<in> set A. \<not> P g \<longrightarrow> g < f) A"
  using assms
proof (induction A rule: rev_induct)
  case Nil
  then show ?case by simp
next
  case (snoc a A)
  have less: "\<forall>g \<in> set A. g < a" using snoc.prems
    by (auto simp: sorted_append order.strict_iff_order)
  show ?case
  proof (cases "P a")
    case True
    have "filter (\<lambda>f. \<forall>g \<in> set (A @ [a]). \<not> P g \<longrightarrow> g < f) A
        = filter (\<lambda>f. \<forall>g \<in> set A. \<not> P g \<longrightarrow> g < f) A"
      using True by (intro filter_cong) auto
    with True less snoc show ?thesis by (auto simp: sorted_append)
  next
    case False
    have "filter (\<lambda>f. \<forall>g \<in> set (A @ [a]). \<not> P g \<longrightarrow> g < f) (A @ [a]) = []"
      using False less by (auto simp: filter_empty_conv dest: order.strict_implies_not_eq order.asym)
    with False show ?thesis by simp
  qed
qed

lemma sorted_sublist_filter:
  fixes A B :: "'a::linorder list"
  assumes "sorted A" "distinct A" "sorted B" "distinct B" "set B \<subseteq> set A"
  shows "B = filter (\<lambda>x. x \<in> set B) A"
  using assms by (intro sorted_distinct_set_unique) (auto simp: sorted_filter [of id, simplified])

lemma tail_intersection_filter:
  assumes "sorted A" and "distinct A" and "sorted B" and "distinct B" and "set B \<subseteq> set A"
  shows "tail_intersection A B = filter (\<lambda>f. \<forall>g \<in> set A - set B. g < f) A"
proof -
  have "rev B = filter (\<lambda>x. x \<in> set B) (rev A)"
    using sorted_sublist_filter [OF assms] by (metis rev_filter)
  then have "tail_intersection A B = rev (takeWhile (\<lambda>x. x \<in> set B) (rev A))"
    using assms(2) lcp_filter [of "rev A" "\<lambda>x. x \<in> set B"]
    by (simp add: tail_intersection_def tail_intersection_loop_lcp)
  also have "\<dots> = filter (\<lambda>f. \<forall>g \<in> set A - set B. g < f) A"
    using rev_takeWhile_newer [OF assms(1,2), of "\<lambda>x. x \<in> set B"]
    by (simp cong: filter_cong) (metis (no_types, lifting) DiffD1 DiffD2 DiffI filter_cong)
  finally show ?thesis .
qed

section \<open>Properties\<close>

text \<open>
  C7: what is shipped is exactly what is newer than the server. For a directory listing \<open>A\<close>
  and the files \<open>B\<close> of it that the server lacks, both strictly ascending,
  \<open>tail_intersection A B\<close> is the files of \<open>A\<close> that are newer than every file the server has.
\<close>

theorem tail_intersection_newer:
  assumes "sorted A" and "distinct A" and "sorted B" and "distinct B" and "set B \<subseteq> set A"
  shows "tail_intersection A B = filter (\<lambda>f. \<forall>g \<in> set A - set B. g < f) A"
  using assms by (rule tail_intersection_filter)

theorem tail_intersection_newer_witness:
  "tail_intersection [''t1'', ''t2'', ''t3'', ''t4'', ''t5'', ''t6''] [''t1'', ''t2'', ''t5'', ''t6'']
     = [''t5'', ''t6'']"
proof -
  let ?A = "[''t1'', ''t2'', ''t3'', ''t4'', ''t5'', ''t6'']"
  let ?B = "[''t1'', ''t2'', ''t5'', ''t6'']"
  have "tail_intersection ?A ?B = filter (\<lambda>f. \<forall>g \<in> set ?A - set ?B. g < f) ?A"
    by (rule tail_intersection_newer) code_simp+
  also have "\<dots> = [''t5'', ''t6'']" by code_simp
  finally show ?thesis .
qed

text \<open>
  \<open>tail_intersection\<close> is the longest common suffix of its arguments, whatever they are:
  it ends both, and everything that ends both ends it.
\<close>

lemma tail_intersection_longest:
  "suffix C (tail_intersection A B) \<longleftrightarrow> suffix C A \<and> suffix C B"
proof
  assume "suffix C (tail_intersection A B)"
  then show "suffix C A \<and> suffix C B"
    using tail_intersection_suffix [of A B] suffix_order.trans by blast
next
  assume "suffix C A \<and> suffix C B"
  then show "suffix C (tail_intersection A B)"
    by (simp add: tail_intersection_lcp suffix_to_prefix longest_common_prefix_max_prefix)
qed

text \<open>
  On sorted vectors, duplicates included, \<open>count_missing\<close> is the number of elements of the
  first that the second does not account for: the size of their multiset difference.
\<close>

lemma count_missing_diff:
  assumes "sorted small" and "sorted big"
  shows "count_missing small big = int (size (mset small - mset big))"
  using count_missing_loop_diff [OF assms] by (simp add: count_missing_def)

lemma count_missing_diff_witness:
  "count_missing [''@1'', ''@2'', ''@3''] [''@3'', ''@4''] = 2"
proof -
  have "count_missing [''@1'', ''@2'', ''@3''] [''@3'', ''@4'']
      = int (size (mset [''@1'', ''@2'', ''@3''] - mset [''@3'', ''@4'']))"
    by (rule count_missing_diff) code_simp+
  also have "\<dots> = 2" by code_simp
  finally show ?thesis .
qed

end
