(* ===== verification/Process.thy ===== *)
theory Process
  imports Boost_Process Helpers
begin

text \<open>
  \<^verbatim>\<open>barn-agent/src/process.cpp\<close>, with the setters of \<^verbatim>\<open>sighandle.cpp\<close>: running a command
  and capturing its standard output, and the host name.
\<close>

section \<open>The variable of the signal handler\<close>

definition INVALID_PID :: int where "INVALID_PID = -1"

definition set_child_pid :: "int \<Rightarrow> (unit, ('e, 'z) world_scheme) io" where
  "set_child_pid pid = modifyE (\<lambda>w. w\<lparr>child_pid_global := pid\<rparr>)"

definition unset_child_pid :: "(unit, ('e, 'z) world_scheme) io" where
  "unset_child_pid = modifyE (\<lambda>w. w\<lparr>child_pid_global := INVALID_PID\<rparr>)"

section \<open>run\_command and get\_host\_name\<close>

text \<open>
  The child object is destroyed, and its end of the pipe closed, when the function is left,
  by return or by exception.
\<close>

definition run_command ::
  "'e OS \<Rightarrow> string \<Rightarrow> string list \<Rightarrow> (int \<times> string, ('e, 'z) world_scheme) io" where
  "run_command os cmd args =
     bindE (find_executable_in_path os cmd) (\<lambda>exec.
     bindE (new_posix_context os) (\<lambda>ctx0.
     let ctx1 = ctx0\<lparr>output_behavior :=
                  map_insert STDOUT_FILENO capture_stream (output_behavior ctx0)\<rparr>;
         ctx = ctx1\<lparr>output_behavior :=
                  map_insert STDERR_FILENO inherit_stream (output_behavior ctx1)\<rparr> in
     bindE (posix_launch os exec args ctx) (\<lambda>child.
     on_exit
      (thenE (set_child_pid (child_id child))
      (bindE (get_stdout child) (\<lambda>is.
       bindE (read_to_end os is '''') (\<lambda>std_out.
       bindE (child_wait os child) (\<lambda>st.
       bindE (exit_status st) (\<lambda>code.
       thenE unset_child_pid (ret (code, std_out))))))))
      (destroy_posix_child child))))"

definition get_host_name :: "'e OS \<Rightarrow> (string, ('e, 'z) world_scheme) io" where
  "get_host_name os =
     bindE (run_command os ''hostname'' [''hostname'', ''-f'']) (\<lambda>(code, command_output).
       ret (take (length command_output - 1) command_output))"

section \<open>Launching with a captured standard output\<close>

definition capture_info :: "file_handle \<Rightarrow> file_handle \<Rightarrow> stream_info" where
  "capture_info r wr = blank_stream_info\<lparr>si_type := Type_Use_Pipe, si_rend := r, si_wend := wr\<rparr>"

definition inherit_info :: stream_info where
  "inherit_info = blank_stream_info\<lparr>si_type := Type_Inherit\<rparr>"

definition captured_child :: "int \<Rightarrow> file_handle \<Rightarrow> posix_child" where
  "captured_child pid r =
     \<lparr>child_id = pid, child_stdin = None, child_stdout = Some r, child_stderr = None,
      input_map_of = [], output_map_of = []\<rparr>"

lemmas fileno_defs = STDIN_FILENO_def STDOUT_FILENO_def STDERR_FILENO_def

lemma on_throw_ret [simp]: "on_throw (ret a) c = ret a"
  by (rule ext) (simp add: on_throw_def ret_def)

lemma on_throw_id [simp]: "on_throw m (destroy_info_map []) = m"
  by (rule ext) (simp add: on_throw_def destroy_info_map_def split: option.splits sum.splits)

lemma destroy_info_map_Nil: "destroy_info_map [] w = w"
  by (simp add: destroy_info_map_def)

lemma captured_info_map:
  "new_info_map os True [(1, Capture), (2, Inherit)] =
     bindE (new_pipe os) (\<lambda>(r, wr). ret [(1, capture_info r wr), (2, inherit_info)])"
  by (rule ext) (simp add: bindE_assoc capture_info_def inherit_info_def case_prod_unfold)

lemma destroy_captured_infos:
  assumes "0 \<le> r" and "0 \<le> wr"
  shows "destroy_info_map [(1, capture_info r wr), (2, inherit_info)] w =
    w\<lparr>fds := (fds w)(wr := None, r := None)\<rparr>"
  using assms
  by (simp add: destroy_info_map_def destroy_stream_info_def capture_info_def inherit_info_def
      blank_stream_info_def destroy_handle_def valid_def invalid_value_def fd_close_def)

lemma new_captured_child:
  assumes "0 \<le> r"
  shows "new_posix_child pid [] [(1, (capture_info r wr)\<lparr>si_wend := h\<rparr>), (2, inherit_info)] =
    ret (captured_child pid r)"
  using assms
  by (simp add: new_posix_child_def posix_info_locate_pipe_def fileno_defs capture_info_def
      inherit_info_def blank_stream_info_def stream_of_handle_def valid_def
      invalid_value_def captured_child_def thenE_def assertE_def)

lemma close_captured_ends:
  assumes "0 \<le> wr"
  shows "close_child_ends True [(1, capture_info r wr), (2, inherit_info)] w =
    Some (Inr [(1, (capture_info r wr)\<lparr>si_wend := -1\<rparr>), (2, inherit_info)], fd_close wr w)"
  using assms
  by (simp add: capture_info_def inherit_info_def blank_stream_info_def close_handle_def
      bindE_assoc thenE_def bindE_value assertE_def modifyE_def valid_def invalid_value_def
      ret_run bindE_def)

lemma run_child_run:
  "c \<lparr>child_fds = fds w, child_env = env w\<rparr> = (fate, e) \<Longrightarrow>
   run_child c w = Some (Inr fate, w\<lparr>env := e\<rparr>)"
  by (simp add: run_child_def)

lemma start_captured:
  assumes "0 \<le> wr"
    and run: "posix_start os exe args envir [] [(1, capture_info r wr), (2, inherit_info)] pset w =
      Some (res, w')"
  shows "(\<exists>e. res = Inl e \<and> (catchable e \<longrightarrow> fds w' = fds w)) \<or>
    (\<exists>pid. res = Inr (pid, [], [(1, (capture_info r wr)\<lparr>si_wend := -1\<rparr>), (2, inherit_info)]) \<and>
       0 < pid \<and> fds w' = (fds w)(wr := None) \<and>
       program_state w' = program_state w \<and>
       (\<exists>fate e0 e1 e2. child_main os exe args envir []
            [(1, capture_info r wr), (2, inherit_info)] pset
            \<lparr>child_fds = fds w, child_env = e0\<rparr> = (fate, e1) \<and>
          sys_fork os (env w) = Some (pid, e0) \<and>
          sys_child_runs os pid fate e1 = Some ((), e2) \<and> env w' = e2))"
proof -
  let ?child = "child_main os exe args envir [] [(1, capture_info r wr), (2, inherit_info)] pset"
  obtain pid e0 where fork: "sys_fork os (env w) = Some (pid, e0)"
    using run by (auto simp: posix_start_def bindE_Some syscall_Some)
  obtain fate e1 where fate: "?child \<lparr>child_fds = fds w, child_env = e0\<rparr> = (fate, e1)"
    by fastforce
  let ?w1 = "w\<lparr>env := e0\<rparr>" and ?w2 = "w\<lparr>env := e1\<rparr>"
  have child: "run_child ?child ?w1 = Some (Inr fate, ?w2)"
    using fate run_child_run [of ?child ?w1] by simp
  show ?thesis
  proof (cases "pid = -1")
    case True
    then show ?thesis using run fork by (auto simp: posix_start_def io_simps)
  next
    case False
    then obtain e2 where e2: "sys_child_runs os pid fate e1 = Some ((), e2)"
      using run fork child by (auto simp: posix_start_def io_simps syscall_Some bindE_Some)
    show ?thesis
    proof (cases "0 < pid")
      case True
      have "posix_start os exe args envir [] [(1, capture_info r wr), (2, inherit_info)] pset w =
        Some (Inr (pid, [], [(1, (capture_info r wr)\<lparr>si_wend := -1\<rparr>), (2, inherit_info)]),
          fd_close wr (w\<lparr>env := e2\<rparr>))"
        using True False fork child e2 close_captured_ends [OF assms(1), of r "w\<lparr>env := e2\<rparr>"]
        by (simp add: posix_start_def io_simps)
      then show ?thesis using run True fate e2 fork by (auto simp: fd_close_def)
    next
      case neg: False
      have "posix_start os exe args envir [] [(1, capture_info r wr), (2, inherit_info)] pset w =
        Some (Inl (Abort ''pid > 0''), w\<lparr>env := e2\<rparr>)"
        using neg False fork child e2 by (simp add: posix_start_def io_simps)
      then show ?thesis using run by auto
    qed
  qed
qed

text \<open>How a new pipe comes out.\<close>

lemma new_pipe_cases:
  assumes "pipe_documented os" and "new_pipe os w = Some (res, w')"
  obtains e where "res = Inl e" "fds w' = fds w"
  | r wr e where "res = Inr (r, wr)" "0 \<le> r" "0 \<le> wr" "r \<noteq> wr" "fds w r = None" "fds w wr = None"
      "w' = w\<lparr>env := e, fds := (fds w)(r := Some (Pipe_Read_End (next_pipe w)),
                                         wr := Some (Pipe_Write_End (next_pipe w))),
               next_pipe := Suc (next_pipe w)\<rparr>"
proof -
  obtain hs e where hs: "sys_pipe os (fds w) (env w) = Some (hs, e)"
    using assms(2) by (auto simp: new_pipe_def io_simps bindE_Some syscall_Some getE_run)
  show ?thesis
  proof (cases hs)
    case None
    then show ?thesis using assms(2) hs that(1) by (auto simp: new_pipe_def io_simps)
  next
    case (Some p)
    obtain r wr where p: "p = (r, wr)" by fastforce
    then have "new_pipe os w = Some (Inr (r, wr),
        w\<lparr>env := e, fds := (fds w)(r := Some (Pipe_Read_End (next_pipe w)),
                                    wr := Some (Pipe_Write_End (next_pipe w))),
          next_pipe := Suc (next_pipe w)\<rparr>)"
      using hs Some by (simp add: new_pipe_def io_simps)
    then show ?thesis
      using assms that(2) [of r wr e] hs Some p unfolding pipe_documented_def by fastforce
  qed
qed

lemma launch_captured_eq:
  assumes "input_behavior ctx = []" and "output_behavior ctx = [(1, Capture), (2, Inherit)]"
  shows "posix_launch os exe args ctx =
    bindE (new_pipe os) (\<lambda>(r, wr).
    bindE (on_throw
      (posix_start os exe args (ctx_environment ctx) [] [(1, capture_info r wr), (2, inherit_info)]
        \<lparr>work_directory = ctx_work_directory ctx, chroot = ctx_chroot ctx, setup_ids = ctx_ids ctx\<rparr>)
      (destroy_info_map [(1, capture_info r wr), (2, inherit_info)]))
     (\<lambda>(pid, infoin, infoout). new_posix_child pid infoin infoout))"
  using assms
  by (simp add: posix_launch_def captured_info_map Let_def bindE_assoc case_prod_unfold
      comp_def destroy_info_map_Nil del: new_info_map.simps(2))

lemma launch_captured:
  assumes "pipe_documented os"
    and ctx: "input_behavior ctx = []" "output_behavior ctx = [(1, Capture), (2, Inherit)]"
    and run: "posix_launch os exe args ctx w = Some (res, w')"
  shows "(\<exists>e. res = Inl e \<and> (catchable e \<longrightarrow> fds w' = fds w)) \<or>
    (\<exists>pid r wr. res = Inr (captured_child pid r) \<and> 0 < pid \<and> 0 \<le> r \<and> 0 \<le> wr \<and> r \<noteq> wr \<and>
       fds w r = None \<and> fds w wr = None \<and>
       fds w' = (fds w)(r := Some (Pipe_Read_End (next_pipe w))) \<and>
       program_state w' = program_state w \<and>
       (\<exists>fate ef e0 e1 e2. child_main os exe args (ctx_environment ctx) []
            [(1, capture_info r wr), (2, inherit_info)]
            \<lparr>work_directory = ctx_work_directory ctx, chroot = ctx_chroot ctx,
             setup_ids = ctx_ids ctx\<rparr>
            \<lparr>child_fds = (fds w)(r := Some (Pipe_Read_End (next_pipe w)),
                                  wr := Some (Pipe_Write_End (next_pipe w))),
             child_env = e0\<rparr> = (fate, e1) \<and>
          sys_fork os ef = Some (pid, e0) \<and>
          sys_child_runs os pid fate e1 = Some ((), e2) \<and> env w' = e2))"
proof -
  let ?pset = "\<lparr>work_directory = ctx_work_directory ctx, chroot = ctx_chroot ctx,
      setup_ids = ctx_ids ctx\<rparr>"
  note eq = launch_captured_eq [OF ctx, of os exe args]
  obtain pres w1 where pipe: "new_pipe os w = Some (pres, w1)"
    using run by (auto simp: eq bindE_Some)
  from assms(1) pipe show ?thesis
  proof (cases rule: new_pipe_cases)
    case (1 e)
    then show ?thesis using run pipe by (auto simp: eq io_simps)
  next
    case (2 r wr e)
    let ?infos = "[(1, capture_info r wr), (2, inherit_info)]"
    obtain sres w2 where start:
      "posix_start os exe args (ctx_environment ctx) [] ?infos ?pset w1 = Some (sres, w2)"
      using run pipe 2(1) by (auto simp: eq bindE_Some on_throw_def split: option.splits sum.splits)
    from start_captured [OF 2(3) start] show ?thesis
    proof (elim disjE exE conjE)
      fix x assume x: "sres = Inl x" "catchable x \<longrightarrow> fds w2 = fds w1"
      then have "posix_launch os exe args ctx w =
          Some (Inl x, if catchable x then w2\<lparr>fds := (fds w2)(wr := None, r := None)\<rparr> else w2)"
        using pipe 2(1) start destroy_captured_infos [OF 2(2,3), of w2]
        by (simp add: eq io_simps on_throw_def bindE_def)
      then show ?thesis using run x 2 by (auto simp: fun_eq_iff)
    next
      fix pid fate e0 e1 e2
      assume s: "sres = Inr (pid, [], [(1, (capture_info r wr)\<lparr>si_wend := -1\<rparr>), (2, inherit_info)])"
        and p: "0 < pid" and f: "fds w2 = (fds w1)(wr := None)"
        and c: "child_main os exe args (ctx_environment ctx) [] ?infos ?pset
            \<lparr>child_fds = fds w1, child_env = e0\<rparr> = (fate, e1)"
          "sys_fork os (env w1) = Some (pid, e0)" "sys_child_runs os pid fate e1 = Some ((), e2)" "env w2 = e2"
        and ps: "program_state w2 = program_state w1"
      have res: "res = Inr (captured_child pid r)" "w' = w2"
        using run pipe 2(1) start s
        by (auto simp: eq bindE_def on_throw_def ret_def new_captured_child [OF 2(2)])
      have "fds w' = (fds w)(r := Some (Pipe_Read_End (next_pipe w)))"
        using res f 2 by (auto simp: fun_eq_iff)
      moreover have "fds w1 = (fds w)(r := Some (Pipe_Read_End (next_pipe w)),
                                       wr := Some (Pipe_Write_End (next_pipe w)))"
        using 2 by simp
      moreover have "program_state w' = program_state w" using ps res 2 by simp
      ultimately show ?thesis using res p c 2 by metis
    qed
  qed
qed

section \<open>The child of a launch with a captured standard output\<close>

lemma keeps_child_syscall: "(\<And>s e. f (s\<lparr>child_env := e\<rparr>) = f s) \<Longrightarrow> keeps (child_syscall c) f"
  by (auto simp: keeps_def child_syscall_def split: option.splits)

lemma keeps_run_posix_setup: "keeps (run_posix_setup os s) child_fds"
  unfolding run_posix_setup_def child_call_def
  by (intro keeps_intros keeps_child_syscall) simp_all

text \<open>The descriptors a child is left with: two of them, below the limit on open files.\<close>

definition captured_fds :: "int \<Rightarrow> fd_table \<Rightarrow> nat \<Rightarrow> fd_table" where
  "captured_fds maxdescs t n d =
     (if d = STDOUT_FILENO then Some (Pipe_Write_End n)
      else if d = STDERR_FILENO then t STDERR_FILENO
      else if 0 \<le> d \<and> d < maxdescs then None else t d)"

lemma captured_setup_output:
  assumes "t r = None" "t wr = None" "r \<noteq> wr" "0 \<le> r" "0 \<le> wr" "2 < maxdescs"
    and s: "child_fds s = t(r := Some (Pipe_Read_End n), wr := Some (Pipe_Write_End n))"
  shows "setup_output os maxdescs [(1, capture_info r wr), (2, inherit_info)] s =
    Some (Inr (), s\<lparr>child_fds := t(1 := Some (Pipe_Write_End n))\<rparr>)"
proof (cases "wr = 1")
  case True
  have "(child_fds s)(r := None) = t(1 := Some (Pipe_Write_End n))"
    using assms True by (auto simp: fun_eq_iff)
  then show ?thesis using assms True
    by (simp add: setup_output_def setup_output_one_def capture_info_def inherit_info_def
        blank_stream_info_def io_simps valid_def invalid_value_def child_close_def)
next
  case False
  have "(child_fds s)(r := None, 1 := ((child_fds s)(r := None)) wr, wr := None) =
      t(1 := Some (Pipe_Write_End n))"
    using assms False by (auto simp: fun_eq_iff)
  then show ?thesis using assms False
    by (simp add: setup_output_def setup_output_one_def capture_info_def inherit_info_def
        blank_stream_info_def io_simps valid_def invalid_value_def child_close_def posix_remap_def
        child_dup2_def)
qed

text \<open>The bound of the loops of \<open>posix_start\<close>: \<open>sysconf\<close>, or 1024.\<close>

definition max_descriptors :: "int \<Rightarrow> int" where
  "max_descriptors m = (if m = -1 then 1024 else m)"

lemma captured_child_setup:
  assumes "t r = None" "t wr = None" "r \<noteq> wr" "0 \<le> r" "0 \<le> wr"
    and s: "child_fds s = t(r := Some (Pipe_Read_End n), wr := Some (Pipe_Write_End n))"
    and run: "child_setup os [] [(1, capture_info r wr), (2, inherit_info)] pset s =
      Some (Inr u, s')"
  shows "\<exists>om e. sys_open_max os (child_env s) = Some (om, e) \<and>
    child_fds s' = captured_fds (max_descriptors om) t n"
proof -
  obtain om e where om: "sys_open_max os (child_env s) = Some (om, e)"
    using run by (auto simp: child_setup_def bindE_Some child_syscall_def split: option.splits)
  define s0 where "s0 = s\<lparr>child_env := e\<rparr>"
  define maxdescs where "maxdescs = (if om = -1 then 1024 else om)"
  let ?infos = "[(1, capture_info r wr), (2, inherit_info)]"
  have step: "child_setup os [] ?infos pset s =
      bindE (setup_output os maxdescs ?infos) (\<lambda>_.
      bindE (close_unlisted maxdescs [1, 2]) (\<lambda>_. run_posix_setup os pset)) s0"
    using om
    by (simp add: child_setup_def bindE_def child_syscall_def maxdescs_def s0_def thenE_def Let_def
        ret_run)
  obtain s1 where s1: "setup_output os maxdescs ?infos s0 = Some (Inr (), s1)"
    using run unfolding step bindE_Inr by auto
  have max2: "2 < maxdescs"
  proof (rule ccontr)
    assume "\<not> 2 < maxdescs"
    then show False using s1 unfolding setup_output_def setup_output_first.simps thenE_def
      bindE_Inr setup_output_one_def assertE_run by (auto simp: not_less split: if_splits)
  qed
  have s0: "child_fds s0 = t(r := Some (Pipe_Read_End n), wr := Some (Pipe_Write_End n))"
    using s by (simp add: s0_def)
  have s1': "child_fds s1 = t(1 := Some (Pipe_Write_End n))"
    using captured_setup_output [OF assms(1-5) max2 s0, of os] s1 by auto
  obtain s2 where s2: "close_unlisted maxdescs [1, 2] s1 = Some (Inr (), s2)"
    "run_posix_setup os pset s2 = Some (Inr u, s')"
    using run s1 unfolding step bindE_Inr by fastforce
  have "child_fds s2 = captured_fds maxdescs t n"
    using s2(1) s1' by (auto simp: close_unlisted_def modifyE_run captured_fds_def fileno_defs)
  then show ?thesis
    using keepsD [OF keeps_run_posix_setup s2(2)] om by (auto simp: maxdescs_def max_descriptors_def)
qed

lemma captured_child_main:
  assumes "t r = None" "t wr = None" "r \<noteq> wr" "0 \<le> r" "0 \<le> wr"
    and "child_main os exe args envir [] [(1, capture_info r wr), (2, inherit_info)] pset
      \<lparr>child_fds = t(r := Some (Pipe_Read_End n), wr := Some (Pipe_Write_End n)),
       child_env = e\<rparr> = (Child_Execs img, e')"
  shows "image_path img = c_str exe \<and> image_argv img = map c_str args \<and> args \<noteq> [] \<and>
    image_envp img = environment_to_envp envir \<and> image_cwd img = work_directory pset \<and>
    (\<exists>om e'. sys_open_max os e = Some (om, e') \<and>
       image_fds img = captured_fds (max_descriptors om) t n)"
proof -
  let ?s = "\<lparr>child_fds = t(r := Some (Pipe_Read_End n), wr := Some (Pipe_Write_End n)),
       child_env = e\<rparr>"
  obtain u s' where s': "child_setup os [] [(1, capture_info r wr), (2, inherit_info)] pset ?s =
      Some (Inr u, s')" "args \<noteq> []"
    and img: "img = \<lparr>image_path = c_str exe, image_argv = collection_to_posix_argv args,
      image_envp = environment_to_envp envir, image_cwd = work_directory pset,
      image_fds = child_fds s'\<rparr>"
    using assms(6) unfolding child_main_def
    by (auto split: option.splits sum.splits exn.splits if_splits)
  show ?thesis
    using captured_child_setup [OF assms(1-5) _ s'(1)] img s'(2)
    by (auto simp: collection_to_posix_argv_def)
qed

section \<open>Runs of run\_command\<close>

lemma keeps_set_child_pid:
  "(\<And>w n. f (w\<lparr>child_pid_global := n\<rparr>) = f w) \<Longrightarrow> keeps (set_child_pid pid) f"
  unfolding set_child_pid_def by (intro keeps_intros)

lemma new_posix_context_Inr:
  "new_posix_context os w = Some (Inr ctx, w') \<Longrightarrow>
   input_behavior ctx = [] \<and> output_behavior ctx = [] \<and> ctx_environment ctx = [] \<and>
   ctx_chroot ctx = '''' \<and> ctx_work_directory ctx \<noteq> [] \<and>
   (\<exists>e e'. sys_getcwd os e = Some (Some (ctx_work_directory ctx), e')) \<and>
   (\<exists>e e'. sys_getids os e = Some (ctx_ids ctx, e'))"
  unfolding new_posix_context_def new_work_directory_context_def bindE_Inr
  by (elim exE conjE)
     (auto simp: bindE_Inr thenE_def ret_run throw_run assertE_run syscall_Some
       split: option.splits if_splits, blast+)

text \<open>What becomes of the child's output and status, once it is launched.\<close>

definition after_launch ::
  "'e OS \<Rightarrow> posix_child \<Rightarrow> (int \<times> string, ('e, 'z) world_scheme) io" where
  "after_launch os child =
     thenE (set_child_pid (child_id child))
    (bindE (get_stdout child) (\<lambda>is.
     bindE (read_to_end os is '''') (\<lambda>std_out.
     bindE (child_wait os child) (\<lambda>st.
     bindE (exit_status st) (\<lambda>code.
     thenE unset_child_pid (ret (code, std_out)))))))"

text \<open>The part of \<open>run_command\<close> up to the started child.\<close>

definition launch_command ::
  "'e OS \<Rightarrow> string \<Rightarrow> string list \<Rightarrow> (posix_child, ('e, 'z) world_scheme) io" where
  "launch_command os cmd args =
     bindE (find_executable_in_path os cmd) (\<lambda>exec.
     bindE (new_posix_context os) (\<lambda>ctx.
       posix_launch os exec args
         (ctx\<lparr>output_behavior :=
            map_insert STDERR_FILENO inherit_stream
             (map_insert STDOUT_FILENO capture_stream (output_behavior ctx))\<rparr>)))"

lemma run_command_launch:
  "run_command os cmd args =
     bindE (launch_command os cmd args) (\<lambda>child. on_exit (after_launch os child) (destroy_posix_child child))"
  by (rule ext) (simp add: run_command_def launch_command_def after_launch_def Let_def bindE_assoc)

definition status_result :: "status option \<Rightarrow> string \<Rightarrow> exn + (int \<times> string)" where
  "status_result s bytes =
     (case s of
        None \<Rightarrow> Inl (System_Error ''child::wait: waitpid(2) failed'')
      | Some st \<Rightarrow> if exited st then Inr (st div 256 mod 256, bytes) else Inl (Abort ''exited()''))"

lemma after_launch_runs:
  assumes "after_launch os (captured_child pid r) w = Some (res, w')"
    and "fds w r = Some f"
  shows "\<exists>bytes e3 s e4. stream_bytes os f (env w) bytes e3 \<and>
    sys_waitpid os pid e3 = Some (s, e4) \<and> res = status_result s bytes \<and>
    w' = w\<lparr>child_pid_global := (case res of Inl _ \<Rightarrow> pid | Inr _ \<Rightarrow> INVALID_PID), env := e4\<rparr>"
proof -
  let ?w = "w\<lparr>child_pid_global := pid\<rparr>"
  have start: "after_launch os (captured_child pid r) w =
    bindE (read_to_end os r '''') (\<lambda>std_out.
     bindE (child_wait os (captured_child pid r)) (\<lambda>st.
     bindE (exit_status st) (\<lambda>code.
     thenE unset_child_pid (ret (code, std_out))))) ?w"
    by (simp add: after_launch_def io_simps set_child_pid_def captured_child_def get_stdout_def)
  obtain p where p: "read_to_end os r '''' ?w = Some p"
    using assms(1) unfolding start bindE_def by (cases "read_to_end os r '''' ?w") auto
  obtain bytes e3 where b: "stream_bytes os f (env w) bytes e3"
    "read_to_end os r '''' ?w = Some (Inr bytes, ?w\<lparr>env := e3\<rparr>)"
    using read_to_end_bytes [OF p] assms(2) p by auto
  have "sys_waitpid os pid e3 \<noteq> None"
    using assms(1) unfolding start bindE_value [where m = "read_to_end os r ''''", OF b(2)] child_wait_def bindE_assoc
    by (cases "sys_waitpid os pid e3") (simp_all add: bindE_def syscall_def captured_child_def)
  then obtain s e4 where w: "sys_waitpid os pid e3 = Some (s, e4)" by auto
  have "after_launch os (captured_child pid r) w =
      Some (status_result s bytes, w\<lparr>child_pid_global :=
        (case status_result s bytes of Inl _ \<Rightarrow> pid | Inr _ \<Rightarrow> INVALID_PID), env := e4\<rparr>)"
    unfolding start using b(2) w
    by (cases s)
       (simp_all add: bindE_assoc child_wait_def captured_child_def bindE_def syscall_def throw_def
         ret_def thenE_def assertE_def exit_status_def status_result_def unset_child_pid_def
         modifyE_def)
  then show ?thesis using assms(1) b(1) w by auto
qed

definition captured_setup :: "string \<Rightarrow> ids \<Rightarrow> posix_setup" where
  "captured_setup dir i = \<lparr>work_directory = dir, chroot = '''', setup_ids = i\<rparr>"

lemma captured_setup_simps [simp]:
  "work_directory (captured_setup dir i) = dir" "setup_ids (captured_setup dir i) = i"
  by (simp_all add: captured_setup_def)

lemma run_command_cases:
  assumes "pipe_documented os" and run: "run_command os cmd args w = Some (res, w')"
  obtains
    (not_started) e where "res = Inl e" "catchable e \<longrightarrow> fds w' = fds w"
      "program_state w' = program_state w" "launch_command os cmd args w = Some (Inl e, w')"
  | (started) exec w1 dir i r wr e0 fate e1 pid e2 bytes e3 s e4 ef w2 where
      "find_executable_in_path os cmd w = Some (Inr exec, w1)" "0 < pid"
      "fds w r = None" "fds w wr = None" "r \<noteq> wr" "0 \<le> r" "0 \<le> wr"
      "child_main os exec args [] [] [(1, capture_info r wr), (2, inherit_info)]
         (captured_setup dir i)
         \<lparr>child_fds = (fds w)(r := Some (Pipe_Read_End (next_pipe w)),
                               wr := Some (Pipe_Write_End (next_pipe w))),
          child_env = e0\<rparr> = (fate, e1)"
      "sys_child_runs os pid fate e1 = Some ((), e2)"
      "stream_bytes os (Pipe_Read_End (next_pipe w)) e2 bytes e3"
      "sys_waitpid os pid e3 = Some (s, e4)" "res = status_result s bytes"
      "\<And>e. res = Inl e \<Longrightarrow> catchable e \<Longrightarrow> fds w' = fds w"
      "\<And>v. res = Inr v \<Longrightarrow> fds w' = fds w"
      "child_pid_global w' = (case res of Inl _ \<Rightarrow> pid | Inr _ \<Rightarrow> INVALID_PID)"
      "sys_fork os ef = Some (pid, e0)"
      "launch_command os cmd args w = Some (Inr (captured_child pid r), w2)"
      "dir \<noteq> []" "\<exists>e e'. sys_getcwd os e = Some (Some dir, e')"
      "\<exists>e e'. sys_getids os e = Some (i, e')"
proof -
  let ?ctx = "\<lambda>c. c\<lparr>output_behavior := [(1, Capture), (2, Inherit)]\<rparr>"
  let ?launch = "\<lambda>exec c. bindE (posix_launch os exec args (?ctx c))
      (\<lambda>child. on_exit (after_launch os child) (destroy_posix_child child))"
  obtain fres w1 where find: "find_executable_in_path os cmd w = Some (fres, w1)"
    using run by (auto simp: run_command_def bindE_Some)
  have w1: "fds w1 = fds w" "next_pipe w1 = next_pipe w" "program_state w1 = program_state w"
    using keepsD [OF keeps_find_executable [of process_state] find] by (simp_all add: process_state_def)
  show ?thesis
  proof (cases fres)
    case (Inl e)
    then show ?thesis
      using run find w1
      by (intro not_started [of e]) (auto simp: run_command_def launch_command_def io_simps)
  next
    case (Inr exec)
    note find = find [unfolded Inr]
    obtain cres w2 where ctx: "new_posix_context os w1 = Some (cres, w2)"
      using run find by (auto simp: run_command_def bindE_Some)
    have w2: "fds w2 = fds w" "next_pipe w2 = next_pipe w" "program_state w2 = program_state w"
      using keepsD [OF keeps_new_posix_context [of process_state] ctx] w1
      by (simp_all add: process_state_def)
    show ?thesis
    proof (cases cres)
      case (Inl e)
      then show ?thesis
        using run find ctx w2
        by (intro not_started [of e]) (auto simp: run_command_def launch_command_def io_simps)
    next
      case (Inr c)
      note ctx = ctx [unfolded Inr]
      have c: "input_behavior c = []" "output_behavior c = []" "ctx_environment c = []"
        "ctx_chroot c = ''''" "ctx_work_directory c \<noteq> []"
        "\<exists>e e'. sys_getcwd os e = Some (Some (ctx_work_directory c), e')"
        "\<exists>e e'. sys_getids os e = Some (ctx_ids c, e')"
        using new_posix_context_Inr [OF ctx] by auto
      have run2: "?launch exec c w2 = Some (res, w')"
        using run find ctx c(2)
        by (simp add: run_command_def io_simps fileno_defs capture_stream_def inherit_stream_def
            after_launch_def Let_def)
      obtain lres w3 where launch: "posix_launch os exec args (?ctx c) w2 = Some (lres, w3)"
        using run2 by (auto simp: bindE_Some)
      have whole: "launch_command os cmd args w = Some (lres, w3)"
        using find ctx c(2) launch
        by (simp add: launch_command_def io_simps fileno_defs capture_stream_def inherit_stream_def)
      have ps3: "program_state w3 = program_state w"
        using keepsD [OF keeps_posix_launch launch] w2 by simp
      have "input_behavior (?ctx c) = []" "output_behavior (?ctx c) = [(1, Capture), (2, Inherit)]"
        using c by simp_all
      from launch_captured [OF assms(1) this launch] show ?thesis
      proof (elim disjE exE conjE)
        fix e assume "lres = Inl e" "catchable e \<longrightarrow> fds w3 = fds w2"
        then show ?thesis
          using run2 launch w2 ps3 whole by (intro not_started [of e]) (auto simp: io_simps)
      next
        fix pid r wr fate ef e0 e1 e2
        assume l: "lres = Inr (captured_child pid r)" "0 < pid" "0 \<le> r" "0 \<le> wr" "r \<noteq> wr"
            "fds w2 r = None" "fds w2 wr = None"
            "fds w3 = (fds w2)(r := Some (Pipe_Read_End (next_pipe w2)))"
          and child: "child_main os exec args (ctx_environment (?ctx c)) []
            [(1, capture_info r wr), (2, inherit_info)]
            \<lparr>work_directory = ctx_work_directory (?ctx c), chroot = ctx_chroot (?ctx c),
             setup_ids = ctx_ids (?ctx c)\<rparr>
            \<lparr>child_fds = (fds w2)(r := Some (Pipe_Read_End (next_pipe w2)),
                                  wr := Some (Pipe_Write_End (next_pipe w2))),
             child_env = e0\<rparr> = (fate, e1)"
            "sys_child_runs os pid fate e1 = Some ((), e2)" "env w3 = e2"
          and fork: "sys_fork os ef = Some (pid, e0)"
        obtain w4 where w4: "after_launch os (captured_child pid r) w3 = Some (res, w4)"
          "w' = (case res of Inl e \<Rightarrow> if catchable e then destroy_posix_child (captured_child pid r) w4
                   else w4 | Inr _ \<Rightarrow> destroy_posix_child (captured_child pid r) w4)"
          using run2 launch l(1)
          by (auto simp: io_simps on_exit_def split: option.splits sum.splits)
        have "fds w3 r = Some (Pipe_Read_End (next_pipe w))" using l(8) w2 by simp
        from after_launch_runs [OF w4(1) this] obtain bytes e3 s e4 where a:
          "stream_bytes os (Pipe_Read_End (next_pipe w)) (env w3) bytes e3"
          "sys_waitpid os pid e3 = Some (s, e4)" "res = status_result s bytes"
          "w4 = w3\<lparr>child_pid_global := (case res of Inl _ \<Rightarrow> pid | Inr _ \<Rightarrow> INVALID_PID), env := e4\<rparr>"
          by blast
        have destroy: "destroy_posix_child (captured_child pid r) w4 = fd_close r w4"
          using l(3) by (simp add: destroy_posix_child_def child_handles_def stream_handles_def captured_child_def
              destroy_handle_def valid_def invalid_value_def)
        have closed: "fds (fd_close r w4) = fds w"
          using a(4) l(6,8) w2 by (auto simp: fd_close_def fun_eq_iff)
        have closedL: "fds w' = fds w" if "res = Inl e" "catchable e" for e
          using w4(2) that closed by (simp add: destroy)
        have closedR: "fds w' = fds w" if "res = Inr v" for v
          using w4(2) that closed by (simp add: destroy)
        have "child_pid_global w' = child_pid_global w4"
          using w4(2) by (auto simp: destroy fd_close_def split: sum.splits if_splits)
        then have pid: "child_pid_global w' = (case res of Inl _ \<Rightarrow> pid | Inr _ \<Rightarrow> INVALID_PID)"
          using a(4) by simp
        have child': "child_main os exec args [] [] [(1, capture_info r wr), (2, inherit_info)]
            (captured_setup (ctx_work_directory c) (ctx_ids c))
            \<lparr>child_fds = (fds w)(r := Some (Pipe_Read_End (next_pipe w)),
                                  wr := Some (Pipe_Write_End (next_pipe w))),
             child_env = e0\<rparr> = (fate, e1)"
          using child(1) c w2 by (simp add: captured_setup_def)
        show ?thesis
          by (rule started [OF find l(2) _ _ l(5,3,4) child' child(2) a(1) [unfolded child(3)] a(2,3)
                closedL closedR pid fork whole [unfolded l(1)] c(5-7)])
            (use l(6,7) w2 in auto)
      qed
    qed
  qed
qed

section \<open>Properties\<close>

lemma keeps_run_command:
  assumes [simp]: "\<And>w n t k e. f (w\<lparr>child_pid_global := n\<rparr>) = f w" "\<And>w t. f (w\<lparr>fds := t\<rparr>) = f w"
    "\<And>w k. f (w\<lparr>next_pipe := k\<rparr>) = f w" "\<And>w e. f (w\<lparr>env := e\<rparr>) = f w"
    and ps: "\<And>w w'. program_state w = program_state w' \<Longrightarrow> f w = f w'"
  shows "keeps (run_command os cmd args) f"
proof -
  have weaken: "keeps m f" if "keeps m program_state" for m :: "('c, ('a, 'b) world_scheme) io"
    using that ps unfolding keeps_def by blast
  have launch: "keeps (posix_launch os exec args ctx) f" for exec ctx
    using keeps_posix_launch ps unfolding keeps_def by blast
  have read: "keeps (read_to_end os h acc) f" for h acc
    using keeps_process_stateD [OF keeps_read_to_end] ps unfolding keeps_def by blast
  have wait: "keeps (child_wait os c) f" for c
    using keeps_process_stateD [OF keeps_child_wait] ps unfolding keeps_def by blast
  have destroy: "f (destroy_posix_child c w) = f w" for c w
    by (rule ps) simp
  show ?thesis
    unfolding run_command_def Let_def unset_child_pid_def
    by (intro keeps_intros keeps_find_executable keeps_new_posix_context launch read wait
        keeps_set_child_pid keeps_exit_status keeps_get_stdout) (simp_all add: destroy)
qed

text \<open>
  The program that a command runs: path, arguments, empty environment, directory, and the
  descriptors under a limit on open files.
\<close>

definition runs_program ::
  "string \<Rightarrow> string list \<Rightarrow> string \<Rightarrow> int \<Rightarrow> fd_table \<Rightarrow> nat \<Rightarrow> program_image \<Rightarrow> bool" where
  "runs_program exec args dir lim t n img \<longleftrightarrow>
     image_path img = c_str exec \<and> image_argv img = map c_str args \<and> image_envp img = [] \<and>
     image_cwd img = dir \<and> image_fds img = captured_fds lim t n"

text \<open>
  What can keep the child of a command from running its program: no arguments, no room for
  the three standard descriptors, or the user ids and the directory, which are those of the
  agent, cannot be set.
\<close>

definition cannot_exec :: "'e OS \<Rightarrow> 'e \<Rightarrow> string \<Rightarrow> ids \<Rightarrow> string list \<Rightarrow> bool" where
  "cannot_exec os e dir i args \<longleftrightarrow>
     args = [] \<or> (\<forall>om e'. sys_open_max os e = Some (om, e') \<longrightarrow> max_descriptors om \<le> 2) \<or>
     (\<exists>s. \<forall>s'. run_posix_setup os (captured_setup dir i) s \<noteq> Some (Inr (), s'))"

lemma captured_runs_program:
  assumes "t r = None" "t wr = None" "r \<noteq> wr" "0 \<le> r" "0 \<le> wr"
    and "child_main os exec args [] [] [(1, capture_info r wr), (2, inherit_info)] pset
      \<lparr>child_fds = t(r := Some (Pipe_Read_End n), wr := Some (Pipe_Write_End n)),
       child_env = e\<rparr> = (Child_Execs img, e')"
  shows "\<exists>om e''. sys_open_max os e = Some (om, e'') \<and>
    runs_program exec args (work_directory pset) (max_descriptors om) t n img"
  using captured_child_main [OF assms]
  by (auto simp: runs_program_def environment_to_envp_def)

lemma captured_child_execs:
  assumes "t r = None" "t wr = None" "r \<noteq> wr" "0 \<le> r" "0 \<le> wr"
    and main: "child_main os exec args [] [] [(1, capture_info r wr), (2, inherit_info)]
      (captured_setup dir i)
      \<lparr>child_fds = t(r := Some (Pipe_Read_End n), wr := Some (Pipe_Write_End n)),
       child_env = e\<rparr> = (fate, e')"
    and can: "\<not> cannot_exec os e dir i args"
  shows "\<exists>img. fate = Child_Execs img"
proof -
  let ?infos = "[(1, capture_info r wr), (2, inherit_info)]"
  let ?s = "\<lparr>child_fds = t(r := Some (Pipe_Read_End n), wr := Some (Pipe_Write_End n)), child_env = e\<rparr>"
  obtain om e0 where om: "sys_open_max os e = Some (om, e0)" "2 < max_descriptors om"
    using can unfolding cannot_exec_def by (auto simp: not_le)
  let ?next = "?s\<lparr>child_env := e0\<rparr>"
  have limit: "child_syscall (sys_open_max os) ?s = Some (Inr om, ?next)"
    using om by (simp add: child_syscall_def)
  have "child_fds ?next = t(r := Some (Pipe_Read_End n), wr := Some (Pipe_Write_End n))" by simp
  note out = captured_setup_output [OF assms(1-5) om(2) this, of os]
  obtain s2 where s2: "child_setup os [] ?infos (captured_setup dir i) ?s =
      run_posix_setup os (captured_setup dir i) s2"
    using limit out
    by (simp add: child_setup_def io_simps Let_def max_descriptors_def [symmetric] close_unlisted_def
        modifyE_run)
  obtain s' where "run_posix_setup os (captured_setup dir i) s2 = Some (Inr (), s')"
    using can unfolding cannot_exec_def by auto
  then show ?thesis using main s2 can by (auto simp: child_main_def cannot_exec_def)
qed

lemma status_result_Inr:
  "status_result s bytes = Inr (code, out) \<longleftrightarrow>
     (\<exists>st. s = Some st \<and> exited st \<and> code = st div 256 mod 256 \<and> out = bytes)"
  by (auto simp: status_result_def split: option.splits)

text \<open>
  C1: what \<open>run_command\<close> returns is what the program did. If it returns, the executable is the one
  found in the path and a child was forked. Unless something keeps that child from \<open>execve\<close>
  (\<open>cannot_exec\<close>), it runs a program, which is given exactly the arguments, an empty
  environment, the agent's current directory, the write end of the new pipe as descriptor 1, the caller's descriptor 2, and no
  other descriptor below the limit on open files that the child read. The string is all that
  came through the pipe up to its end, or up to a read that failed, which the code takes for
  the end; and the number is the exit status of that child, which exited.
\<close>

theorem run_command_captures_output:
  assumes "pipe_documented os" and "run_command os cmd args w = Some (Inr (code, out), w')"
  shows "\<exists>exec w1 dir i ef pid e0 fate e1 e2 how e3 st e4.
    find_executable_in_path os cmd w = Some (Inr exec, w1) \<and>
    (\<exists>e e'. sys_getcwd os e = Some (Some dir, e')) \<and> dir \<noteq> [] \<and>
    (\<exists>e e'. sys_getids os e = Some (i, e')) \<and>
    sys_fork os ef = Some (pid, e0) \<and> 0 < pid \<and>
    (\<forall>img. fate = Child_Execs img \<longrightarrow>
      (\<exists>om e'. sys_open_max os e0 = Some (om, e') \<and>
         runs_program exec args dir (max_descriptors om) (fds w) (next_pipe w) img)) \<and>
    ((\<exists>img. fate = Child_Execs img) \<or> cannot_exec os e0 dir i args) \<and>
    sys_child_runs os pid fate e1 = Some ((), e2) \<and>
    stream_read os (Pipe_Read_End (next_pipe w)) e2 out how e3 \<and>
    sys_waitpid os pid e3 = Some (Some st, e4) \<and> exited st \<and>
    code = st div 256 mod 256 \<and> 0 \<le> code \<and> code < 256"
  using assms
proof (cases rule: run_command_cases)
  case (started exec w1 dir i r wr e0 fate e1 pid e2 bytes e3 s e4 ef w2)
  have image: "\<forall>img. fate = Child_Execs img \<longrightarrow> (\<exists>om e'. sys_open_max os e0 = Some (om, e') \<and>
      runs_program exec args dir (max_descriptors om) (fds w) (next_pipe w) img)"
    using captured_runs_program [OF started(3-7)] started(8) by (metis captured_setup_simps)
  have execs: "(\<exists>img. fate = Child_Execs img) \<or> cannot_exec os e0 dir i args"
    using captured_child_execs [OF started(3-8)] by blast
  obtain st where st: "s = Some st" "exited st" "code = st div 256 mod 256" "out = bytes"
    using started(12) status_result_Inr by metis
  obtain how where how: "stream_read os (Pipe_Read_End (next_pipe w)) e2 out how e3"
    using started(10) st(4) by (auto simp: stream_bytes_read_iff)
  have wait: "sys_waitpid os pid e3 = Some (Some st, e4)" using started(11) st(1) by simp
  have range: "0 \<le> code" "code < 256" using st(3) by simp_all
  show ?thesis
    by (rule exI [of _ exec], rule exI [of _ w1], rule exI [of _ dir], rule exI [of _ i],
        rule exI [of _ ef], rule exI [of _ pid], rule exI [of _ e0], rule exI [of _ fate],
        rule exI [of _ e1], rule exI [of _ e2], rule exI [of _ how], rule exI [of _ e3],
        rule exI [of _ st], rule exI [of _ e4], intro conjI)
       (fact started image execs how wait st range)+
qed simp

text \<open>A small system on which \<open>hostname\<close> runs and its status is as given.\<close>

definition host_os :: "int option \<Rightarrow> nat OS" where
  "host_os st =
     \<lparr>sys_time = (\<lambda>e. Some (0, e)), sys_rand = (\<lambda>e. Some (0, e)), sys_sleep = (\<lambda>n e. Some ((), e)),
      sys_getenv = (\<lambda>s e. Some (if s = ''PATH'' then Some ''/usr/bin:/bin'' else None, e)),
      sys_access_x = (\<lambda>f e. Some (f = ''/bin/hostname'', e)),
      sys_getcwd = (\<lambda>e. Some (Some ''/'', e)), sys_open_max = (\<lambda>e. Some (1024, e)),
      sys_getids = (\<lambda>e. Some (\<lparr>id_uid = 0, id_euid = 0, id_gid = 0, id_egid = 0\<rparr>, e)),
      sys_pipe = (\<lambda>t e. Some (if t 3 = None \<and> t 4 = None then Some (3, 4) else None, e)),
      sys_fork = (\<lambda>e. Some (100, e)), sys_child_open = (\<lambda>s t e. Some (None, e)),
      sys_child_call = (\<lambda>c e. Some (True, e)), sys_child_runs = (\<lambda>p f e. case f of Child_Execs img \<Rightarrow> Some ((), 1) | _ \<Rightarrow> None),
      sys_read = (\<lambda>f n e. if e = 1 then Some (Some ''web1.example.com\<newline>'', 2) else Some (Some [], e)),
      sys_waitpid = (\<lambda>p e. Some (st, e)), sys_list_directory = (\<lambda>s e. Some (None, e)),
      sys_exists = (\<lambda>s e. Some (None, e)), sys_send_udp = (\<lambda>p s e. Some (False, e))\<rparr>"

definition host_world :: "nat world" where
  "host_world =
     \<lparr>child_pid_global = -1, host_name_static = None,
      fds = (\<lambda>d. if d \<in> {0, 1, 2} then Some (Opened ''/dev/null'') else None), next_pipe = 0,
      env = 0\<rparr>"

lemma host_os_pipe: "pipe_documented (host_os st)"
  by (simp add: pipe_documented_def host_os_def)

lemma host_os_runs:
  "\<exists>w'. run_command (host_os (Some 768)) ''hostname'' [''hostname'', ''-f''] host_world =
    Some (Inr (3, ''web1.example.com\<newline>''), w')"
proof -
  have "map_option fst (run_command (host_os (Some 768)) ''hostname'' [''hostname'', ''-f'']
      host_world) = Some (Inr (3, ''web1.example.com\<newline>''))" by code_simp
  then show ?thesis by auto
qed

theorem run_command_captures_output_witness:
  "\<exists>exec img e1 e2 e3.
    find_executable_in_path (host_os (Some 768)) ''hostname'' host_world = Some (Inr exec, host_world) \<and>
    sys_child_runs (host_os (Some 768)) 100 (Child_Execs img) e1 = Some ((), e2) \<and>
    runs_program exec [''hostname'', ''-f''] ''/'' 1024 (fds host_world) 0 img \<and>
    image_fds img 1 = Some (Pipe_Write_End 0) \<and> image_fds img 3 = None \<and>
    stream_read (host_os (Some 768)) (Pipe_Read_End 0) e2 ''web1.example.com\<newline>'' End_Of_File e3"
proof -
  let ?os = "host_os (Some 768)"
  obtain w' where w': "run_command ?os ''hostname'' [''hostname'', ''-f''] host_world =
    Some (Inr (3, ''web1.example.com\<newline>''), w')" using host_os_runs by blast
  obtain exec w1 dir ef pid e0 fate e1 e2 how e3 where r:
    "find_executable_in_path ?os ''hostname'' host_world = Some (Inr exec, w1)"
    "\<exists>e e'. sys_getcwd ?os e = Some (Some dir, e')" "sys_fork ?os ef = Some (pid, e0)"
    "\<forall>img. fate = Child_Execs img \<longrightarrow> (\<exists>om e'. sys_open_max ?os e0 = Some (om, e') \<and>
       runs_program exec [''hostname'', ''-f''] dir (max_descriptors om) (fds host_world) (next_pipe host_world) img)"
    "sys_child_runs ?os pid fate e1 = Some ((), e2)"
    "stream_read ?os (Pipe_Read_End (next_pipe host_world)) e2 ''web1.example.com\<newline>'' how e3"
    using run_command_captures_output [OF host_os_pipe w'] by blast
  obtain img where img: "fate = Child_Execs img"
    using r(5) by (cases fate) (simp_all add: host_os_def)
  have prog: "runs_program exec [''hostname'', ''-f''] ''/'' 1024 (fds host_world) 0 img"
    using r(2,4) img by (auto simp: host_os_def max_descriptors_def host_world_def)
  have "how \<noteq> Read_Failed"
    using stream_read_failed [OF r(6)] by (auto simp: host_os_def split: if_splits)
  then have eof: "how = End_Of_File" by (cases how) auto
  have "map_option (\<lambda>(r, w). env w) (find_executable_in_path ?os ''hostname'' host_world) = Some 0"
    by code_simp
  then have "env w1 = 0" using r(1) by simp
  then have "w1 = host_world"
    using keepsD [OF keeps_find_executable [of process_state] r(1)]
    by (simp add: process_state_def program_state_def host_world_def)
  moreover have "pid = 100" using r(3) by (simp add: host_os_def)
  moreover have "image_fds img 1 = Some (Pipe_Write_End 0)" "image_fds img 3 = None"
    using prog by (simp_all add: runs_program_def captured_fds_def fileno_defs)
  ultimately show ?thesis
    using r(1,5,6) img prog eof by (auto simp: host_world_def)
qed

text \<open>
  C9: \<open>run_command\<close> leaks no descriptor. However it is left, by return or by an exception (but
  not by a failed assertion), the agent's descriptor table is what it was.
\<close>

theorem run_command_restores_descriptors:
  assumes "pipe_documented os" and "run_command os cmd args w = Some (res, w')"
    and "\<And>what. res \<noteq> Inl (Abort what)"
  shows "fds w' = fds w"
proof -
  have c: "catchable e" if "res = Inl e" for e
    using assms(3) that by (cases e) auto
  show ?thesis using assms(1,2)
  proof (cases rule: run_command_cases)
    case (not_started e)
    then show ?thesis using c by blast
  next
    case started
    show ?thesis
    proof (cases res)
      case (Inl e)
      then show ?thesis using started(13) c by blast
    next
      case (Inr r)
      then show ?thesis by (rule started(14))
    qed
  qed
qed

theorem run_command_restores_descriptors_witness:
  "\<exists>w'. run_command (host_os (Some 768)) ''hostname'' [''hostname'', ''-f''] host_world =
    Some (Inr (3, ''web1.example.com\<newline>''), w') \<and> fds w' = fds host_world"
proof -
  obtain w' where w': "run_command (host_os (Some 768)) ''hostname'' [''hostname'', ''-f''] host_world =
    Some (Inr (3, ''web1.example.com\<newline>''), w')" using host_os_runs by blast
  from run_command_restores_descriptors [OF host_os_pipe this] w' show ?thesis by auto
qed

text \<open>
  C20: which child the signal handler would signal after a command. If the command could not be
  launched (no executable, no pipe, no process), \<open>run_command\<close> ends with that exception and the
  variable is as it was. Once a child is launched, the variable is unset after a return, and
  after an exception or a failed assertion it holds the number of that child: its status could
  not be had (\<open>waitpid\<close> failed, and the exception leaves the variable set) or it was killed (and
  the agent aborts).
\<close>

theorem run_command_child_pid:
  assumes "pipe_documented os" and "run_command os cmd args w = Some (res, w')"
  shows "case launch_command os cmd args w of
      None \<Rightarrow> False
    | Some (Inl x, w1) \<Rightarrow> res = Inl x \<and> w' = w1 \<and> child_pid_global w' = child_pid_global w
    | Some (Inr child, w1) \<Rightarrow>
        0 < child_id child \<and> (\<exists>e e'. sys_fork os e = Some (child_id child, e')) \<and>
        (case res of
           Inr r \<Rightarrow> child_pid_global w' = INVALID_PID
         | Inl x \<Rightarrow> child_pid_global w' = child_id child \<and>
             (\<exists>e s e'. sys_waitpid os (child_id child) e = Some (s, e') \<and>
               (case s of None \<Rightarrow> catchable x | Some st \<Rightarrow> \<not> exited st \<and> \<not> catchable x)))"
  using assms
proof (cases rule: run_command_cases)
  case (not_started e)
  then show ?thesis by (simp add: program_state_def)
next
  case (started exec w1 dir i r wr e0 fate e1 pid e2 bytes e3 s e4 ef w2)
  have outcome: "case s of None \<Rightarrow> catchable x | Some st \<Rightarrow> \<not> exited st \<and> \<not> catchable x"
    if "res = Inl x" for x
    using that started(12) by (auto simp: status_result_def split: option.splits if_splits)
  have id: "child_id (captured_child pid r) = pid" by (simp add: captured_child_def)
  show ?thesis
    using started(2,11,15,16,17) outcome by (cases res) (auto simp: id)
qed

theorem run_command_child_pid_witness:
  "\<exists>w'. run_command (host_os None) ''hostname'' [''hostname'', ''-f''] host_world =
      Some (Inl (System_Error ''child::wait: waitpid(2) failed''), w') \<and> child_pid_global w' = 100"
proof -
  have "map_option fst
      (run_command (host_os None) ''hostname'' [''hostname'', ''-f''] host_world) =
    Some (Inl (System_Error ''child::wait: waitpid(2) failed''))" by code_simp
  then obtain w' where w': "run_command (host_os None) ''hostname'' [''hostname'', ''-f''] host_world =
      Some (Inl (System_Error ''child::wait: waitpid(2) failed''), w')"
    by auto
  have "map_option (\<lambda>(r, w). map_sum (\<lambda>_. ()) child_id r)
      (launch_command (host_os None) ''hostname'' [''hostname'', ''-f''] host_world) = Some (Inr 100)"
    by code_simp
  then obtain lres w1 where "launch_command (host_os None) ''hostname'' [''hostname'', ''-f''] host_world =
      Some (lres, w1)" "map_sum (\<lambda>_. ()) child_id lres = Inr 100"
    by auto
  then obtain child where "launch_command (host_os None) ''hostname'' [''hostname'', ''-f''] host_world =
      Some (Inr child, w1)" "child_id child = 100"
    by (cases lres) auto
  with run_command_child_pid [OF host_os_pipe w'] w' show ?thesis by auto
qed

text \<open>
  C24: a child that is killed takes the agent with it. If children always end by a signal, a run of
  \<open>run_command\<close> that gets as far as waiting for its child ends in a failed assertion, and
  no run returns.
\<close>

theorem killed_child_aborts:
  assumes "pipe_documented os" and "run_command os cmd args w = Some (res, w')"
    and "\<And>p e s e'. sys_waitpid os p e = Some (s, e') \<Longrightarrow> \<exists>st. s = Some st \<and> \<not> exited st"
  shows "(\<forall>r. res \<noteq> Inr r) \<and>
    (child_pid_global w' \<noteq> child_pid_global w \<longrightarrow> res = Inl (Abort ''exited()''))"
  using assms(1,2)
proof (cases rule: run_command_cases)
  case (not_started e)
  then show ?thesis by (simp add: program_state_def)
next
  case (started exec w1 dir i r wr e0 fate e1 pid e2 bytes e3 s e4)
  then obtain st where "s = Some st" "\<not> exited st" using assms(3) by blast
  then show ?thesis using started(12) by (simp add: status_result_def)
qed

theorem killed_child_aborts_witness:
  "\<exists>w'. run_command (host_os (Some 9)) ''hostname'' [''hostname'', ''-f''] host_world =
      Some (Inl (Abort ''exited()''), w')"
proof -
  have "map_option (\<lambda>(r, w). child_pid_global w)
      (run_command (host_os (Some 9)) ''hostname'' [''hostname'', ''-f''] host_world) = Some 100"
    by code_simp
  then obtain res w' where w': "run_command (host_os (Some 9)) ''hostname'' [''hostname'', ''-f'']
      host_world = Some (res, w')" "child_pid_global w' = 100"
    by auto
  have "child_pid_global w' \<noteq> child_pid_global host_world" using w'(2) by (simp add: host_world_def)
  with killed_child_aborts [OF host_os_pipe w'(1)] w'(1) show ?thesis
    by (auto simp: host_os_def exited_def)
qed

section \<open>Finding an executable\<close>

definition path_candidates :: "string \<Rightarrow> string \<Rightarrow> string list" where
  "path_candidates path prog =
     map (\<lambda>dir. dir @ (if ends_with_slash dir then '''' else ''/'') @ prog)
         (reference_split path (\<lambda>c. c = CHR '':''))"

lemma reference_split_takeWhile:
  "reference_split s p = takeWhile (\<lambda>c. \<not> p c) s #
     (case dropWhile (\<lambda>c. \<not> p c) s of [] \<Rightarrow> [] | c # rest \<Rightarrow> reference_split rest p)"
  by (induction s) simp_all

lemma find_in_path_first:
  assumes access: "\<And>f e. sys_access_x os f e = Some (acc f, e)" and "prog \<noteq> []"
  shows "find_in_path os prog path w =
    Some (Inr (case find acc (path_candidates path prog) of None \<Rightarrow> '''' | Some f \<Rightarrow> f), w)"
proof (induction path rule: measure_induct_rule [where f = length])
  case (less path)
  let ?dir = "takeWhile (\<lambda>c. c \<noteq> CHR '':'') path" and ?rest = "dropWhile (\<lambda>c. c \<noteq> CHR '':'') path"
  let ?f = "?dir @ (if ends_with_slash ?dir then '''' else ''/'') @ prog"
  have probe: "syscall (sys_access_x os ?f) w = Some (Inr (acc ?f), w)"
    by (simp add: syscall_run [of _ _ "acc ?f" "env w"] access)
  have cands: "path_candidates path prog =
      ?f # (case ?rest of [] \<Rightarrow> [] | c # rest \<Rightarrow> path_candidates rest prog)"
    by (simp add: path_candidates_def reference_split_takeWhile [of path]
        del: dropWhile_eq_Nil_conv split: list.split)
  have step: "find_in_path os prog path w =
      (if ?rest \<noteq> [] \<and> \<not> acc ?f then find_in_path os prog (tl ?rest) w
       else Some (Inr (if acc ?f then ?f else ''''), w))"
    using assms(2)
    by (subst find_in_path.simps) (simp only: Let_def bindE_value [where m = "syscall _", OF probe],
        simp add: ret_run)
  show ?case
  proof (cases "?rest \<noteq> [] \<and> \<not> acc ?f")
    case True
    then have "length (tl ?rest) < length path" using length_tl_dropWhile by blast
    then show ?thesis using less [of "tl ?rest"] step cands True by (cases ?rest) auto
  next
    case False
    then show ?thesis using step cands by (cases ?rest) (auto split: list.splits)
  qed
qed

text \<open>
  The executable is the first accessible one of the path. Over a system that answers the same
  every time, and for a name without a slash and a path that is not empty, the result is the
  first of the components, in order, each with one slash and the name appended, that is
  accessible; if there is none, or no path, an exception. An empty component gives a file
  of the root directory.
\<close>

lemma find_executable_first:
  assumes access: "\<And>f e. sys_access_x os f e = Some (acc f, e)"
    and path: "\<And>e. sys_getenv os ''PATH'' e = Some (path, e)"
    and "prog \<noteq> []" and "CHR ''/'' \<notin> set prog" and "path \<noteq> Some []"
  shows "find_executable_in_path os prog w =
    (case path of
       None \<Rightarrow> Some (Inl (Filesystem_Error ''find_executable_in_path: retrieving PATH failed''), w)
     | Some p \<Rightarrow>
         (case find acc (path_candidates p prog) of
            None \<Rightarrow> Some (Inl (Filesystem_Error ''find_executable_in_path: file not found''), w)
          | Some f \<Rightarrow> Some (Inr f, w)))"
proof -
  have found: "f \<noteq> []" if "find acc (path_candidates p prog) = Some f" for p f
    using that assms(3) by (auto simp: find_Some_iff path_candidates_def)
  have noslash: "assertE (CHR ''/'' \<notin> set prog) s = ret ()" for s
    using assms(4) by (simp add: assertE_def)
  show ?thesis
  proof (cases path)
    case None
    then show ?thesis using path
      by (simp add: find_executable_in_path_def io_simps noslash)
  next
    case (Some p)
    then have nonempty: "assertE (p \<noteq> []) s = ret ()" for s
      using assms(5) by (simp add: assertE_def)
    show ?thesis using path Some find_in_path_first [OF access assms(3), of p w]
      by (auto simp: find_executable_in_path_def thenE_def noslash nonempty bindE_def syscall_def ret_def
          throw_def dest: found split: option.splits)
  qed
qed

lemma find_executable_first_witness:
  "find_executable_in_path (host_os None) ''hostname'' host_world =
     Some (Inr ''/bin/hostname'', host_world) \<and>
   path_candidates '':/bin/'' ''ls'' = [''/ls'', ''/bin/ls'']"
proof
  have "find (\<lambda>f. f = ''/bin/hostname'') (path_candidates ''/usr/bin:/bin'' ''hostname'') =
    Some ''/bin/hostname''" by code_simp
  moreover have "find_executable_in_path (host_os None) ''hostname'' host_world =
    (case Some ''/usr/bin:/bin'' of
       None \<Rightarrow> Some (Inl (Filesystem_Error ''find_executable_in_path: retrieving PATH failed''),
                     host_world)
     | Some p \<Rightarrow>
         (case find (\<lambda>f. f = ''/bin/hostname'') (path_candidates p ''hostname'') of
            None \<Rightarrow> Some (Inl (Filesystem_Error ''find_executable_in_path: file not found''),
                          host_world)
          | Some f \<Rightarrow> Some (Inr f, host_world)))"
    by (rule find_executable_first) (simp_all add: host_os_def)
  ultimately show "find_executable_in_path (host_os None) ''hostname'' host_world =
     Some (Inr ''/bin/hostname'', host_world)" by simp
  show "path_candidates '':/bin/'' ''ls'' = [''/ls'', ''/bin/ls'']" by code_simp
qed

end
