(* ===== verification/File_Ops.thy ===== *)
theory File_Ops
  imports Helpers
begin

text \<open>
  \<^verbatim>\<open>barn-agent/src/files.h\<close>: the \<open>FileOps\<close> class as a record of its virtual functions (so
  that the agent can be run over any implementation, as its tests do), the path functions,
  and \<open>is_svlogd_filename\<close> of \<^verbatim>\<open>rsync.h\<close>. What the agent relies on is stated as
  locales; the implementation's theory interprets them.
\<close>

definition EMERGENCY_STOP_FILENAME :: string where
  "EMERGENCY_STOP_FILENAME = ''STOP_SHIPPING''"

definition RSYNC_PATH_SEPARATOR :: string where
  "RSYNC_PATH_SEPARATOR = ''/''"

definition join_path :: "string \<Rightarrow> string \<Rightarrow> string" where
  "join_path dir file =
     (if 0 < size dir \<and> last dir \<noteq> CHR ''/'' then dir @ ''/'' @ file else dir @ file)"

text \<open>The overload that joins every name of a list.\<close>

definition join_paths :: "string \<Rightarrow> string list \<Rightarrow> string list" where
  "join_paths dir files = map (\<lambda>f. join_path dir f) files"

text \<open>\<open>filename[0]\<close> of an empty \<open>std::string\<close> is the null character.\<close>

definition is_svlogd_filename :: "string \<Rightarrow> bool" where
  "is_svlogd_filename filename =
     ((case filename of [] \<Rightarrow> CHR 0x00 | c # _ \<Rightarrow> c) = CHR ''@'')"

lemma is_svlogd_iff: "is_svlogd_filename f \<longleftrightarrow> (\<exists>rest. f = CHR ''@'' # rest)"
  by (auto simp: is_svlogd_filename_def split: list.splits)

lemma join_path_inj: "join_path d f = join_path d g \<longleftrightarrow> f = g"
  by (simp add: join_path_def)

record 'w FileOps =
  wait_for_new_file_in_directory :: "string \<Rightarrow> int \<Rightarrow> (bool, 'w) io"
  file_exists :: "string \<Rightarrow> (bool, 'w) io"
  list_log_directory :: "string \<Rightarrow> (FileNameList, 'w) io"
  log_files_not_on_target ::
    "string \<Rightarrow> FileNameList \<Rightarrow> string \<Rightarrow> (FileNameList Validation, 'w) io"
  ship_file :: "string \<Rightarrow> string \<Rightarrow> (bool, 'w) io"

section \<open>What the agent relies on\<close>

text \<open>Listings come sorted, and nothing is missing of nothing.\<close>

locale sorted_file_ops =
  fixes fo :: "'w FileOps"
  assumes listing_sorted:
      "list_log_directory fo d w = Some (Inr fs, w') \<Longrightarrow> sorted fs"
    and missing_sorted:
      "log_files_not_on_target fo d fs t w = Some (Inr (Inr ms), w') \<Longrightarrow> sorted ms"

text \<open>The operations leave the view \<open>view\<close> of the state alone.\<close>

locale framed_file_ops =
  fixes fo :: "'w FileOps" and view :: "'w \<Rightarrow> 'v"
  assumes keeps_wait: "keeps (wait_for_new_file_in_directory fo d n) view"
    and keeps_exists: "keeps (file_exists fo p) view"
    and keeps_list: "keeps (list_log_directory fo d) view"
    and keeps_missing: "keeps (log_files_not_on_target fo d fs t) view"
    and keeps_ship: "keeps (ship_file fo p t) view"

text \<open>
  A destination: the files of a directory and those the destination holds, as the code
  expects to find them. A listing is strictly ascending; the missing files are the listed
  ones the destination lacks, in order; a file that was shipped is there afterwards, and a
  file that was not shipped changes nothing. \<open>ok\<close> says for which files shipping works. Asking
  may change the state, but not what it holds as a store.
\<close>

definition same_store ::
  "('w \<Rightarrow> bool) \<Rightarrow> ('w \<Rightarrow> FileNameList) \<Rightarrow> ('w \<Rightarrow> FileName set) \<Rightarrow> ('w \<Rightarrow> FileName \<Rightarrow> bool) \<Rightarrow>
   'w \<Rightarrow> 'w \<Rightarrow> bool" where
  "same_store good local_files remote_files ok w w' \<longleftrightarrow>
     good w' \<and> local_files w' = local_files w \<and> remote_files w' = remote_files w \<and> ok w' = ok w"

locale file_store =
  fixes fo :: "'w FileOps"
    and good :: "'w \<Rightarrow> bool"
    and local_files :: "'w \<Rightarrow> FileNameList"
    and remote_files :: "'w \<Rightarrow> FileName set"
    and ok :: "'w \<Rightarrow> FileName \<Rightarrow> bool"
    and dir :: string
    and target :: string
  assumes store_list: "good w \<Longrightarrow> \<exists>w'. list_log_directory fo dir w = Some (Inr (local_files w), w') \<and>
      same_store good local_files remote_files ok w w'"
    and store_local: "good w \<Longrightarrow> sorted (local_files w) \<and> distinct (local_files w)"
    and store_missing: "good w \<Longrightarrow>
      \<exists>w'. log_files_not_on_target fo dir (local_files w) target w =
        Some (Inr (Inr (filter (\<lambda>f. f \<notin> remote_files w) (local_files w))), w') \<and>
      same_store good local_files remote_files ok w w'"
    and store_exists: "good w \<Longrightarrow> f \<in> set (local_files w) \<Longrightarrow>
      \<exists>w'. file_exists fo (join_path dir f) w = Some (Inr True, w') \<and>
      same_store good local_files remote_files ok w w'"
    and store_ship: "good w \<Longrightarrow> f \<in> set (local_files w) \<Longrightarrow>
      (\<forall>g \<in> remote_files w \<inter> set (local_files w). g < f) \<Longrightarrow>
      \<exists>w'. ship_file fo (join_path dir f) target w = Some (Inr (ok w f), w') \<and> good w' \<and>
        local_files w' = local_files w \<and> ok w' = ok w \<and>
        remote_files w' = (if ok w f then insert f (remote_files w) else remote_files w)"

end
