(* ===== verification/Rsync.thy ===== *)
theory Rsync
  imports Process File_Ops
begin

text \<open>
  \<^verbatim>\<open>barn-agent/src/rsync.cpp\<close>: the destination address, running rsync with retries, reading
  the list of missing files from its output, and shipping one file. \<open>boost::split\<close> is the
  parameter \<open>boost_split\<close> of Helpers.
\<close>

section \<open>Constants\<close>

definition RSYNC_NUM_RETRIES :: nat where "RSYNC_NUM_RETRIES = 2"
definition PARTIAL_TRANSFER :: int where "PARTIAL_TRANSFER = 23"
definition CLIENT_SERVER_PROTOCOL :: int where "CLIENT_SERVER_PROTOCOL = 5"
definition PARTIAL_TRANSFER_DUE_VANISHED_SOURCE :: int where
  "PARTIAL_TRANSFER_DUE_VANISHED_SOURCE = 24"
definition rsync_executable_name :: string where "rsync_executable_name = ''rsync''"
definition rsync_protocol :: string where "rsync_protocol = ''rsync://''"
definition rsync_dry_run_flag :: string where "rsync_dry_run_flag = ''--dry-run''"

definition RSYNC_FLAGS :: "string list" where
  "RSYNC_FLAGS = [''--times'', ''--verbose'', ''--timeout=30'']"

lemmas rsync_constants =
  RSYNC_NUM_RETRIES_def PARTIAL_TRANSFER_def CLIENT_SERVER_PROTOCOL_def
  PARTIAL_TRANSFER_DUE_VANISHED_SOURCE_def rsync_executable_name_def rsync_protocol_def
  rsync_dry_run_flag_def RSYNC_FLAGS_def

section \<open>get\_rsync\_target\<close>

text \<open>
  The static \<open>host_name\<close> is initialised by the first call. An initialisation that throws
  leaves it uninitialised, and the next call tries again.
\<close>

definition static_host_name :: "'e OS \<Rightarrow> (string, ('e, 'z) world_scheme) io" where
  "static_host_name os =
     bindE (getE host_name_static) (\<lambda>h.
       case h of
         Some host_name \<Rightarrow> ret host_name
       | None \<Rightarrow>
           bindE (get_host_name os) (\<lambda>host_name.
           thenE (modifyE (\<lambda>w. w\<lparr>host_name_static := Some host_name\<rparr>)) (ret host_name)))"

definition get_rsync_target ::
  "'e OS \<Rightarrow> string \<Rightarrow> string \<Rightarrow> string \<Rightarrow> string \<Rightarrow> (string, ('e, 'z) world_scheme) io" where
  "get_rsync_target os destination_host_addr rsync_namespace service cat =
     bindE (static_host_name os) (\<lambda>host_name.
       ret (rsync_protocol @ destination_host_addr
          @ RSYNC_PATH_SEPARATOR @ rsync_namespace
          @ RSYNC_PATH_SEPARATOR @ service
          @ ''@'' @ cat
          @ ''@'' @ host_name @ RSYNC_PATH_SEPARATOR))"

section \<open>do\_rsync\<close>

text \<open>The loop, from the number of the try and the output so far.\<close>

function do_rsync_loop ::
  "'e OS \<Rightarrow> string list \<Rightarrow> nat \<Rightarrow> int \<times> string \<Rightarrow> (int \<times> string, ('e, 'z) world_scheme) io" where
  "do_rsync_loop os args tri rsync_output =
     (if tri \<le> RSYNC_NUM_RETRIES
      then bindE (run_command os ''rsync'' args) (\<lambda>rsync_output'.
             if fst rsync_output' \<noteq> CLIENT_SERVER_PROTOCOL then ret rsync_output'
             else do_rsync_loop os args (tri + 1) rsync_output')
      else ret rsync_output)"
  by pat_completeness auto
termination
  by (relation "measure (\<lambda>(os, args, tri, out). Suc RSYNC_NUM_RETRIES - tri)") auto

declare do_rsync_loop.simps [simp del]

definition do_rsync :: "'e OS \<Rightarrow> string list \<Rightarrow> (int \<times> string, ('e, 'z) world_scheme) io" where
  "do_rsync os args = do_rsync_loop os args 0 (0, '''')"

section \<open>log\_files\_not\_on\_target and ship\_file\<close>

definition get_rsync_candidates :: "splitter \<Rightarrow> string \<Rightarrow> string list" where
  "get_rsync_candidates boost_split rsync_output =
     filter is_svlogd_filename (split boost_split rsync_output (CHR 0x0A))"

definition rsync_dry_run :: "string \<Rightarrow> FileNameList \<Rightarrow> string \<Rightarrow> string list" where
  "rsync_dry_run log_directory files target =
     [rsync_executable_name, rsync_dry_run_flag] @ RSYNC_FLAGS @ join_paths log_directory files
     @ [target]"

definition rsync_log_files_not_on_target ::
  "'e OS \<Rightarrow> splitter \<Rightarrow> string \<Rightarrow> FileNameList \<Rightarrow> string \<Rightarrow>
   (FileNameList Validation, ('e, 'z) world_scheme) io" where
  "rsync_log_files_not_on_target os boost_split log_directory files target =
     (if length files = 0 then ret (Inr [])
      else bindE (do_rsync os (rsync_dry_run log_directory files target)) (\<lambda>rsync_output.
        if fst rsync_output \<noteq> 0 \<and> fst rsync_output \<noteq> PARTIAL_TRANSFER \<and>
           fst rsync_output \<noteq> PARTIAL_TRANSFER_DUE_VANISHED_SOURCE
        then ret (Inl (''Failed to retrieve sync list: '' @ snd rsync_output))
        else ret (Inr (sort (get_rsync_candidates boost_split (snd rsync_output))))))"

definition rsync_wet_run :: "string \<Rightarrow> string \<Rightarrow> string list" where
  "rsync_wet_run file_path target =
     rsync_executable_name # RSYNC_FLAGS @ [file_path, target]"

definition rsync_ship_file ::
  "'e OS \<Rightarrow> string \<Rightarrow> string \<Rightarrow> (bool, ('e, 'z) world_scheme) io" where
  "rsync_ship_file os file_path target =
     bindE (do_rsync os (rsync_wet_run file_path target)) (\<lambda>out. ret (fst out = 0))"

section \<open>Frames\<close>

text \<open>Views of the state that running commands leaves alone.\<close>

definition command_view :: "(('e, 'z) world_scheme \<Rightarrow> 'v) \<Rightarrow> bool" where
  "command_view f \<longleftrightarrow>
     (\<forall>w. \<forall>n. f (w\<lparr>child_pid_global := n\<rparr>) = f w) \<and>
     (\<forall>w w'. program_state w = program_state w' \<longrightarrow> f w = f w')"

lemma keeps_command:
  assumes "command_view f"
  shows "keeps (run_command os cmd args) f"
proof -
  have ps: "f w = f w'" if "program_state w = program_state w'" for w w'
    using assms that unfolding command_view_def by blast
  show ?thesis
  proof (rule keeps_run_command)
    show "f (w\<lparr>child_pid_global := n\<rparr>) = f w" for w n
      using assms unfolding command_view_def by blast
    show "f w = f w'" if "program_state w = program_state w'" for w w' by (rule ps [OF that])
  qed (rule ps, simp)+
qed

lemma command_view_host_name: "command_view host_name_static"
  by (simp add: command_view_def program_state_def)

lemma command_view_more: "command_view world.more"
  by (simp add: command_view_def program_state_def)

lemma keeps_do_rsync_loop: "command_view f \<Longrightarrow> keeps (do_rsync_loop os args tri out) f"
proof (induction os args tri out rule: do_rsync_loop.induct)
  case (1 os args tri out)
  then show ?case
    by (subst do_rsync_loop.simps) (intro keeps_intros keeps_command; auto)
qed

lemma keeps_do_rsync: "command_view f \<Longrightarrow> keeps (do_rsync os args) f"
  by (simp add: do_rsync_def keeps_do_rsync_loop)

lemma keeps_rsync_missing: "command_view f \<Longrightarrow> keeps (rsync_log_files_not_on_target os bs d fs t) f"
  unfolding rsync_log_files_not_on_target_def by (intro keeps_intros keeps_do_rsync)

lemma keeps_rsync_ship: "command_view f \<Longrightarrow> keeps (rsync_ship_file os p t) f"
  unfolding rsync_ship_file_def by (intro keeps_intros keeps_do_rsync)

section \<open>What do\_rsync runs\<close>

text \<open>Successive runs of one command, with their results.\<close>

inductive command_runs ::
  "'e OS \<Rightarrow> string list \<Rightarrow> ('e, 'z) world_scheme \<Rightarrow> (int \<times> string) list \<Rightarrow>
   ('e, 'z) world_scheme \<Rightarrow> bool" for os args where
  runs_none: "command_runs os args w [] w"
| runs_one: "run_command os ''rsync'' args w = Some (Inr r, w1) \<Longrightarrow>
    command_runs os args w1 rs w' \<Longrightarrow> command_runs os args w (r # rs) w'"

inductive_simps command_runs_simps [simp]:
  "command_runs os args w [] w'"
  "command_runs os args w (r # rs) w'"

lemma do_rsync_loop_runs:
  assumes "do_rsync_loop os args tri out0 w = Some (Inr out, w')" and "tri \<le> RSYNC_NUM_RETRIES"
  shows "\<exists>rs. command_runs os args w (rs @ [out]) w' \<and> length rs + tri \<le> RSYNC_NUM_RETRIES \<and>
    list_all (\<lambda>r. fst r = CLIENT_SERVER_PROTOCOL) rs \<and>
    (fst out = CLIENT_SERVER_PROTOCOL \<longrightarrow> length rs + tri = RSYNC_NUM_RETRIES)"
  using assms
proof (induction os args tri out0 arbitrary: w rule: do_rsync_loop.induct)
  case (1 os args tri out0)
  from 1(2,3) obtain r w1 where r: "run_command os ''rsync'' args w = Some (Inr r, w1)"
    and rest: "(if fst r \<noteq> CLIENT_SERVER_PROTOCOL then ret r
      else do_rsync_loop os args (tri + 1) r) w1 = Some (Inr out, w')"
    unfolding do_rsync_loop.simps [of os args tri] by (auto simp: bindE_Inr)
  show ?case
  proof (cases "fst r \<noteq> CLIENT_SERVER_PROTOCOL")
    case True
    then show ?thesis using r rest 1(3) by (intro exI [of _ "[]"]) (auto simp: ret_run)
  next
    case False
    then have loop: "do_rsync_loop os args (tri + 1) r w1 = Some (Inr out, w')" using rest by simp
    show ?thesis
    proof (cases "tri + 1 \<le> RSYNC_NUM_RETRIES")
      case True
      from 1(1) [OF 1(3) False [unfolded not_not, THEN not_not [THEN iffD2]] loop True]
      obtain rs where "command_runs os args w1 (rs @ [out]) w'"
        "length rs + (tri + 1) \<le> RSYNC_NUM_RETRIES"
        "list_all (\<lambda>r. fst r = CLIENT_SERVER_PROTOCOL) rs"
        "fst out = CLIENT_SERVER_PROTOCOL \<longrightarrow> length rs + (tri + 1) = RSYNC_NUM_RETRIES"
        by blast
      then show ?thesis using r False by (intro exI [of _ "r # rs"]) auto
    next
      case last: False
      then have "r = out" "w1 = w'"
        using loop last unfolding do_rsync_loop.simps [of os args "tri + 1" r]
        by (auto simp: ret_run)
      then show ?thesis using r 1(3) last by (intro exI [of _ "[]"]) auto
    qed
  qed
qed

text \<open>Cutting what was joined gives back the tokens.\<close>

lemma join_with_unique:
  assumes "ts \<noteq> []" "us \<noteq> []" "\<forall>t \<in> set ts. d \<notin> set t" "\<forall>u \<in> set us. d \<notin> set u"
    and "join_with d ts = join_with d us"
  shows "ts = us"
  using assms
proof (induction ts arbitrary: us)
  case Nil
  then show ?case by simp
next
  case (Cons t ts)
  obtain u vs where us: "us = u # vs" using Cons.prems(2) by (cases us) auto
  have head: "takeWhile (\<lambda>c. c \<noteq> d) (join_with d (x # xs)) = x \<and>
      dropWhile (\<lambda>c. c \<noteq> d) (join_with d (x # xs)) = (if xs = [] then [] else d # join_with d xs)"
    if "d \<notin> set x" for x xs
  proof -
    have all: "c \<noteq> d" if "c \<in> set x" for c using that \<open>d \<notin> set x\<close> by auto
    then show ?thesis
      by (cases xs) (simp_all add: takeWhile_append2 [OF all] dropWhile_append2 [OF all])
  qed
  have "t = u" and rest: "(if ts = [] then [] else d # join_with d ts) =
      (if vs = [] then [] else d # join_with d vs)"
    using head [of t ts] head [of u vs] Cons.prems us by auto
  show ?case
  proof (cases "ts = []")
    case True
    then show ?thesis using rest \<open>t = u\<close> us by (simp split: if_splits)
  next
    case False
    then have "vs \<noteq> []" "join_with d ts = join_with d vs" using rest by (auto split: if_splits)
    then show ?thesis using Cons.IH [of vs] Cons.prems False us \<open>t = u\<close> by auto
  qed
qed

lemma split_join:
  assumes "split_documented bs" and "ts \<noteq> []" and "\<forall>t \<in> set ts. d \<notin> set t"
  shows "split bs (join_with d ts) d = ts"
proof -
  let ?us = "split bs (join_with d ts) d"
  have "?us \<noteq> []" "\<forall>u \<in> set ?us. d \<notin> set u" "join_with d ?us = join_with d ts"
    using assms(1) by (auto simp: split_documented_def split_def Let_def)
  then show ?thesis using join_with_unique [of ?us ts d] assms(2,3) by simp
qed

section \<open>Properties\<close>

text \<open>
  C10: rsync is tried at most three times, and again only after a protocol error. If \<open>do_rsync\<close>
  returns, there was a sequence of runs of the command with the same arguments; all but the
  last ended with the exit code of a protocol error; the result is that of the last; and it is
  a protocol error only if there were three runs.
\<close>

theorem do_rsync_retries:
  assumes "do_rsync os args w = Some (Inr out, w')"
  shows "\<exists>rs. command_runs os args w (rs @ [out]) w' \<and> length rs \<le> 2 \<and>
    list_all (\<lambda>r. fst r = CLIENT_SERVER_PROTOCOL) rs \<and>
    (fst out = CLIENT_SERVER_PROTOCOL \<longrightarrow> length rs = 2)"
  using do_rsync_loop_runs [OF assms [unfolded do_rsync_def]] by (simp add: rsync_constants)

text \<open>
  A system whose children are a script: what each writes, and its exit code. The surroundings
  are the rest of the script, the output that was not read yet, and the last exit code.
\<close>

type_synonym script = "(string \<times> int) list \<times> string \<times> int"

definition script_os :: "script OS" where
  "script_os =
     \<lparr>sys_time = (\<lambda>e. Some (0, e)), sys_rand = (\<lambda>e. Some (0, e)), sys_sleep = (\<lambda>n e. Some ((), e)),
      sys_getenv = (\<lambda>s e. Some (Some ''/bin'', e)), sys_access_x = (\<lambda>f e. Some (True, e)),
      sys_getcwd = (\<lambda>e. Some (Some ''/'', e)), sys_open_max = (\<lambda>e. Some (-1, e)),
      sys_getids = (\<lambda>e. Some (\<lparr>id_uid = 0, id_euid = 0, id_gid = 0, id_egid = 0\<rparr>, e)),
      sys_pipe = (\<lambda>t e. Some (if t 3 = None \<and> t 4 = None then Some (3, 4) else None, e)),
      sys_fork = (\<lambda>e. Some (100, e)), sys_child_open = (\<lambda>s t e. Some (None, e)),
      sys_child_call = (\<lambda>c e. Some (True, e)),
      sys_child_runs = (\<lambda>p f (script, out, code).
        Some ((), case script of [] \<Rightarrow> ([], [], 127) | (o1, c1) # rest \<Rightarrow> (rest, o1, c1))),
      sys_read = (\<lambda>f n (script, out, code). Some (Some out, (script, [], code))),
      sys_waitpid = (\<lambda>p (script, out, code). Some (Some (code * 256), (script, out, code))),
      sys_list_directory = (\<lambda>s e. Some (Some [''current'', ''@2'', ''lock'', ''@1''], e)),
      sys_exists = (\<lambda>s e. Some (Some True, e)), sys_send_udp = (\<lambda>p s e. Some (True, e))\<rparr>"

definition script_world :: "(string \<times> int) list \<Rightarrow> script world" where
  "script_world s =
     \<lparr>child_pid_global = -1, host_name_static = None,
      fds = (\<lambda>d. if d \<in> {0, 1, 2} then Some (Opened ''/dev/null'') else None), next_pipe = 0,
      env = (s, [], 0)\<rparr>"

lemma script_os_pipe: "pipe_documented script_os"
  by (simp add: pipe_documented_def script_os_def)

theorem do_rsync_retries_witness:
  "\<exists>rs w'. command_runs script_os [''rsync''] (script_world [([], 5), (''x'', 0)])
     (rs @ [(0, ''x'')]) w' \<and> length rs \<le> 2"
proof -
  have "map_option fst (do_rsync script_os [''rsync''] (script_world [([], 5), (''x'', 0)])) =
    Some (Inr (0, ''x''))" by code_simp
  then obtain w' where "do_rsync script_os [''rsync''] (script_world [([], 5), (''x'', 0)]) =
    Some (Inr (0, ''x''), w')" by auto
  from do_rsync_retries [OF this] show ?thesis by blast
qed

text \<open>
  C11: the list of missing files is read back from rsync's output. For a \<open>boost::split\<close> as
  documented: if the dry run over a listing that is not empty printed some lines, the result is the sorted list of
  those that start with \<open>@\<close> when the exit code is 0, 23 (partial transfer) or 24 (files
  vanished), and an error carrying the output for every other code.
\<close>

theorem missing_files_read_back:
  assumes "split_documented bs" and "lines \<noteq> []" and "\<forall>l \<in> set lines. CHR 0x0A \<notin> set l"
    and "do_rsync os (rsync_dry_run d fs t) w = Some (Inr (code, join_with (CHR 0x0A) lines), w')"
    and "fs \<noteq> []"
  shows "rsync_log_files_not_on_target os bs d fs t w =
    Some (Inr (if code \<in> {0, 23, 24} then Inr (sort (filter (\<lambda>l. \<exists>rest. l = CHR ''@'' # rest) lines))
      else Inl (''Failed to retrieve sync list: '' @ join_with (CHR 0x0A) lines)), w')"
proof -
  have "is_svlogd_filename = (\<lambda>l. \<exists>rest. l = CHR ''@'' # rest)"
    by (rule ext) (rule is_svlogd_iff)
  then show ?thesis
    using assms(4,5) split_join [OF assms(1-3)]
    by (simp add: rsync_log_files_not_on_target_def io_simps get_rsync_candidates_def rsync_constants)
qed

theorem missing_files_read_back_witness:
  "\<exists>w'. rsync_log_files_not_on_target script_os reference_split ''/log'' [''@1'', ''@2'', ''@3''] ''t''
     (script_world [(''sending\<newline>@3\<newline>@1\<newline>'', 24)]) = Some (Inr (Inr [''@1'', ''@3'']), w')"
proof -
  let ?lines = "[''sending'', ''@3'', ''@1'', '''']"
  have "map_option fst (do_rsync script_os (rsync_dry_run ''/log'' [''@1'', ''@2'', ''@3''] ''t'')
      (script_world [(''sending\<newline>@3\<newline>@1\<newline>'', 24)])) =
    Some (Inr (24, ''sending\<newline>@3\<newline>@1\<newline>''))" by code_simp
  moreover have "join_with (CHR 0x0A) ?lines = ''sending\<newline>@3\<newline>@1\<newline>''" by code_simp
  ultimately obtain w' where run: "do_rsync script_os
      (rsync_dry_run ''/log'' [''@1'', ''@2'', ''@3''] ''t'')
      (script_world [(''sending\<newline>@3\<newline>@1\<newline>'', 24)]) =
    Some (Inr (24, join_with (CHR 0x0A) ?lines), w')" by auto
  have "sort (filter (\<lambda>l. \<exists>rest. l = CHR ''@'' # rest) ?lines) = [''@1'', ''@3'']"
  proof -
    have f: "filter (\<lambda>l. \<exists>rest. l = CHR ''@'' # rest) ?lines = [''@3'', ''@1'']" by simp
    have "sort [''@3'', ''@1''] = [''@1'', ''@3'']" by code_simp
    then show ?thesis by (simp only: f)
  qed
  with missing_files_read_back [OF reference_split_documented _ _ run] show ?thesis by simp
qed

text \<open>
  All targets of one agent carry one host name. After a call that returned, every further
  call runs no command, changes nothing, and gives an address that ends in the same host name,
  whatever its arguments.
\<close>

lemma rsync_target_host_name:
  assumes "get_rsync_target os addr ns service cat w = Some (Inr target, w')"
  shows "\<exists>host_name. target = ''rsync://'' @ addr @ ''/'' @ ns @ ''/'' @ service @ ''@'' @ cat @ ''@''
      @ host_name @ ''/'' \<and>
    (\<forall>addr2 ns2 service2 cat2. get_rsync_target os addr2 ns2 service2 cat2 w' =
      Some (Inr (''rsync://'' @ addr2 @ ''/'' @ ns2 @ ''/'' @ service2 @ ''@'' @ cat2 @ ''@''
        @ host_name @ ''/''), w'))"
proof -
  obtain h where h: "static_host_name os w = Some (Inr h, w')"
    and t: "target = ''rsync://'' @ addr @ ''/'' @ ns @ ''/'' @ service @ ''@'' @ cat @ ''@'' @ h @ ''/''"
    using assms
    by (auto simp: get_rsync_target_def bindE_Inr ret_run rsync_constants RSYNC_PATH_SEPARATOR_def)
  have "host_name_static w' = Some h"
    using h by (auto simp: static_host_name_def bindE_Inr getE_run thenE_run modifyE_run ret_run
        split: option.splits)
  then have "static_host_name os w' = Some (Inr h, w')"
    by (simp add: static_host_name_def io_simps)
  then show ?thesis using t
    by (intro exI [of _ h])
       (simp add: get_rsync_target_def io_simps rsync_constants RSYNC_PATH_SEPARATOR_def)
qed

lemma rsync_target_host_name_witness:
  "\<exists>w'. get_rsync_target script_os ''a:1'' ''logs'' ''app'' ''main'' (script_world [(''web1\<newline>'', 0)]) =
      Some (Inr ''rsync://a:1/logs/app@main@web1/'', w') \<and>
    get_rsync_target script_os ''b:2'' ''backup'' ''app'' ''main'' w' =
      Some (Inr ''rsync://b:2/backup/app@main@web1/'', w')"
proof -
  have "map_option fst (get_rsync_target script_os ''a:1'' ''logs'' ''app'' ''main''
      (script_world [(''web1\<newline>'', 0)])) = Some (Inr ''rsync://a:1/logs/app@main@web1/'')" by code_simp
  then obtain w' where run: "get_rsync_target script_os ''a:1'' ''logs'' ''app'' ''main''
      (script_world [(''web1\<newline>'', 0)]) = Some (Inr ''rsync://a:1/logs/app@main@web1/'', w')" by auto
  from rsync_target_host_name [OF run] obtain h where h:
    "''rsync://a:1/logs/app@main@web1/'' =
      ''rsync://'' @ ''a:1'' @ ''/'' @ ''logs'' @ ''/'' @ ''app'' @ ''@'' @ ''main'' @ ''@'' @ h @ ''/''"
    "get_rsync_target script_os ''b:2'' ''backup'' ''app'' ''main'' w' =
      Some (Inr (''rsync://'' @ ''b:2'' @ ''/'' @ ''backup'' @ ''/'' @ ''app'' @ ''@'' @ ''main'' @ ''@''
        @ h @ ''/''), w')" by blast
  have "h @ ''/'' = ''web1'' @ ''/''" using h(1) by simp
  then have "h = ''web1''" by (simp only: append_same_eq)
  then show ?thesis using run h(2) by auto
qed

end
