(* ===== verification/Metrics.thy ===== *)
theory Metrics
  imports Barn_Prelude
begin

text \<open>
  \<^verbatim>\<open>barn-agent/src/metrics.h\<close>: the metric names, the list of metrics that are published as
  zero, and the \<open>Metrics\<close> interface with its do-nothing implementation.
\<close>

definition FilesToShip :: string where "FilesToShip = ''barn_files_to_ship''"
definition FailedToGetSyncList :: string where
  "FailedToGetSyncList = ''barn_failed_to_get_sync_list''"
definition FullDirectoryShip :: string where
  "FullDirectoryShip = ''barn_shipping_entire_log_directory''"
definition RotatedDuringShip :: string where "RotatedDuringShip = ''barn_rotated_during_ship''"
definition LostDuringShip :: string where "LostDuringShip = ''barn_lost_during_ship''"
definition NumFilesShipped :: string where "NumFilesShipped = ''barn_files_shipped''"
definition TimeSinceSuccess :: string where "TimeSinceSuccess = ''time_since_success''"
definition FailedOverAgents :: string where "FailedOverAgents = ''failed_over_agents''"

definition DefaultZeroMetrics :: "string list" where
  "DefaultZeroMetrics =
     [FilesToShip, FailedToGetSyncList, FullDirectoryShip, RotatedDuringShip,
      NumFilesShipped, LostDuringShip, FullDirectoryShip, FailedOverAgents]"

lemmas metric_names =
  FilesToShip_def FailedToGetSyncList_def FullDirectoryShip_def RotatedDuringShip_def
  LostDuringShip_def NumFilesShipped_def TimeSinceSuccess_def FailedOverAgents_def

text \<open>The abstract class: its two fields and its one virtual function.\<close>

record 'w Metrics =
  metrics_service_name :: string
  metrics_category :: string
  send_metric :: "string \<Rightarrow> int \<Rightarrow> (unit, 'w) io"

definition NoOpMetrics :: "'w Metrics" where
  "NoOpMetrics = \<lparr>metrics_service_name = '''', metrics_category = '''',
     send_metric = (\<lambda>key value. ret ())\<rparr>"

end
