(* ===== verification/Channel_Selector.thy ===== *)
theory Channel_Selector
  imports Barn_World Metrics
begin

text \<open>
  \<^verbatim>\<open>barn-agent/src/channel_selector.h\<close>: the choice between the primary and the backup
  destination. The two subclasses of \<open>ChannelSelector\<close> are the two constructors of one
  datatype; a virtual call is a case distinction on it. The methods of the failover class
  are first given as functions of the clock reading, then as computations that read the
  clock and update the selector object of the process.
\<close>

section \<open>FailoverChannelSelector\<close>

text \<open>\<open>time_t\<close> is a signed 64-bit count of seconds; it is an \<open>int\<close> here.\<close>

record 't failover =
  primary :: 't
  secondary :: 't
  primary_ok :: bool
  last_heartbeat_time :: int
  fcs_seconds_before_failover :: int

definition new_failover :: "'t \<Rightarrow> 't \<Rightarrow> int \<Rightarrow> int \<Rightarrow> 't failover option" where
  "new_failover prim sec seconds now =
     (if seconds > 0
      then Some \<lparr>primary = prim, secondary = sec, primary_ok = True,
                 last_heartbeat_time = now, fcs_seconds_before_failover = seconds\<rparr>
      else None)"

definition fcs_current :: "'t failover \<Rightarrow> 't" where
  "fcs_current s = (if primary_ok s then primary s else secondary s)"

definition fcs_heartbeat :: "int \<Rightarrow> 't failover \<Rightarrow> 't failover" where
  "fcs_heartbeat now s = (if primary_ok s then s\<lparr>last_heartbeat_time := now\<rparr> else s)"

definition fcs_pick_channel :: "int \<Rightarrow> 't failover \<Rightarrow> 't \<times> 't failover" where
  "fcs_pick_channel now s =
     (let time_since_heartbeat = now - last_heartbeat_time s;
          s' = (if primary_ok s \<and> time_since_heartbeat < fcs_seconds_before_failover s then s
                else if primary_ok s then s\<lparr>primary_ok := False, last_heartbeat_time := now\<rparr>
                else if time_since_heartbeat < fcs_seconds_before_failover s then s
                else s\<lparr>primary_ok := True, last_heartbeat_time := now\<rparr>)
      in (fcs_current s', s'))"

text \<open>The metrics that are sent: a list of key and value, in order.\<close>

definition fcs_metrics :: "int \<Rightarrow> 't failover \<Rightarrow> (string \<times> int) list" where
  "fcs_metrics now s =
     (TimeSinceSuccess, to_int32 (now - last_heartbeat_time s))
     # (if \<not> primary_ok s then [(FailedOverAgents, 1)] else [])"

section \<open>SingleChannelSelector\<close>

text \<open>The object is its one field.\<close>

definition scs_heartbeat :: "'t \<Rightarrow> 't" where
  "scs_heartbeat channel = channel"

definition scs_pick_channel :: "'t \<Rightarrow> 't \<times> 't" where
  "scs_pick_channel channel = (channel, channel)"

definition scs_current :: "'t \<Rightarrow> 't" where
  "scs_current channel = channel"

section \<open>The selector object of a process\<close>

datatype 't selector =
    SingleChannelSelector 't
  | FailoverChannelSelector "'t failover"

record ('t, 'e) agent_world = "'e world" +
  channel_selector :: "'t selector"

definition now_in_seconds :: "'e OS \<Rightarrow> (int, ('e, 'z) world_scheme) io" where
  "now_in_seconds os =
     bindE (syscall (sys_time os)) (\<lambda>t.
       if t < 0 then throw (Thrown_Literal ''Failed to get time from system'') else ret t)"

definition set_selector :: "'t selector \<Rightarrow> (unit, ('t, 'e, 'z) agent_world_scheme) io" where
  "set_selector sel = modifyE (\<lambda>w. w\<lparr>channel_selector := sel\<rparr>)"

definition current :: "'t selector \<Rightarrow> 't" where
  "current sel =
     (case sel of
        SingleChannelSelector c \<Rightarrow> scs_current c
      | FailoverChannelSelector f \<Rightarrow> fcs_current f)"

definition pick_channel :: "'e OS \<Rightarrow> ('t, ('t, 'e, 'z) agent_world_scheme) io" where
  "pick_channel os =
     bindE (getE channel_selector) (\<lambda>sel.
       case sel of
         SingleChannelSelector c \<Rightarrow>
           (case scs_pick_channel c of
              (picked, c') \<Rightarrow> thenE (set_selector (SingleChannelSelector c')) (ret picked))
       | FailoverChannelSelector f \<Rightarrow>
           bindE (now_in_seconds os) (\<lambda>now.
             case fcs_pick_channel now f of
               (c, f') \<Rightarrow> thenE (set_selector (FailoverChannelSelector f')) (ret c)))"

definition heartbeat :: "'e OS \<Rightarrow> (unit, ('t, 'e, 'z) agent_world_scheme) io" where
  "heartbeat os =
     bindE (getE channel_selector) (\<lambda>sel.
       case sel of
         SingleChannelSelector c \<Rightarrow> set_selector (SingleChannelSelector (scs_heartbeat c))
       | FailoverChannelSelector f \<Rightarrow>
           if primary_ok f
           then bindE (now_in_seconds os) (\<lambda>now.
                  set_selector (FailoverChannelSelector (fcs_heartbeat now f)))
           else ret ())"

fun send_all :: "'w Metrics \<Rightarrow> (string \<times> int) list \<Rightarrow> (unit, 'w) io" where
  "send_all m [] = ret ()"
| "send_all m ((key, val) # rest) = thenE (send_metric m key val) (send_all m rest)"

definition send_metrics ::
  "'e OS \<Rightarrow> ('t, 'e, 'z) agent_world_scheme Metrics \<Rightarrow>
   (unit, ('t, 'e, 'z) agent_world_scheme) io" where
  "send_metrics os m =
     bindE (getE channel_selector) (\<lambda>sel.
       case sel of
         SingleChannelSelector c \<Rightarrow> ret ()
       | FailoverChannelSelector f \<Rightarrow>
           bindE (now_in_seconds os) (\<lambda>now. send_all m (fcs_metrics now f)))"

section \<open>Behaviour of one call\<close>

text \<open>
  The four branches of \<open>pick_channel\<close> amount to this: the choice flips exactly when the
  window has passed, and the window then starts again.
\<close>

lemma fcs_pick_snd:
  "snd (fcs_pick_channel now s) =
     (if now - last_heartbeat_time s < fcs_seconds_before_failover s then s
      else s\<lparr>primary_ok := \<not> primary_ok s, last_heartbeat_time := now\<rparr>)"
  by (simp add: fcs_pick_channel_def Let_def)

lemma fcs_pick_fst: "fst (fcs_pick_channel now s) = fcs_current (snd (fcs_pick_channel now s))"
  by (simp add: fcs_pick_channel_def Let_def)

lemmas fcs_defs = fcs_pick_snd fcs_pick_fst fcs_heartbeat_def fcs_current_def

section \<open>The contract of a selector\<close>

text \<open>
  What the agent relies on: a pick returns what is current from then on and chooses among
  the configured channels, and a heartbeat changes neither. Every selector runs through a
  sequence of timed calls.
\<close>

datatype cs_event = Pick int | Beat int

fun event_time :: "cs_event \<Rightarrow> int" where
  "event_time (Pick t) = t"
| "event_time (Beat t) = t"

fun cs_step :: "(int \<Rightarrow> 's \<Rightarrow> 't \<times> 's) \<Rightarrow> (int \<Rightarrow> 's \<Rightarrow> 's) \<Rightarrow> cs_event \<Rightarrow> 's \<Rightarrow> 's" where
  "cs_step pick beat (Pick t) s = snd (pick t s)"
| "cs_step pick beat (Beat t) s = beat t s"

fun cs_run :: "(int \<Rightarrow> 's \<Rightarrow> 't \<times> 's) \<Rightarrow> (int \<Rightarrow> 's \<Rightarrow> 's) \<Rightarrow> cs_event list \<Rightarrow> 's \<Rightarrow> 's" where
  "cs_run pick beat [] s = s"
| "cs_run pick beat (e # es) s = cs_run pick beat es (cs_step pick beat e s)"

fun cs_picks :: "(int \<Rightarrow> 's \<Rightarrow> 't \<times> 's) \<Rightarrow> (int \<Rightarrow> 's \<Rightarrow> 's) \<Rightarrow> cs_event list \<Rightarrow> 's \<Rightarrow> 't list" where
  "cs_picks pick beat [] s = []"
| "cs_picks pick beat (Pick t # es) s = fst (pick t s) # cs_picks pick beat es (snd (pick t s))"
| "cs_picks pick beat (Beat t # es) s = cs_picks pick beat es (beat t s)"

locale selector_contract =
  fixes pick :: "int \<Rightarrow> 's \<Rightarrow> 't \<times> 's"
    and beat :: "int \<Rightarrow> 's \<Rightarrow> 's"
    and cur :: "'s \<Rightarrow> 't"
    and channels :: "'s \<Rightarrow> 't set"
  assumes pick_current: "cur (snd (pick t s)) = fst (pick t s)"
    and pick_channels: "channels (snd (pick t s)) = channels s"
    and beat_current: "cur (beat t s) = cur s"
    and beat_channels: "channels (beat t s) = channels s"
    and current_in: "cur s \<in> channels s"
begin

lemma picks_in_channels: "set (cs_picks pick beat es s) \<subseteq> channels s"
proof (induction es arbitrary: s)
  case Nil
  then show ?case by simp
next
  case (Cons e es)
  show ?case
  proof (cases e)
    case (Pick t)
    have "fst (pick t s) \<in> channels s"
      using current_in [of "snd (pick t s)"] by (simp add: pick_current pick_channels)
    then show ?thesis using Pick Cons [of "snd (pick t s)"] by (simp add: pick_channels)
  next
    case (Beat t)
    then show ?thesis using Cons [of "beat t s"] by (simp add: beat_channels)
  qed
qed

lemma current_is_last_pick:
  "cur (cs_run pick beat es s) = last (cur s # cs_picks pick beat es s)"
proof (induction es arbitrary: s)
  case Nil
  then show ?case by simp
next
  case (Cons e es)
  then show ?case by (cases e) (auto simp: pick_current beat_current)
qed

end

definition fcs_channels :: "'t failover \<Rightarrow> 't set" where
  "fcs_channels s = {primary s, secondary s}"

interpretation failover: selector_contract fcs_pick_channel fcs_heartbeat fcs_current fcs_channels
  by unfold_locales (auto simp: fcs_defs fcs_channels_def)

interpretation single: selector_contract "\<lambda>_. scs_pick_channel" "\<lambda>_. scs_heartbeat" scs_current "\<lambda>c. {c}"
  by unfold_locales (simp_all add: scs_pick_channel_def scs_heartbeat_def scs_current_def)

section \<open>Runs of the failover selector\<close>

abbreviation fcs_step :: "cs_event \<Rightarrow> 't failover \<Rightarrow> 't failover" where
  "fcs_step \<equiv> cs_step fcs_pick_channel fcs_heartbeat"

abbreviation fcs_run :: "cs_event list \<Rightarrow> 't failover \<Rightarrow> 't failover" where
  "fcs_run \<equiv> cs_run fcs_pick_channel fcs_heartbeat"

abbreviation fcs_picks :: "cs_event list \<Rightarrow> 't failover \<Rightarrow> 't list" where
  "fcs_picks \<equiv> cs_picks fcs_pick_channel fcs_heartbeat"

text \<open>How often a run changes sides.\<close>

fun fcs_flips :: "cs_event list \<Rightarrow> 't failover \<Rightarrow> nat" where
  "fcs_flips [] s = 0"
| "fcs_flips (e # es) s =
     (if primary_ok (fcs_step e s) = primary_ok s then 0 else 1) + fcs_flips es (fcs_step e s)"

text \<open>
  A run in which the primary is heard from often enough: no pick comes as late as the
  window after the latest heartbeat.
\<close>

fun heard_in_time :: "int \<Rightarrow> int \<Rightarrow> cs_event list \<Rightarrow> bool" where
  "heard_in_time window since [] = True"
| "heard_in_time window since (Pick t # es) = (t - since < window \<and> heard_in_time window since es)"
| "heard_in_time window since (Beat t # es) = heard_in_time window t es"

lemma fcs_step_window [simp]: "fcs_seconds_before_failover (fcs_step e s) = fcs_seconds_before_failover s"
  by (cases e) (simp_all add: fcs_defs)

lemma fcs_step_stamp:
  "last_heartbeat_time (fcs_step e s) = last_heartbeat_time s \<or>
   last_heartbeat_time (fcs_step e s) = event_time e"
  by (cases e) (auto simp: fcs_defs)

lemma fcs_step_flip:
  "primary_ok (fcs_step e s) \<noteq> primary_ok s \<Longrightarrow>
   last_heartbeat_time (fcs_step e s) = event_time e \<and>
   fcs_seconds_before_failover s \<le> event_time e - last_heartbeat_time s"
  by (cases e) (auto simp: fcs_defs split: if_splits)

lemma fcs_flips_le:
  assumes "sorted (last_heartbeat_time s # map event_time es)"
  shows "int (fcs_flips es s) * fcs_seconds_before_failover s
     \<le> last (last_heartbeat_time s # map event_time es) - last_heartbeat_time s"
  using assms
proof (induction es arbitrary: s)
  case Nil
  then show ?case by simp
next
  case (Cons e es)
  let ?s' = "fcs_step e s" and ?T = "last (event_time e # map event_time es)"
  have le: "last_heartbeat_time s \<le> event_time e" "event_time e \<le> ?T"
    using Cons.prems by (auto simp: last_map)
  have sorted': "sorted (last_heartbeat_time ?s' # map event_time es)"
    using Cons.prems fcs_step_stamp [of e s] by auto
  have last': "last (last_heartbeat_time ?s' # map event_time es) \<le> ?T"
    using le fcs_step_stamp [of e s] by auto
  note IH = Cons.IH [OF sorted', simplified fcs_step_window]
  show ?case
  proof (cases "primary_ok ?s' = primary_ok s")
    case True
    then show ?thesis using IH last' le fcs_step_stamp [of e s] by auto
  next
    case False
    then show ?thesis using IH last' le fcs_step_flip [OF False] by (simp add: algebra_simps)
  qed
qed

lemma fcs_heard_run:
  assumes "primary_ok s"
    and "heard_in_time (fcs_seconds_before_failover s) (last_heartbeat_time s) es"
  shows "primary_ok (fcs_run es s) \<and> set (fcs_picks es s) \<subseteq> {primary s}"
  using assms
proof (induction es arbitrary: s)
  case Nil
  then show ?case by simp
next
  case (Cons e es)
  show ?case
  proof (cases e)
    case (Pick t)
    then show ?thesis using Cons by (simp add: fcs_defs)
  next
    case (Beat t)
    then show ?thesis
      using Cons.prems Cons.IH [of "s\<lparr>last_heartbeat_time := t\<rparr>"] by (simp add: fcs_defs)
  qed
qed

text \<open>When the picks of a run came.\<close>

fun pick_times :: "cs_event list \<Rightarrow> int list" where
  "pick_times [] = []"
| "pick_times (Pick t # es) = t # pick_times es"
| "pick_times (Beat t # es) = pick_times es"

lemma fcs_stays_on_backup:
  assumes "\<not> primary_ok s"
    and "\<forall>v \<in> set (pick_times es). v < last_heartbeat_time s + fcs_seconds_before_failover s"
  shows "fcs_picks (es @ rest) s = map (\<lambda>_. secondary s) (pick_times es) @ fcs_picks rest s"
  using assms(2)
proof (induction es rule: pick_times.induct)
  case (2 t es)
  then show ?case using assms(1) by (simp add: fcs_pick_channel_def fcs_current_def)
qed (simp_all add: assms(1) fcs_heartbeat_def)

lemma fcs_heard_picks:
  assumes "primary_ok s"
    and "heard_in_time (fcs_seconds_before_failover s) (last_heartbeat_time s) es"
  shows "fcs_picks es s = map (\<lambda>_. primary s) (pick_times es)"
  using assms
proof (induction es arbitrary: s rule: pick_times.induct)
  case (3 t es)
  then show ?case using "3.IH" [of "s\<lparr>last_heartbeat_time := t\<rparr>"] by (simp add: fcs_heartbeat_def)
qed (simp_all add: fcs_pick_channel_def fcs_current_def)

lemma fcs_beats_on_backup:
  assumes "\<not> primary_ok s"
  shows "fcs_run (map Beat ts) s = s"
  using assms by (induction ts) (auto simp: fcs_heartbeat_def)

section \<open>Properties\<close>

text \<open>
  C6: bounded flapping. Under a clock that does not go back, a run of picks and heartbeats
  changes sides at most once per \<open>seconds_before_failover\<close>: the number of failovers and
  failbacks times the window is at most the time that passed.
\<close>

theorem failover_dwell_time:
  assumes "sorted (last_heartbeat_time s # map event_time es)"
    and "es \<noteq> []"
  shows "int (fcs_flips es s) * fcs_seconds_before_failover s
     \<le> event_time (last es) - last_heartbeat_time s"
  using fcs_flips_le [OF assms(1)] assms(2) by (simp add: last_map)

theorem failover_dwell_time_witness:
  "int (fcs_flips [Pick 15, Pick 31, Beat 40, Pick 61]
      \<lparr>primary = ''p'', secondary = ''b'', primary_ok = True,
       last_heartbeat_time = 0, fcs_seconds_before_failover = 30\<rparr>) * 30 \<le> 61"
proof -
  let ?s = "\<lparr>primary = ''p'', secondary = ''b'', primary_ok = True,
       last_heartbeat_time = 0, fcs_seconds_before_failover = 30\<rparr>"
  have "int (fcs_flips [Pick 15, Pick 31, Beat 40, Pick 61] ?s) * fcs_seconds_before_failover ?s
     \<le> event_time (last [Pick 15, Pick 31, Beat 40, Pick 61]) - last_heartbeat_time ?s"
    by (rule failover_dwell_time) simp_all
  then show ?thesis by simp
qed

text \<open>
  C16: no spurious failover. A primary whose latest heartbeat is, at every pick, less than the window
  ago (the comparison is strict) is picked every time, and is still the current channel at the end.
\<close>

theorem healthy_primary_is_kept:
  assumes "primary_ok s"
    and "heard_in_time (fcs_seconds_before_failover s) (last_heartbeat_time s) es"
  shows "set (fcs_picks es s) \<subseteq> {primary s} \<and> fcs_current (fcs_run es s) = primary (fcs_run es s)"
  using fcs_heard_run [OF assms] by (simp add: fcs_current_def)

theorem healthy_primary_is_kept_witness:
  "fcs_picks [Pick 29, Beat 29, Pick 58]
      \<lparr>primary = ''p'', secondary = ''b'', primary_ok = True,
       last_heartbeat_time = 0, fcs_seconds_before_failover = 30\<rparr> = [''p'', ''p''] \<and>
   set (fcs_picks [Pick 29, Beat 29, Pick 58]
      \<lparr>primary = ''p'', secondary = ''b'', primary_ok = True,
       last_heartbeat_time = 0, fcs_seconds_before_failover = 30\<rparr>) \<subseteq> {''p''}"
  using healthy_primary_is_kept [of "\<lparr>primary = ''p'', secondary = ''b'', primary_ok = True,
       last_heartbeat_time = 0, fcs_seconds_before_failover = 30\<rparr>" "[Pick 29, Beat 29, Pick 58]"]
  by (simp add: fcs_pick_channel_def fcs_heartbeat_def fcs_current_def)

text \<open>
  C17: a silent primary is left, the backup is kept for one window, and the primary is then
  tried for one window. With no heartbeat since, a pick that comes at least the window after
  the last one goes to the backup; every pick earlier than a window after that one stays on
  the backup, whatever heartbeats come; the first pick after it is the primary again, and the
  picks that follow are the primary as long as none comes a window after the failback or after
  the latest heartbeat.
\<close>

theorem failover_then_failback:
  assumes "primary_ok s"
    and "last_heartbeat_time s + fcs_seconds_before_failover s \<le> t"
    and "\<forall>v \<in> set (pick_times es). v < t + fcs_seconds_before_failover s"
    and "t + fcs_seconds_before_failover s \<le> u"
    and "heard_in_time (fcs_seconds_before_failover s) u es'"
  shows "fcs_picks (Pick t # es @ Pick u # es') s =
     secondary s # map (\<lambda>_. secondary s) (pick_times es)
       @ primary s # map (\<lambda>_. primary s) (pick_times es')"
proof -
  let ?b = "s\<lparr>primary_ok := False, last_heartbeat_time := t\<rparr>"
  let ?p = "?b\<lparr>primary_ok := True, last_heartbeat_time := u\<rparr>"
  have failover: "fcs_pick_channel t s = (secondary s, ?b)"
    using assms(1,2) by (simp add: fcs_pick_channel_def fcs_current_def)
  have stay: "fcs_picks (es @ rest) ?b = map (\<lambda>_. secondary s) (pick_times es) @ fcs_picks rest ?b"
    for rest using fcs_stays_on_backup [of ?b es rest] assms(3) by simp
  have failback: "fcs_pick_channel u ?b = (primary s, ?p)"
    using assms(4) by (simp add: fcs_pick_channel_def fcs_current_def)
  have kept: "fcs_picks es' ?p = map (\<lambda>_. primary s) (pick_times es')"
    using assms(5) by (subst fcs_heard_picks) simp_all
  show ?thesis using kept by (simp add: failover stay failback)
qed

theorem failover_then_failback_witness:
  "fcs_picks [Pick 31, Beat 40, Pick 45, Pick 60, Pick 61, Pick 80, Beat 80, Pick 100]
      \<lparr>primary = ''p'', secondary = ''b'', primary_ok = True,
       last_heartbeat_time = 0, fcs_seconds_before_failover = 30\<rparr>
   = [''b'', ''b'', ''b'', ''p'', ''p'', ''p'']"
  using failover_then_failback [of "\<lparr>primary = ''p'', secondary = ''b'', primary_ok = True,
       last_heartbeat_time = 0, fcs_seconds_before_failover = 30\<rparr>" 31
       "[Beat 40, Pick 45, Pick 60]" 61 "[Pick 80, Beat 80, Pick 100]"]
  by simp

text \<open>
  Every pick, over any sequence of timed picks and heartbeats, is the configured primary or
  backup, and what \<open>current\<close> answers at the end is the latest pick.
\<close>

lemma picks_are_configured:
  "set (fcs_picks es s) \<subseteq> {primary s, secondary s} \<and>
   fcs_current (fcs_run es s) = last (fcs_current s # fcs_picks es s)"
  using failover.picks_in_channels [of es s] failover.current_is_last_pick [of es s]
  by (simp add: fcs_channels_def)

text \<open>
  \<open>TimeSinceSuccess\<close> is not the time since a success. The pick that fails over resets it to
  zero although nothing succeeded, and while the backup is in use it counts the time since
  the failover whatever heartbeats come.
\<close>

lemma time_since_success_after_failover:
  assumes "primary_ok s" and "last_heartbeat_time s + fcs_seconds_before_failover s \<le> t"
  shows "hd (fcs_metrics u (fcs_run (Pick t # map Beat ts) s)) = (TimeSinceSuccess, to_int32 (u - t))"
proof -
  have "\<not> primary_ok (snd (fcs_pick_channel t s))"
    "last_heartbeat_time (snd (fcs_pick_channel t s)) = t"
    using assms by (auto simp: fcs_defs)
  then show ?thesis by (simp add: fcs_beats_on_backup fcs_metrics_def)
qed

lemma time_since_success_after_failover_witness:
  "hd (fcs_metrics 45 (fcs_run [Pick 31, Beat 44]
      \<lparr>primary = ''p'', secondary = ''b'', primary_ok = True,
       last_heartbeat_time = 0, fcs_seconds_before_failover = 30\<rparr>)) = (TimeSinceSuccess, 14)"
  using time_since_success_after_failover [of "\<lparr>primary = ''p'', secondary = ''b'',
       primary_ok = True, last_heartbeat_time = 0, fcs_seconds_before_failover = 30\<rparr>" 31 45 "[44]"]
  by (simp add: to_int32_def)

end
