(* ===== verification/Params.thy ===== *)
theory Params
  imports Barn_Prelude
begin

text \<open>
  \<^verbatim>\<open>barn-agent/src/params.h\<close> and \<^verbatim>\<open>params.cpp\<close>: the configuration record and the command
  line. \<open>boost::program_options\<close> is library code outside the repository: turning \<open>argv\<close>
  into option values is the parameter \<open>po_parse\<close>, which fails where the library throws. The
  declared defaults, the checks on the values and the ways to exit are the code's own.
\<close>

record BarnConf =
  primary_rsync_addr :: string
  secondary_rsync_addr :: string
  source_dir :: string
  service_name :: string
  category :: string
  monitor_mode :: bool
  monitor_port :: int
  seconds_before_failover :: int
  sleep_seconds :: int
  remote_rsync_namespace :: string
  remote_rsync_namespace_backup :: string

text \<open>What was given on the command line; \<open>None\<close> for an option that was not.\<close>

record variables_map =
  vm_help :: bool
  vm_target_addr :: "string option"
  vm_backup_addr :: "string option"
  vm_source :: "string option"
  vm_service_name :: "string option"
  vm_category :: "string option"
  vm_monitor_port :: "int option"
  vm_seconds_before_failover :: "int option"
  vm_sleep_seconds :: "int option"
  vm_remote_rsync_namespace :: "string option"
  vm_remote_rsync_namespace_backup :: "string option"
  vm_monitor_mode :: "bool option"

type_synonym program_options = "string list \<Rightarrow> string + variables_map"

datatype 'a startup = Exits int | Continues 'a

definition default_value :: "'a \<Rightarrow> 'a option \<Rightarrow> 'a" where
  "default_value d v = (case v of None \<Rightarrow> d | Some x \<Rightarrow> x)"

text \<open>
  \<open>po::notify\<close> stores the value or the default of each option; a string option with neither
  leaves the field as \<open>BarnConf conf\<close> constructed it, empty.
\<close>

definition notify :: "variables_map \<Rightarrow> BarnConf" where
  "notify vm =
     \<lparr>primary_rsync_addr = default_value [] (vm_target_addr vm),
      secondary_rsync_addr = default_value [] (vm_backup_addr vm),
      source_dir = default_value [] (vm_source vm),
      service_name = default_value [] (vm_service_name vm),
      category = default_value [] (vm_category vm),
      monitor_mode = default_value False (vm_monitor_mode vm),
      monitor_port = default_value 0 (vm_monitor_port vm),
      seconds_before_failover = default_value 0 (vm_seconds_before_failover vm),
      sleep_seconds = default_value 5 (vm_sleep_seconds vm),
      remote_rsync_namespace = default_value ''barn_logs'' (vm_remote_rsync_namespace vm),
      remote_rsync_namespace_backup =
        default_value ''barn_backup_logs'' (vm_remote_rsync_namespace_backup vm)\<rparr>"

text \<open>The chain of checks that ends in showing the usage and exiting.\<close>

definition show_desc :: "variables_map \<Rightarrow> BarnConf \<Rightarrow> bool" where
  "show_desc vm conf =
     (if vm_help vm then True
      else if \<not> monitor_mode conf \<and>
         (vm_target_addr vm = None \<or> vm_source vm = None \<or>
          vm_service_name vm = None \<or> vm_category vm = None) then True
      else if \<not> monitor_mode conf \<and> monitor_port conf \<le> 0 then False
      else if monitor_mode conf \<and> monitor_port conf \<le> 0 then True
      else if seconds_before_failover conf > 0 \<and> vm_backup_addr vm = None then True
      else False)"

definition parse_command_line :: "program_options \<Rightarrow> string list \<Rightarrow> BarnConf startup" where
  "parse_command_line po_parse argv =
     (case po_parse argv of
        Inl what \<Rightarrow> Exits 1
      | Inr vm \<Rightarrow>
          (let conf = notify vm in
           if show_desc vm conf then Exits 1
           else if seconds_before_failover conf \<noteq> 0 \<and> seconds_before_failover conf \<le> 60
           then Exits 1
           else Continues conf))"

section \<open>Properties\<close>

lemma parse_Continues:
  "parse_command_line po_parse argv = Continues conf \<longleftrightarrow>
     (\<exists>vm. po_parse argv = Inr vm \<and> conf = notify vm \<and> \<not> show_desc vm conf \<and>
        (seconds_before_failover conf = 0 \<or> 60 < seconds_before_failover conf))"
  by (auto simp: parse_command_line_def Let_def split: sum.splits)

lemma parse_Exits:
  "parse_command_line po_parse argv \<noteq> Continues conf \<Longrightarrow>
   parse_command_line po_parse argv = Exits 1 \<or>
   (\<exists>conf'. parse_command_line po_parse argv = Continues conf')"
  by (auto simp: parse_command_line_def Let_def split: sum.splits)

definition required_options :: "variables_map \<Rightarrow> BarnConf \<Rightarrow> bool" where
  "required_options vm conf \<longleftrightarrow>
     vm_target_addr vm = Some (primary_rsync_addr conf) \<and>
     vm_source vm = Some (source_dir conf) \<and>
     vm_service_name vm = Some (service_name conf) \<and>
     vm_category vm = Some (category conf)"

lemma required_options_given:
  "\<not> show_desc vm (notify vm) \<Longrightarrow> \<not> monitor_mode (notify vm) \<Longrightarrow> required_options vm (notify vm)"
  by (auto simp: show_desc_def required_options_def notify_def default_value_def
      split: if_splits option.splits)

text \<open>A command line as the README's example has it, with a failover window and no port.\<close>

definition no_backup_vm :: variables_map where
  "no_backup_vm =
     \<lparr>vm_help = False, vm_target_addr = Some ''10.0.0.1:1025'', vm_backup_addr = None,
      vm_source = Some ''/var/log/app'', vm_service_name = Some ''app'',
      vm_category = Some ''main'', vm_monitor_port = None,
      vm_seconds_before_failover = Some 120, vm_sleep_seconds = None,
      vm_remote_rsync_namespace = None, vm_remote_rsync_namespace_backup = None,
      vm_monitor_mode = None\<rparr>"

text \<open>
  C29: a configuration that is accepted is usable. Its failover window is off or longer than a
  minute; in monitor mode it has a port to listen on; otherwise the destination, the source
  directory, the service and the category are those that were given.
\<close>

theorem accepted_configuration:
  assumes "parse_command_line po_parse argv = Continues conf"
  shows "(seconds_before_failover conf = 0 \<or> 60 < seconds_before_failover conf) \<and>
    (if monitor_mode conf then 0 < monitor_port conf
     else \<exists>vm. po_parse argv = Inr vm \<and> required_options vm conf)"
proof -
  obtain vm where vm: "po_parse argv = Inr vm" "conf = notify vm" "\<not> show_desc vm conf"
    "seconds_before_failover conf = 0 \<or> 60 < seconds_before_failover conf"
    using assms by (auto simp: parse_Continues)
  moreover have "monitor_mode conf \<Longrightarrow> 0 < monitor_port conf"
    using vm(3) by (auto simp: show_desc_def split: if_splits)
  moreover have "\<not> monitor_mode conf \<Longrightarrow> required_options vm conf"
    using vm(2,3) required_options_given by blast
  ultimately show ?thesis by auto
qed

theorem accepted_configuration_witness:
  "\<exists>conf. parse_command_line (\<lambda>_. Inr no_backup_vm) [] = Continues conf \<and>
     60 < seconds_before_failover conf"
proof -
  have "parse_command_line (\<lambda>_. Inr no_backup_vm) [] = Continues (notify no_backup_vm)"
    by (simp add: parse_command_line_def no_backup_vm_def notify_def show_desc_def
        default_value_def)
  from accepted_configuration [OF this] this show ?thesis
    by (auto simp: no_backup_vm_def notify_def default_value_def)
qed

text \<open>
  The check for the backup address is skipped when metrics are off. With all four required
  options, a failover window above a minute and no \<open>--backup-addr\<close>, the command line is refused
  if a monitor port is given and accepted, with an empty backup address, if none is.
\<close>

lemma backup_addr_unchecked_without_port:
  assumes "po_parse argv = Inr vm" and "\<not> vm_help vm" and "\<not> monitor_mode (notify vm)"
    and "required_options vm (notify vm)"
    and "60 < seconds_before_failover (notify vm)" and "vm_backup_addr vm = None"
  shows "parse_command_line po_parse argv =
      (if 0 < monitor_port (notify vm) then Exits 1 else Continues (notify vm)) \<and>
    secondary_rsync_addr (notify vm) = []"
proof
  show "secondary_rsync_addr (notify vm) = []"
    using assms(6) by (simp add: notify_def default_value_def)
  show "parse_command_line po_parse argv =
      (if 0 < monitor_port (notify vm) then Exits 1 else Continues (notify vm))"
    using assms by (auto simp: parse_command_line_def show_desc_def required_options_def Let_def)
qed

lemma backup_addr_unchecked_without_port_witness:
  "parse_command_line (\<lambda>_. Inr no_backup_vm) [] = Continues (notify no_backup_vm) \<and>
   secondary_rsync_addr (notify no_backup_vm) = []"
  using backup_addr_unchecked_without_port [of "\<lambda>_. Inr no_backup_vm" "[]" no_backup_vm]
  by (simp add: no_backup_vm_def notify_def required_options_def default_value_def)

end
