(* ===== verification/Barn_Agent.thy ===== *)
theory Barn_Agent
  imports File_Ops Channel_Selector Params
begin

text \<open>
  \<^verbatim>\<open>barn-agent/src/barn-agent.h\<close> and \<^verbatim>\<open>barn-agent.cpp\<close>: one round of the agent, over any
  implementation of the file operations and of the metrics. The rounds with their log statements
  are in Agent\_Logging and Round\_Logging.
\<close>

record AgentChannel =
  channel_source_dir :: string
  rsync_target :: string

section \<open>query\_candidates\<close>

definition query_candidates ::
  "'w FileOps \<Rightarrow> AgentChannel \<Rightarrow> 'w Metrics \<Rightarrow> (FileNameList Validation, 'w) io" where
  "query_candidates fileops channel metrics =
     bindE (list_log_directory fileops (channel_source_dir channel)) (\<lambda>existing_files.
     bindE (log_files_not_on_target fileops (channel_source_dir channel) existing_files
              (rsync_target channel)) (\<lambda>files_not_on_server.
       case files_not_on_server of
         Inl err \<Rightarrow> thenE (send_metric metrics FailedToGetSyncList 1) (ret (Inl err))
       | Inr _ \<Rightarrow>
           if length existing_files = 0 then ret (Inr [])
           else bindE (get files_not_on_server) (\<lambda>missing.
             let logs_to_ship = tail_intersection existing_files missing in
             thenE (send_metric metrics FilesToShip (int (length logs_to_ship)))
            (thenE (if length logs_to_ship = length existing_files
                    then send_metric metrics FullDirectoryShip 1 else ret ())
            (ret (Inr logs_to_ship))))))"

section \<open>ship\_candidates\<close>

text \<open>The loop over the candidates; its counters are \<open>num_lost_during_ship\<close> and \<open>num_shipped\<close>.\<close>

fun ship_loop ::
  "'w FileOps \<Rightarrow> AgentChannel \<Rightarrow> string list \<Rightarrow> int \<Rightarrow> int \<Rightarrow> (int \<times> int, 'w) io" where
  "ship_loop fileops channel [] lost shipped = ret (lost, shipped)"
| "ship_loop fileops channel (el # els) lost shipped =
     (let file_path = join_path (channel_source_dir channel) el in
      bindE (ship_file fileops file_path (rsync_target channel)) (\<lambda>ok.
        if \<not> ok
        then bindE (file_exists fileops file_path) (\<lambda>present.
               if \<not> present then ship_loop fileops channel els (lost + 1) shipped
               else ret (lost, shipped))
        else ship_loop fileops channel els lost (shipped + 1)))"

definition ship_candidates ::
  "'w FileOps \<Rightarrow> AgentChannel \<Rightarrow> 'w Metrics \<Rightarrow> string list \<Rightarrow> (int Validation, 'w) io" where
  "ship_candidates fileops channel metrics candidates0 =
     (if length candidates0 = 0 then ret (Inr 0)
      else let candidates = sort candidates0 in
        bindE (ship_loop fileops channel candidates 0 0) (\<lambda>(num_lost_during_ship, num_shipped).
        thenE (send_metric metrics NumFilesShipped num_shipped)
       (thenE (send_metric metrics LostDuringShip num_lost_during_ship)
       (bindE (list_log_directory fileops (channel_source_dir channel)) (\<lambda>current_logs.
          let num_rotated_during_ship = count_missing candidates current_logs in
          thenE (if num_rotated_during_ship \<noteq> 0
                 then send_metric metrics RotatedDuringShip num_rotated_during_ship else ret ())
         (if num_shipped = 0 then ret (Inl ''Failed to ship any logs'')
          else ret (Inr num_shipped)))))))"

section \<open>sleep\_it and dispatch\_new\_logs\<close>

text \<open>
  The sum is an \<open>int\<close> of C++, which \<open>sleep(3)\<close> takes as an \<open>unsigned int\<close>. A sum above the largest
  \<open>int\<close>, which needs a setting of more than a billion seconds, is undefined in C++; here it wraps.
\<close>

definition sleep_it :: "'e OS \<Rightarrow> BarnConf \<Rightarrow> (unit, ('e, 'z) world_scheme) io" where
  "sleep_it os barn_conf =
     (if sleep_seconds barn_conf > 0
      then bindE (syscall (sys_rand os)) (\<lambda>r.
             let secs = to_int32 (sleep_seconds barn_conf div 2 + r mod sleep_seconds barn_conf) in
             syscall (sys_sleep os (unsigned32 secs)))
      else ret ())"

definition dispatch_new_logs ::
  "'e OS \<Rightarrow> BarnConf \<Rightarrow> (AgentChannel, 'e, 'z) agent_world_scheme FileOps \<Rightarrow>
   (AgentChannel, 'e, 'z) agent_world_scheme Metrics \<Rightarrow>
   (unit, (AgentChannel, 'e, 'z) agent_world_scheme) io" where
  "dispatch_new_logs os barn_conf fileops metrics =
     bindE (pick_channel os) (\<lambda>channel.
     bindE (query_candidates fileops channel metrics) (\<lambda>logs_to_ship.
       if isFailure logs_to_ship
       then bindE (error logs_to_ship) (\<lambda>_. sleep_it os barn_conf)
       else
         bindE (get logs_to_ship) (\<lambda>candidates.
         bindE (ship_candidates fileops channel metrics candidates) (\<lambda>num_shipped.
           if isFailure num_shipped then sleep_it os barn_conf
           else
             bindE (get num_shipped) (\<lambda>n.
             thenE (if n > 0 then sleep_it os barn_conf
                    else bindE (wait_for_new_file_in_directory fileops
                                  (channel_source_dir channel) (sleep_seconds barn_conf))
                           (\<lambda>_. ret ()))
             (heartbeat os))))))"

section \<open>What ship\_candidates attempts\<close>

text \<open>
  The specification of the loop: a sequence of attempts, each with its outcome. A file that
  cannot be shipped is lost if it has been rotated away, and to be retried if it is still
  there; nothing is attempted after a file that is to be retried.
\<close>

datatype outcome = Shipped | Lost | Retry

inductive attempts ::
  "'w FileOps \<Rightarrow> AgentChannel \<Rightarrow> 'w \<Rightarrow> (string \<times> outcome) list \<Rightarrow> 'w \<Rightarrow> bool"
  for fo ch where
  att_done: "attempts fo ch w [] w"
| att_shipped: "ship_file fo (join_path (channel_source_dir ch) f) (rsync_target ch) w =
      Some (Inr True, w1) \<Longrightarrow> attempts fo ch w1 as w' \<Longrightarrow> attempts fo ch w ((f, Shipped) # as) w'"
| att_lost: "ship_file fo (join_path (channel_source_dir ch) f) (rsync_target ch) w =
      Some (Inr False, w1) \<Longrightarrow>
      file_exists fo (join_path (channel_source_dir ch) f) w1 = Some (Inr False, w2) \<Longrightarrow>
      attempts fo ch w2 as w' \<Longrightarrow> attempts fo ch w ((f, Lost) # as) w'"
| att_retry: "ship_file fo (join_path (channel_source_dir ch) f) (rsync_target ch) w =
      Some (Inr False, w1) \<Longrightarrow>
      file_exists fo (join_path (channel_source_dir ch) f) w1 = Some (Inr True, w2) \<Longrightarrow>
      attempts fo ch w [(f, Retry)] w2"

inductive_cases attempts_NilE: "attempts fo ch w [] w'"
inductive_cases attempts_ConsE: "attempts fo ch w (a # as) w'"

definition how_many :: "outcome \<Rightarrow> (string \<times> outcome) list \<Rightarrow> int" where
  "how_many r as = int (length (filter (\<lambda>a. snd a = r) as))"

lemma how_many_simps [simp]:
  "how_many r [] = 0"
  "how_many r (a # as) = (if snd a = r then 1 else 0) + how_many r as"
  by (simp_all add: how_many_def)

lemma how_many_nonneg [simp]: "0 \<le> how_many r as"
  by (simp add: how_many_def)

lemma how_many_total:
  "how_many Shipped as + how_many Lost as + how_many Retry as = int (length as)"
proof (induction as)
  case Nil
  then show ?case by simp
next
  case (Cons a as)
  then show ?case by (cases "snd a") auto
qed

text \<open>The attempts of one run over \<open>els\<close>: all of them, unless one is to be retried.\<close>

definition covers :: "string list \<Rightarrow> (string \<times> outcome) list \<Rightarrow> bool" where
  "covers els as \<longleftrightarrow>
     (\<exists>rest. els = map fst as @ rest \<and>
        (rest = [] \<or> (as \<noteq> [] \<and> snd (last as) = Retry)))"

lemma covers_Nil [simp]: "covers [] as \<longleftrightarrow> as = []"
  by (auto simp: covers_def)

lemma covers_ConsI: "covers els as \<Longrightarrow> (as = [] \<Longrightarrow> els = []) \<Longrightarrow> covers (f # els) ((f, r) # as)"
  by (auto simp: covers_def)

lemma covers_stuck: "covers els as \<Longrightarrow> as = [] \<Longrightarrow> els = []"
  by (auto simp: covers_def)

lemma covers_retry: "covers (f # els) [(f, Retry)]"
  by (auto simp: covers_def)

lemma ship_loop_attempts:
  assumes "ship_loop fo ch els lost shipped w = Some (Inr (l, n), w')"
  shows "\<exists>as. attempts fo ch w as w' \<and> covers els as \<and>
    l = lost + how_many Lost as \<and> n = shipped + how_many Shipped as"
  using assms
proof (induction els arbitrary: lost shipped w)
  case Nil
  then show ?case by (auto simp: ret_run intro: att_done exI [of _ "[]"])
next
  case (Cons el els)
  let ?p = "join_path (channel_source_dir ch) el"
  from Cons.prems obtain ok w1 where
    ship: "ship_file fo ?p (rsync_target ch) w = Some (Inr ok, w1)" and
    rest: "(if \<not> ok then bindE (file_exists fo ?p) (\<lambda>present.
        if \<not> present then ship_loop fo ch els (lost + 1) shipped else ret (lost, shipped))
      else ship_loop fo ch els lost (shipped + 1)) w1 = Some (Inr (l, n), w')"
    by (auto simp: Let_def bindE_Inr)
  show ?case
  proof (cases ok)
    case True
    with rest Cons.IH obtain as where "attempts fo ch w1 as w'" "covers els as"
      "l = lost + how_many Lost as" "n = shipped + 1 + how_many Shipped as" by force
    then show ?thesis using ship True att_shipped covers_ConsI covers_stuck
      by (intro exI [of _ "(el, Shipped) # as"]) auto
  next
    case False
    with rest obtain present w2 where
      ex: "file_exists fo ?p w1 = Some (Inr present, w2)" and
      rest2: "(if \<not> present then ship_loop fo ch els (lost + 1) shipped
        else ret (lost, shipped)) w2 = Some (Inr (l, n), w')"
      by (auto simp: bindE_Inr)
    show ?thesis
    proof (cases present)
      case True
      then show ?thesis using rest2 ship ex False att_retry covers_retry
        by (intro exI [of _ "[(el, Retry)]"]) (auto simp: ret_run)
    next
      case not_present: False
      with rest2 Cons.IH obtain as where "attempts fo ch w2 as w'" "covers els as"
        "l = lost + 1 + how_many Lost as" "n = shipped + how_many Shipped as" by force
      then show ?thesis using ship ex False not_present att_lost covers_ConsI covers_stuck
        by (intro exI [of _ "(el, Lost) # as"]) auto
    qed
  qed
qed

lemma ship_candidates_cases:
  assumes "ship_candidates fo ch m cands w = Some (Inr r, w')" and "cands \<noteq> []"
  obtains as w1 w2 w3 w4 current_logs where
    "attempts fo ch w as w1" and "covers (sort cands) as"
    "send_metric m NumFilesShipped (how_many Shipped as) w1 = Some (Inr (), w2)"
    "send_metric m LostDuringShip (how_many Lost as) w2 = Some (Inr (), w3)"
    "list_log_directory fo (channel_source_dir ch) w3 = Some (Inr current_logs, w4)"
    "(if count_missing (sort cands) current_logs \<noteq> 0
      then send_metric m RotatedDuringShip (count_missing (sort cands) current_logs)
      else ret ()) w4 = Some (Inr (), w')"
    "r = (if how_many Shipped as = 0 then Inl ''Failed to ship any logs''
          else Inr (how_many Shipped as))"
proof -
  from assms obtain l n w1 where loop: "ship_loop fo ch (sort cands) 0 0 w = Some (Inr (l, n), w1)"
    and rest: "thenE (send_metric m NumFilesShipped n)
       (thenE (send_metric m LostDuringShip l)
       (bindE (list_log_directory fo (channel_source_dir ch)) (\<lambda>current_logs.
          let num_rotated_during_ship = count_missing (sort cands) current_logs in
          thenE (if num_rotated_during_ship \<noteq> 0
                 then send_metric m RotatedDuringShip num_rotated_during_ship else ret ())
         (if n = 0 then ret (Inl ''Failed to ship any logs'')
          else ret (Inr n))))) w1 = Some (Inr r, w')"
    by (auto simp: ship_candidates_def Let_def bindE_Inr)
  obtain as where as: "attempts fo ch w as w1" "covers (sort cands) as"
    "l = how_many Lost as" "n = how_many Shipped as"
    using ship_loop_attempts [OF loop] by auto
  from rest obtain w2 w3 w4 w5 current_logs where
    "send_metric m NumFilesShipped n w1 = Some (Inr (), w2)"
    "send_metric m LostDuringShip l w2 = Some (Inr (), w3)"
    "list_log_directory fo (channel_source_dir ch) w3 = Some (Inr current_logs, w4)"
    "(if count_missing (sort cands) current_logs \<noteq> 0
      then send_metric m RotatedDuringShip (count_missing (sort cands) current_logs)
      else ret ()) w4 = Some (Inr (), w5)"
    "(if n = 0 then ret (Inl ''Failed to ship any logs'') else ret (Inr n)) w5 = Some (Inr r, w')"
    by (auto simp: thenE_def bindE_Inr Let_def)
  moreover from this(5) have "w' = w5" "r = (if n = 0 then Inl ''Failed to ship any logs'' else Inr n)"
    by (auto simp: ret_def split: if_splits)
  ultimately show ?thesis using that as by auto
qed

lemma covers_length: "covers els as \<Longrightarrow> length as \<le> length els"
  by (auto simp: covers_def)

lemma how_many_le: "how_many r as \<le> int (length as)"
  by (simp add: how_many_def)

section \<open>Heartbeats of a round\<close>

text \<open>
  A round's calls before the heartbeat leave the selector alone when the file operations
  and the metrics do.
\<close>

context framed_file_ops
begin

lemma keeps_query:
  assumes "\<And>k v. keeps (send_metric m k v) view"
  shows "keeps (query_candidates fo ch m) view"
  unfolding query_candidates_def Let_def
  by (intro keeps_intros keeps_list keeps_missing assms)

lemma keeps_ship_loop: "keeps (ship_loop fo ch els lost shipped) view"
  by (induction els arbitrary: lost shipped)
     (auto simp: Let_def intro!: keeps_intros keeps_ship keeps_exists)

lemma keeps_attempts: "attempts fo ch w as w' \<Longrightarrow> view w' = view w"
proof (induction rule: attempts.induct)
  case (att_lost f w w1 w2 as w')
  then show ?case using keepsD [OF keeps_ship] keepsD [OF keeps_exists] by metis
next
  case (att_retry f w w1 w2)
  then show ?case using keepsD [OF keeps_ship] keepsD [OF keeps_exists] by metis
qed (auto dest: keepsD [OF keeps_ship])

lemma keeps_ship_candidates:
  assumes "\<And>k v. keeps (send_metric m k v) view"
  shows "keeps (ship_candidates fo ch m cands) view"
  unfolding ship_candidates_def Let_def
  by (intro keeps_intros keeps_list keeps_ship_loop assms)

end

lemma keeps_sleep_it:
  assumes "\<And>w e. f (w\<lparr>env := e\<rparr>) = f w"
  shows "keeps (sleep_it os conf) f"
  unfolding sleep_it_def Let_def by (intro keeps_intros assms)

section \<open>A round against a destination\<close>

text \<open>
  The specification of what a round ships: the local files newer than all local files that
  the destination has.
\<close>

definition newer_than_remote :: "FileNameList \<Rightarrow> FileName set \<Rightarrow> FileNameList" where
  "newer_than_remote files remote = filter (\<lambda>f. \<forall>g \<in> set files \<inter> remote. g < f) files"

lemma newer_than_remote_props:
  assumes "sorted files" "distinct files"
  shows "sorted (newer_than_remote files remote)" "distinct (newer_than_remote files remote)"
    "set (newer_than_remote files remote) \<subseteq> set files"
    "\<forall>f \<in> set (newer_than_remote files remote). \<forall>g \<in> remote \<inter> set files. g < f"
  using assms by (auto simp: newer_than_remote_def sorted_filter [of id, simplified])

lemma tail_intersection_newer_than_remote:
  assumes "sorted files" "distinct files"
  shows "tail_intersection files (filter (\<lambda>f. f \<notin> remote) files) = newer_than_remote files remote"
proof -
  have "set files - set (filter (\<lambda>f. f \<notin> remote) files) = set files \<inter> remote" by auto
  then show ?thesis
    using assms tail_intersection_filter [of files "filter (\<lambda>f. f \<notin> remote) files"]
    by (auto simp: newer_than_remote_def sorted_filter [of id, simplified])
qed

lemma NoOp_send [io_simps]: "send_metric NoOpMetrics k v w = Some (Inr (), w)"
  by (simp add: NoOpMetrics_def ret_run)

context file_store
begin

abbreviation same :: "'w \<Rightarrow> 'w \<Rightarrow> bool" where
  "same \<equiv> same_store good local_files remote_files ok"

lemma same_trans: "same w w1 \<Longrightarrow> same w1 w2 \<Longrightarrow> same w w2"
  by (simp add: same_store_def)

lemma store_query:
  assumes "good w" and "channel_source_dir ch = dir" and "rsync_target ch = target"
  shows "\<exists>w'. query_candidates fo ch NoOpMetrics w =
    Some (Inr (Inr (newer_than_remote (local_files w) (remote_files w))), w') \<and> same w w'"
proof -
  obtain w1 where w1: "list_log_directory fo dir w = Some (Inr (local_files w), w1)" "same w w1"
    using store_list [OF assms(1)] by blast
  then have "good w1" by (simp add: same_store_def)
  from store_missing [OF this] w1(2) obtain w2 where w2:
    "log_files_not_on_target fo dir (local_files w) target w1 =
      Some (Inr (Inr (filter (\<lambda>f. f \<notin> remote_files w) (local_files w))), w2)" "same w1 w2"
    by (auto simp: same_store_def)
  have "query_candidates fo ch NoOpMetrics w =
    Some (Inr (Inr (newer_than_remote (local_files w) (remote_files w))), w2)"
  proof (cases "local_files w = []")
    case True
    then show ?thesis using assms w1(1) w2(1)
      by (simp add: query_candidates_def io_simps newer_than_remote_def)
  next
    case False
    have "sorted (local_files w)" "distinct (local_files w)" using assms store_local by auto
    note tail_intersection_newer_than_remote [OF this, of "remote_files w"]
    then show ?thesis using assms False w1(1) w2(1)
      by (simp add: query_candidates_def io_simps Let_def)
  qed
  then show ?thesis using same_trans [OF w1(2) w2(2)] by blast
qed

lemma store_ship_loop:
  assumes "good w" and "channel_source_dir ch = dir" and "rsync_target ch = target"
    and "sorted els" and "distinct els" and "set els \<subseteq> set (local_files w)"
    and "\<forall>f \<in> set els. \<forall>g \<in> remote_files w \<inter> set (local_files w). g < f"
  shows "\<exists>w'. ship_loop fo ch els l n w =
      Some (Inr (l, n + int (length (takeWhile (ok w) els))), w') \<and>
    good w' \<and> local_files w' = local_files w \<and> ok w' = ok w \<and>
    remote_files w' = remote_files w \<union> set (takeWhile (ok w) els)"
  using assms
proof (induction els arbitrary: w l n)
  case Nil
  then show ?case by (simp add: ret_run)
next
  case (Cons el els)
  obtain w1 where w1: "ship_file fo (join_path dir el) target w = Some (Inr (ok w el), w1)"
    "good w1" "local_files w1 = local_files w" "ok w1 = ok w"
    "remote_files w1 = (if ok w el then insert el (remote_files w) else remote_files w)"
    using store_ship [of w el] Cons.prems by auto
  show ?case
  proof (cases "ok w el")
    case True
    have "\<forall>f \<in> set els. \<forall>g \<in> remote_files w1 \<inter> set (local_files w1). g < f"
      using Cons.prems w1 True by (auto simp: order.strict_iff_order)
    moreover have "sorted els" "distinct els" "set els \<subseteq> set (local_files w1)"
      using Cons.prems w1 by auto
    ultimately obtain w' where
      "ship_loop fo ch els l (n + 1) w1 =
        Some (Inr (l, n + 1 + int (length (takeWhile (ok w1) els))), w')" "good w'"
      "local_files w' = local_files w1" "ok w' = ok w1"
      "remote_files w' = remote_files w1 \<union> set (takeWhile (ok w1) els)"
      using Cons.IH [OF w1(2) Cons.prems(2,3), of l "n + 1"] by auto
    then show ?thesis using Cons.prems(2,3) True w1 by (auto simp: Let_def io_simps)
  next
    case False
    obtain w2 where "file_exists fo (join_path dir el) w1 = Some (Inr True, w2)" "same w1 w2"
      using store_exists [OF w1(2), of el] Cons.prems w1 by auto
    then show ?thesis using Cons.prems(2,3) False w1 by (auto simp: Let_def io_simps same_store_def)
  qed
qed

lemma store_ship_candidates:
  assumes "good w" and "channel_source_dir ch = dir" and "rsync_target ch = target"
    and cs: "cs = newer_than_remote (local_files w) (remote_files w)"
  shows "\<exists>w'. ship_candidates fo ch NoOpMetrics cs w =
      Some (Inr (if cs \<noteq> [] \<and> \<not> ok w (hd cs) then Inl ''Failed to ship any logs''
                 else Inr (int (length (takeWhile (ok w) cs)))), w') \<and>
    good w' \<and> local_files w' = local_files w \<and> ok w' = ok w \<and>
    remote_files w' = remote_files w \<union> set (takeWhile (ok w) cs)"
proof (cases "cs = []")
  case True
  then show ?thesis using assms(1) by (simp add: ship_candidates_def ret_run)
next
  case False
  have srt: "sorted cs" "distinct cs" "set cs \<subseteq> set (local_files w)"
    "\<forall>f \<in> set cs. \<forall>g \<in> remote_files w \<inter> set (local_files w). g < f"
    using newer_than_remote_props [of "local_files w"] store_local [OF assms(1)] cs by auto
  obtain w' where w': "ship_loop fo ch cs 0 0 w =
      Some (Inr (0, int (length (takeWhile (ok w) cs))), w')" "good w'"
    "local_files w' = local_files w" "ok w' = ok w"
    "remote_files w' = remote_files w \<union> set (takeWhile (ok w) cs)"
    using store_ship_loop [OF assms(1-3) srt, of 0 0] by auto
  obtain w2 where w2: "list_log_directory fo dir w' = Some (Inr (local_files w'), w2)" "same w' w2"
    using store_list [OF w'(2)] by blast
  have "takeWhile (ok w) cs = [] \<longleftrightarrow> \<not> ok w (hd cs)" using False by (cases cs) auto
  moreover have "(if b then send_metric NoOpMetrics k v else ret ()) w2 = Some (Inr (), w2)"
    for b k v by (simp add: io_simps)
  ultimately show ?thesis
    using w' False srt(1) assms(2) w2
    by (simp add: ship_candidates_def Let_def io_simps sorted_sort_id same_store_def)
qed

end

end
