(* ===== verification/Files.thy ===== *)
theory Files
  imports Rsync Barn_Agent
begin

text \<open>
  \<^verbatim>\<open>barn-agent/src/files.cpp\<close>: listing the log directory, the emergency stop, existence of a
  file, and waiting for a new file. With the two operations of \<^verbatim>\<open>rsync.cpp\<close> they make up the
  \<open>FileOps\<close> that the agent runs with. The directory iterator and \<open>exists\<close> of
  boost::filesystem are calls to the system that may fail, which is an exception.
\<close>

definition list_file_names :: "'e OS \<Rightarrow> string \<Rightarrow> (string list, ('e, 'z) world_scheme) io" where
  "list_file_names os directory_path =
     bindE (syscall (sys_list_directory os directory_path)) (\<lambda>names.
       case names of
         None \<Rightarrow> throw (Filesystem_Error ''directory_iterator::construct'')
       | Some file_names \<Rightarrow> ret (sort file_names))"

text \<open>The loop over the names, with the log files found so far.\<close>

fun svlogd_files_loop :: "string list \<Rightarrow> FileNameList \<Rightarrow> FileNameList" where
  "svlogd_files_loop [] svlogd_files = svlogd_files"
| "svlogd_files_loop (it # rest) svlogd_files =
     (let svlogd_files' = (if is_svlogd_filename it then svlogd_files @ [it] else svlogd_files)
      in if it = EMERGENCY_STOP_FILENAME then [] else svlogd_files_loop rest svlogd_files')"

definition files_list_log_directory ::
  "'e OS \<Rightarrow> string \<Rightarrow> (FileNameList, ('e, 'z) world_scheme) io" where
  "files_list_log_directory os directory_path =
     bindE (list_file_names os directory_path) (\<lambda>file_names.
       ret (svlogd_files_loop file_names []))"

definition files_file_exists :: "'e OS \<Rightarrow> string \<Rightarrow> (bool, ('e, 'z) world_scheme) io" where
  "files_file_exists os file_path =
     bindE (syscall (sys_exists os file_path)) (\<lambda>b.
       case b of None \<Rightarrow> throw (Filesystem_Error ''exists'') | Some there \<Rightarrow> ret there)"

definition inotifywait_args :: "string \<Rightarrow> string list" where
  "inotifywait_args directory =
     [''inotifywait'', ''--exclude'', CHR 0x27 # CHR 0x5C # ''.u'' @ [CHR 0x27],
      ''--exclude'', CHR 0x27 # ''lock'' @ [CHR 0x27],
      ''--exclude'', CHR 0x27 # ''current'' @ [CHR 0x27],
      ''--timeout'', ''3600'', ''-q'', ''-e'', ''moved_to'', directory @ ''/'']"

fun is_filesystem_error :: "exn \<Rightarrow> bool" where
  "is_filesystem_error (Filesystem_Error _) = True"
| "is_filesystem_error _ = False"

definition files_wait_for_new_file ::
  "'e OS \<Rightarrow> string \<Rightarrow> int \<Rightarrow> (bool, ('e, 'z) world_scheme) io" where
  "files_wait_for_new_file os directory secs =
     try_catch
      (bindE (run_command os ''inotifywait'' (inotifywait_args directory)) (\<lambda>r. ret (fst r = 0)))
      is_filesystem_error
      (\<lambda>ex. thenE (syscall (sys_sleep os (unsigned32 secs))) (ret True))"

text \<open>The class \<open>FileOps\<close> itself.\<close>

definition file_ops :: "'e OS \<Rightarrow> splitter \<Rightarrow> ('e, 'z) world_scheme FileOps" where
  "file_ops os boost_split =
     \<lparr>wait_for_new_file_in_directory = files_wait_for_new_file os,
      file_exists = files_file_exists os,
      list_log_directory = files_list_log_directory os,
      log_files_not_on_target = rsync_log_files_not_on_target os boost_split,
      ship_file = rsync_ship_file os\<rparr>"

lemma file_ops_simps [simp]:
  "wait_for_new_file_in_directory (file_ops os bs) = files_wait_for_new_file os"
  "file_exists (file_ops os bs) = files_file_exists os"
  "list_log_directory (file_ops os bs) = files_list_log_directory os"
  "log_files_not_on_target (file_ops os bs) = rsync_log_files_not_on_target os bs"
  "ship_file (file_ops os bs) = rsync_ship_file os"
  by (simp_all add: file_ops_def)

section \<open>Listing\<close>

definition log_files_in :: "string list \<Rightarrow> FileNameList" where
  "log_files_in names =
     (if EMERGENCY_STOP_FILENAME \<in> set names then []
      else sort (filter is_svlogd_filename names))"

lemma svlogd_files_loop_filter:
  "svlogd_files_loop names acc =
     (if EMERGENCY_STOP_FILENAME \<in> set names then [] else acc @ filter is_svlogd_filename names)"
  by (induction names arbitrary: acc) (auto simp: Let_def)

lemma list_log_directory_run:
  "files_list_log_directory os d w = (case sys_list_directory os d (env w) of
      None \<Rightarrow> None
    | Some (None, e) \<Rightarrow> Some (Inl (Filesystem_Error ''directory_iterator::construct''), w\<lparr>env := e\<rparr>)
    | Some (Some names, e) \<Rightarrow> Some (Inr (log_files_in names), w\<lparr>env := e\<rparr>))"
  by (simp add: files_list_log_directory_def list_file_names_def bindE_def syscall_def ret_def
      throw_def svlogd_files_loop_filter log_files_in_def filter_sort split: option.splits)

section \<open>What the agent relies on\<close>

interpretation real_ops: sorted_file_ops "file_ops os boost_split"
proof (unfold_locales, goal_cases)
  case (1 d w fs w')
  then show ?case
    by (auto simp: list_log_directory_run log_files_in_def split: option.splits if_splits)
next
  case (2 d fs t w ms w')
  then show ?case
    by (auto simp: rsync_log_files_not_on_target_def bindE_Inr ret_run split: if_splits)
qed

lemma keeps_files_list:
  "(\<And>w e. f (w\<lparr>env := e\<rparr>) = f w) \<Longrightarrow> keeps (files_list_log_directory os d) f"
  unfolding files_list_log_directory_def list_file_names_def bindE_assoc
  by (intro keeps_bindE keeps_syscall keeps_case_option keeps_throw keeps_ret) auto

lemma keeps_files_exists: "(\<And>w e. f (w\<lparr>env := e\<rparr>) = f w) \<Longrightarrow> keeps (files_file_exists os d) f"
  unfolding files_file_exists_def by (intro keeps_intros)

lemma command_view_env:
  assumes "command_view f"
  shows "f (w\<lparr>env := e\<rparr>) = f w"
  by (rule assms [unfolded command_view_def, THEN conjunct2, rule_format]) simp

lemma keeps_files_wait: "command_view f \<Longrightarrow> keeps (files_wait_for_new_file os d n) f"
  unfolding files_wait_for_new_file_def
  by (intro keeps_intros keeps_command command_view_env)

lemma file_ops_framed:
  assumes "command_view f"
  shows "framed_file_ops (file_ops os bs) f"
  using assms
  by unfold_locales (simp_all add: keeps_files_wait keeps_files_exists keeps_files_list
      keeps_rsync_missing keeps_rsync_ship command_view_env)

lemma command_view_selector:
  "command_view (channel_selector :: ('t, 'e, 'z) agent_world_scheme \<Rightarrow> 't selector)"
  unfolding command_view_def
proof (intro conjI allI impI)
  fix w w' :: "('t, 'e, 'z) agent_world_scheme"
  assume "program_state w = program_state w'"
  then show "channel_selector w = channel_selector w'"
    by (cases w; cases w') (simp add: program_state_def)
qed simp

interpretation real_selector: framed_file_ops "file_ops os boost_split" channel_selector
  by (rule file_ops_framed [OF command_view_selector])

interpretation real_host_name: framed_file_ops "file_ops os boost_split" host_name_static
  by (rule file_ops_framed [OF command_view_host_name])

section \<open>Properties\<close>

text \<open>
  What a listing lists. It is sorted and holds every name of the directory that starts with
  \<open>@\<close>, as often as the directory gives it, and nothing else; but if the directory holds
  \<open>STOP_SHIPPING\<close> it is empty.
\<close>

lemma listing_is_log_files:
  assumes "list_log_directory (file_ops os bs) d w = Some (Inr fs, w')"
  shows "\<exists>names e. sys_list_directory os d (env w) = Some (Some names, e) \<and> w' = w\<lparr>env := e\<rparr> \<and>
    sorted fs \<and>
    mset fs = (if ''STOP_SHIPPING'' \<in> set names then {#}
               else filter_mset (\<lambda>f. \<exists>rest. f = CHR ''@'' # rest) (mset names))"
proof -
  have "is_svlogd_filename = (\<lambda>f. \<exists>rest. f = CHR ''@'' # rest)"
    by (rule ext) (rule is_svlogd_iff)
  then have sv: "filter_mset (\<lambda>f. \<exists>rest. f = CHR ''@'' # rest) M = filter_mset is_svlogd_filename M" for M
    by simp
  obtain names e where "sys_list_directory os d (env w) = Some (Some names, e)"
    "fs = log_files_in names" "w' = w\<lparr>env := e\<rparr>"
    using assms by (auto simp: list_log_directory_run split: option.splits)
  then show ?thesis unfolding sv
    by (intro exI [of _ names] exI [of _ e]) (simp add: log_files_in_def EMERGENCY_STOP_FILENAME_def)
qed

lemma listing_is_log_files_witness:
  "\<exists>fs w'. list_log_directory (file_ops script_os reference_split) ''/log'' (script_world []) =
     Some (Inr fs, w') \<and> sorted fs \<and> mset fs = {#''@1'', ''@2''#}"
proof -
  obtain fs w' where run: "list_log_directory (file_ops script_os reference_split) ''/log''
      (script_world []) = Some (Inr fs, w')"
    by (simp add: list_log_directory_run script_os_def script_world_def)
  from listing_is_log_files [OF run] run show ?thesis
    by (auto simp: script_os_def script_world_def)
qed

text \<open>
  C25: the emergency stop. If the listing of the channel's directory finds \<open>STOP_SHIPPING\<close> (or no
  log file), the round asks rsync nothing, ships nothing, sends no metric: it is just the wait
  for a new file, and then the heartbeat of the channel, as after a success.
\<close>

theorem emergency_stop:
  assumes "pick_channel os w = Some (Inr ch, w1)"
    and "sys_list_directory os (channel_source_dir ch) (env w1) = Some (Some names, e)"
    and "''STOP_SHIPPING'' \<in> set names \<or> \<not> (\<exists>rest. CHR ''@'' # rest \<in> set names)"
  shows "dispatch_new_logs os conf (file_ops os bs) m w =
    bindE (wait_for_new_file_in_directory (file_ops os bs) (channel_source_dir ch) (sleep_seconds conf))
      (\<lambda>_. heartbeat os) (w1\<lparr>env := e\<rparr>)"
proof -
  have "filter is_svlogd_filename names = []" if "\<not> (\<exists>rest. CHR ''@'' # rest \<in> set names)"
    using that by (auto simp: filter_empty_conv is_svlogd_iff)
  then have none: "log_files_in names = []"
    using assms(3) by (auto simp: log_files_in_def EMERGENCY_STOP_FILENAME_def)
  have list: "files_list_log_directory os (channel_source_dir ch) w1 = Some (Inr [], w1\<lparr>env := e\<rparr>)"
    using assms(2) none by (simp add: list_log_directory_run)
  have query: "query_candidates (file_ops os bs) ch m w1 = Some (Inr (Inr []), w1\<lparr>env := e\<rparr>)"
    using list by (simp add: query_candidates_def io_simps rsync_log_files_not_on_target_def)
  show ?thesis
    using assms(1) query
    by (simp add: dispatch_new_logs_def io_simps ship_candidates_def thenE_def bindE_assoc)
qed

definition stop_os :: "script OS" where
  "stop_os = script_os\<lparr>sys_list_directory := \<lambda>d e. Some (Some [''@1'', ''STOP_SHIPPING''], e)\<rparr>"

definition stop_world :: "(AgentChannel, script) agent_world" where
  "stop_world = world.extend (script_world [([], 2)])
     (agent_world.fields (SingleChannelSelector
        \<lparr>channel_source_dir = ''/log'', rsync_target = ''rsync://a/''\<rparr>))"

definition stop_conf :: BarnConf where
  "stop_conf =
     \<lparr>primary_rsync_addr = [], secondary_rsync_addr = [], source_dir = [], service_name = [],
      category = [], monitor_mode = False, monitor_port = 0, seconds_before_failover = 0,
      sleep_seconds = 5, remote_rsync_namespace = [], remote_rsync_namespace_backup = []\<rparr>"

theorem emergency_stop_witness:
  "dispatch_new_logs stop_os stop_conf (file_ops stop_os reference_split) NoOpMetrics stop_world =
    bindE (wait_for_new_file_in_directory (file_ops stop_os reference_split) ''/log'' 5)
      (\<lambda>_. heartbeat stop_os) stop_world"
proof -
  let ?ch = "\<lparr>channel_source_dir = ''/log'', rsync_target = ''rsync://a/''\<rparr>"
  have "pick_channel stop_os stop_world = Some (Inr ?ch, stop_world)"
    by (simp add: pick_channel_def io_simps stop_world_def world.defs agent_world.defs script_world_def
        scs_pick_channel_def set_selector_def)
  from emergency_stop [OF this, of "[''@1'', ''STOP_SHIPPING'']" "env stop_world" stop_conf
      reference_split NoOpMetrics]
  show ?thesis by (simp add: stop_os_def stop_conf_def)
qed

end
