(* ===== verification/Test_Doubles.thy ===== *)
theory Test_Doubles
  imports Barn_Agent
begin

text \<open>
  The fakes of \<^verbatim>\<open>barn-agent/test/barn-agent-test.cpp\<close>: an in-memory \<open>FileOps\<close> and
  a \<open>Metrics\<close> that adds up what it is sent. Running the agent over them for every state,
  and not only for the examples of the tests, is how the tests' claims become theorems.
\<close>

record ('t, 'e) test_world = "('t, 'e) agent_world" +
  local_log_files :: FileNameList
  remote_log_files :: FileNameList
  shipping_ok :: bool
  sent :: "string \<Rightarrow> int"

definition SOURCE_DIRECTORY :: string where
  "SOURCE_DIRECTORY = ''/log_dir/service''"

definition RSYNC_TARGET :: string where
  "RSYNC_TARGET = ''rsync_t''"

definition PRIMARY :: AgentChannel where
  "PRIMARY = \<lparr>channel_source_dir = SOURCE_DIRECTORY, rsync_target = RSYNC_TARGET\<rparr>"

text \<open>\<open>substr(find_last_of("\\/") + 1)\<close>: what follows the last separator.\<close>

definition file_name_from_path :: "string \<Rightarrow> string" where
  "file_name_from_path p = rev (takeWhile (\<lambda>c. c \<noteq> CHR 0x5C \<and> c \<noteq> CHR ''/'') (rev p))"

text \<open>\<open>std::set_difference\<close> on sorted ranges.\<close>

fun set_difference :: "string list \<Rightarrow> string list \<Rightarrow> string list" where
  "set_difference [] bs = []"
| "set_difference (a # as) [] = a # as"
| "set_difference (a # as) (b # bs) =
     (if a < b then a # set_difference as (b # bs)
      else if b < a then set_difference (a # as) bs
      else set_difference as bs)"

definition FakeFileOps :: "('t, 'e, 'z) test_world_scheme FileOps" where
  "FakeFileOps =
     \<lparr>wait_for_new_file_in_directory = (\<lambda>directory secs. ret True),
      file_exists = (\<lambda>file_path.
        getE (\<lambda>w. file_name_from_path file_path \<in> set (local_log_files w))),
      list_log_directory = (\<lambda>directory_path. getE local_log_files),
      log_files_not_on_target = (\<lambda>dir files target.
        bindE (getE remote_log_files) (\<lambda>remote. ret (Inr (set_difference files remote)))),
      ship_file = (\<lambda>file_path target.
        bindE (getE shipping_ok) (\<lambda>good.
        thenE (if good
               then modifyE (\<lambda>w. w\<lparr>remote_log_files :=
                      remote_log_files w @ [file_name_from_path file_path]\<rparr>)
               else ret ())
        (ret good)))\<rparr>"

definition FakeMetrics :: "('t, 'e, 'z) test_world_scheme Metrics" where
  "FakeMetrics =
     \<lparr>metrics_service_name = '''', metrics_category = '''',
      send_metric = (\<lambda>key v. modifyE (\<lambda>w. w\<lparr>sent := (sent w)(key := sent w key + v)\<rparr>))\<rparr>"

lemma FakeFileOps_run [io_simps]:
  "wait_for_new_file_in_directory FakeFileOps d n w = Some (Inr True, w)"
  "file_exists FakeFileOps p w = Some (Inr (file_name_from_path p \<in> set (local_log_files w)), w)"
  "list_log_directory FakeFileOps d w = Some (Inr (local_log_files w), w)"
  "log_files_not_on_target FakeFileOps d fs t w =
     Some (Inr (Inr (set_difference fs (remote_log_files w))), w)"
  "ship_file FakeFileOps p t w =
     Some (Inr (shipping_ok w),
       if shipping_ok w
       then w\<lparr>remote_log_files := remote_log_files w @ [file_name_from_path p]\<rparr> else w)"
  by (simp_all add: FakeFileOps_def io_simps)

lemma FakeMetrics_run [io_simps]:
  "send_metric FakeMetrics k v w = Some (Inr (), w\<lparr>sent := (sent w)(k := sent w k + v)\<rparr>)"
  by (simp add: FakeMetrics_def io_simps)

lemma set_difference_filter:
  "sorted as \<Longrightarrow> distinct as \<Longrightarrow> sorted bs \<Longrightarrow>
   set_difference as bs = filter (\<lambda>a. a \<notin> set bs) as"
proof (induction as bs rule: set_difference.induct)
  case (1 bs)
  then show ?case by simp
next
  case (2 a as)
  then show ?case by simp
next
  case (3 a as b bs)
  consider "a < b" | "b < a" | "a = b" by (rule linorder_cases)
  then show ?case
  proof cases
    case 1
    then have "a \<notin> set (b # bs)" using "3.prems" by auto
    then show ?thesis using 1 "3.IH"(1) "3.prems" by simp
  next
    case 2
    then have "b \<notin> set (a # as)" using "3.prems" by auto
    then have "filter (\<lambda>x. x \<notin> set (b # bs)) (a # as) = filter (\<lambda>x. x \<notin> set bs) (a # as)"
      by (intro filter_cong) auto
    then show ?thesis using 2 "3.IH"(2) "3.prems" by (auto split: if_splits)
  next
    case 3
    then have "b \<notin> set as" using "3.prems" by auto
    then have "filter (\<lambda>x. x \<notin> set (b # bs)) as = filter (\<lambda>x. x \<notin> set bs) as"
      by (intro filter_cong) auto
    then show ?thesis using 3 "3.IH"(3) "3.prems" by auto
  qed
qed

definition plain_name :: "string \<Rightarrow> bool" where
  "plain_name f \<longleftrightarrow> CHR ''/'' \<notin> set f \<and> CHR 0x5C \<notin> set f"

lemma file_name_from_path_join:
  assumes "plain_name f"
  shows "file_name_from_path (join_path SOURCE_DIRECTORY f) = f"
proof -
  have "\<forall>c \<in> set (rev f). c \<noteq> CHR 0x5C \<and> c \<noteq> CHR ''/''"
    using assms by (auto simp: plain_name_def)
  then have "takeWhile (\<lambda>c. c \<noteq> CHR 0x5C \<and> c \<noteq> CHR ''/'') (rev f @ CHR ''/'' # ys) = rev f" for ys
    by (subst takeWhile_append2) auto
  then show ?thesis
    by (simp add: file_name_from_path_def join_path_def SOURCE_DIRECTORY_def)
qed

text \<open>The states in which the fake behaves as a directory and a destination.\<close>

definition fake_good :: "('t, 'e, 'z) test_world_scheme \<Rightarrow> bool" where
  "fake_good w \<longleftrightarrow>
     sorted (local_log_files w) \<and> distinct (local_log_files w) \<and>
     (\<forall>f \<in> set (local_log_files w). plain_name f) \<and>
     sorted (remote_log_files w) \<and> distinct (remote_log_files w) \<and>
     set (remote_log_files w) \<subseteq> set (local_log_files w)"

interpretation fake_selector: framed_file_ops FakeFileOps channel_selector
  by unfold_locales (auto simp: keeps_def io_simps split: if_splits)

interpretation fake_sent: framed_file_ops FakeFileOps sent
  by unfold_locales (auto simp: keeps_def io_simps split: if_splits)

interpretation fake: file_store FakeFileOps fake_good local_log_files
  "\<lambda>w. set (remote_log_files w)" "\<lambda>w f. shipping_ok w" SOURCE_DIRECTORY RSYNC_TARGET
proof (unfold_locales, goal_cases)
  case (4 w f)
  then have "plain_name f" by (simp add: fake_good_def)
  then show ?case using 4 by (simp add: io_simps file_name_from_path_join same_store_def)
next
  case (5 w f)
  then have "plain_name f" "\<forall>g \<in> set (remote_log_files w). g < f" by (auto simp: fake_good_def)
  then show ?case using 5
    by (auto simp: io_simps fake_good_def file_name_from_path_join sorted_append
        intro: order.strict_implies_order)
qed (auto simp: fake_good_def io_simps set_difference_filter same_store_def)

text \<open>Querying the fake leaves the state entirely alone.\<close>

lemma fake_query:
  assumes "fake_good w"
  shows "query_candidates FakeFileOps PRIMARY NoOpMetrics w =
    Some (Inr (Inr (newer_than_remote (local_log_files w) (set (remote_log_files w)))), w)"
proof -
  have "channel_source_dir PRIMARY = SOURCE_DIRECTORY" "rsync_target PRIMARY = RSYNC_TARGET"
    by (simp_all add: PRIMARY_def)
  from fake.store_query [OF assms this] obtain w' where w':
    "query_candidates FakeFileOps PRIMARY NoOpMetrics w =
      Some (Inr (Inr (newer_than_remote (local_log_files w) (set (remote_log_files w)))), w')"
    by blast
  moreover have "w' = w" using w'
    by (simp add: query_candidates_def io_simps Let_def split: if_splits)
  ultimately show ?thesis by simp
qed

end
