(* ===== verification/Agent_Properties.thy ===== *)
theory Agent_Properties
  imports Test_Doubles
begin

text \<open>
  What a round of the agent does: which files it ships and in which order, what it reports,
  when it heartbeats, how long it sleeps. The statements about every implementation of
  \<open>FileOps\<close> are instantiated on the fakes of the repository's tests.
\<close>

section \<open>The whole round over the fakes\<close>

lemma plain_dispatch:
  assumes "fake_good w" and sel: "channel_selector w = SingleChannelSelector PRIMARY"
    and "sleep_seconds conf \<le> 0"
  defines "todo \<equiv> newer_than_remote (local_log_files w) (set (remote_log_files w))"
  shows "\<exists>w'. dispatch_new_logs os conf FakeFileOps NoOpMetrics w = Some (Inr (), w') \<and>
    fake_good w' \<and> local_log_files w' = local_log_files w \<and> shipping_ok w' = shipping_ok w \<and>
    set (remote_log_files w') =
      set (remote_log_files w) \<union> set (if shipping_ok w then todo else []) \<and>
    channel_selector w' = SingleChannelSelector PRIMARY"
proof -
  have chan: "channel_source_dir PRIMARY = SOURCE_DIRECTORY" "rsync_target PRIMARY = RSYNC_TARGET"
    by (simp_all add: PRIMARY_def)
  have upd: "v\<lparr>channel_selector := SingleChannelSelector PRIMARY\<rparr> = v"
    if "channel_selector v = SingleChannelSelector PRIMARY" for v :: "(AgentChannel, 'a, 'b) test_world_scheme"
    using that by simp
  have pick: "pick_channel os w = Some (Inr PRIMARY, w)"
    using sel by (simp add: pick_channel_def io_simps scs_pick_channel_def set_selector_def)
  have sleep: "sleep_it os conf v = Some (Inr (), v)" for v :: "(AgentChannel, 'a, 'b) test_world_scheme"
    using assms(3) by (simp add: sleep_it_def ret_run)
  obtain w' where w': "ship_candidates FakeFileOps PRIMARY NoOpMetrics todo w =
      Some (Inr (if todo \<noteq> [] \<and> \<not> shipping_ok w then Inl ''Failed to ship any logs''
                 else Inr (int (length (takeWhile (\<lambda>_. shipping_ok w) todo)))), w')"
    "fake_good w'" "local_log_files w' = local_log_files w" "shipping_ok w' = shipping_ok w"
    "set (remote_log_files w') =
      set (remote_log_files w) \<union> set (takeWhile (\<lambda>_. shipping_ok w) todo)"
    using fake.store_ship_candidates [OF assms(1) chan, of todo]
    by (auto simp: todo_def fun_eq_iff)
  have tw: "takeWhile (\<lambda>_. shipping_ok w) todo = (if shipping_ok w then todo else [])"
    by (cases todo) auto
  have sel': "channel_selector w' = SingleChannelSelector PRIMARY"
    using keepsD [OF fake_selector.keeps_ship_candidates w'(1)] sel
    by (simp add: keeps_def io_simps)
  have beat: "heartbeat os w' = Some (Inr (), w')"
    using sel' by (simp add: heartbeat_def io_simps scs_heartbeat_def set_selector_def)
  have "dispatch_new_logs os conf FakeFileOps NoOpMetrics w = Some (Inr (), w')"
    using pick fake_query [OF assms(1)] w'(1) sleep beat
    by (simp add: dispatch_new_logs_def io_simps todo_def [symmetric] tw)
  then show ?thesis using w' tw sel' by auto
qed

section \<open>A concrete state\<close>

definition example_world :: "(AgentChannel, nat) test_world" where
  "example_world =
     \<lparr>child_pid_global = -1, host_name_static = None, fds = (\<lambda>_. None), next_pipe = 0,
      env = 0, channel_selector = SingleChannelSelector PRIMARY,
      local_log_files = [''@1'', ''@2'', ''@3''], remote_log_files = [''@2''],
      shipping_ok = True, sent = (\<lambda>_. 0)\<rparr>"

definition example_conf :: BarnConf where
  "example_conf =
     \<lparr>primary_rsync_addr = [], secondary_rsync_addr = [], source_dir = [], service_name = [],
      category = [], monitor_mode = False, monitor_port = 0, seconds_before_failover = 0,
      sleep_seconds = 0, remote_rsync_namespace = [], remote_rsync_namespace_backup = []\<rparr>"

lemma example_world_good: "fake_good example_world"
  unfolding fake_good_def by (intro conjI) code_simp+

section \<open>Properties\<close>

text \<open>
  C4: candidates are shipped one at a time in ascending order, up to the first one that fails
  and still exists. There are attempts, one per file of a prefix of the sorted candidates,
  each made by the calls to \<open>ship_file\<close> and \<open>file_exists\<close> in sequence; all candidates are
  attempted unless the last attempt is one to retry; and the result is the number of files
  shipped, or an error if there were none.
\<close>

theorem ship_candidates_attempts:
  assumes "ship_candidates fo ch m cands w = Some (Inr r, w')" and "cands \<noteq> []"
  shows "\<exists>as w1. attempts fo ch w as w1 \<and> covers (sort cands) as \<and>
    r = (if how_many Shipped as = 0 then Inl ''Failed to ship any logs''
         else Inr (how_many Shipped as))"
  using ship_candidates_cases [OF assms] by metis

theorem ship_candidates_attempts_witness:
  "\<exists>as w1. attempts FakeFileOps PRIMARY example_world as w1 \<and> covers [''@1'', ''@3''] as \<and>
     how_many Shipped as = 2"
proof -
  have "map_option fst (ship_candidates FakeFileOps PRIMARY NoOpMetrics [''@3'', ''@1'']
      example_world) = Some (Inr (Inr 2))" by code_simp
  then obtain w' where run: "ship_candidates FakeFileOps PRIMARY NoOpMetrics [''@3'', ''@1'']
      example_world = Some (Inr (Inr 2), w')" by auto
  have "sort [''@3'', ''@1''] = [''@1'', ''@3'']" by code_simp
  with ship_candidates_attempts [OF run] show ?thesis
    by (auto split: if_splits)
qed

text \<open>
  C18: what a run over candidates reports. With the tests' recording metrics, over file operations
  that do not touch the record, \<open>NumFilesShipped\<close> grows by the number of files shipped,
  \<open>LostDuringShip\<close> by the number of files that vanished before they could be shipped, and
  \<open>RotatedDuringShip\<close> by the number of candidates absent from the (sorted) listing made
  afterwards; no other metric changes.
\<close>

theorem ship_candidates_metrics:
  assumes "framed_file_ops fo sent"
    and "ship_candidates fo ch FakeMetrics cands w = Some (Inr r, w')" and "cands \<noteq> []"
  shows "\<exists>as w1 v v' current_logs. attempts fo ch w as w1 \<and> covers (sort cands) as \<and>
    list_log_directory fo (channel_source_dir ch) v = Some (Inr current_logs, v') \<and>
    (sorted current_logs \<longrightarrow> sent w' = (sent w)
      (NumFilesShipped := sent w NumFilesShipped + how_many Shipped as,
       LostDuringShip := sent w LostDuringShip + how_many Lost as,
       RotatedDuringShip := sent w RotatedDuringShip + int (size (mset cands - mset current_logs))))"
proof -
  obtain as w1 w2 w3 w4 current_logs where as: "attempts fo ch w as w1" "covers (sort cands) as"
    and sends: "send_metric FakeMetrics NumFilesShipped (how_many Shipped as) w1 = Some (Inr (), w2)"
      "send_metric FakeMetrics LostDuringShip (how_many Lost as) w2 = Some (Inr (), w3)"
    and list: "list_log_directory fo (channel_source_dir ch) w3 = Some (Inr current_logs, w4)"
    and rot: "(if count_missing (sort cands) current_logs \<noteq> 0
      then send_metric FakeMetrics RotatedDuringShip (count_missing (sort cands) current_logs)
      else ret ()) w4 = Some (Inr (), w')"
    using ship_candidates_cases [OF assms(2,3)] by metis
  have names: "NumFilesShipped \<noteq> LostDuringShip" "NumFilesShipped \<noteq> RotatedDuringShip"
    "LostDuringShip \<noteq> RotatedDuringShip" by (simp_all add: metric_names)
  have "sent w1 = sent w" "sent w4 = sent w3"
    using framed_file_ops.keeps_attempts [OF assms(1) as(1)]
      keepsD [OF framed_file_ops.keeps_list [OF assms(1)] list] by auto
  moreover have "sent w' = (sent w4)(RotatedDuringShip :=
      sent w4 RotatedDuringShip + count_missing (sort cands) current_logs)"
    using rot by (auto simp: io_simps split: if_splits)
  moreover have "count_missing (sort cands) current_logs
      = int (size (mset cands - mset current_logs))" if "sorted current_logs"
    using count_missing_loop_diff [of "sort cands" current_logs 0] that
    by (simp add: count_missing_def)
  ultimately have "sorted current_logs \<longrightarrow> sent w' = (sent w)
      (NumFilesShipped := sent w NumFilesShipped + how_many Shipped as,
       LostDuringShip := sent w LostDuringShip + how_many Lost as,
       RotatedDuringShip := sent w RotatedDuringShip + int (size (mset cands - mset current_logs)))"
    using sends names by (auto simp: io_simps)
  with as list show ?thesis by blast
qed

theorem ship_candidates_metrics_witness:
  "\<exists>as w1 w'. attempts FakeFileOps PRIMARY example_world as w1 \<and> covers [''@1'', ''@3''] as \<and>
    ship_candidates FakeFileOps PRIMARY FakeMetrics [''@3'', ''@1''] example_world =
      Some (Inr (Inr 2), w')"
proof -
  have "map_option fst (ship_candidates FakeFileOps PRIMARY FakeMetrics [''@3'', ''@1'']
      example_world) = Some (Inr (Inr 2))" by code_simp
  then obtain w' where run: "ship_candidates FakeFileOps PRIMARY FakeMetrics [''@3'', ''@1'']
      example_world = Some (Inr (Inr 2), w')" by auto
  have "sort [''@3'', ''@1''] = [''@1'', ''@3'']" by code_simp
  with ship_candidates_metrics [OF fake_sent.framed_file_ops_axioms run] run show ?thesis by auto
qed

text \<open>
  C3: one round over the test doubles ships exactly what is newer than the destination. From
  every state with a strictly ascending directory whose remote files come from it, the round
  returns; if shipping works the destination then holds, besides what it held, the local files
  newer than all local files it held, and nothing else; if shipping fails it is unchanged.
\<close>

theorem round_ships_newer:
  assumes "fake_good w" and "channel_selector w = SingleChannelSelector PRIMARY"
    and "sleep_seconds conf \<le> 0"
  shows "\<exists>w'. dispatch_new_logs os conf FakeFileOps NoOpMetrics w = Some (Inr (), w') \<and>
    set (remote_log_files w') = set (remote_log_files w) \<union>
      (if shipping_ok w
       then {f \<in> set (local_log_files w).
              \<forall>g \<in> set (local_log_files w) \<inter> set (remote_log_files w). g < f}
       else {})"
  using plain_dispatch [OF assms, of os] by (auto simp: newer_than_remote_def)

definition no_os :: "nat OS" where
  "no_os =
     \<lparr>sys_time = (\<lambda>e. Some (0, e)), sys_rand = (\<lambda>e. Some (0, e)), sys_sleep = (\<lambda>n e. Some ((), e)),
      sys_getenv = (\<lambda>s e. Some (None, e)), sys_access_x = (\<lambda>s e. Some (False, e)),
      sys_getcwd = (\<lambda>e. Some (None, e)), sys_open_max = (\<lambda>e. Some (-1, e)),
      sys_getids = (\<lambda>e. Some (\<lparr>id_uid = 0, id_euid = 0, id_gid = 0, id_egid = 0\<rparr>, e)),
      sys_pipe = (\<lambda>t e. Some (None, e)), sys_fork = (\<lambda>e. Some (-1, e)),
      sys_child_open = (\<lambda>s t e. Some (None, e)), sys_child_call = (\<lambda>c e. Some (False, e)),
      sys_child_runs = (\<lambda>p f e. Some ((), e)), sys_read = (\<lambda>f n e. Some (None, e)),
      sys_waitpid = (\<lambda>p e. Some (None, e)), sys_list_directory = (\<lambda>s e. Some (None, e)),
      sys_exists = (\<lambda>s e. Some (None, e)), sys_send_udp = (\<lambda>p s e. Some (False, e))\<rparr>"

theorem round_ships_newer_witness:
  "\<exists>w'. dispatch_new_logs no_os example_conf FakeFileOps NoOpMetrics example_world =
      Some (Inr (), w') \<and> set (remote_log_files w') = {''@2'', ''@3''}"
proof -
  have "channel_selector example_world = SingleChannelSelector PRIMARY"
    "sleep_seconds example_conf \<le> 0"
    by (simp_all add: example_world_def example_conf_def)
  moreover have "{f \<in> set (local_log_files example_world).
      \<forall>g \<in> set (local_log_files example_world) \<inter> set (remote_log_files example_world). g < f}
      = {''@3''}" "shipping_ok example_world" "remote_log_files example_world = [''@2'']"
    by code_simp+
  ultimately show ?thesis
    using round_ships_newer [OF example_world_good, of example_conf no_os] by auto
qed

text \<open>
  A second round ships nothing. Over the test doubles with shipping working, a round followed
  by another leaves the destination as the first round left it.
\<close>

lemma second_round_ships_nothing:
  assumes "fake_good w" and "channel_selector w = SingleChannelSelector PRIMARY"
    and "sleep_seconds conf \<le> 0" and "shipping_ok w"
  shows "\<exists>w1 w2. dispatch_new_logs os conf FakeFileOps NoOpMetrics w = Some (Inr (), w1) \<and>
    dispatch_new_logs os conf FakeFileOps NoOpMetrics w1 = Some (Inr (), w2) \<and>
    set (remote_log_files w2) = set (remote_log_files w1)"
proof -
  let ?newer = "\<lambda>v. newer_than_remote (local_log_files v) (set (remote_log_files v))"
  obtain w1 where w1: "dispatch_new_logs os conf FakeFileOps NoOpMetrics w = Some (Inr (), w1)"
    "fake_good w1" "local_log_files w1 = local_log_files w" "shipping_ok w1"
    "set (remote_log_files w1) = set (remote_log_files w) \<union> set (?newer w)"
    "channel_selector w1 = SingleChannelSelector PRIMARY"
    using plain_dispatch [OF assms(1-3), of os] assms(4) by auto
  obtain w2 where w2: "dispatch_new_logs os conf FakeFileOps NoOpMetrics w1 = Some (Inr (), w2)"
    "set (remote_log_files w2) = set (remote_log_files w1) \<union> set (?newer w1)"
    using plain_dispatch [OF w1(2,6) assms(3), of os] w1(4) by auto
  have "set (?newer w1) \<subseteq> set (?newer w)"
    using w1(3,5) by (auto simp: newer_than_remote_def)
  then show ?thesis using w1 w2 by auto
qed

lemma second_round_ships_nothing_witness:
  "\<exists>w1 w2. dispatch_new_logs no_os example_conf FakeFileOps NoOpMetrics example_world =
      Some (Inr (), w1) \<and>
    dispatch_new_logs no_os example_conf FakeFileOps NoOpMetrics w1 = Some (Inr (), w2) \<and>
    set (remote_log_files w2) = set (remote_log_files w1)"
  by (rule second_round_ships_nothing [OF example_world_good])
     (simp_all add: example_world_def example_conf_def)

text \<open>
  C12: a round that fails does not heartbeat. Whatever the file operations and metrics do, as long
  as they do not touch the selector: if asking for the candidates fails, or shipping them
  ends in an error, the selector is at the end of the round what picking the channel left.
\<close>

theorem no_heartbeat_after_failure:
  assumes "framed_file_ops fo channel_selector"
    and "\<And>k v. keeps (send_metric m k v) channel_selector"
    and "pick_channel os w = Some (Inr ch, w1)"
    and "query_candidates fo ch m w1 = Some (Inr q, w2)"
    and "isFailure q \<or>
      (\<exists>cs e w3. q = Inr cs \<and> ship_candidates fo ch m cs w2 = Some (Inr (Inl e), w3))"
    and "dispatch_new_logs os conf fo m w = Some (r, w')"
  shows "channel_selector w' = channel_selector w1"
proof -
  have sleep: "keeps (sleep_it os conf) channel_selector"
    by (rule keeps_sleep_it) simp
  have w2: "channel_selector w2 = channel_selector w1"
    using keepsD [OF framed_file_ops.keeps_query [OF assms(1,2)] assms(4)] .
  show ?thesis
  proof (cases "isFailure q")
    case True
    then have "sleep_it os conf w2 = Some (r, w')"
      using assms(3,4,6) by (cases q) (auto simp: dispatch_new_logs_def bindE_def)
    then show ?thesis using keepsD [OF sleep] w2 by metis
  next
    case False
    then obtain cs e w3 where cs: "q = Inr cs"
      "ship_candidates fo ch m cs w2 = Some (Inr (Inl e), w3)" using assms(5) by auto
    then have "sleep_it os conf w3 = Some (r, w')"
      using assms(3,4,6) by (auto simp: dispatch_new_logs_def bindE_def)
    then show ?thesis
      using keepsD [OF sleep] keepsD [OF framed_file_ops.keeps_ship_candidates [OF assms(1,2)] cs(2)]
        w2 by metis
  qed
qed

definition failover_example :: "AgentChannel failover" where
  "failover_example =
     \<lparr>primary = PRIMARY, secondary = PRIMARY, primary_ok = True, last_heartbeat_time = 7,
      fcs_seconds_before_failover = 90\<rparr>"

definition failover_world :: "bool \<Rightarrow> (AgentChannel, nat) test_world" where
  "failover_world works = example_world
     \<lparr>channel_selector := FailoverChannelSelector failover_example, shipping_ok := works\<rparr>"

definition clock_os :: "int \<Rightarrow> nat OS" where
  "clock_os now = no_os\<lparr>sys_time := \<lambda>e. Some (now, e)\<rparr>"

lemmas failover_example_simps =
  failover_world_def failover_example_def example_world_def clock_os_def no_os_def example_conf_def

lemma NoOp_keeps: "keeps (send_metric NoOpMetrics k v) f"
  by (simp add: NoOpMetrics_def keeps_ret)

lemma failover_world_pick:
  "pick_channel (clock_os 42) (failover_world b) = Some (Inr PRIMARY, failover_world b)"
  by (simp add: pick_channel_def io_simps fcs_pick_channel_def fcs_current_def now_in_seconds_def
      set_selector_def failover_example_simps)

lemma failover_world_good: "fake_good (failover_world b)"
  using example_world_good by (simp add: fake_good_def failover_world_def)

theorem no_heartbeat_after_failure_witness:
  "\<exists>w'. dispatch_new_logs (clock_os 42) example_conf FakeFileOps NoOpMetrics (failover_world False) =
      Some (Inr (), w') \<and> channel_selector w' = FailoverChannelSelector failover_example"
proof -
  let ?w = "failover_world False"
  let ?cs = "newer_than_remote (local_log_files ?w) (set (remote_log_files ?w))"
  have ch: "channel_source_dir PRIMARY = SOURCE_DIRECTORY" "rsync_target PRIMARY = RSYNC_TARGET"
    by (simp_all add: PRIMARY_def)
  note query = fake_query [OF failover_world_good, of False]
  have "?cs \<noteq> [] \<and> \<not> shipping_ok ?w" by code_simp
  then obtain w3 where ship: "ship_candidates FakeFileOps PRIMARY NoOpMetrics ?cs ?w =
      Some (Inr (Inl ''Failed to ship any logs''), w3)"
    using fake.store_ship_candidates [OF failover_world_good ch refl, of False] by auto
  have run: "dispatch_new_logs (clock_os 42) example_conf FakeFileOps NoOpMetrics ?w =
      Some (Inr (), w3)"
    using query ship failover_world_pick
    by (simp add: dispatch_new_logs_def io_simps sleep_it_def example_conf_def)
  have "channel_selector w3 = channel_selector ?w"
    using ship by (intro no_heartbeat_after_failure [OF fake_selector.framed_file_ops_axioms
          NoOp_keeps failover_world_pick query _ run]) auto
  with run show ?thesis by (simp add: failover_world_def)
qed

text \<open>
  C13: a round that succeeds, even partly or with nothing to ship, heartbeats the primary. If it
  returns after the candidates were obtained and shipping them gave a count, and the primary
  is the channel in use, then its last heartbeat is at a reading of the clock, and nothing
  else about the selector has changed.
\<close>

theorem heartbeat_after_success:
  assumes "framed_file_ops fo channel_selector"
    and "\<And>k v. keeps (send_metric m k v) channel_selector"
    and "pick_channel os w = Some (Inr ch, w1)"
    and "query_candidates fo ch m w1 = Some (Inr (Inr cs), w2)"
    and "ship_candidates fo ch m cs w2 = Some (Inr (Inr n), w3)"
    and "dispatch_new_logs os conf fo m w = Some (Inr (), w')"
    and "channel_selector w1 = FailoverChannelSelector f" and "primary_ok f"
  shows "\<exists>e now e'. sys_time os e = Some (now, e') \<and> 0 \<le> now \<and>
    channel_selector w' = FailoverChannelSelector (f\<lparr>last_heartbeat_time := now\<rparr>)"
proof -
  let ?pause = "if n > 0 then sleep_it os conf
    else bindE (wait_for_new_file_in_directory fo (channel_source_dir ch) (sleep_seconds conf))
      (\<lambda>_. ret ())"
  have pause: "keeps ?pause channel_selector"
    by (intro keeps_intros keeps_sleep_it framed_file_ops.keeps_wait [OF assms(1)]) simp
  obtain w4 where w4: "?pause w3 = Some (Inr (), w4)" "heartbeat os w4 = Some (Inr (), w')"
    using assms(3-6) by (auto simp: dispatch_new_logs_def bindE_value thenE_def bindE_Inr)
  have "channel_selector w4 = FailoverChannelSelector f"
    using keepsD [OF framed_file_ops.keeps_query [OF assms(1,2)] assms(4)]
      keepsD [OF framed_file_ops.keeps_ship_candidates [OF assms(1,2)] assms(5)]
      keepsD [OF pause w4(1)] assms(7) by simp
  with w4(2) assms(8) obtain now e where "sys_time os (env w4) = Some (now, e)" "0 \<le> now"
    "channel_selector w' = FailoverChannelSelector (f\<lparr>last_heartbeat_time := now\<rparr>)"
    by (auto simp: heartbeat_def getE_run bindE_value bindE_Inr now_in_seconds_def syscall_Some
        set_selector_def modifyE_run fcs_heartbeat_def throw_def ret_def not_less split: if_splits)
  then show ?thesis by blast
qed

theorem heartbeat_after_success_witness:
  "\<exists>w' now. dispatch_new_logs (clock_os 42) example_conf FakeFileOps NoOpMetrics
      (failover_world True) = Some (Inr (), w') \<and> 0 \<le> now \<and>
    channel_selector w' = FailoverChannelSelector (failover_example\<lparr>last_heartbeat_time := now\<rparr>)"
proof -
  let ?w = "failover_world True"
  let ?cs = "newer_than_remote (local_log_files ?w) (set (remote_log_files ?w))"
  have ch: "channel_source_dir PRIMARY = SOURCE_DIRECTORY" "rsync_target PRIMARY = RSYNC_TARGET"
    by (simp_all add: PRIMARY_def)
  note query = fake_query [OF failover_world_good, of True]
  have "shipping_ok ?w" by (simp add: failover_world_def)
  then obtain n w3 where ship: "ship_candidates FakeFileOps PRIMARY NoOpMetrics ?cs ?w =
      Some (Inr (Inr n), w3)"
    using fake.store_ship_candidates [OF failover_world_good ch refl, of True] by auto
  have "map_option fst (dispatch_new_logs (clock_os 42) example_conf FakeFileOps NoOpMetrics ?w) =
      Some (Inr ())" by code_simp
  then obtain w' where run: "dispatch_new_logs (clock_os 42) example_conf FakeFileOps NoOpMetrics
      ?w = Some (Inr (), w')" by auto
  have "channel_selector ?w = FailoverChannelSelector failover_example" "primary_ok failover_example"
    by (simp_all add: failover_world_def failover_example_def)
  from heartbeat_after_success [OF fake_selector.framed_file_ops_axioms NoOp_keeps
      failover_world_pick query ship run this] run
  show ?thesis by blast
qed

text \<open>
  How long the agent sleeps. With a positive \<open>sleep_seconds\<close> of at most a billion and a random
  number that is not negative, it makes one call to sleep, for at least half of \<open>sleep_seconds\<close> and less than
  one and a half times as long; and when the random number is a multiple of \<open>sleep_seconds\<close> it
  is just the half, so that \<open>sleep_seconds\<close> is not a minimum.
\<close>

lemma sleep_it_bounds:
  assumes "0 < sleep_seconds conf" and "sleep_seconds conf \<le> 10 ^ 9" and "sys_rand os (env w) = Some (r, e)" and "0 \<le> r"
  shows "\<exists>n. sleep_seconds conf div 2 \<le> n \<and> n < sleep_seconds conf div 2 + sleep_seconds conf \<and>
    (r mod sleep_seconds conf = 0 \<longrightarrow> n = sleep_seconds conf div 2 \<and> n < sleep_seconds conf) \<and>
    sleep_it os conf w = syscall (sys_sleep os n) (w\<lparr>env := e\<rparr>)"
proof -
  let ?n = "sleep_seconds conf div 2 + r mod sleep_seconds conf"
  have n: "0 \<le> ?n" "?n < 2 ^ 31" "?n < sleep_seconds conf div 2 + sleep_seconds conf"
    "sleep_seconds conf div 2 \<le> ?n"
    using assms(1,2) pos_mod_bound [OF assms(1), of r] pos_mod_sign [OF assms(1), of r] by simp_all
  then have "to_int32 ?n = ?n" "unsigned32 ?n = ?n"
    by (simp_all add: to_int32_def unsigned32_def)
  then have "sleep_it os conf w = syscall (sys_sleep os ?n) (w\<lparr>env := e\<rparr>)"
    using assms by (simp add: sleep_it_def Let_def io_simps)
  then show ?thesis using n assms(1) by (intro exI [of _ ?n]) (simp add: int_div_less_self)
qed

lemma sleep_it_bounds_witness:
  "sleep_it no_os (example_conf\<lparr>sleep_seconds := 5\<rparr>) example_world =
     syscall (sys_sleep no_os 2) example_world"
  using sleep_it_bounds [of "example_conf\<lparr>sleep_seconds := 5\<rparr>" no_os example_world 0 0]
  by (simp add: no_os_def example_world_def)

end
