(* ===== verification/Sighandle.thy ===== *)
theory Sighandle
  imports Process
begin

text \<open>
  \<^verbatim>\<open>barn-agent/src/sighandle.cpp\<close>: the handler of SIGTERM, and its interleavings with
  \<open>run_command\<close>. A signal arrives between two of the steps of \<open>run_command\<close> that the handler
  can tell apart: the fork in \<open>posix_launch\<close>, \<open>set_child_pid\<close>, the wait for the child, and
  \<open>unset_child_pid\<close>.
\<close>

section \<open>Dispositions and the handler\<close>

datatype disposition = SIG_DFL | SIG_IGN | Kill_Child_Handler

text \<open>
  \<open>sigterm_action\<close> is the kernel's disposition of SIGTERM, \<open>old\<close> the variable of the same
  name, \<open>child_pid\<close> is \<open>child_pid_global\<close>; \<open>sent_term\<close> lists the processes to which the
  handler sent SIGTERM, \<open>alive\<close> says whether the agent still runs.
\<close>

record signals =
  sigterm_action :: disposition
  old :: disposition
  child_pid :: int
  sent_term :: "int list"
  alive :: bool

definition enable_kill_child_signal_handler :: "signals \<Rightarrow> signals" where
  "enable_kill_child_signal_handler s =
     s\<lparr>old := sigterm_action s, sigterm_action := Kill_Child_Handler\<rparr>"

text \<open>
  The handler ends by sending SIGTERM to the agent itself. The signal is blocked while the
  handler runs, so it is delivered when the handler returns: \<open>deliver_pending\<close>.
\<close>

definition kill_child_handler :: "signals \<Rightarrow> signals" where
  "kill_child_handler s =
     (let s1 = (if child_pid s \<noteq> INVALID_PID then s\<lparr>sent_term := sent_term s @ [child_pid s]\<rparr> else s)
      in s1\<lparr>sigterm_action := old s1\<rparr>)"

definition deliver_pending :: "signals \<Rightarrow> signals" where
  "deliver_pending s = (if sigterm_action s = SIG_DFL then s\<lparr>alive := False\<rparr> else s)"

definition deliver_sigterm :: "signals \<Rightarrow> signals" where
  "deliver_sigterm s =
     (case sigterm_action s of
        SIG_DFL \<Rightarrow> s\<lparr>alive := False\<rparr>
      | SIG_IGN \<Rightarrow> s
      | Kill_Child_Handler \<Rightarrow> deliver_pending (kill_child_handler s))"

section \<open>Interleaving with run\_command\<close>

text \<open>
  Where the agent is in \<open>run_command\<close>: outside; after the fork, the child not yet registered;
  with the child registered; after the child was reaped, still registered.
\<close>

datatype phase = Outside | Launched int | Registered int | Reaped int

text \<open>
  \<open>started\<close> lists the children started, \<open>running\<close> is the child that exists: a child that was
  reaped is gone, and its number may be used for another process. A launch may fail, which starts
  no child; and \<open>exit_status\<close> of a child that did not exit aborts the agent.
\<close>

record run_state =
  phase :: phase
  started :: "int list"
  running :: "int option"
  sig :: signals

inductive run_step :: "run_state \<Rightarrow> run_state \<Rightarrow> bool" where
  launch: "alive (sig s) \<Longrightarrow> phase s = Outside \<Longrightarrow> 0 < pid \<Longrightarrow>
    run_step s (s\<lparr>phase := Launched pid, started := started s @ [pid], running := Some pid\<rparr>)"
| launch_fails: "alive (sig s) \<Longrightarrow> phase s = Outside \<Longrightarrow> run_step s s"
| register: "alive (sig s) \<Longrightarrow> phase s = Launched pid \<Longrightarrow>
    run_step s (s\<lparr>phase := Registered pid, sig := (sig s)\<lparr>child_pid := pid\<rparr>\<rparr>)"
| reap: "alive (sig s) \<Longrightarrow> phase s = Registered pid \<Longrightarrow>
    run_step s (s\<lparr>phase := Reaped pid, running := None\<rparr>)"
| wait_fails: "alive (sig s) \<Longrightarrow> phase s = Registered pid \<Longrightarrow>
    run_step s (s\<lparr>phase := Outside, running := None\<rparr>)"
| status_aborts: "alive (sig s) \<Longrightarrow> phase s = Reaped pid \<Longrightarrow>
    run_step s (s\<lparr>sig := (sig s)\<lparr>alive := False\<rparr>\<rparr>)"
| unregister: "alive (sig s) \<Longrightarrow> phase s = Reaped pid \<Longrightarrow>
    run_step s (s\<lparr>phase := Outside, sig := (sig s)\<lparr>child_pid := INVALID_PID\<rparr>\<rparr>)"
| sigterm: "alive (sig s) \<Longrightarrow> run_step s (s\<lparr>sig := deliver_sigterm (sig s)\<rparr>)"

inductive_cases run_stepE: "run_step s t"

definition initial_signals :: "disposition \<Rightarrow> signals" where
  "initial_signals d = enable_kill_child_signal_handler
     \<lparr>sigterm_action = d, old = SIG_DFL, child_pid = INVALID_PID, sent_term = [], alive = True\<rparr>"

definition initial_run :: "disposition \<Rightarrow> run_state" where
  "initial_run d = \<lparr>phase = Outside, started = [], running = None, sig = initial_signals d\<rparr>"

definition reachable_run :: "disposition \<Rightarrow> run_state \<Rightarrow> bool" where
  "reachable_run d s \<longleftrightarrow> run_step\<^sup>*\<^sup>* (initial_run d) s"

lemma reachable_step: "reachable_run d s \<Longrightarrow> run_step s t \<Longrightarrow> reachable_run d t"
  by (simp add: reachable_run_def)

lemma reachable_induct [consumes 1, case_names initial step]:
  assumes "reachable_run d s" and "P (initial_run d)"
    and "\<And>s t. reachable_run d s \<Longrightarrow> P s \<Longrightarrow> run_step s t \<Longrightarrow> P t"
  shows "P s"
  using assms(1) unfolding reachable_run_def
  by (induction rule: rtranclp_induct) (use assms(2,3) in \<open>auto simp: reachable_run_def\<close>)

lemmas signal_defs =
  deliver_sigterm_def deliver_pending_def kill_child_handler_def Let_def

lemma deliver_sigterm_frame [simp]:
  "child_pid (deliver_sigterm s) = child_pid s" "old (deliver_sigterm s) = old s"
  by (simp_all add: signal_defs split: disposition.splits)

section \<open>The invariant\<close>

text \<open>
  The registered child is the running one; every process signalled was started by the agent;
  the disposition is the handler until the handler has run, and from then on what it was
  before the handler was set.
\<close>

definition run_inv :: "disposition \<Rightarrow> run_state \<Rightarrow> bool" where
  "run_inv d s \<longleftrightarrow>
     old (sig s) = d \<and>
     sigterm_action (sig s) \<in> {Kill_Child_Handler, d} \<and>
     (child_pid (sig s) = INVALID_PID \<or> child_pid (sig s) \<in> set (started s)) \<and>
     set (sent_term (sig s)) \<subseteq> set (started s) \<and>
     (sigterm_action (sig s) = Kill_Child_Handler \<longrightarrow> sent_term (sig s) = []) \<and>
     length (sent_term (sig s)) \<le> 1 \<and>
     (\<forall>pid \<in> set (started s). 0 < pid) \<and>
     (case phase s of
        Outside \<Rightarrow> running s = None
      | Launched pid \<Rightarrow> running s = Some pid \<and> pid \<in> set (started s)
      | Registered pid \<Rightarrow> running s = Some pid \<and> child_pid (sig s) = pid \<and> pid \<in> set (started s)
      | Reaped pid \<Rightarrow> running s = None \<and> child_pid (sig s) = pid)"

lemma deliver_inv:
  assumes "run_inv d s" and "d \<noteq> Kill_Child_Handler"
  shows "run_inv d (s\<lparr>sig := deliver_sigterm (sig s)\<rparr>)"
  using assms
  by (cases "sigterm_action (sig s)"; cases "phase s")
     (auto simp: run_inv_def signal_defs)

lemma run_inv_reachable:
  assumes "reachable_run d s" and "d \<noteq> Kill_Child_Handler"
  shows "run_inv d s"
  using assms(1)
proof (induction rule: reachable_induct)
  case initial
  show ?case
    by (simp add: run_inv_def initial_run_def initial_signals_def
        enable_kill_child_signal_handler_def)
next
  case (step s t)
  from step(2) show ?case
  proof (cases rule: run_step.cases)
    case sigterm
    then show ?thesis using deliver_inv [OF step(3) assms(2)] by simp
  qed (use step(3) in \<open>auto simp: run_inv_def\<close>)
qed

section \<open>Properties\<close>

lemma reachable_alive:
  assumes "reachable_run SIG_DFL s" and "alive (sig s)"
  shows "sigterm_action (sig s) = Kill_Child_Handler"
proof -
  have "alive (sig s) \<longrightarrow> sigterm_action (sig s) = Kill_Child_Handler"
    using assms(1)
  proof (induction rule: reachable_induct)
    case initial
    show ?case
      by (simp add: initial_run_def initial_signals_def enable_kill_child_signal_handler_def)
  next
    case (step s t)
    have "old (sig s) = SIG_DFL"
      using run_inv_reachable [OF step(1)] by (simp add: run_inv_def)
    with step(2,3) show ?case
      by (cases rule: run_step.cases) (auto simp: signal_defs split: if_splits)
  qed
  then show ?thesis using assms(2) by simp
qed

text \<open>
  C8: SIGTERM reaches the registered child and then the agent. In every reachable state of an
  agent that was started with the default disposition and still runs, a SIGTERM terminates it,
  and exactly one process is signalled first, the one \<open>child_pid_global\<close> names: the running
  child whenever it is registered, and none if no child was registered.
\<close>

theorem sigterm_kills_registered_child:
  assumes "reachable_run SIG_DFL s" and "alive (sig s)"
  shows "\<not> alive (deliver_sigterm (sig s)) \<and>
    sent_term (deliver_sigterm (sig s)) =
      (if child_pid (sig s) = INVALID_PID then [] else [child_pid (sig s)]) \<and>
    (\<forall>pid. phase s = Registered pid \<longrightarrow>
       running s = Some pid \<and> sent_term (deliver_sigterm (sig s)) = [pid])"
proof -
  note h = reachable_alive [OF assms]
  have inv: "run_inv SIG_DFL s" using run_inv_reachable [OF assms(1)] by simp
  have sent: "sent_term (deliver_sigterm (sig s)) =
      (if child_pid (sig s) = INVALID_PID then [] else [child_pid (sig s)])"
    using inv h by (auto simp: run_inv_def signal_defs)
  moreover have "\<not> alive (deliver_sigterm (sig s))"
    using inv h by (auto simp: run_inv_def signal_defs)
  moreover have "child_pid (sig s) = pid \<and> pid \<noteq> INVALID_PID \<and> running s = Some pid"
    if "phase s = Registered pid" for pid
    using inv that by (auto simp: run_inv_def INVALID_PID_def)
  ultimately show ?thesis by auto
qed

lemma reachable_launched:
  assumes "0 < pid"
  shows "reachable_run d ((initial_run d)\<lparr>phase := Launched pid, started := [pid], running := Some pid\<rparr>)"
proof -
  have "run_step (initial_run d)
      ((initial_run d)\<lparr>phase := Launched pid, started := [pid], running := Some pid\<rparr>)"
    using launch [of "initial_run d" pid] assms
    by (simp add: initial_run_def initial_signals_def enable_kill_child_signal_handler_def)
  then show ?thesis by (simp add: reachable_run_def)
qed

lemma reachable_registered:
  assumes "0 < pid"
  shows "reachable_run d (initial_run d\<lparr>phase := Registered pid, started := [pid],
    running := Some pid, sig := (sig (initial_run d))\<lparr>child_pid := pid\<rparr>\<rparr>)"
  using reachable_step [OF reachable_launched [OF assms] register [of _ pid]]
  by (simp add: initial_run_def initial_signals_def enable_kill_child_signal_handler_def)

theorem sigterm_kills_registered_child_witness:
  "sent_term (deliver_sigterm ((sig (initial_run SIG_DFL))\<lparr>child_pid := 42\<rparr>)) = [42]"
proof -
  have "0 < (42 :: int)" by simp
  from sigterm_kills_registered_child [OF reachable_registered [OF this]] show ?thesis
    by (simp add: initial_run_def initial_signals_def enable_kill_child_signal_handler_def
        INVALID_PID_def)
qed

text \<open>
  C19: two windows in which SIGTERM does not do that. After the fork and before \<open>set_child_pid\<close>
  the agent dies and its running child is not signalled. And after a failed wait the agent,
  outside \<open>run_command\<close> and with no child, still signals the number of the last one.
\<close>

theorem sigterm_windows:
  assumes "0 < pid"
  shows "(\<exists>s. reachable_run SIG_DFL s \<and> alive (sig s) \<and> running s = Some pid \<and>
      sent_term (deliver_sigterm (sig s)) = [] \<and> \<not> alive (deliver_sigterm (sig s))) \<and>
    (\<exists>s. reachable_run SIG_DFL s \<and> alive (sig s) \<and> phase s = Outside \<and> running s = None \<and>
      sent_term (deliver_sigterm (sig s)) = [pid])"
proof
  let ?s = "(initial_run SIG_DFL)\<lparr>phase := Launched pid, started := [pid], running := Some pid\<rparr>"
  show "\<exists>s. reachable_run SIG_DFL s \<and> alive (sig s) \<and> running s = Some pid \<and>
      sent_term (deliver_sigterm (sig s)) = [] \<and> \<not> alive (deliver_sigterm (sig s))"
    using reachable_launched [OF assms, of SIG_DFL]
    by (intro exI [of _ ?s])
       (simp add: initial_run_def initial_signals_def enable_kill_child_signal_handler_def
         signal_defs)
  let ?r = "initial_run SIG_DFL\<lparr>phase := Registered pid, started := [pid],
    running := Some pid, sig := (sig (initial_run SIG_DFL))\<lparr>child_pid := pid\<rparr>\<rparr>"
  have "run_step ?r (?r\<lparr>phase := Outside, running := None\<rparr>)"
    by (rule wait_fails [of _ pid])
       (simp_all add: initial_run_def initial_signals_def enable_kill_child_signal_handler_def)
  from reachable_step [OF reachable_registered [OF assms] this]
  show "\<exists>s. reachable_run SIG_DFL s \<and> alive (sig s) \<and> phase s = Outside \<and> running s = None \<and>
      sent_term (deliver_sigterm (sig s)) = [pid]"
    using assms
    by (intro exI [of _ "?r\<lparr>phase := Outside, running := None\<rparr>"])
       (simp add: initial_run_def initial_signals_def enable_kill_child_signal_handler_def
         signal_defs INVALID_PID_def)
qed

theorem sigterm_windows_witness:
  "\<exists>s. reachable_run SIG_DFL s \<and> running s = None \<and> sent_term (deliver_sigterm (sig s)) = [42]"
  using sigterm_windows [of 42] by auto

text \<open>
  The handler signals at most once, and only children of the agent. In every reachable state,
  whatever the disposition the agent was started with, at most one process was signalled, and
  each was started by the agent; no signal ever goes to a process group or to everyone.
\<close>

lemma sigterm_sent_once:
  assumes "reachable_run d s" and "d \<noteq> Kill_Child_Handler"
  shows "length (sent_term (sig s)) \<le> 1 \<and> set (sent_term (sig s)) \<subseteq> set (started s) \<and>
    (\<forall>pid \<in> set (sent_term (sig s)). 0 < pid)"
  using run_inv_reachable [OF assms] by (auto simp: run_inv_def)

lemma sigterm_sent_once_witness:
  "length (sent_term (deliver_sigterm ((sig (initial_run SIG_IGN))\<lparr>child_pid := 42\<rparr>))) = 1 \<and>
   length (sent_term (deliver_sigterm ((sig (initial_run SIG_IGN))\<lparr>child_pid := 42\<rparr>))) \<le> 1"
proof -
  let ?r = "initial_run SIG_IGN\<lparr>phase := Registered 42, started := [42],
    running := Some 42, sig := (sig (initial_run SIG_IGN))\<lparr>child_pid := 42\<rparr>\<rparr>"
  have "0 < (42 :: int)" by simp
  note r = reachable_registered [OF this, of SIG_IGN]
  have "alive (sig ?r)"
    by (simp add: initial_run_def initial_signals_def enable_kill_child_signal_handler_def)
  from sigterm_sent_once [OF reachable_step [OF r sigterm [OF this]]] show ?thesis
    by (simp add: initial_run_def initial_signals_def enable_kill_child_signal_handler_def
        signal_defs INVALID_PID_def)
qed

end
