(* ===== verification/Local_Report.thy ===== *)
theory Local_Report
  imports Barn_World Metrics
begin

text \<open>
  \<^verbatim>\<open>barn-agent/src/monitor/localreport.cpp\<close>: metrics as datagrams, a key and a number with a
  space between, and their reading on the other side with \<open>operator>>\<close> of the standard
  library (the C locale, base ten).
\<close>

section \<open>Numbers and words of the standard streams\<close>

definition is_digit :: "char \<Rightarrow> bool" where
  "is_digit c \<longleftrightarrow> 48 \<le> (of_char c :: nat) \<and> (of_char c :: nat) \<le> 57"

definition digits_value :: "string \<Rightarrow> int" where
  "digits_value ds = foldl (\<lambda>v c. 10 * v + (of_char c - 48)) 0 ds"

text \<open>\<open>iss >> key\<close>: skips white space, then takes what is no white space.\<close>

definition extract_word :: "string \<Rightarrow> string \<times> string" where
  "extract_word s =
     (let t = dropWhile is_space s
      in (takeWhile (\<lambda>c. \<not> is_space c) t, dropWhile (\<lambda>c. \<not> is_space c) t))"

text \<open>
  \<open>iss >> value\<close>. An extraction that cannot start, because nothing but white space is left,
  stores nothing: \<open>None\<close>. One that starts stores the number read, zero if there are no digits,
  the nearest \<open>int\<close> if the number is out of range.
\<close>

definition clamp_int32 :: "int \<Rightarrow> int" where
  "clamp_int32 v = max (- (2 ^ 31)) (min (2 ^ 31 - 1) v)"

definition extract_int :: "string \<Rightarrow> int option" where
  "extract_int s =
     (case dropWhile is_space s of
        [] \<Rightarrow> None
      | c # cs \<Rightarrow>
          (let neg = (c = CHR ''-'');
               body = (if c = CHR ''-'' \<or> c = CHR ''+'' then cs else c # cs);
               ds = takeWhile is_digit body
           in Some (clamp_int32 (if neg then - digits_value ds else digits_value ds))))"

section \<open>LocalReport and the receiver\<close>

text \<open>
  A report. In \<open>deserialize\<close> the variable \<open>value\<close> is not initialised: if nothing is stored in
  it the report carries an indeterminate number, which is the argument \<open>garbage\<close>.
\<close>

type_synonym Report = "string \<times> int"

definition deserialize :: "int \<Rightarrow> string \<Rightarrow> Report" where
  "deserialize garbage serialized =
     (let (key, rest) = extract_word serialized;
          stored = (if key = [] then None else extract_int rest)
      in (key, case stored of None \<Rightarrow> garbage | Some v \<Rightarrow> v))"

definition serialize :: "string \<Rightarrow> int \<Rightarrow> string" where
  "serialize key v = key @ '' '' @ show_int v"

text \<open>A port number is an \<open>unsigned short\<close>.\<close>

definition send_datagram :: "'e OS \<Rightarrow> int \<Rightarrow> string \<Rightarrow> (unit, ('e, 'z) world_scheme) io" where
  "send_datagram os port message =
     bindE (syscall (sys_send_udp os (port mod 2 ^ 16) message)) (\<lambda>ok.
       if ok then ret () else throw (System_Error ''send_to''))"

definition LocalReport ::
  "'e OS \<Rightarrow> int \<Rightarrow> string \<Rightarrow> string \<Rightarrow> ('e, 'z) world_scheme Metrics" where
  "LocalReport os port service cat =
     \<lparr>metrics_service_name = service, metrics_category = cat,
      send_metric = (\<lambda>key v. send_datagram os port (serialize key v))\<rparr>"

text \<open>The receiver's buffer, and what the handler is called with for one datagram.\<close>

definition buffer_size :: nat where "buffer_size = 250"

definition receive_report :: "int \<Rightarrow> string \<Rightarrow> Report" where
  "receive_report garbage message = deserialize garbage (take buffer_size message)"

section \<open>Reading back what was written\<close>

lemma of_char_digit [simp]: "n < 10 \<Longrightarrow> of_char (char_of (48 + n :: nat)) = (48 + n :: nat)"
  by simp

lemma of_char_digit_int: "n < 10 \<Longrightarrow> (of_char (char_of (48 + n :: nat)) :: int) = int (48 + n)"
  by (metis of_char_digit of_nat_of_char)

lemma is_digit_char [simp]: "n < 10 \<Longrightarrow> is_digit (char_of (48 + n :: nat))"
  by (simp add: is_digit_def)

lemma show_nat_digits: "show_nat n \<noteq> [] \<and> list_all is_digit (show_nat n)"
proof (induction n rule: show_nat.induct)
  case (1 n)
  then show ?case by (subst (1 2) show_nat.simps) auto
qed

lemma digits_value_snoc: "digits_value (ds @ [c]) = 10 * digits_value ds + (of_char c - 48)"
  by (simp add: digits_value_def)

lemma show_nat_value: "digits_value (show_nat n) = int n"
proof (induction n rule: show_nat.induct)
  case (1 n)
  show ?case
  proof (cases "n < 10")
    case True
    then show ?thesis
      by (subst show_nat.simps) (simp add: digits_value_def of_char_digit_int)
  next
    case False
    then have "digits_value (show_nat n) = 10 * int (n div 10) + int (n mod 10)"
      using 1 by (subst show_nat.simps) (simp add: digits_value_snoc of_char_digit_int)
    then show ?thesis by presburger
  qed
qed

lemma show_nat_length: "n < 10 ^ Suc k \<Longrightarrow> length (show_nat n) \<le> Suc k"
proof (induction k arbitrary: n)
  case 0
  then show ?case by (subst show_nat.simps) simp
next
  case (Suc k)
  have "n div 10 < 10 ^ Suc k" using Suc.prems by auto
  from Suc.IH [OF this] show ?case by (subst show_nat.simps) auto
qed

lemma digit_not_space: "is_digit c \<Longrightarrow> \<not> is_space c"
  by (auto simp: is_digit_def is_space_def)

lemma digit_not_sign: "is_digit c \<Longrightarrow> c \<noteq> CHR ''-'' \<and> c \<noteq> CHR ''+''"
  by (auto simp: is_digit_def)

lemma clamp_id: "is_int32 v \<Longrightarrow> clamp_int32 v = v"
  by (simp add: clamp_int32_def is_int32_def)

lemma takeWhile_all: "list_all P xs \<Longrightarrow> takeWhile P xs = xs"
  by (induction xs) auto

lemma extract_show_int:
  assumes "is_int32 v"
  shows "extract_int ('' '' @ show_int v) = Some v"
proof -
  have sp: "is_space (CHR '' '')" "\<not> is_space (CHR ''-'')" by (simp_all add: is_space_def)
  let ?ds = "show_nat (nat \<bar>v\<bar>)"
  obtain d ds where d: "?ds = d # ds" using show_nat_digits [of "nat \<bar>v\<bar>"] by (cases ?ds) auto
  have all: "list_all is_digit ?ds" using show_nat_digits by blast
  then have dd: "\<not> is_space d" "d \<noteq> CHR ''-''" "d \<noteq> CHR ''+''"
    using d digit_not_space digit_not_sign by auto
  have val: "digits_value (takeWhile is_digit ?ds) = \<bar>v\<bar>"
    by (simp add: takeWhile_all [OF all] show_nat_value)
  show ?thesis
  proof (cases "v < 0")
    case True
    then have "show_int v = CHR ''-'' # ?ds" by (simp add: show_int_def)
    then show ?thesis using True sp val assms clamp_id by (simp add: extract_int_def Let_def)
  next
    case False
    then have "show_int v = ?ds" by (simp add: show_int_def)
    then show ?thesis using False sp val assms clamp_id dd d
      by (simp add: extract_int_def Let_def)
  qed
qed

lemma extract_word_key:
  assumes "key \<noteq> []" and "list_all (\<lambda>c. \<not> is_space c) key"
  shows "extract_word (key @ CHR '' '' # rest) = (key, CHR '' '' # rest)"
proof -
  have "dropWhile is_space (key @ CHR '' '' # rest) = key @ CHR '' '' # rest"
    using assms by (cases key) auto
  moreover have "takeWhile (\<lambda>c. \<not> is_space c) (key @ CHR '' '' # rest) = key"
    "dropWhile (\<lambda>c. \<not> is_space c) (key @ CHR '' '' # rest) = CHR '' '' # rest"
    using assms(2) by (induction key) (auto simp: is_space_def)
  ultimately show ?thesis by (simp add: extract_word_def Let_def)
qed

lemma show_int_length:
  assumes "is_int32 v"
  shows "length (show_int v) \<le> 11"
proof -
  have "nat \<bar>v\<bar> < 10 ^ Suc 9" using assms by (simp add: is_int32_def) linarith
  from show_nat_length [OF this] show ?thesis by (cases "v < 0") (simp_all add: show_int_def)
qed

section \<open>Properties\<close>

text \<open>
  C14: a report that is sent is the report that is received. For a key that is not empty, holds no
  white space and has at most 238 characters, and a 32-bit number, what the receiver makes of
  the datagram, after its buffer of 250 bytes, is the same key and number.
\<close>

theorem report_roundtrip:
  assumes "key \<noteq> []" and "list_all (\<lambda>c. \<not> is_space c) key" and "length key \<le> 238"
    and "is_int32 v"
  shows "receive_report garbage (serialize key v) = (key, v)"
proof -
  have "length (serialize key v) \<le> buffer_size"
    using assms(3) show_int_length [OF assms(4)] by (simp add: serialize_def buffer_size_def)
  then show ?thesis
    using extract_word_key [OF assms(1,2), of "show_int v"] extract_show_int [OF assms(4)] assms(1)
    by (simp add: receive_report_def deserialize_def serialize_def)
qed

theorem report_roundtrip_witness:
  "receive_report 7 (serialize NumFilesShipped (- 12)) = (''barn_files_shipped'', - 12)"
proof -
  have "NumFilesShipped \<noteq> []" "list_all (\<lambda>c. \<not> is_space c) NumFilesShipped"
    "length NumFilesShipped \<le> 238" "is_int32 (- 12)"
    by code_simp+
  from report_roundtrip [OF this] show ?thesis by (simp add: NumFilesShipped_def)
qed

text \<open>
  A datagram with a key and no number, or with nothing, is reported all the same. Its number is
  whatever the uninitialised variable holds.
\<close>

lemma report_without_value:
  assumes "list_all (\<lambda>c. \<not> is_space c) key" and "list_all is_space spaces"
    and "length key + length spaces \<le> 250"
  shows "receive_report garbage (key @ spaces) = (key, garbage)"
proof -
  have drop: "dropWhile is_space spaces = []" "dropWhile (\<lambda>c. \<not> is_space c) spaces = spaces"
    "takeWhile (\<lambda>c. \<not> is_space c) spaces = []"
    using assms(2) by (cases spaces; simp add: list_all_iff)+
  have "extract_word (key @ spaces) = (key, if key = [] then [] else spaces)"
  proof (cases key)
    case Nil
    then show ?thesis by (simp add: extract_word_def Let_def drop)
  next
    case (Cons c cs)
    then have "dropWhile is_space (key @ spaces) = key @ spaces" using assms(1) by simp
    moreover have all: "\<not> is_space c" if "c \<in> set key" for c
      using assms(1) that by (simp add: list_all_iff)
    ultimately show ?thesis
      using Cons drop
      by (simp add: extract_word_def Let_def takeWhile_append2 [OF all] dropWhile_append2 [OF all]
          del: takeWhile_append dropWhile_append)
  qed
  then show ?thesis using assms(3)
    by (simp add: receive_report_def deserialize_def buffer_size_def extract_int_def drop(1))
qed

lemma report_without_value_witness:
  "receive_report 1717 (''barn_files_shipped'' @ '' '') = (''barn_files_shipped'', 1717)"
proof -
  have "list_all (\<lambda>c. \<not> is_space c) ''barn_files_shipped''" "list_all is_space '' ''"
    "length ''barn_files_shipped'' + length '' '' \<le> 250"
    by code_simp+
  from report_without_value [OF this] show ?thesis .
qed

end
