(* ===== verification/Monitor.thy ===== *)
theory Monitor
  imports Process Local_Report
begin

text \<open>
  \<^verbatim>\<open>barn-agent/src/monitor/barn-agent-monitor.cpp\<close> and \<^verbatim>\<open>ganglia.cpp\<close>: the monitor collects
  the reports of the agents of a host and publishes their sums every thirty seconds through
  \<open>gmetric\<close>. \<open>boost::circular_buffer\<close> is library code outside the repository: its
  \<open>push_back\<close> is the parameter \<open>push_back\<close>, from capacity, content and element to content.
\<close>

section \<open>ganglia.cpp\<close>

definition metric_group :: string where "metric_group = ''barn-agent''"
definition gmetric_command_name :: string where "gmetric_command_name = ''gmetric''"

definition gmetric_args :: "string \<Rightarrow> string \<Rightarrow> int \<Rightarrow> string list" where
  "gmetric_args grp metric v =
     [gmetric_command_name, ''-n'', metric, ''-g'', grp, ''-v'', show_int v, ''-t'', ''int32'',
      ''-T'', metric]"

definition report_ganglia ::
  "'e OS \<Rightarrow> string \<Rightarrow> string \<Rightarrow> int \<Rightarrow> (bool, ('e, 'z) world_scheme) io" where
  "report_ganglia os grp metric v =
     try_catch
      (bindE (run_command os gmetric_command_name (gmetric_args grp metric v)) (\<lambda>result.
         ret (fst result = 0)))
      (\<lambda>_. True)
      (\<lambda>e. ret False)"

section \<open>The repository of reports\<close>

definition report_interval_seconds :: int where "report_interval_seconds = 30"
definition max_metrics_per_interval :: nat where "max_metrics_per_interval = 1000"

type_synonym push_back = "nat \<Rightarrow> Report list \<Rightarrow> Report \<Rightarrow> Report list"

text \<open>What \<open>circular_buffer\<close> documents: a full buffer overwrites its oldest element.\<close>

definition circular_documented :: "push_back \<Rightarrow> bool" where
  "circular_documented push_back \<longleftrightarrow>
     (\<forall>cap buf x. push_back cap buf x =
        (if length buf < cap then buf @ [x] else if cap = 0 then [] else tl buf @ [x]))"

definition reference_push_back :: push_back where
  "reference_push_back cap buf x =
     (if length buf < cap then buf @ [x] else if cap = 0 then [] else tl buf @ [x])"

lemma reference_push_back_documented: "circular_documented reference_push_back"
  by (simp add: circular_documented_def reference_push_back_def)

definition addDefaultMetrics :: "push_back \<Rightarrow> Report list \<Rightarrow> Report list" where
  "addDefaultMetrics push_back metrics =
     fold (\<lambda>el ms. push_back max_metrics_per_interval ms (el, 0)) DefaultZeroMetrics metrics"

text \<open>\<open>aggregated[k] += v\<close> on a \<open>std::map\<close>, a list in ascending order of the keys.\<close>

fun map_add :: "string \<Rightarrow> int \<Rightarrow> (string \<times> int) list \<Rightarrow> (string \<times> int) list" where
  "map_add k v [] = [(k, to_int32 (0 + v))]"
| "map_add k v ((k', v') # m) =
     (if k < k' then (k, to_int32 (0 + v)) # (k', v') # m
      else if k = k' then (k', to_int32 (v' + v)) # m
      else (k', v') # map_add k v m)"

definition aggregate :: "Report list \<Rightarrow> (string \<times> int) list" where
  "aggregate buffer = fold (\<lambda>(k, v) aggregated. map_add k v aggregated) buffer []"

section \<open>The timer and the receiver\<close>

record 'e monitor_world = "'e world" +
  metric_repo :: "Report list"
  expires_at :: int

text \<open>
  The mutex makes two things atomic: taking the reports and starting the next interval, and
  adding a report. The log message about a full buffer is left out.
\<close>

definition take_metrics :: "push_back \<Rightarrow> (Report list, ('e, 'z) monitor_world_scheme) io" where
  "take_metrics push_back =
     bindE (getE metric_repo) (\<lambda>metrics_copy.
     thenE (modifyE (\<lambda>w. w\<lparr>metric_repo := addDefaultMetrics push_back []\<rparr>))
           (ret metrics_copy))"

definition receive_handler ::
  "push_back \<Rightarrow> Report \<Rightarrow> (unit, ('e, 'z) monitor_world_scheme) io" where
  "receive_handler push_back new_report =
     modifyE (\<lambda>w. w\<lparr>metric_repo :=
       push_back max_metrics_per_interval (metric_repo w) new_report\<rparr>)"

fun report_all :: "'e OS \<Rightarrow> (string \<times> int) list \<Rightarrow> (unit, ('e, 'z) world_scheme) io" where
  "report_all os [] = ret ()"
| "report_all os ((k, v) # ms) =
     bindE (report_ganglia os metric_group k v) (\<lambda>_. report_all os ms)"

definition timer_action ::
  "'e OS \<Rightarrow> push_back \<Rightarrow> (unit, ('e, 'z) monitor_world_scheme) io" where
  "timer_action os push_back =
     bindE (take_metrics push_back) (\<lambda>metrics_copy.
     thenE (report_all os (aggregate metrics_copy))
           (modifyE (\<lambda>w. w\<lparr>expires_at := expires_at w + report_interval_seconds\<rparr>)))"

section \<open>Sums\<close>

lemma to_int32_add: "to_int32 (to_int32 a + b) = to_int32 (a + b)"
  by (simp add: to_int32_def mod_simps algebra_simps)

lemma keys_map_add: "set (map fst (map_add k v m)) = insert k (set (map fst m))"
  by (induction k v m rule: map_add.induct) auto

lemma sorted_map_add:
  "sorted_wrt (<) (map fst m) \<Longrightarrow> sorted_wrt (<) (map fst (map_add k v m))"
proof (induction k v m rule: map_add.induct)
  case (2 k v k' v' m)
  then show ?case
    using keys_map_add [of k v m] by (auto simp del: set_map dest: order.strict_trans)
qed simp

lemma map_of_map_add:
  "sorted_wrt (<) (map fst m) \<Longrightarrow>
   map_of (map_add k v m) x =
     (if x = k then Some (to_int32 ((case map_of m k of None \<Rightarrow> 0 | Some u \<Rightarrow> u) + v))
      else map_of m x)"
proof (induction k v m rule: map_add.induct)
  case (2 k v k' v' m)
  have "map_of m k = None" if "k < k'"
    using 2(2) that by (auto simp: map_of_eq_None_iff dest: order.strict_trans)
  then show ?case using 2 by auto
qed simp

definition reported_sum :: "Report list \<Rightarrow> string \<Rightarrow> int" where
  "reported_sum buf k = sum_list (map snd (filter (\<lambda>r. fst r = k) buf))"

lemma aggregate_invariant:
  "sorted_wrt (<) (map fst (aggregate buf)) \<and>
   map_of (aggregate buf) k =
     (if k \<in> fst ` set buf then Some (to_int32 (reported_sum buf k)) else None)"
proof (induction buf rule: rev_induct)
  case Nil
  then show ?case by (simp add: aggregate_def)
next
  case (snoc r buf)
  obtain k' v where r: "r = (k', v)" by fastforce
  have step: "aggregate (buf @ [r]) = map_add k' v (aggregate buf)"
    by (simp add: aggregate_def r)
  have none: "reported_sum buf k' = 0" if "k' \<notin> fst ` set buf"
  proof -
    have "filter (\<lambda>r. fst r = k') buf = []" using that by (auto simp: filter_empty_conv)
    then show ?thesis by (simp add: reported_sum_def)
  qed
  show ?case
  proof (cases "k = k'")
    case True
    then show ?thesis using snoc step none
      by (auto simp: sorted_map_add map_of_map_add r reported_sum_def to_int32_add)
  next
    case False
    then show ?thesis using snoc step
      by (auto simp: sorted_map_add map_of_map_add r reported_sum_def)
  qed
qed

section \<open>Properties\<close>

text \<open>
  What is published for a metric is the sum of its reports. \<open>aggregate\<close> has one entry for each
  key that was reported, in ascending order, and its number is the sum of the reported
  numbers, as a 32-bit \<open>int\<close> wraps it.
\<close>

lemma aggregate_sums:
  "sorted_wrt (<) (map fst (aggregate buf)) \<and>
   map_of (aggregate buf) k =
     (if k \<in> fst ` set buf then Some (to_int32 (sum_list (map snd (filter (\<lambda>r. fst r = k) buf))))
      else None)"
  using aggregate_invariant [of buf k] by (simp add: reported_sum_def)

lemma circular_push:
  "circular_documented push_back \<Longrightarrow> push_back cap buf x =
     (if length buf < cap then buf @ [x] else if cap = 0 then [] else tl buf @ [x])"
  unfolding circular_documented_def by blast

lemma zero_reports_sum:
  "sum_list (map snd (filter p (map (\<lambda>k. (k, 0 :: int)) ks))) = 0"
  by (induction ks) auto

lemma fold_push_room:
  assumes "circular_documented push_back" and "length buf + length rs \<le> cap"
  shows "fold (\<lambda>r ms. push_back cap ms r) rs buf = buf @ rs"
  using assms(2)
proof (induction rs arbitrary: buf)
  case (Cons r rs)
  then show ?case using Cons by (simp add: circular_push [OF assms(1)])
qed simp

lemma fold_push_full:
  assumes "circular_documented push_back" and "length buf \<le> cap" "0 < cap"
  shows "fold (\<lambda>r ms. push_back cap ms r) rs buf =
    drop (length buf + length rs - cap) (buf @ rs)"
  using assms(2)
proof (induction rs arbitrary: buf)
  case (Cons r rs)
  have push: "push_back cap buf r = (if length buf < cap then buf @ [r] else tl buf @ [r])"
    using assms(3) by (simp add: circular_push [OF assms(1)])
  show ?case
  proof (cases "length buf < cap")
    case True
    then show ?thesis using Cons.IH [of "buf @ [r]"] push by simp
  next
    case False
    then obtain b bs where b: "buf = b # bs" "length buf = cap"
      using Cons.prems assms(3) by (cases buf) auto
    then show ?thesis using Cons.IH [of "bs @ [r]"] push by simp
  qed
qed simp

definition default_reports :: "Report list" where
  "default_reports = map (\<lambda>k. (k, 0)) DefaultZeroMetrics"

lemma add_defaults:
  assumes "circular_documented push_back"
  shows "addDefaultMetrics push_back [] = default_reports"
proof -
  have "addDefaultMetrics push_back [] =
      fold (\<lambda>r ms. push_back max_metrics_per_interval ms r) default_reports []"
    by (simp add: addDefaultMetrics_def default_reports_def fold_map comp_def)
  also have "\<dots> = default_reports"
    using fold_push_room [OF assms, of "[]" default_reports max_metrics_per_interval]
    by (simp add: default_reports_def DefaultZeroMetrics_def max_metrics_per_interval_def)
  finally show ?thesis .
qed

text \<open>What the repository holds after a firing of the timer and then the reports \<open>rs\<close>.\<close>

definition interval_repo :: "push_back \<Rightarrow> Report list \<Rightarrow> Report list" where
  "interval_repo push_back rs =
     fold (\<lambda>r ms. push_back max_metrics_per_interval ms r) rs (addDefaultMetrics push_back [])"

text \<open>
  C15: no report of an interval is lost, and metrics that were not reported are published as zero.
  For a buffer as documented and at most 992 reports after a firing of the timer, the next
  firing publishes for each reported metric the sum of its reports, and zero for each of the
  default metrics that was not reported.
\<close>

theorem interval_published:
  assumes "circular_documented push_back" and "length rs \<le> 992"
    and "k \<in> fst ` set rs \<or> k \<in> set DefaultZeroMetrics"
  shows "map_of (aggregate (interval_repo push_back rs)) k =
    Some (to_int32 (sum_list (map snd (filter (\<lambda>r. fst r = k) rs))))"
proof -
  have repo: "interval_repo push_back rs = default_reports @ rs"
    using fold_push_room [OF assms(1), of default_reports rs max_metrics_per_interval] assms(2)
    by (simp add: interval_repo_def add_defaults [OF assms(1)] default_reports_def
        DefaultZeroMetrics_def max_metrics_per_interval_def)
  have zero: "sum_list (map snd (filter (\<lambda>r. fst r = k) default_reports)) = 0"
    by (simp only: default_reports_def zero_reports_sum)
  have "k \<in> fst ` set (default_reports @ rs)"
    using assms(3) by (auto simp: default_reports_def image_Un image_image)
  then show ?thesis
    using aggregate_invariant [of "default_reports @ rs" k] zero
    by (simp add: repo reported_sum_def)
qed

theorem interval_published_witness:
  "map_of (aggregate (interval_repo reference_push_back [(NumFilesShipped, 2), (NumFilesShipped, 3)]))
     NumFilesShipped = Some 5 \<and>
   map_of (aggregate (interval_repo reference_push_back [(NumFilesShipped, 2), (NumFilesShipped, 3)]))
     FailedOverAgents = Some 0"
  using interval_published [OF reference_push_back_documented,
      of "[(NumFilesShipped, 2), (NumFilesShipped, 3)]" NumFilesShipped]
    interval_published [OF reference_push_back_documented,
      of "[(NumFilesShipped, 2), (NumFilesShipped, 3)]" FailedOverAgents]
  by (simp add: DefaultZeroMetrics_def metric_names to_int32_def)

text \<open>
  A full buffer drops the zeroes. If a thousand or more reports arrive in an interval, only the
  last thousand count, and a default metric that is not among them is not published at all.
\<close>

lemma full_buffer_drops_defaults:
  assumes "circular_documented push_back" and "1000 \<le> length rs"
  shows "interval_repo push_back rs = drop (length rs - 1000) rs \<and>
    (k \<notin> fst ` set rs \<longrightarrow> map_of (aggregate (interval_repo push_back rs)) k = None)"
proof -
  have len: "length default_reports = 8"
    by (simp add: default_reports_def DefaultZeroMetrics_def)
  have repo: "interval_repo push_back rs = drop (length rs - 1000) rs"
    using fold_push_full [OF assms(1), of default_reports max_metrics_per_interval rs] assms(2)
    by (simp add: interval_repo_def add_defaults [OF assms(1)] len max_metrics_per_interval_def)
  moreover have "fst ` set (drop (length rs - 1000) rs) \<subseteq> fst ` set rs"
    by (intro image_mono set_drop_subset)
  then have "map_of (aggregate (drop (length rs - 1000) rs)) k = None" if "k \<notin> fst ` set rs"
    using that aggregate_invariant [of "drop (length rs - 1000) rs" k] by auto
  ultimately show ?thesis by simp
qed

lemma full_buffer_drops_defaults_witness:
  "map_of (aggregate (interval_repo reference_push_back (replicate 1000 (NumFilesShipped, 1))))
     FailedOverAgents = None"
proof -
  have "FailedOverAgents \<notin> fst ` set (replicate 1000 (NumFilesShipped, 1))"
    by (simp add: metric_names)
  moreover have "1000 \<le> length (replicate 1000 (NumFilesShipped, 1 :: int))" by simp
  ultimately show ?thesis
    using full_buffer_drops_defaults [OF reference_push_back_documented] by blast
qed

lemma report_ganglia_run:
  "report_ganglia os grp metric v w =
    (case run_command os gmetric_command_name (gmetric_args grp metric v) w of
       None \<Rightarrow> None
     | Some (Inl e, w') \<Rightarrow> if catchable e then Some (Inr False, w') else Some (Inl e, w')
     | Some (Inr r, w') \<Rightarrow> Some (Inr (fst r = 0), w'))"
  by (simp add: report_ganglia_def try_catch_def bindE_def ret_def split: option.splits sum.splits)

text \<open>
  Failing to publish does not stop the monitor. \<open>report_ganglia\<close> throws nothing: if it does not
  return a value, it ended in a failed assertion. It returns true exactly when \<open>gmetric\<close> was
  run and exited with 0. And it leaves the descriptor table as it was, even after an exception.
\<close>

lemma report_ganglia_total:
  assumes "pipe_documented os" and "report_ganglia os grp metric v w = Some (res, w')"
  shows "(\<forall>e. res = Inl e \<longrightarrow> \<not> catchable e) \<and>
    (\<forall>b. res = Inr b \<longrightarrow> fds w' = fds w \<and>
      (b \<longleftrightarrow> (\<exists>out. run_command os gmetric_command_name (gmetric_args grp metric v) w =
                Some (Inr (0, out), w'))))"
proof -
  obtain r where r: "run_command os gmetric_command_name (gmetric_args grp metric v) w = Some (r, w')"
    and res: "res = (case r of Inl e \<Rightarrow> if catchable e then Inr False else Inl e
                      | Inr p \<Rightarrow> Inr (fst p = 0))"
    using assms(2) by (auto simp: report_ganglia_run split: option.splits sum.splits if_splits)
  have "fds w' = fds w" if "\<And>e. r = Inl e \<Longrightarrow> catchable e"
    using assms(1) r
  proof (cases rule: run_command_cases)
    case (not_started e)
    then show ?thesis using that by blast
  next
    case started
    show ?thesis
    proof (cases r)
      case (Inl e)
      then show ?thesis using started(13) that by blast
    next
      case (Inr p)
      then show ?thesis by (rule started(14))
    qed
  qed
  then show ?thesis using r res by (auto split: sum.splits if_splits)
qed

lemma report_ganglia_total_witness:
  "\<exists>w'. report_ganglia (host_os None) metric_group NumFilesShipped 3 host_world = Some (Inr False, w') \<and>
    fds w' = fds host_world"
proof -
  have "map_option fst (report_ganglia (host_os None) metric_group NumFilesShipped 3 host_world) =
    Some (Inr False)" by code_simp
  then obtain w' where w': "report_ganglia (host_os None) metric_group NumFilesShipped 3 host_world =
    Some (Inr False, w')" by auto
  from report_ganglia_total [OF host_os_pipe this] w' show ?thesis by auto
qed

lemma monitor_view:
  "keeps (run_command os cmd args)
     (\<lambda>w :: ('e, 'z) monitor_world_scheme. (metric_repo w, expires_at w))"
proof (rule keeps_run_command)
  fix w w' :: "('e, 'z) monitor_world_scheme"
  assume "program_state w = program_state w'"
  then show "(metric_repo w, expires_at w) = (metric_repo w', expires_at w')"
    by (cases w; cases w') (simp add: program_state_def)
qed simp_all

lemma keeps_report_ganglia: "keeps (run_command os gmetric_command_name (gmetric_args g m v)) f \<Longrightarrow>
   keeps (report_ganglia os g m v) f"
  unfolding report_ganglia_def by (intro keeps_intros)

lemma keeps_report_all:
  "keeps (report_all os ms) (\<lambda>w :: ('e, 'z) monitor_world_scheme. (metric_repo w, expires_at w))"
  by (induction ms) (auto intro!: keeps_intros keeps_report_ganglia monitor_view)

text \<open>
  A firing of the timer. If it returns, it has published the sums of the reports it found, in
  the order of the metrics' names; the repository has been refilled with the default metrics
  (reports that arrive in the meantime come after them); and the next firing is thirty seconds after this one was due, however long
  publishing took.
\<close>

lemma timer_action_publishes:
  assumes "circular_documented push_back"
    and "timer_action os push_back w = Some (Inr (), w')"
  shows "\<exists>w1. report_all os (aggregate (metric_repo w))
      (w\<lparr>metric_repo := map (\<lambda>k. (k, 0)) DefaultZeroMetrics\<rparr>) = Some (Inr (), w1) \<and>
    w' = w1\<lparr>expires_at := expires_at w + 30\<rparr> \<and>
    metric_repo w' = map (\<lambda>k. (k, 0)) DefaultZeroMetrics"
proof -
  obtain w1 where w1: "report_all os (aggregate (metric_repo w))
      (w\<lparr>metric_repo := default_reports\<rparr>) = Some (Inr (), w1)"
    and w': "w' = w1\<lparr>expires_at := expires_at w1 + 30\<rparr>"
    using assms(2)
    by (auto simp: timer_action_def take_metrics_def io_simps bindE_Inr add_defaults [OF assms(1)]
        report_interval_seconds_def)
  have "metric_repo w1 = default_reports" "expires_at w1 = expires_at w"
    using keepsD [OF keeps_report_all w1] by simp_all
  then show ?thesis using w1 w' by (simp add: default_reports_def)
qed

definition monitor_example :: "nat monitor_world" where
  "monitor_example = world.extend host_world
     (monitor_world.fields [(''barn_files_shipped'', 2), (''barn_files_shipped'', 3)] 100)"

lemma timer_action_publishes_witness:
  "\<exists>w'. timer_action (host_os None) reference_push_back monitor_example = Some (Inr (), w') \<and>
    expires_at w' = 130 \<and> length (metric_repo w') = 8"
proof -
  have "map_option fst (timer_action (host_os None) reference_push_back monitor_example) =
    Some (Inr ())" by code_simp
  then obtain w' where w': "timer_action (host_os None) reference_push_back monitor_example =
    Some (Inr (), w')" by auto
  from timer_action_publishes [OF reference_push_back_documented this] w' show ?thesis
    by (auto simp: monitor_example_def world.defs monitor_world.defs host_world_def
        DefaultZeroMetrics_def)
qed

end
