(* ===== verification/Agent_Main.thy ===== *)
theory Agent_Main
  imports Files Agent_Properties Sighandle Monitor
begin

text \<open>
  The start of the agent: \<open>create_channel_selector\<close>, \<open>create_metrics\<close> and
  \<open>barn_agent_main\<close> of \<^verbatim>\<open>barn-agent/src/barn-agent.cpp\<close>, and \<open>main\<close> of \<^verbatim>\<open>main.cpp\<close>.
  The state is an \<open>agent_world\<close>; creating the selector sets its selector field.
\<close>

definition new_failover_channel_selector ::
  "'e OS \<Rightarrow> 't \<Rightarrow> 't \<Rightarrow> int \<Rightarrow> ('t selector, ('e, 'z) world_scheme) io" where
  "new_failover_channel_selector os prim sec seconds =
     thenE (assertE (seconds > 0) ''seconds_before_failover > 0'')
    (bindE (now_in_seconds os) (\<lambda>now.
       case new_failover prim sec seconds now of
         None \<Rightarrow> throw (Abort ''seconds_before_failover > 0'')
       | Some f \<Rightarrow> ret (FailoverChannelSelector f)))"

definition create_channel_selector ::
  "'e OS \<Rightarrow> BarnConf \<Rightarrow> (AgentChannel selector, ('e, 'z) world_scheme) io" where
  "create_channel_selector os conf =
     bindE (get_rsync_target os (primary_rsync_addr conf) (remote_rsync_namespace conf)
              (service_name conf) (category conf)) (\<lambda>primary_target.
     let prim = \<lparr>channel_source_dir = source_dir conf, rsync_target = primary_target\<rparr> in
     if seconds_before_failover conf = 0 then ret (SingleChannelSelector prim)
     else
       bindE (get_rsync_target os (secondary_rsync_addr conf) (remote_rsync_namespace_backup conf)
                (service_name conf) (category conf)) (\<lambda>backup_target.
       let backup = \<lparr>channel_source_dir = source_dir conf, rsync_target = backup_target\<rparr> in
       new_failover_channel_selector os prim backup (seconds_before_failover conf)))"

definition create_metrics :: "'e OS \<Rightarrow> BarnConf \<Rightarrow> ('e, 'z) world_scheme Metrics" where
  "create_metrics os conf =
     (if monitor_port conf > 0
      then LocalReport os (monitor_port conf) (service_name conf) (category conf)
      else NoOpMetrics)"

text \<open>The body of the loop, and the loop, which ends only by an exception.\<close>

definition agent_round ::
  "'e OS \<Rightarrow> splitter \<Rightarrow> BarnConf \<Rightarrow> (AgentChannel, 'e, 'z) agent_world_scheme Metrics \<Rightarrow>
   (unit, (AgentChannel, 'e, 'z) agent_world_scheme) io" where
  "agent_round os boost_split conf metrics =
     thenE (dispatch_new_logs os conf (file_ops os boost_split) metrics)
           (send_metrics os metrics)"

partial_function (option) agent_loop ::
  "'e OS \<Rightarrow> splitter \<Rightarrow> BarnConf \<Rightarrow> (AgentChannel, 'e, 'z) agent_world_scheme Metrics \<Rightarrow>
   (AgentChannel, 'e, 'z) agent_world_scheme \<Rightarrow>
   ((exn + unit) \<times> (AgentChannel, 'e, 'z) agent_world_scheme) option" where
  "agent_loop os boost_split conf metrics w =
     (case agent_round os boost_split conf metrics w of
        None \<Rightarrow> None
      | Some (Inl e, w') \<Rightarrow> Some (Inl e, w')
      | Some (Inr _, w') \<Rightarrow> agent_loop os boost_split conf metrics w')"

declare agent_loop.simps [code]

definition barn_agent_main ::
  "'e OS \<Rightarrow> splitter \<Rightarrow> BarnConf \<Rightarrow> (unit, (AgentChannel, 'e, 'z) agent_world_scheme) io" where
  "barn_agent_main os boost_split conf =
     (let metrics = create_metrics os conf in
      bindE (create_channel_selector os conf) (\<lambda>sel.
      thenE (set_selector sel)
            (agent_loop os boost_split conf metrics)))"

text \<open>
  What \<open>main\<close> goes on to do, exit, run the monitor or run the agent, and the signals it has
  set up by then. Seeding the generator only fixes what \<open>sys_rand\<close> gives.
\<close>

datatype main_action = Main_Exit int | Main_Monitor BarnConf | Main_Agent BarnConf

definition main :: "program_options \<Rightarrow> string list \<Rightarrow> signals \<Rightarrow> main_action \<times> signals" where
  "main po_parse argv s =
     (case parse_command_line po_parse argv of
        Exits n \<Rightarrow> (Main_Exit n, s)
      | Continues conf \<Rightarrow>
          (if monitor_mode conf then Main_Monitor conf else Main_Agent conf,
           enable_kill_child_signal_handler s))"

section \<open>Frames\<close>

definition selector_channels :: "'t selector \<Rightarrow> 't set" where
  "selector_channels sel =
     (case sel of SingleChannelSelector c \<Rightarrow> {c} | FailoverChannelSelector f \<Rightarrow> fcs_channels f)"

text \<open>What never changes once the agent has started.\<close>

definition fixed_view ::
  "(AgentChannel, 'e, 'z) agent_world_scheme \<Rightarrow> AgentChannel set \<times> string option" where
  "fixed_view w = (selector_channels (channel_selector w), host_name_static w)"

lemma fixed_view_env [simp]: "fixed_view (w\<lparr>env := e\<rparr>) = fixed_view w"
  by (simp add: fixed_view_def)

lemma command_view_fixed: "command_view fixed_view"
  unfolding command_view_def
proof (intro conjI allI impI)
  fix w w' :: "(AgentChannel, 'e, 'z) agent_world_scheme"
  assume "program_state w = program_state w'"
  then show "fixed_view w = fixed_view w'"
    by (cases w; cases w') (simp add: program_state_def fixed_view_def)
qed (simp add: fixed_view_def)

interpretation real_fixed: framed_file_ops "file_ops os boost_split" fixed_view
  by (rule file_ops_framed [OF command_view_fixed])

lemma keeps_created_metrics: "keeps (send_metric (create_metrics os conf) k v) fixed_view"
  by (auto simp: create_metrics_def LocalReport_def NoOpMetrics_def send_datagram_def
      intro!: keeps_intros)

lemma keeps_now: "(\<And>w e. f (w\<lparr>env := e\<rparr>) = f w) \<Longrightarrow> keeps (now_in_seconds os) f"
  unfolding now_in_seconds_def by (intro keeps_intros)

lemma set_selector_fixed:
  "selector_channels sel = selector_channels (channel_selector w) \<Longrightarrow>
   fixed_view (w\<lparr>channel_selector := sel\<rparr>) = fixed_view w"
  by (simp add: fixed_view_def)

lemma keeps_pick_fixed:
  fixes os :: "'e OS"
  shows "keeps (pick_channel os) (fixed_view :: (AgentChannel, 'e, 'z) agent_world_scheme \<Rightarrow> _)"
proof (rule keepsI)
  fix w :: "(AgentChannel, 'e, 'z) agent_world_scheme" and r w'
  assume run: "pick_channel os w = Some (r, w')"
  show "fixed_view w' = fixed_view w"
  proof (cases "channel_selector w")
    case (SingleChannelSelector c)
    then have "w' = w\<lparr>channel_selector := SingleChannelSelector c\<rparr>"
      using run by (simp add: pick_channel_def io_simps scs_pick_channel_def set_selector_def)
    then show ?thesis using SingleChannelSelector set_selector_fixed [of "SingleChannelSelector c" w]
      by simp
  next
    case (FailoverChannelSelector f)
    then have run': "bindE (now_in_seconds os) (\<lambda>now.
        case fcs_pick_channel now f of
          (c, f') \<Rightarrow> thenE (set_selector (FailoverChannelSelector f')) (ret c)) w = Some (r, w')"
      using run by (simp add: pick_channel_def io_simps)
    obtain nr w1 where now: "now_in_seconds os w = Some (nr, w1)"
      using run' by (auto simp: bindE_Some)
    have w1: "fixed_view w1 = fixed_view w" "channel_selector w1 = channel_selector w"
      using keepsD [OF keeps_now now, of fixed_view] keepsD [OF keeps_now now, of channel_selector]
      by simp_all
    show ?thesis
    proof (cases nr)
      case (Inl e)
      then show ?thesis using run' now w1 by (simp add: io_simps)
    next
      case (Inr t)
      obtain c f' where f': "fcs_pick_channel t f = (c, f')" by fastforce
      have "fcs_channels f' = fcs_channels f" using failover.pick_channels [of t f] f' by simp
      then show ?thesis
        using run' now Inr f' w1 FailoverChannelSelector
          set_selector_fixed [of "FailoverChannelSelector f'" w1]
        by (simp add: io_simps set_selector_def selector_channels_def)
    qed
  qed
qed

lemma keeps_heartbeat_fixed:
  fixes os :: "'e OS"
  shows "keeps (heartbeat os) (fixed_view :: (AgentChannel, 'e, 'z) agent_world_scheme \<Rightarrow> _)"
proof (rule keepsI)
  fix w :: "(AgentChannel, 'e, 'z) agent_world_scheme" and r w'
  assume run: "heartbeat os w = Some (r, w')"
  show "fixed_view w' = fixed_view w"
  proof (cases "channel_selector w")
    case (SingleChannelSelector c)
    then show ?thesis using run set_selector_fixed [of "SingleChannelSelector c" w]
      by (simp add: heartbeat_def io_simps scs_heartbeat_def set_selector_def)
  next
    case (FailoverChannelSelector f)
    show ?thesis
    proof (cases "primary_ok f")
      case False
      then show ?thesis using run FailoverChannelSelector by (simp add: heartbeat_def io_simps)
    next
      case True
      then have run': "bindE (now_in_seconds os) (\<lambda>now.
          set_selector (FailoverChannelSelector (fcs_heartbeat now f))) w = Some (r, w')"
        using run FailoverChannelSelector by (simp add: heartbeat_def io_simps)
      obtain nr w1 where now: "now_in_seconds os w = Some (nr, w1)"
        using run' by (auto simp: bindE_Some)
      have w1: "fixed_view w1 = fixed_view w" "channel_selector w1 = channel_selector w"
        using keepsD [OF keeps_now now, of fixed_view] keepsD [OF keeps_now now, of channel_selector]
        by simp_all
      show ?thesis
      proof (cases nr)
        case (Inl e)
        then show ?thesis using run' now w1 by (simp add: io_simps)
      next
        case (Inr t)
        have "fcs_channels (fcs_heartbeat t f) = fcs_channels f"
          by (rule failover.beat_channels)
        then show ?thesis
          using run' now Inr w1 FailoverChannelSelector
            set_selector_fixed [of "FailoverChannelSelector (fcs_heartbeat t f)" w1]
          by (simp add: io_simps set_selector_def selector_channels_def)
      qed
    qed
  qed
qed

lemma keeps_send_all: "(\<And>k v. keeps (send_metric m k v) f) \<Longrightarrow> keeps (send_all m ms) f"
  by (induction ms) (auto intro!: keeps_intros)

lemma keeps_round:
  fixes os :: "'e OS"
  shows "keeps (agent_round os bs conf (create_metrics os conf'))
    (fixed_view :: (AgentChannel, 'e, 'z) agent_world_scheme \<Rightarrow> _)"
  unfolding agent_round_def dispatch_new_logs_def send_metrics_def
  by (intro keeps_intros keeps_pick_fixed keeps_heartbeat_fixed keeps_sleep_it keeps_send_all
      real_fixed.keeps_query real_fixed.keeps_ship_candidates real_fixed.keeps_wait keeps_now
      keeps_created_metrics fixed_view_env) (auto intro!: keeps_intros keeps_now keeps_send_all
      keeps_created_metrics split: selector.splits)

section \<open>Properties\<close>

definition channel_of :: "BarnConf \<Rightarrow> string \<Rightarrow> string \<Rightarrow> string \<Rightarrow> AgentChannel" where
  "channel_of conf addr ns host_name =
     \<lparr>channel_source_dir = source_dir conf,
      rsync_target = ''rsync://'' @ addr @ ''/'' @ ns @ ''/'' @ service_name conf @ ''@'' @
        category conf @ ''@'' @ host_name @ ''/''\<rparr>"

lemma get_rsync_target_Inr:
  assumes "get_rsync_target os addr ns (service_name conf) (category conf) w = Some (Inr t, w')"
  shows "\<exists>h. host_name_static w' = Some h \<and> (\<forall>h0. host_name_static w = Some h0 \<longrightarrow> h = h0) \<and>
    t = rsync_target (channel_of conf addr ns h)"
proof -
  obtain h where h: "static_host_name os w = Some (Inr h, w')"
    and t: "t = rsync_target (channel_of conf addr ns h)"
    using assms
    by (auto simp: get_rsync_target_def bindE_Inr ret_run rsync_constants RSYNC_PATH_SEPARATOR_def
        channel_of_def)
  have "host_name_static w' = Some h" "\<forall>h0. host_name_static w = Some h0 \<longrightarrow> h = h0"
    using h by (auto simp: static_host_name_def bindE_Inr getE_run thenE_run modifyE_run ret_run
        split: option.splits)
  then show ?thesis using t by blast
qed

text \<open>
  The channels the agent starts with. If the selector is created, its channels have the
  configured source directory, the configured addresses and rsync modules, and one host name;
  without a failover window there is only the primary; with one the primary is the channel in
  use, and the clock of its heartbeats starts at the time of creation.
\<close>

lemma created_channels:
  assumes "create_channel_selector os conf w = Some (Inr sel, w')"
  shows "\<exists>h. host_name_static w' = Some h \<and>
    (let prim = channel_of conf (primary_rsync_addr conf) (remote_rsync_namespace conf) h;
         backup = channel_of conf (secondary_rsync_addr conf) (remote_rsync_namespace_backup conf) h
     in if seconds_before_failover conf = 0 then sel = SingleChannelSelector prim
        else \<exists>now. sel = FailoverChannelSelector
          \<lparr>primary = prim, secondary = backup, primary_ok = True, last_heartbeat_time = now,
           fcs_seconds_before_failover = seconds_before_failover conf\<rparr>)"
proof -
  obtain t1 w1 where t1: "get_rsync_target os (primary_rsync_addr conf) (remote_rsync_namespace conf)
      (service_name conf) (category conf) w = Some (Inr t1, w1)"
    and rest: "(if seconds_before_failover conf = 0
      then ret (SingleChannelSelector \<lparr>channel_source_dir = source_dir conf, rsync_target = t1\<rparr>)
      else bindE (get_rsync_target os (secondary_rsync_addr conf) (remote_rsync_namespace_backup conf)
                (service_name conf) (category conf)) (\<lambda>t2.
        new_failover_channel_selector os \<lparr>channel_source_dir = source_dir conf, rsync_target = t1\<rparr>
          \<lparr>channel_source_dir = source_dir conf, rsync_target = t2\<rparr> (seconds_before_failover conf)))
      w1 = Some (Inr sel, w')"
    using assms unfolding create_channel_selector_def Let_def bindE_Inr by blast
  obtain h where h: "host_name_static w1 = Some h"
    "t1 = rsync_target (channel_of conf (primary_rsync_addr conf) (remote_rsync_namespace conf) h)"
    using get_rsync_target_Inr [OF t1] by blast
  show ?thesis
  proof (cases "seconds_before_failover conf = 0")
    case True
    then show ?thesis using rest h by (auto simp: ret_run channel_of_def Let_def)
  next
    case False
    then obtain t2 w2 where t2: "get_rsync_target os (secondary_rsync_addr conf)
        (remote_rsync_namespace_backup conf) (service_name conf) (category conf) w1 =
        Some (Inr t2, w2)"
      and fail: "new_failover_channel_selector os
          \<lparr>channel_source_dir = source_dir conf, rsync_target = t1\<rparr>
          \<lparr>channel_source_dir = source_dir conf, rsync_target = t2\<rparr> (seconds_before_failover conf)
          w2 = Some (Inr sel, w')"
      using rest by (auto simp: bindE_Inr)
    have h2: "host_name_static w2 = Some h"
      "t2 = rsync_target (channel_of conf (secondary_rsync_addr conf)
        (remote_rsync_namespace_backup conf) h)"
      using get_rsync_target_Inr [OF t2] h(1) by auto
    obtain now f where now: "now_in_seconds os w2 = Some (Inr now, w')"
      "new_failover \<lparr>channel_source_dir = source_dir conf, rsync_target = t1\<rparr>
        \<lparr>channel_source_dir = source_dir conf, rsync_target = t2\<rparr> (seconds_before_failover conf) now
        = Some f" "sel = FailoverChannelSelector f"
      using fail by (auto simp: new_failover_channel_selector_def thenE_def bindE_Inr assertE_run
          ret_run throw_run split: option.splits if_splits)
    have "host_name_static w' = Some h"
      using keepsD [OF keeps_now now(1), of host_name_static] h2 by simp
    then show ?thesis using False h h2 now(2,3)
      by (auto simp: channel_of_def Let_def new_failover_def split: if_splits)
  qed
qed

lemma created_channels_witness:
  "\<exists>w' now. create_channel_selector script_os (notify no_backup_vm) (script_world [(''web1\<newline>'', 0)]) =
      Some (Inr (FailoverChannelSelector
        \<lparr>primary = \<lparr>channel_source_dir = ''/var/log/app'',
                     rsync_target = ''rsync://10.0.0.1:1025/barn_logs/app@main@web1/''\<rparr>,
         secondary = \<lparr>channel_source_dir = ''/var/log/app'',
                       rsync_target = ''rsync:///barn_backup_logs/app@main@web1/''\<rparr>,
         primary_ok = True, last_heartbeat_time = now, fcs_seconds_before_failover = 120\<rparr>), w')"
proof -
  have "map_option (\<lambda>(r, w). (isl r, host_name_static w))
      (create_channel_selector script_os (notify no_backup_vm) (script_world [(''web1\<newline>'', 0)])) =
    Some (False, Some ''web1'')" by code_simp
  then obtain r w' where run: "create_channel_selector script_os (notify no_backup_vm)
      (script_world [(''web1\<newline>'', 0)]) = Some (r, w')"
    and r: "\<not> isl r" "host_name_static w' = Some ''web1''" by auto
  then obtain sel where "r = Inr sel" by (cases r) auto
  with created_channels [OF run [unfolded this]] run r(2) show ?thesis
    by (auto simp: notify_def no_backup_vm_def default_value_def channel_of_def Let_def)
qed

text \<open>
  An accepted configuration never trips the assertion of the failover selector. If \<open>main\<close> goes
  on to run the agent and the configuration has a failover window, then making the selector
  out of any two channels can fail only by an exception, not by aborting.
\<close>

lemma accepted_never_asserts:
  assumes "main po_parse argv s = (Main_Agent conf, s')" and "seconds_before_failover conf \<noteq> 0"
    and "new_failover_channel_selector os prim backup (seconds_before_failover conf) w =
      Some (Inl e, w')"
  shows "catchable e"
proof -
  have "parse_command_line po_parse argv = Continues conf"
    using assms(1) by (auto simp: main_def split: startup.splits if_splits)
  then have pos: "0 < seconds_before_failover conf"
    using assms(2) by (auto simp: parse_Continues)
  have "now_in_seconds os w = Some (Inl e, w')"
    using assms(3) pos
    by (auto simp: new_failover_channel_selector_def thenE_def assertE_def bindE_Some new_failover_def
        ret_run)
  then show ?thesis
    by (auto simp: now_in_seconds_def bindE_Some syscall_Some throw_run ret_run split: if_splits)
qed

lemma accepted_never_asserts_witness:
  "\<exists>e w'. new_failover_channel_selector (clock_os (- 1)) PRIMARY PRIMARY 120 host_world = Some (Inl e, w') \<and>
     catchable e"
proof -
  let ?s = "\<lparr>sigterm_action = SIG_DFL, old = SIG_DFL, child_pid = -1, sent_term = [], alive = True\<rparr>"
  have m: "main (\<lambda>_. Inr no_backup_vm) [] ?s =
      (Main_Agent (notify no_backup_vm), enable_kill_child_signal_handler ?s)" by code_simp
  have s: "seconds_before_failover (notify no_backup_vm) = 120" by code_simp
  have run: "new_failover_channel_selector (clock_os (- 1)) PRIMARY PRIMARY 120 host_world =
      Some (Inl (Thrown_Literal ''Failed to get time from system''), host_world)"
    by (simp add: new_failover_channel_selector_def io_simps now_in_seconds_def clock_os_def)
  from accepted_never_asserts [OF m, unfolded s, OF _ run] run show ?thesis by auto
qed

text \<open>The first \<open>n\<close> rounds of the loop.\<close>

fun agent_rounds ::
  "'e OS \<Rightarrow> splitter \<Rightarrow> BarnConf \<Rightarrow> (AgentChannel, 'e, 'z) agent_world_scheme Metrics \<Rightarrow> nat \<Rightarrow>
   (unit, (AgentChannel, 'e, 'z) agent_world_scheme) io" where
  "agent_rounds os bs conf m 0 = ret ()"
| "agent_rounds os bs conf m (Suc n) =
     bindE (agent_round os bs conf m) (\<lambda>_. agent_rounds os bs conf m n)"

lemma keeps_rounds:
  fixes os :: "'e OS"
  shows "keeps (agent_rounds os bs conf (create_metrics os conf') n)
    (fixed_view :: (AgentChannel, 'e, 'z) agent_world_scheme \<Rightarrow> _)"
  by (induction n) (auto intro!: keeps_intros keeps_round)

lemma agent_loop_rounds:
  assumes "agent_loop os bs conf m w = Some p"
  shows "\<exists>n w1 e. agent_rounds os bs conf m n w = Some (Inr (), w1) \<and>
    agent_round os bs conf m w1 = Some (Inl e, snd p) \<and> fst p = Inl e"
proof (rule agent_loop.raw_induct [where P = "\<lambda>os bs conf m w p.
      \<exists>n w1 e. agent_rounds os bs conf m n w = Some (Inr (), w1) \<and>
        agent_round os bs conf m w1 = Some (Inl e, snd p) \<and> fst p = Inl e", OF _ assms])
  fix rec os bs conf m w p
  assume IH: "\<And>os bs conf m w p. rec os bs conf m w = Some p \<Longrightarrow>
      \<exists>n w1 e. agent_rounds os bs conf m n w = Some (Inr (), w1) \<and>
        agent_round os bs conf m w1 = Some (Inl e, snd p) \<and> fst p = Inl e"
    and step: "(case agent_round os bs conf m w of None \<Rightarrow> None
      | Some (Inl e, w') \<Rightarrow> Some (Inl e, w')
      | Some (Inr _, w') \<Rightarrow> rec os bs conf m w') = Some p"
  obtain r w' where r: "agent_round os bs conf m w = Some (r, w')"
    using step by (cases "agent_round os bs conf m w") auto
  show "\<exists>n w1 e. agent_rounds os bs conf m n w = Some (Inr (), w1) \<and>
        agent_round os bs conf m w1 = Some (Inl e, snd p) \<and> fst p = Inl e"
  proof (cases r)
    case (Inl e)
    then show ?thesis using step r
      by (intro exI [of _ 0] exI [of _ w] exI [of _ e]) (auto simp: ret_run)
  next
    case (Inr u)
    then have "rec os bs conf m w' = Some p" using step r by simp
    from IH [OF this] obtain n w1 e where "agent_rounds os bs conf m n w' = Some (Inr (), w1)"
      "agent_round os bs conf m w1 = Some (Inl e, snd p)" "fst p = Inl e" by blast
    then show ?thesis using r Inr
      by (intro exI [of _ "Suc n"] exI [of _ w1] exI [of _ e]) (simp add: io_simps)
  qed
qed

text \<open>
  C5: the agent ends only by an exception, and its channels never change. If \<open>barn_agent_main\<close>
  ends at all, it is with the exception that creating the selector threw, or with the one that
  a round threw after some complete rounds of the real file operations and metrics; and after
  those rounds the configured channels and the host name are those it started with.
\<close>

theorem agent_ends_by_exception:
  fixes os :: "'e OS" and w :: "(AgentChannel, 'e, 'z) agent_world_scheme"
  assumes "barn_agent_main os bs conf w = Some (r, w')"
  shows "\<exists>e. r = Inl e \<and>
    (create_channel_selector os conf w = Some (Inl e, w') \<or>
     (\<exists>sel w1 n w2. create_channel_selector os conf w = Some (Inr sel, w1) \<and>
        agent_rounds os bs conf (create_metrics os conf) n (w1\<lparr>channel_selector := sel\<rparr>) =
          Some (Inr (), w2) \<and>
        selector_channels (channel_selector w2) = selector_channels sel \<and>
        host_name_static w2 = host_name_static w1 \<and>
        agent_round os bs conf (create_metrics os conf) w2 = Some (Inl e, w')))"
proof -
  obtain cr w1 where c: "create_channel_selector os conf w = Some (cr, w1)"
    using assms unfolding barn_agent_main_def Let_def bindE_def
    by (cases "create_channel_selector os conf w") auto
  show ?thesis
  proof (cases cr)
    case (Inl e)
    then show ?thesis using assms c by (auto simp: barn_agent_main_def io_simps)
  next
    case (Inr sel)
    then have "agent_loop os bs conf (create_metrics os conf) (w1\<lparr>channel_selector := sel\<rparr>) =
        Some (r, w')"
      using assms c by (simp add: barn_agent_main_def io_simps set_selector_def)
    from agent_loop_rounds [OF this] obtain n w2 e where n:
      "agent_rounds os bs conf (create_metrics os conf) n (w1\<lparr>channel_selector := sel\<rparr>) =
         Some (Inr (), w2)"
      "agent_round os bs conf (create_metrics os conf) w2 = Some (Inl e, w')" "r = Inl e"
      by auto
    have "fixed_view w2 = fixed_view (w1\<lparr>channel_selector := sel\<rparr>)"
      by (rule keepsD [OF keeps_rounds n(1)])
    then show ?thesis using c Inr n by (auto simp: fixed_view_def)
  qed
qed

definition no_directory_os :: "script OS" where
  "no_directory_os = script_os\<lparr>sys_list_directory := \<lambda>d e. Some (None, e)\<rparr>"

definition start_world :: "(AgentChannel, script) agent_world" where
  "start_world = world.extend (script_world [(''web1\<newline>'', 0)])
     (agent_world.fields (SingleChannelSelector PRIMARY))"

theorem agent_ends_by_exception_witness:
  "\<exists>w' n w2. barn_agent_main no_directory_os reference_split stop_conf start_world =
      Some (Inl (Filesystem_Error ''directory_iterator::construct''), w') \<and>
    selector_channels (channel_selector w2) =
      {\<lparr>channel_source_dir = [], rsync_target = ''rsync:////@@web1/''\<rparr>} \<and>
    agent_round no_directory_os reference_split stop_conf (create_metrics no_directory_os stop_conf) w2 =
      Some (Inl (Filesystem_Error ''directory_iterator::construct''), w')"
proof -
  have "map_option fst (barn_agent_main no_directory_os reference_split stop_conf start_world) =
    Some (Inl (Filesystem_Error ''directory_iterator::construct''))" by code_simp
  then obtain w' where run: "barn_agent_main no_directory_os reference_split stop_conf start_world =
    Some (Inl (Filesystem_Error ''directory_iterator::construct''), w')" by auto
  have "map_option fst (create_channel_selector no_directory_os stop_conf start_world) =
    Some (Inr (SingleChannelSelector
      \<lparr>channel_source_dir = [], rsync_target = ''rsync:////@@web1/''\<rparr>))" by code_simp
  then obtain w1 where "create_channel_selector no_directory_os stop_conf start_world =
    Some (Inr (SingleChannelSelector
      \<lparr>channel_source_dir = [], rsync_target = ''rsync:////@@web1/''\<rparr>), w1)" by auto
  with agent_ends_by_exception [OF run] run show ?thesis
    by (auto simp: selector_channels_def)
qed

end
