(* ===== verification/Plain_System.thy ===== *)
theory Plain_System
  imports Process
begin

text \<open>
  \<open>run_command\<close> on a system where nothing is in its way: the executable is there, descriptors
  and processes are to be had, and the child gets to \<open>execve\<close>. The locale says what such a
  system does; the lemma \<open>command_returns\<close> runs the whole of \<open>run_command\<close> on it.
\<close>

lemma child_syscall_run [io_simps]:
  "c (child_env s) = Some (a, e) \<Longrightarrow> child_syscall c s = Some (Inr a, s\<lparr>child_env := e\<rparr>)"
  by (simp add: child_syscall_def)

text \<open>The program that the child of a command becomes.\<close>

definition command_image :: "int \<Rightarrow> string \<Rightarrow> string \<Rightarrow> string list \<Rightarrow> fd_table \<Rightarrow> nat \<Rightarrow> program_image" where
  "command_image maxfd cwd exec args t n =
     \<lparr>image_path = c_str exec, image_argv = map c_str args, image_envp = [], image_cwd = cwd,
      image_fds = captured_fds (max_descriptors maxfd) t n\<rparr>"

text \<open>
  A child that runs a program writes \<open>bytes\<close> to pipe \<open>n\<close> and ends with the status \<open>st\<close>.
\<close>

definition child_does ::
  "'e OS \<Rightarrow> int \<Rightarrow> program_image \<Rightarrow> nat \<Rightarrow> 'e \<Rightarrow> string \<Rightarrow> int \<Rightarrow> 'e \<Rightarrow> bool" where
  "child_does os pid img n e bytes st e' \<longleftrightarrow>
     (\<exists>e1 e2. sys_child_runs os pid (Child_Execs img) e = Some ((), e1) \<and>
        stream_bytes os (Pipe_Read_End n) e1 bytes e2 \<and>
        sys_waitpid os pid e2 = Some (Some st, e'))"

locale plain_system =
  fixes os :: "'e OS"
    and path :: string
    and accessible :: "string \<Rightarrow> bool"
    and cwd :: string
    and user :: ids
    and maxfd :: int
    and room :: "fd_table \<Rightarrow> bool"
  assumes pipes: "pipe_documented os"
    and getenv: "sys_getenv os ''PATH'' e = Some (Some path, e)"
    and path: "path \<noteq> []"
    and access: "sys_access_x os f e = Some (accessible f, e)"
    and getcwd: "sys_getcwd os e = Some (Some cwd, e)"
    and cwd: "cwd \<noteq> []"
    and getids: "sys_getids os e = Some (user, e)"
    and open_max: "sys_open_max os e = Some (maxfd, e)"
    and maxfd: "maxfd = -1 \<or> 2 < maxfd"
    and pipe_room: "room t \<Longrightarrow> \<exists>r wr. sys_pipe os t e = Some (Some (r, wr), e)"
    and fork: "\<exists>pid. 0 < pid \<and> sys_fork os e = Some (pid, e)"
    and chdir: "sys_child_call os (Call_Chdir cwd) e = Some (True, e)"
begin

lemma max_descriptors_above: "2 < max_descriptors maxfd"
  using maxfd by (auto simp: max_descriptors_def)

lemma setup_plain:
  "run_posix_setup os (captured_setup cwd user) s = Some (Inr (), s)"
  using getids chdir cwd
  by (simp add: run_posix_setup_def captured_setup_def io_simps child_call_def)

lemma child_setup_plain:
  assumes "t r = None" "t wr = None" "r \<noteq> wr" "0 \<le> r" "0 \<le> wr"
    and s: "child_fds s = t(r := Some (Pipe_Read_End n), wr := Some (Pipe_Write_End n))"
  shows "child_setup os [] [(1, capture_info r wr), (2, inherit_info)] (captured_setup cwd user) s =
    Some (Inr (), s\<lparr>child_fds := captured_fds (max_descriptors maxfd) t n\<rparr>)"
proof -
  note out = captured_setup_output [OF assms(1-5) max_descriptors_above s, of os]
  have "(\<lambda>i. if 0 \<le> i \<and> i < max_descriptors maxfd \<and> i \<notin> {1, 2} then None
      else (t(1 \<mapsto> Pipe_Write_End n)) i) = captured_fds (max_descriptors maxfd) t n"
    by (auto simp: captured_fds_def fileno_defs)
  then have close: "close_unlisted (max_descriptors maxfd) [1, 2] (s\<lparr>child_fds := t(1 \<mapsto> Pipe_Write_End n)\<rparr>) =
      Some (Inr (), s\<lparr>child_fds := captured_fds (max_descriptors maxfd) t n\<rparr>)"
    by (simp add: close_unlisted_def modifyE_run cong: if_cong)
  show ?thesis
    using open_max out close setup_plain
    by (simp add: child_setup_def io_simps Let_def max_descriptors_def [of maxfd, symmetric])
qed

lemma child_main_plain:
  assumes "t r = None" "t wr = None" "r \<noteq> wr" "0 \<le> r" "0 \<le> wr" and "args \<noteq> []"
  shows "child_main os exec args [] [] [(1, capture_info r wr), (2, inherit_info)]
      (captured_setup cwd user)
      \<lparr>child_fds = t(r := Some (Pipe_Read_End n), wr := Some (Pipe_Write_End n)), child_env = e\<rparr> =
    (Child_Execs (command_image maxfd cwd exec args t n), e)"
proof -
  let ?s = "\<lparr>child_fds = t(r := Some (Pipe_Read_End n), wr := Some (Pipe_Write_End n)), child_env = e\<rparr>"
  have "child_fds ?s = t(r := Some (Pipe_Read_End n), wr := Some (Pipe_Write_End n))" by simp
  from child_setup_plain [OF assms(1-5) this] assms(6) show ?thesis
    by (simp add: child_main_def command_image_def collection_to_posix_argv_def
        environment_to_envp_def captured_setup_def)
qed

lemma find_plain:
  assumes "prog \<noteq> []" "CHR ''/'' \<notin> set prog"
    and "find accessible (path_candidates path prog) = Some exec"
  shows "find_executable_in_path os prog w = Some (Inr exec, w)"
proof -
  have "exec \<noteq> []" using assms(1,3) by (auto simp: find_Some_iff path_candidates_def)
  then show ?thesis
    using assms path getenv find_in_path_first [of os accessible prog path w, OF access assms(1)]
    by (simp add: find_executable_in_path_def io_simps)
qed

text \<open>
  A command whose program ends by itself returns its exit code and all it wrote; the agent is
  left as it was, but for the counter of pipes and the surroundings.
\<close>

lemma command_returns:
  assumes "args \<noteq> []" and "cmd \<noteq> []" "CHR ''/'' \<notin> set cmd"
    and find: "find accessible (path_candidates path cmd) = Some exec"
    and room: "room (fds w)"
    and runs: "\<And>pid. 0 < pid \<Longrightarrow> \<exists>bytes st e'.
      child_does os pid (command_image maxfd cwd exec args (fds w) (next_pipe w)) (next_pipe w)
        (env w) bytes st e' \<and> exited st \<and> Q (st div 256 mod 256) bytes e'"
  shows "\<exists>code bytes e'. run_command os cmd args w = Some (Inr (code, bytes),
      w\<lparr>child_pid_global := INVALID_PID, next_pipe := Suc (next_pipe w), env := e'\<rparr>) \<and>
    Q code bytes e'"
proof -
  obtain r wr where pipe: "sys_pipe os (fds w) (env w) = Some (Some (r, wr), env w)"
    using pipe_room [OF room] by blast
  then have rw: "fds w r = None" "fds w wr = None" "r \<noteq> wr" "0 \<le> r" "0 \<le> wr"
    using pipes unfolding pipe_documented_def by blast+
  obtain pid where pid: "0 < pid" "sys_fork os (env w) = Some (pid, env w)"
    using fork by blast
  obtain bytes st e1 e2 e3 where e: "sys_child_runs os pid
      (Child_Execs (command_image maxfd cwd exec args (fds w) (next_pipe w))) (env w) = Some ((), e1)"
    "stream_bytes os (Pipe_Read_End (next_pipe w)) e1 bytes e2"
    "sys_waitpid os pid e2 = Some (Some st, e3)"
    and st: "exited st" and Q: "Q (st div 256 mod 256) bytes e3"
    using runs [OF pid(1)] unfolding child_does_def by blast
  let ?infos = "[(1, capture_info r wr), (2, inherit_info)]"
  let ?t = "(fds w)(r := Some (Pipe_Read_End (next_pipe w)), wr := Some (Pipe_Write_End (next_pipe w)))"
  let ?w1 = "w\<lparr>fds := ?t, next_pipe := Suc (next_pipe w)\<rparr>"
  let ?w2 = "w\<lparr>fds := (fds w)(r := Some (Pipe_Read_End (next_pipe w))),
      next_pipe := Suc (next_pipe w), env := e1\<rparr>"
  have new: "new_pipe os w = Some (Inr (r, wr), ?w1)"
    using pipe by (simp add: new_pipe_def io_simps)
  have "run_child (child_main os exec args [] [] ?infos (captured_setup cwd user)) ?w1 =
      Some (Inr (Child_Execs (command_image maxfd cwd exec args (fds w) (next_pipe w))), ?w1)"
    using child_main_plain [OF rw assms(1), of exec "next_pipe w" "env w"] by (simp add: run_child_def)
  then have start: "posix_start os exec args [] [] ?infos (captured_setup cwd user) ?w1 =
      Some (Inr (pid, [], [(1, (capture_info r wr)\<lparr>si_wend := -1\<rparr>), (2, inherit_info)]), ?w2)"
    using pid e(1) close_captured_ends [OF rw(5), of r "?w1\<lparr>env := e1\<rparr>"] rw(1-3)
    by (simp add: posix_start_def io_simps fd_close_def fun_upd_twist fun_upd_idem)
  let ?ctx = "\<lparr>input_behavior = [], output_behavior = [(1, Capture), (2, Inherit)], ctx_ids = user,
      ctx_chroot = [], ctx_work_directory = cwd, ctx_environment = []\<rparr>"
  have launch: "posix_launch os exec args ?ctx w = Some (Inr (captured_child pid r), ?w2)"
    using new start
    by (simp add: launch_captured_eq io_simps on_throw_def captured_setup_def
        new_captured_child [OF rw(4)])
  have ctx: "new_posix_context os w =
      Some (Inr \<lparr>input_behavior = [], output_behavior = [], ctx_ids = user,
        ctx_chroot = [], ctx_work_directory = cwd, ctx_environment = []\<rparr>, w)"
    using getcwd cwd getids by (simp add: new_posix_context_def new_work_directory_context_def io_simps)
  have read: "read_to_end os r [] (?w2\<lparr>child_pid_global := pid\<rparr>) =
      Some (Inr bytes, ?w2\<lparr>child_pid_global := pid, env := e2\<rparr>)"
    using stream_bytes_read [OF e(2), of "?w2\<lparr>child_pid_global := pid\<rparr>" r "[]"] by simp
  have after: "after_launch os (captured_child pid r) ?w2 = Some (Inr (st div 256 mod 256, bytes),
      ?w2\<lparr>child_pid_global := INVALID_PID, env := e3\<rparr>)"
    using read e(3) st
    by (simp add: after_launch_def io_simps set_child_pid_def captured_child_def get_stdout_def
        child_wait_def bindE_assoc exit_status_def unset_child_pid_def)
  have destroy: "destroy_posix_child (captured_child pid r) (?w2\<lparr>child_pid_global := INVALID_PID, env := e3\<rparr>)
      = w\<lparr>child_pid_global := INVALID_PID, next_pipe := Suc (next_pipe w), env := e3\<rparr>"
    using rw by (simp add: destroy_posix_child_def child_handles_def stream_handles_def captured_child_def
        destroy_handle_def valid_def invalid_value_def fd_close_def fun_upd_idem)
  have "run_command os cmd args w =
      (bindE (posix_launch os exec args ?ctx)
        (\<lambda>child. on_exit (after_launch os child) (destroy_posix_child child))) w"
    using find_plain [OF assms(2,3) find, of w] ctx
    by (simp add: run_command_def io_simps fileno_defs capture_stream_def inherit_stream_def
        after_launch_def Let_def)
  also have "\<dots> = Some (Inr (st div 256 mod 256, bytes),
      w\<lparr>child_pid_global := INVALID_PID, next_pipe := Suc (next_pipe w), env := e3\<rparr>)"
    using launch after destroy by (simp add: io_simps on_exit_def)
  finally show ?thesis using Q by blast
qed

end

end
