(* ===== verification/Rsync_Service.thy ===== *)
theory Rsync_Service
  imports Plain_System Files Agent_Properties
begin

text \<open>
  The file operations of \<^verbatim>\<open>files.cpp\<close> and \<^verbatim>\<open>rsync.cpp\<close> over an rsync that does what its
  manual says are a destination in the sense of \<open>file_store\<close>. The locale \<open>rsync_service\<close> states
  what is documented of rsync and of the file system; what the agent makes of it, from the
  arguments of the command down to its descriptors, is the model's own code.
\<close>

section \<open>Documented behaviour of rsync\<close>

text \<open>
  Surroundings that are \<open>idle\<close> have no child of the agent left over. They hold the names in the
  directory, the files at the destination, and which files can be transferred now.
  \<open>undisturbed\<close> relates surroundings between which nothing of this has changed.
\<close>

definition undisturbed ::
  "('e \<Rightarrow> bool) \<Rightarrow> ('e \<Rightarrow> string list) \<Rightarrow> ('e \<Rightarrow> string \<Rightarrow> bool) \<Rightarrow> 'e \<Rightarrow> 'e \<Rightarrow> bool" where
  "undisturbed idle listing up e e' \<longleftrightarrow> idle e' \<and> listing e' = listing e \<and> up e' = up e"

definition lines_of :: "string \<Rightarrow> string list \<Rightarrow> bool" where
  "lines_of bytes ls \<longleftrightarrow> ls \<noteq> [] \<and> (\<forall>l \<in> set ls. CHR 0x0A \<notin> set l) \<and> bytes = join_with (CHR 0x0A) ls"

text \<open>
  A dry run prints a line for every file that is not at the destination, among other lines that
  do not start with \<open>@\<close>. A transfer that succeeds ends with 0 and adds the file; one that
  fails ends with another code, 5 included, and adds nothing.
\<close>

locale rsync_service = plain_system os path accessible cwd user maxfd room
  for os :: "'e OS" and path accessible cwd user maxfd room +
  fixes boost_split :: splitter
    and rsync_path :: string
    and dir :: string
    and target :: string
    and idle :: "'e \<Rightarrow> bool"
    and listing :: "'e \<Rightarrow> string list"
    and stored :: "'e \<Rightarrow> string set"
    and up :: "'e \<Rightarrow> string \<Rightarrow> bool"
  assumes split_is_documented: "split_documented boost_split"
    and rsync_found: "find accessible (path_candidates path ''rsync'') = Some rsync_path"
    and no_nul: "CHR 0x00 \<notin> set dir" "CHR 0x00 \<notin> set target"
      "idle e \<Longrightarrow> f \<in> set (listing e) \<Longrightarrow> CHR 0x00 \<notin> set f"
    and names_distinct: "idle e \<Longrightarrow> distinct (listing e)"
    and directory_lists: "idle e \<Longrightarrow>
      \<exists>e'. sys_list_directory os dir e = Some (Some (listing e), e') \<and>
        undisturbed idle listing up e e' \<and> stored e' = stored e"
    and directory_holds: "idle e \<Longrightarrow> f \<in> set (listing e) \<Longrightarrow>
      \<exists>e'. sys_exists os (join_path dir f) e = Some (Some True, e') \<and>
        undisturbed idle listing up e e' \<and> stored e' = stored e"
    and dry_run: "idle e \<Longrightarrow> 0 < pid \<Longrightarrow> fs \<noteq> [] \<Longrightarrow> distinct fs \<Longrightarrow> set fs \<subseteq> set (listing e) \<Longrightarrow>
      image_path img = c_str rsync_path \<Longrightarrow> image_argv img = rsync_dry_run dir fs target \<Longrightarrow>
      image_fds img STDOUT_FILENO = Some (Pipe_Write_End n) \<Longrightarrow>
      \<exists>bytes st e' ls. child_does os pid img n e bytes st e' \<and> exited st \<and>
        st div 256 mod 256 = 0 \<and> lines_of bytes ls \<and>
        mset (filter is_svlogd_filename ls) =
          mset (filter (\<lambda>f. is_svlogd_filename f \<and> f \<notin> stored e) fs) \<and>
        undisturbed idle listing up e e' \<and> stored e' = stored e"
    and wet_run: "idle e \<Longrightarrow> 0 < pid \<Longrightarrow> f \<in> set (listing e) \<Longrightarrow>
      image_path img = c_str rsync_path \<Longrightarrow>
      image_argv img = rsync_wet_run (join_path dir f) target \<Longrightarrow>
      image_fds img STDOUT_FILENO = Some (Pipe_Write_End n) \<Longrightarrow>
      \<exists>bytes st e'. child_does os pid img n e bytes st e' \<and> exited st \<and>
        (st div 256 mod 256 = 0 \<longleftrightarrow> up e f) \<and> undisturbed idle listing up e e' \<and>
        stored e' = (if up e f then insert f (stored e) else stored e)"
begin

lemma argv_id: "\<forall>a \<in> set args. CHR 0x00 \<notin> set a \<Longrightarrow> map c_str args = args"
  by (simp add: c_str_id map_idI)

lemma path_no_nul: "idle e \<Longrightarrow> f \<in> set (listing e) \<Longrightarrow> CHR 0x00 \<notin> set (join_path dir f)"
  using no_nul(1) no_nul(3) [of e f] by (auto simp: join_path_def)

text \<open>The agent's state before and after a command.\<close>

abbreviation after_command ::
  "('e, 'z) world_scheme \<Rightarrow> 'e \<Rightarrow> ('e, 'z) world_scheme" where
  "after_command w e \<equiv> w\<lparr>child_pid_global := INVALID_PID, next_pipe := Suc (next_pipe w), env := e\<rparr>"

lemma dry_run_command:
  assumes "idle (env w)" "room (fds w)" "fs \<noteq> []" "distinct fs" "set fs \<subseteq> set (listing (env w))"
  shows "\<exists>bytes ls e'. run_command os ''rsync'' (rsync_dry_run dir fs target) w =
      Some (Inr (0, bytes), after_command w e') \<and> lines_of bytes ls \<and>
    mset (filter is_svlogd_filename ls) =
      mset (filter (\<lambda>f. is_svlogd_filename f \<and> f \<notin> stored (env w)) fs) \<and>
    undisturbed idle listing up (env w) e' \<and> stored e' = stored (env w)"
proof -
  let ?args = "rsync_dry_run dir fs target"
  let ?img = "command_image maxfd cwd rsync_path ?args (fds w) (next_pipe w)"
  have "\<forall>a \<in> set ?args. CHR 0x00 \<notin> set a"
    using no_nul path_no_nul [OF assms(1)] assms(5)
    by (auto simp: rsync_dry_run_def rsync_constants join_paths_def)
  then have argv: "image_argv ?img = ?args" by (simp add: command_image_def argv_id)
  have img: "image_path ?img = c_str rsync_path"
    "image_fds ?img STDOUT_FILENO = Some (Pipe_Write_End (next_pipe w))"
    by (simp_all add: command_image_def captured_fds_def)
  let ?Q = "\<lambda>code bytes e'. code = 0 \<and> (\<exists>ls. lines_of bytes ls \<and>
      mset (filter is_svlogd_filename ls) =
        mset (filter (\<lambda>f. is_svlogd_filename f \<and> f \<notin> stored (env w)) fs)) \<and>
      undisturbed idle listing up (env w) e' \<and> stored e' = stored (env w)"
  have "\<exists>code bytes e'. run_command os ''rsync'' ?args w = Some (Inr (code, bytes), after_command w e') \<and>
      ?Q code bytes e'"
  proof (rule command_returns [where Q = ?Q, OF _ _ _ rsync_found assms(2)])
    show "\<exists>bytes st e'. child_does os pid ?img (next_pipe w) (env w) bytes st e' \<and> exited st \<and>
        ?Q (st div 256 mod 256) bytes e'" if "0 < pid" for pid
      using dry_run [OF assms(1) that assms(3-5) img(1) argv img(2)]
      by (elim exE conjE) (intro exI conjI; assumption)
  qed (simp_all add: rsync_dry_run_def)
  then show ?thesis by blast
qed

lemma wet_run_command:
  assumes "idle (env w)" "room (fds w)" "f \<in> set (listing (env w))"
  shows "\<exists>code bytes e'. run_command os ''rsync'' (rsync_wet_run (join_path dir f) target) w =
      Some (Inr (code, bytes), after_command w e') \<and> (code = 0 \<longleftrightarrow> up (env w) f) \<and>
    undisturbed idle listing up (env w) e' \<and>
    stored e' = (if up (env w) f then insert f (stored (env w)) else stored (env w))"
proof -
  let ?args = "rsync_wet_run (join_path dir f) target"
  let ?img = "command_image maxfd cwd rsync_path ?args (fds w) (next_pipe w)"
  have "\<forall>a \<in> set ?args. CHR 0x00 \<notin> set a"
    using no_nul path_no_nul [OF assms(1,3)] by (simp add: rsync_wet_run_def rsync_constants)
  then have argv: "image_argv ?img = ?args" by (simp add: command_image_def argv_id)
  have img: "image_path ?img = c_str rsync_path"
    "image_fds ?img STDOUT_FILENO = Some (Pipe_Write_End (next_pipe w))"
    by (simp_all add: command_image_def captured_fds_def)
  let ?Q = "\<lambda>code bytes e'. (code = 0 \<longleftrightarrow> up (env w) f) \<and>
      undisturbed idle listing up (env w) e' \<and>
      stored e' = (if up (env w) f then insert f (stored (env w)) else stored (env w))"
  show ?thesis
  proof (rule command_returns [where Q = ?Q, OF _ _ _ rsync_found assms(2)])
    show "\<exists>bytes st e'. child_does os pid ?img (next_pipe w) (env w) bytes st e' \<and> exited st \<and>
        ?Q (st div 256 mod 256) bytes e'" if "0 < pid" for pid
      using wet_run [OF assms(1) that assms(3) img(1) argv img(2)]
      by (elim exE conjE) (intro exI conjI; assumption)
  qed (simp_all add: rsync_wet_run_def)
qed

section \<open>The file operations over it\<close>

text \<open>The agent's state as a store.\<close>

abbreviation service_good :: "('e, 'z) world_scheme \<Rightarrow> bool" where
  "service_good w \<equiv> idle (env w) \<and> room (fds w)"

abbreviation service_files :: "('e, 'z) world_scheme \<Rightarrow> FileNameList" where
  "service_files w \<equiv> log_files_in (listing (env w))"

abbreviation service_stored :: "('e, 'z) world_scheme \<Rightarrow> FileName set" where
  "service_stored w \<equiv> stored (env w)"

abbreviation service_up :: "('e, 'z) world_scheme \<Rightarrow> FileName \<Rightarrow> bool" where
  "service_up w \<equiv> up (env w)"

lemma service_files_props:
  assumes "idle e"
  shows "sorted (log_files_in (listing e))" "distinct (log_files_in (listing e))"
    "set (log_files_in (listing e)) \<subseteq> set (listing e)"
    "\<forall>f \<in> set (log_files_in (listing e)). is_svlogd_filename f"
  using names_distinct [OF assms] by (auto simp: log_files_in_def)

lemma service_missing:
  assumes "service_good w"
  shows "\<exists>w'. rsync_log_files_not_on_target os boost_split dir (service_files w) target w =
      Some (Inr (Inr (filter (\<lambda>f. f \<notin> service_stored w) (service_files w))), w') \<and>
    same_store service_good service_files service_stored service_up w w'"
proof (cases "service_files w = []")
  case True
  then show ?thesis using assms
    by (simp add: rsync_log_files_not_on_target_def ret_run same_store_def)
next
  case False
  let ?fs = "service_files w"
  have idle: "idle (env w)" using assms by simp
  note props = service_files_props [OF idle]
  obtain bytes ls e' where run: "run_command os ''rsync'' (rsync_dry_run dir ?fs target) w =
      Some (Inr (0, bytes), after_command w e')" and ls: "lines_of bytes ls"
    "mset (filter is_svlogd_filename ls) =
      mset (filter (\<lambda>f. is_svlogd_filename f \<and> f \<notin> stored (env w)) ?fs)"
    and e': "undisturbed idle listing up (env w) e'" "stored e' = stored (env w)"
    using dry_run_command [OF idle _ False props(2,3)] assms by blast
  have "filter (\<lambda>f. is_svlogd_filename f \<and> f \<notin> stored (env w)) ?fs =
      filter (\<lambda>f. f \<notin> stored (env w)) ?fs"
    by (rule filter_cong) (use props(4) in auto)
  then have "sort (filter is_svlogd_filename ls) = filter (\<lambda>f. f \<notin> stored (env w)) ?fs"
    using ls(2) props(1) by (intro properties_for_sort) (auto intro: sorted_filter [of id, simplified])
  moreover have "split boost_split bytes (CHR 0x0A) = ls"
    using ls(1) split_join [OF split_is_documented, of ls] by (auto simp: lines_of_def)
  moreover have "do_rsync os (rsync_dry_run dir ?fs target) w = Some (Inr (0, bytes), after_command w e')"
    using run by (subst do_rsync_def, subst do_rsync_loop.simps) (simp add: io_simps rsync_constants)
  ultimately show ?thesis using False e' assms
    by (simp add: rsync_log_files_not_on_target_def io_simps get_rsync_candidates_def same_store_def
        undisturbed_def)
qed

lemma do_rsync_loop_ships:
  assumes "service_good w" "f \<in> set (listing (env w))"
    and "tri \<le> RSYNC_NUM_RETRIES \<or> (\<not> up (env w) f \<and> fst out0 \<noteq> 0)"
  shows "\<exists>code bytes w'. do_rsync_loop os (rsync_wet_run (join_path dir f) target) tri out0 w =
      Some (Inr (code, bytes), w') \<and> (code = 0 \<longleftrightarrow> up (env w) f) \<and>
    undisturbed idle listing up (env w) (env w') \<and> fds w' = fds w \<and>
    stored (env w') = (if up (env w) f then insert f (stored (env w)) else stored (env w))"
  using assms
proof (induction "Suc RSYNC_NUM_RETRIES - tri" arbitrary: tri out0 w)
  case 0
  then show ?case
    by (subst do_rsync_loop.simps) (cases out0, simp add: ret_run undisturbed_def)
next
  case (Suc n)
  let ?args = "rsync_wet_run (join_path dir f) target"
  from Suc.hyps(2) have tri: "tri \<le> RSYNC_NUM_RETRIES" by simp
  obtain code bytes e' where run: "run_command os ''rsync'' ?args w =
      Some (Inr (code, bytes), after_command w e')" and code: "code = 0 \<longleftrightarrow> up (env w) f"
    and e': "undisturbed idle listing up (env w) e'"
      "stored e' = (if up (env w) f then insert f (stored (env w)) else stored (env w))"
    using wet_run_command [of w f] Suc.prems by blast
  let ?w = "after_command w e'"
  show ?case
  proof (cases "code = CLIENT_SERVER_PROTOCOL")
    case False
    then have "do_rsync_loop os ?args tri out0 w = Some (Inr (code, bytes), ?w)"
      using run tri by (subst do_rsync_loop.simps) (simp add: io_simps)
    then show ?thesis using code e' by auto
  next
    case True
    then have down: "\<not> up (env w) f" using code by (simp add: rsync_constants)
    have again: "do_rsync_loop os ?args tri out0 w = do_rsync_loop os ?args (tri + 1) (code, bytes) ?w"
      using run tri True by (subst do_rsync_loop.simps) (simp add: io_simps)
    have "\<exists>code' bytes' w'. do_rsync_loop os ?args (tri + 1) (code, bytes) ?w =
        Some (Inr (code', bytes'), w') \<and> (code' = 0 \<longleftrightarrow> up (env ?w) f) \<and>
      undisturbed idle listing up (env ?w) (env w') \<and> fds w' = fds ?w \<and>
      stored (env w') = (if up (env ?w) f then insert f (stored (env ?w)) else stored (env ?w))"
      using Suc.hyps(2) Suc.prems e' down True
      by (intro Suc.hyps(1)) (auto simp: undisturbed_def rsync_constants)
    then show ?thesis unfolding again using e' down by (simp add: undisturbed_def)
  qed
qed

lemma service_ship:
  assumes "service_good w" "f \<in> set (listing (env w))"
  shows "\<exists>w'. rsync_ship_file os (join_path dir f) target w = Some (Inr (service_up w f), w') \<and>
    service_good w' \<and> service_files w' = service_files w \<and> service_up w' = service_up w \<and>
    service_stored w' =
      (if service_up w f then insert f (service_stored w) else service_stored w)"
  using do_rsync_loop_ships [OF assms, of 0 "(0, [])"] assms(1)
  by (auto simp: rsync_ship_file_def do_rsync_def io_simps undisturbed_def)

lemma service_is_store:
  "file_store (file_ops os boost_split) service_good service_files service_stored service_up dir target"
proof (unfold_locales, goal_cases)
  case (1 w)
  then show ?case using directory_lists [of "env w"]
    by (auto simp: list_log_directory_run same_store_def undisturbed_def)
next
  case (2 w)
  then show ?case using service_files_props by blast
next
  case (3 w)
  then show ?case using service_missing by simp
next
  case (4 w f)
  then have "f \<in> set (listing (env w))" using service_files_props(3) by blast
  with 4 directory_holds [of "env w" f] show ?case
    by (auto simp: files_file_exists_def io_simps same_store_def undisturbed_def)
next
  case (5 w f)
  then have "f \<in> set (listing (env w))" using service_files_props(3) by blast
  with 5 service_ship [of w f] show ?case by simp
qed

sublocale store: file_store "file_ops os boost_split" service_good service_files service_stored
    service_up dir target
  by (rule service_is_store)

section \<open>A round over it\<close>

text \<open>What a round leaves as it was, seen from the running of commands.\<close>

lemma service_round:
  fixes w :: "(AgentChannel, 'e, 'z) agent_world_scheme"
  assumes good: "idle (env w)" "room (fds w)"
    and ch: "channel_source_dir ch = dir" "rsync_target ch = target"
    and sel: "channel_selector w = SingleChannelSelector ch"
    and conf: "sleep_seconds conf \<le> 0"
    and cs: "cs = newer_than_remote (log_files_in (listing (env w))) (stored (env w))" "cs \<noteq> []"
  shows "\<exists>w'. dispatch_new_logs os conf (file_ops os boost_split) NoOpMetrics w = Some (Inr (), w') \<and>
    channel_selector w' = SingleChannelSelector ch \<and> service_good w' \<and>
    service_files w' = service_files w \<and> service_up w' = service_up w \<and>
    stored (env w') = stored (env w) \<union> set (takeWhile (up (env w)) cs)"
proof -
  have pick: "pick_channel os w = Some (Inr ch, w)"
    using sel by (simp add: pick_channel_def io_simps scs_pick_channel_def set_selector_def)
  have sleep: "sleep_it os conf v = Some (Inr (), v)" for v :: "(AgentChannel, 'e, 'z) agent_world_scheme"
    using conf by (simp add: sleep_it_def ret_run)
  obtain w1 where query: "query_candidates (file_ops os boost_split) ch NoOpMetrics w =
      Some (Inr (Inr cs), w1)" and w1: "service_good w1" "service_files w1 = service_files w"
      "service_stored w1 = service_stored w" "service_up w1 = service_up w"
    using store.store_query [OF conjI [OF good] ch] cs(1) by (auto simp: same_store_def)
  have sel1: "channel_selector w1 = SingleChannelSelector ch"
    using keepsD [OF real_selector.keeps_query query] sel by (simp add: keeps_def io_simps)
  obtain w2 where ship: "ship_candidates (file_ops os boost_split) ch NoOpMetrics cs w1 =
      Some (Inr (if \<not> up (env w) (hd cs) then Inl ''Failed to ship any logs''
                 else Inr (int (length (takeWhile (up (env w)) cs)))), w2)"
    and w2: "service_good w2" "service_files w2 = service_files w" "service_up w2 = service_up w"
      "service_stored w2 = service_stored w \<union> set (takeWhile (up (env w)) cs)"
    using store.store_ship_candidates [OF w1(1) ch, of cs] w1 cs by auto
  have sel2: "channel_selector w2 = SingleChannelSelector ch"
    using keepsD [OF real_selector.keeps_ship_candidates ship] sel1 by (simp add: keeps_def io_simps)
  have beat: "heartbeat os w2 = Some (Inr (), w2)"
    using sel2 by (simp add: heartbeat_def io_simps scs_heartbeat_def set_selector_def)
  have pos: "0 < int (length (takeWhile (up (env w)) cs))" if "up (env w) (hd cs)"
    using that cs(2) by (cases cs) auto
  have "dispatch_new_logs os conf (file_ops os boost_split) NoOpMetrics w = Some (Inr (), w2)"
    using pick query ship sleep beat pos by (auto simp: dispatch_new_logs_def io_simps)
  with sel2 w2 show ?thesis by blast
qed

end


section \<open>A host with an rsync\<close>

text \<open>
  A system with the documented behaviour, so that the hypotheses can hold together: a directory,
  a destination, an rsync that reads its arguments, and the output and exit code of the last
  command.
\<close>

record rsync_host =
  host_names :: "string list"
  host_stored :: "string list"
  host_up :: "string list"
  child_output :: string
  child_code :: int

definition print_lines :: "string list \<Rightarrow> string" where
  "print_lines ls = concat (map (\<lambda>l. l @ [CHR 0x0A]) ls)"

definition rsync_program :: "string list \<Rightarrow> rsync_host \<Rightarrow> rsync_host" where
  "rsync_program argv e =
     (if argv ! 1 = rsync_dry_run_flag
      then e\<lparr>child_output := print_lines (filter (\<lambda>f. f \<notin> set (host_stored e))
               (map file_name_from_path (butlast (drop 5 argv)))), child_code := 0\<rparr>
      else let f = file_name_from_path (argv ! 4) in
        if f \<in> set (host_up e)
        then e\<lparr>host_stored := f # host_stored e, child_output := print_lines [f], child_code := 0\<rparr>
        else e\<lparr>child_code := 10\<rparr>)"

definition rsync_os :: "rsync_host OS" where
  "rsync_os =
     \<lparr>sys_time = (\<lambda>e. Some (0, e)), sys_rand = (\<lambda>e. Some (0, e)), sys_sleep = (\<lambda>n e. Some ((), e)),
      sys_getenv = (\<lambda>s e. Some (Some ''/bin'', e)), sys_access_x = (\<lambda>f e. Some (True, e)),
      sys_getcwd = (\<lambda>e. Some (Some ''/'', e)), sys_open_max = (\<lambda>e. Some (-1, e)),
      sys_getids = (\<lambda>e. Some (\<lparr>id_uid = 0, id_euid = 0, id_gid = 0, id_egid = 0\<rparr>, e)),
      sys_pipe = (\<lambda>t e. Some (if t 3 = None \<and> t 4 = None then Some (3, 4) else None, e)),
      sys_fork = (\<lambda>e. Some (100, e)), sys_child_open = (\<lambda>s t e. Some (None, e)),
      sys_child_call = (\<lambda>c e. Some (True, e)),
      sys_child_runs = (\<lambda>p fate e. Some ((), case fate of
          Child_Execs img \<Rightarrow> rsync_program (image_argv img) e | _ \<Rightarrow> e)),
      sys_read = (\<lambda>f n e.
        Some (Some (take n (child_output e)), e\<lparr>child_output := drop n (child_output e)\<rparr>)),
      sys_waitpid = (\<lambda>p e. Some (Some (child_code e * 256), e)),
      sys_list_directory = (\<lambda>d e. Some (Some (host_names e), e)),
      sys_exists = (\<lambda>p e. Some (Some (file_name_from_path p \<in> set (host_names e)), e)),
      sys_send_udp = (\<lambda>p s e. Some (True, e))\<rparr>"

text \<open>Nothing is left to read, and the names are names.\<close>

definition host_idle :: "rsync_host \<Rightarrow> bool" where
  "host_idle e \<longleftrightarrow> child_output e = [] \<and> distinct (host_names e) \<and>
     (\<forall>f \<in> set (host_names e). plain_name f \<and> CHR 0x00 \<notin> set f \<and> CHR 0x0A \<notin> set f)"

definition host_room :: "fd_table \<Rightarrow> bool" where
  "host_room t \<longleftrightarrow> t 3 = None \<and> t 4 = None"

definition host_user :: ids where
  "host_user = \<lparr>id_uid = 0, id_euid = 0, id_gid = 0, id_egid = 0\<rparr>"

lemma print_lines_join: "print_lines ls = join_with (CHR 0x0A) (ls @ [[]])"
  by (induction ls) (auto simp: print_lines_def join_with_Cons)

lemma print_lines_lines:
  assumes "\<forall>l \<in> set ls. CHR 0x0A \<notin> set l"
  shows "lines_of (print_lines ls) (ls @ [[]])"
  using assms by (simp add: lines_of_def print_lines_join)

lemma host_stream:
  "stream_bytes rsync_os f e (child_output e) (e\<lparr>child_output := []\<rparr>)"
proof (induction "length (child_output e)" arbitrary: e rule: less_induct)
  case less
  let ?out = "child_output e"
  let ?e1 = "e\<lparr>child_output := drop bufsize ?out\<rparr>"
  have read: "sys_read rsync_os f bufsize e = Some (Some (take bufsize ?out), ?e1)"
    by (simp add: rsync_os_def)
  show ?case
  proof (cases "?out = []")
    case True
    then show ?thesis using stream_bytes.stream_end [OF read] by simp
  next
    case False
    have "length (child_output ?e1) < length ?out" using False by (simp add: bufsize_def)
    from less [OF this] have "stream_bytes rsync_os f ?e1 (drop bufsize ?out) (e\<lparr>child_output := []\<rparr>)"
      by simp
    from stream_bytes.stream_more [OF read _ this] False show ?thesis by (simp add: bufsize_def)
  qed
qed

lemma host_child:
  "child_does rsync_os pid img n e (child_output (rsync_program (image_argv img) e))
    (child_code (rsync_program (image_argv img) e) * 256)
    ((rsync_program (image_argv img) e)\<lparr>child_output := []\<rparr>)"
proof -
  let ?e = "rsync_program (image_argv img) e"
  have "sys_child_runs rsync_os pid (Child_Execs img) e = Some ((), ?e)"
    "sys_waitpid rsync_os pid (?e\<lparr>child_output := []\<rparr>) =
      Some (Some (child_code ?e * 256), ?e\<lparr>child_output := []\<rparr>)"
    by (simp_all add: rsync_os_def)
  with host_stream show ?thesis unfolding child_does_def by blast
qed

lemma host_dry_run:
  assumes "host_idle e" "set fs \<subseteq> set (host_names e)"
  shows "rsync_program (rsync_dry_run SOURCE_DIRECTORY fs RSYNC_TARGET) e =
    e\<lparr>child_output := print_lines (filter (\<lambda>f. f \<notin> set (host_stored e)) fs), child_code := 0\<rparr>"
proof -
  have "map (\<lambda>f. file_name_from_path (join_path SOURCE_DIRECTORY f)) fs = fs"
    by (rule map_idI, rule file_name_from_path_join) (use assms in \<open>auto simp: host_idle_def\<close>)
  then show ?thesis
    by (simp add: rsync_program_def rsync_dry_run_def rsync_constants join_paths_def comp_def
        butlast_append)
qed

lemma host_wet_run:
  assumes "host_idle e" "f \<in> set (host_names e)"
  shows "rsync_program (rsync_wet_run (join_path SOURCE_DIRECTORY f) RSYNC_TARGET) e =
    (if f \<in> set (host_up e)
     then e\<lparr>host_stored := f # host_stored e, child_output := print_lines [f], child_code := 0\<rparr>
     else e\<lparr>child_code := 10\<rparr>)"
proof -
  have "file_name_from_path (join_path SOURCE_DIRECTORY f) = f"
    by (rule file_name_from_path_join) (use assms in \<open>auto simp: host_idle_def\<close>)
  then show ?thesis
    by (simp add: rsync_program_def rsync_wet_run_def rsync_constants Let_def)
qed

lemma host_no_nul: "CHR 0x00 \<notin> set SOURCE_DIRECTORY" "CHR 0x00 \<notin> set RSYNC_TARGET"
  by (simp_all add: SOURCE_DIRECTORY_def RSYNC_TARGET_def)

interpretation host_system: plain_system rsync_os "''/bin''" "\<lambda>_. True" "''/''" host_user "-1" host_room
  by unfold_locales (simp_all add: rsync_os_def pipe_documented_def host_user_def host_room_def)

interpretation host: rsync_service rsync_os "''/bin''" "\<lambda>_. True" "''/''" host_user "-1" host_room
  reference_split "''/bin/rsync''" SOURCE_DIRECTORY RSYNC_TARGET host_idle host_names
  "\<lambda>e. set (host_stored e)" "\<lambda>e f. f \<in> set (host_up e)"
proof (unfold_locales, goal_cases)
  case (9 e pid fs img n)
  let ?ls = "filter (\<lambda>f. f \<notin> set (host_stored e)) fs"
  note run = host_child [of pid img n e, unfolded 9(7) host_dry_run [OF 9(1,5)]]
  have "lines_of (print_lines ?ls) (?ls @ [[]])"
    using 9(1,5) by (intro print_lines_lines) (auto simp: host_idle_def)
  moreover have "mset (filter is_svlogd_filename (?ls @ [[]])) =
      mset (filter (\<lambda>f. is_svlogd_filename f \<and> f \<notin> set (host_stored e)) fs)"
    by (simp add: is_svlogd_filename_def conj_commute)
  ultimately show ?case using run 9(1)
    by (intro exI conjI) (assumption | simp add: exited_def undisturbed_def host_idle_def)+
next
  case (10 e pid f img n)
  note run = host_child [of pid img n e, unfolded 10(5) host_wet_run [OF 10(1,3)]]
  then show ?case using 10(1)
    by (intro exI conjI) (assumption | simp add: exited_def undisturbed_def host_idle_def)+
qed (auto simp: rsync_os_def host_idle_def
    path_candidates_def reference_split_documented undisturbed_def ends_with_slash_def
    host_no_nul file_name_from_path_join)

definition shipping_world :: "string list \<Rightarrow> string list \<Rightarrow> string list \<Rightarrow>
    (AgentChannel, rsync_host) agent_world" where
  "shipping_world names at_destination passable =
     \<lparr>child_pid_global = -1, host_name_static = None,
      fds = (\<lambda>d. if d \<in> {0, 1, 2} then Some (Opened ''/dev/null'') else None), next_pipe = 0,
      env = \<lparr>host_names = names, host_stored = at_destination, host_up = passable,
             child_output = [], child_code = 0\<rparr>,
      channel_selector = SingleChannelSelector PRIMARY\<rparr>"

section \<open>Properties\<close>

text \<open>
  C2: one round of the agent as it is, down to the descriptors of its children, ships what is newer
  than the destination. On a system where commands can be run, with an rsync and a directory
  that behave as documented, and something to ship, the round returns; the destination then
  holds, besides what it held, the log files newer than all log files it held, in order up to
  the first that does not get through (whatever its exit code, and after the retries), and
  nothing else; the directory is as it was.
\<close>

theorem real_round_ships_newer:
  fixes w :: "(AgentChannel, 'e, 'z) agent_world_scheme"
  assumes "rsync_service os path accessible cwd user maxfd room boost_split rsync_path
      (channel_source_dir ch) (rsync_target ch) idle listing stored up"
    and "idle (env w)" and "room (fds w)"
    and "channel_selector w = SingleChannelSelector ch" and "sleep_seconds conf \<le> 0"
    and "todo = filter (\<lambda>f. \<forall>g \<in> set (log_files_in (listing (env w))) \<inter> stored (env w). g < f)
      (log_files_in (listing (env w)))" and "todo \<noteq> []"
  shows "\<exists>w'. dispatch_new_logs os conf (file_ops os boost_split) NoOpMetrics w = Some (Inr (), w') \<and>
    stored (env w') = stored (env w) \<union> set (takeWhile (up (env w)) todo) \<and>
    log_files_in (listing (env w')) = log_files_in (listing (env w)) \<and>
    idle (env w') \<and> room (fds w')"
  using rsync_service.service_round [OF assms(1-3) refl refl assms(4,5) _ assms(7)] assms(6)
  by (auto simp: newer_than_remote_def)

theorem real_round_ships_newer_witness:
  "\<exists>w'. dispatch_new_logs rsync_os example_conf (file_ops rsync_os reference_split) NoOpMetrics
      (shipping_world [''lock'', ''@4'', ''@1'', ''@3'', ''@2''] [''@1''] [''@2'', ''@3'']) =
      Some (Inr (), w') \<and>
    set (host_stored (env w')) = {''@1'', ''@2'', ''@3''}"
proof -
  let ?w = "shipping_world [''lock'', ''@4'', ''@1'', ''@3'', ''@2''] [''@1''] [''@2'', ''@3'']"
  have w: "host_idle (env ?w)" "host_room (fds ?w)"
    "channel_selector ?w = SingleChannelSelector PRIMARY" "sleep_seconds example_conf \<le> 0"
    "host_names (env ?w) = [''lock'', ''@4'', ''@1'', ''@3'', ''@2'']"
    "host_stored (env ?w) = [''@1'']" "host_up (env ?w) = [''@2'', ''@3'']"
    by (simp_all add: shipping_world_def host_idle_def host_room_def plain_name_def example_conf_def)
  have chan: "channel_source_dir PRIMARY = SOURCE_DIRECTORY" "rsync_target PRIMARY = RSYNC_TARGET"
    by (simp_all add: PRIMARY_def)
  have files: "log_files_in [''lock'', ''@4'', ''@1'', ''@3'', ''@2''] = [''@1'', ''@2'', ''@3'', ''@4'']"
    by code_simp
  have todo: "[''@2'', ''@3'', ''@4''] = filter (\<lambda>f. \<forall>g \<in> set (log_files_in (host_names (env ?w))) \<inter>
      set (host_stored (env ?w)). g < f) (log_files_in (host_names (env ?w)))"
    unfolding w(5,6) files by code_simp
  from real_round_ships_newer [OF host.rsync_service_axioms [folded chan] w(1-4) todo]
  show ?thesis by (auto simp: w(6,7))
qed

end
