(* ===== verification/Monitor_Threads.thy ===== *)
theory Monitor_Threads
  imports Monitor
begin

text \<open>
  The two threads of the monitor (\<open>barn_agent_local_monitor_main\<close> in \<^verbatim>\<open>barn-agent-monitor.cpp\<close>,
  \<open>receive_datagrams\<close> in \<^verbatim>\<open>localreport.cpp\<close>), step by step: the main thread receives datagrams and
  adds their reports to the repository, the other one runs the timer. A mutex guards the repository.
  Everything between two accesses to what they share is one step. The specification is a machine
  that adds and takes at once; every interleaving is shown to be one of its runs.
\<close>

section \<open>State\<close>

datatype thread = Timer_Thread | Receiver_Thread

text \<open>
  Where the timer is in \<open>timer_action\<close>: at the test for a full buffer, before the lock, before the
  copy, before the clearing, with the names of default metrics still to be added, and with what is
  still to be published.
\<close>

datatype timer_pc =
    Timer_Waiting
  | Timer_Checking
  | Timer_Locking
  | Timer_Copying
  | Timer_Clearing "Report list"
  | Timer_Adding "Report list" "string list"
  | Timer_Reporting "(string \<times> int) list"

datatype receiver_pc =
    Receiver_Waiting
  | Receiver_Locking Report
  | Receiver_Pushing Report
  | Receiver_Unlocking

text \<open>\<open>socket\<close> are the datagrams that arrived and were not read, \<open>clock\<close> the time of the timer.\<close>

record 'e monitor_threads = "'e monitor_world" +
  socket :: "string list"
  clock :: int
  mutex :: "thread option"
  timer_pc :: timer_pc
  receiver_pc :: receiver_pc
  monitor_alive :: bool

definition barn_agent_local_monitor_main :: "int \<Rightarrow> 'e world \<Rightarrow> 'e monitor_threads" where
  "barn_agent_local_monitor_main start w =
     \<lparr>child_pid_global = child_pid_global w, host_name_static = host_name_static w, fds = fds w,
      next_pipe = next_pipe w, env = env w, metric_repo = [], expires_at = start + 0,
      socket = [], clock = start, mutex = None, timer_pc = Timer_Waiting,
      receiver_pc = Receiver_Waiting, monitor_alive = True\<rparr>"

section \<open>Steps\<close>

text \<open>What a step shows of itself.\<close>

datatype monitor_event =
    Silent
  | Pushed Report
  | Taken "Report list"
  | Published string int

inductive monitor_step ::
  "'e OS \<Rightarrow> push_back \<Rightarrow> 'e monitor_threads \<Rightarrow> monitor_event \<Rightarrow> 'e monitor_threads \<Rightarrow> bool"
  for os push_back where
  arrives: "monitor_alive s \<Longrightarrow> monitor_step os push_back s Silent (s\<lparr>socket := socket s @ [d]\<rparr>)"
| ticks: "monitor_alive s \<Longrightarrow> clock s \<le> t \<Longrightarrow> monitor_step os push_back s Silent (s\<lparr>clock := t\<rparr>)"
| receives: "monitor_alive s \<Longrightarrow> receiver_pc s = Receiver_Waiting \<Longrightarrow> socket s = d # ds \<Longrightarrow>
    monitor_step os push_back s Silent
      (s\<lparr>socket := ds, receiver_pc := Receiver_Locking (receive_report garbage d)\<rparr>)"
| receive_fails: "monitor_alive s \<Longrightarrow> receiver_pc s = Receiver_Waiting \<Longrightarrow>
    monitor_step os push_back s Silent (s\<lparr>monitor_alive := False\<rparr>)"
| receiver_locks: "monitor_alive s \<Longrightarrow> receiver_pc s = Receiver_Locking r \<Longrightarrow> mutex s = None \<Longrightarrow>
    monitor_step os push_back s Silent (s\<lparr>mutex := Some Receiver_Thread, receiver_pc := Receiver_Pushing r\<rparr>)"
| receiver_pushes: "monitor_alive s \<Longrightarrow> receiver_pc s = Receiver_Pushing r \<Longrightarrow>
    monitor_step os push_back s (Pushed r)
      (s\<lparr>metric_repo := push_back max_metrics_per_interval (metric_repo s) r, receiver_pc := Receiver_Unlocking\<rparr>)"
| receiver_unlocks: "monitor_alive s \<Longrightarrow> receiver_pc s = Receiver_Unlocking \<Longrightarrow>
    monitor_step os push_back s Silent (s\<lparr>mutex := None, receiver_pc := Receiver_Waiting\<rparr>)"
| timer_fires: "monitor_alive s \<Longrightarrow> timer_pc s = Timer_Waiting \<Longrightarrow> expires_at s \<le> clock s \<Longrightarrow>
    monitor_step os push_back s Silent (s\<lparr>timer_pc := Timer_Checking\<rparr>)"
| timer_checks: "monitor_alive s \<Longrightarrow> timer_pc s = Timer_Checking \<Longrightarrow>
    monitor_step os push_back s Silent (s\<lparr>timer_pc := Timer_Locking\<rparr>)"
| timer_locks: "monitor_alive s \<Longrightarrow> timer_pc s = Timer_Locking \<Longrightarrow> mutex s = None \<Longrightarrow>
    monitor_step os push_back s Silent (s\<lparr>mutex := Some Timer_Thread, timer_pc := Timer_Copying\<rparr>)"
| timer_copies: "monitor_alive s \<Longrightarrow> timer_pc s = Timer_Copying \<Longrightarrow>
    monitor_step os push_back s (Taken (metric_repo s)) (s\<lparr>timer_pc := Timer_Clearing (metric_repo s)\<rparr>)"
| timer_clears: "monitor_alive s \<Longrightarrow> timer_pc s = Timer_Clearing c \<Longrightarrow>
    monitor_step os push_back s Silent (s\<lparr>metric_repo := [], timer_pc := Timer_Adding c DefaultZeroMetrics\<rparr>)"
| timer_adds: "monitor_alive s \<Longrightarrow> timer_pc s = Timer_Adding c (el # els) \<Longrightarrow>
    monitor_step os push_back s Silent
      (s\<lparr>metric_repo := push_back max_metrics_per_interval (metric_repo s) (el, 0), timer_pc := Timer_Adding c els\<rparr>)"
| timer_unlocks: "monitor_alive s \<Longrightarrow> timer_pc s = Timer_Adding c [] \<Longrightarrow>
    monitor_step os push_back s Silent (s\<lparr>mutex := None, timer_pc := Timer_Reporting (aggregate c)\<rparr>)"
| timer_reports: "monitor_alive s \<Longrightarrow> timer_pc s = Timer_Reporting ((k, v) # ms) \<Longrightarrow>
    report_ganglia os metric_group k v s = Some (Inr b, s') \<Longrightarrow>
    monitor_step os push_back s (Published k v) (s'\<lparr>timer_pc := Timer_Reporting ms\<rparr>)"
| timer_aborts: "monitor_alive s \<Longrightarrow> timer_pc s = Timer_Reporting ((k, v) # ms) \<Longrightarrow>
    report_ganglia os metric_group k v s = Some (Inl e, s') \<Longrightarrow>
    monitor_step os push_back s Silent (s'\<lparr>monitor_alive := False\<rparr>)"
| timer_rearms: "monitor_alive s \<Longrightarrow> timer_pc s = Timer_Reporting [] \<Longrightarrow>
    monitor_step os push_back s Silent
      (s\<lparr>expires_at := expires_at s + report_interval_seconds, timer_pc := Timer_Waiting\<rparr>)"

inductive_cases monitor_stepE: "monitor_step os push_back s ev s'"

text \<open>Runs with what they show.\<close>

inductive monitor_run ::
  "'e OS \<Rightarrow> push_back \<Rightarrow> 'e monitor_threads \<Rightarrow> monitor_event list \<Rightarrow> 'e monitor_threads \<Rightarrow> bool"
  for os push_back s0 where
  run_start: "monitor_run os push_back s0 [] s0"
| run_step: "monitor_run os push_back s0 evs s \<Longrightarrow> monitor_step os push_back s ev s' \<Longrightarrow>
    monitor_run os push_back s0 (evs @ [ev]) s'"

section \<open>The atomic machine\<close>

text \<open>Its state is the repository, and what was taken from it and is to be published.\<close>

fun atomic_step ::
  "push_back \<Rightarrow> Report list \<times> (string \<times> int) list \<Rightarrow> monitor_event \<Rightarrow> (Report list \<times> (string \<times> int) list) option" where
  "atomic_step push_back a Silent = Some a"
| "atomic_step push_back (buf, pend) (Pushed r) = Some (push_back max_metrics_per_interval buf r, pend)"
| "atomic_step push_back (buf, pend) (Taken c) =
     (if c = buf \<and> pend = [] then Some (addDefaultMetrics push_back [], aggregate c) else None)"
| "atomic_step push_back (buf, pend) (Published k v) =
     (case pend of [] \<Rightarrow> None | m # ms \<Rightarrow> if m = (k, v) then Some (buf, ms) else None)"

definition atomic_run :: "push_back \<Rightarrow> monitor_event list \<Rightarrow> (Report list \<times> (string \<times> int) list) option" where
  "atomic_run push_back evs = foldl (\<lambda>a ev. Option.bind a (\<lambda>x. atomic_step push_back x ev)) (Some ([], [])) evs"

lemma atomic_run_simps [simp]:
  "atomic_run push_back [] = Some ([], [])"
  "atomic_run push_back (evs @ [ev]) = Option.bind (atomic_run push_back evs) (\<lambda>x. atomic_step push_back x ev)"
  by (simp_all add: atomic_run_def)

section \<open>The simulation\<close>

definition timer_holds :: "timer_pc \<Rightarrow> bool" where
  "timer_holds pc = (case pc of Timer_Copying \<Rightarrow> True | Timer_Clearing _ \<Rightarrow> True | Timer_Adding _ _ \<Rightarrow> True | _ \<Rightarrow> False)"

definition receiver_holds :: "receiver_pc \<Rightarrow> bool" where
  "receiver_holds pc = (case pc of Receiver_Pushing _ \<Rightarrow> True | Receiver_Unlocking \<Rightarrow> True | _ \<Rightarrow> False)"

definition to_publish :: "timer_pc \<Rightarrow> (string \<times> int) list" where
  "to_publish pc =
     (case pc of Timer_Clearing c \<Rightarrow> aggregate c | Timer_Adding c _ \<Rightarrow> aggregate c | Timer_Reporting ms \<Rightarrow> ms | _ \<Rightarrow> [])"

text \<open>What the repository will hold when the timer is out of its critical section.\<close>

definition repo_after :: "push_back \<Rightarrow> timer_pc \<Rightarrow> Report list \<Rightarrow> Report list" where
  "repo_after push_back pc repo =
     (case pc of
        Timer_Clearing _ \<Rightarrow> addDefaultMetrics push_back []
      | Timer_Adding _ els \<Rightarrow> fold (\<lambda>el ms. push_back max_metrics_per_interval ms (el, 0)) els repo
      | _ \<Rightarrow> repo)"

definition simulates :: "push_back \<Rightarrow> Report list \<times> (string \<times> int) list \<Rightarrow> 'e monitor_threads \<Rightarrow> bool" where
  "simulates push_back a s \<longleftrightarrow>
     (mutex s = Some Timer_Thread \<longleftrightarrow> timer_holds (timer_pc s)) \<and>
     (mutex s = Some Receiver_Thread \<longleftrightarrow> receiver_holds (receiver_pc s)) \<and>
     fst a = repo_after push_back (timer_pc s) (metric_repo s) \<and> snd a = to_publish (timer_pc s) \<and>
     (\<forall>c els. timer_pc s = Timer_Adding c els \<longrightarrow> length els \<le> length DefaultZeroMetrics)"

lemmas simulation_defs = simulates_def timer_holds_def receiver_holds_def to_publish_def repo_after_def

lemma threads_view:
  "keeps (report_ganglia os g m v)
     (\<lambda>w :: 'e monitor_threads. (metric_repo w, expires_at w, socket w, clock w, mutex w, timer_pc w, receiver_pc w, monitor_alive w))"
proof (rule keeps_report_ganglia, rule keeps_run_command)
  fix w w' :: "'e monitor_threads"
  assume "program_state w = program_state w'"
  then show "(metric_repo w, expires_at w, socket w, clock w, mutex w, timer_pc w, receiver_pc w, monitor_alive w) =
      (metric_repo w', expires_at w', socket w', clock w', mutex w', timer_pc w', receiver_pc w', monitor_alive w')"
    by (cases w; cases w') (simp add: program_state_def)
qed simp_all

lemma simulation_step:
  assumes "monitor_step os push_back s ev s'" and "simulates push_back a s"
  shows "\<exists>a'. atomic_step push_back a ev = Some a' \<and> simulates push_back a' s'"
  using assms
proof (cases rule: monitor_step.cases)
  case (timer_reports k v ms b s1)
  have "metric_repo s1 = metric_repo s" "mutex s1 = mutex s" "receiver_pc s1 = receiver_pc s"
    using keepsD [OF threads_view timer_reports(5)] by simp_all
  then show ?thesis using timer_reports assms(2) by (cases a) (auto simp: simulation_defs)
next
  case (timer_aborts k v ms e s1)
  have "metric_repo s1 = metric_repo s" "mutex s1 = mutex s" "receiver_pc s1 = receiver_pc s" "timer_pc s1 = timer_pc s"
    using keepsD [OF threads_view timer_aborts(5)] by simp_all
  then show ?thesis using timer_aborts assms(2) by (cases a) (auto simp: simulation_defs)
qed (use assms(2) in \<open>cases a; auto simp: simulation_defs addDefaultMetrics_def split: timer_pc.splits receiver_pc.splits\<close>)+

lemma simulation_run:
  "monitor_run os push_back (barn_agent_local_monitor_main start w) evs s \<Longrightarrow>
     \<exists>a. atomic_run push_back evs = Some a \<and> simulates push_back a s"
proof (induction rule: monitor_run.induct)
  case run_start
  then show ?case by (auto simp: barn_agent_local_monitor_main_def simulation_defs)
next
  case (run_step evs s ev s')
  then show ?case using simulation_step by fastforce
qed

text \<open>What was added since the last time something was taken.\<close>

fun since_taken :: "Report list \<Rightarrow> monitor_event \<Rightarrow> Report list" where
  "since_taken rs (Pushed r) = rs @ [r]"
| "since_taken rs (Taken c) = []"
| "since_taken rs _ = rs"

definition interval_reports :: "monitor_event list \<Rightarrow> Report list" where
  "interval_reports evs = foldl since_taken [] evs"

definition taken_before :: "monitor_event list \<Rightarrow> bool" where
  "taken_before evs \<longleftrightarrow> (\<exists>c. Taken c \<in> set evs)"

lemma interval_simps [simp]:
  "interval_reports [] = []" "interval_reports (evs @ [ev]) = since_taken (interval_reports evs) ev"
  "\<not> taken_before []" "taken_before (evs @ [ev]) \<longleftrightarrow> taken_before evs \<or> (\<exists>c. ev = Taken c)"
  by (auto simp: interval_reports_def taken_before_def)

text \<open>The repository of the atomic machine: the default metrics of a later interval, and the reports since.\<close>

lemma atomic_repository:
  assumes "atomic_run push_back evs = Some (buf, pend)"
  shows "buf = fold (\<lambda>r ms. push_back max_metrics_per_interval ms r) (interval_reports evs)
    (if taken_before evs then addDefaultMetrics push_back [] else [])"
  using assms
proof (induction evs arbitrary: buf pend rule: rev_induct)
  case (snoc ev evs)
  then obtain a where a: "atomic_run push_back evs = Some a" "atomic_step push_back a ev = Some (buf, pend)"
    by (auto simp: bind_eq_Some_conv)
  obtain buf0 pend0 where a': "a = (buf0, pend0)" by (cases a)
  note IH = snoc.IH [OF a(1) [unfolded a']]
  show ?case
    using a(2) IH by (cases ev) (auto simp: a' split: if_splits list.splits)
qed simp

lemma atomic_prefix:
  "atomic_run push_back (xs @ ev # ys) = Some a \<Longrightarrow> \<exists>b c. atomic_run push_back xs = Some b \<and> atomic_step push_back b ev = Some c"
proof (induction ys arbitrary: a rule: rev_induct)
  case Nil
  then show ?case by (auto simp: bind_eq_Some_conv)
next
  case (snoc y ys)
  have "atomic_run push_back ((xs @ ev # ys) @ [y]) = Some a" using snoc.prems by simp
  then obtain a' where "atomic_run push_back (xs @ ev # ys) = Some a'"
    by (auto simp only: atomic_run_simps bind_eq_Some_conv)
  then show ?case by (rule snoc.IH)
qed

section \<open>Runs\<close>

lemma run_append:
  "monitor_run os push_back s1 evs2 s2 \<Longrightarrow> monitor_run os push_back s0 evs1 s1 \<Longrightarrow>
     monitor_run os push_back s0 (evs1 @ evs2) s2"
proof (induction rule: monitor_run.induct)
  case (run_step evs s ev s')
  then show ?case using monitor_run.run_step [of os push_back s0 "evs1 @ evs" s ev s'] by simp
qed simp

lemma run_cons:
  "monitor_step os push_back s0 ev s1 \<Longrightarrow> monitor_run os push_back s1 evs s2 \<Longrightarrow>
     monitor_run os push_back s0 (ev # evs) s2"
  using run_append [of os push_back s1 evs s2 s0 "[ev]"] monitor_run.run_step [OF monitor_run.run_start] by fastforce

text \<open>Adding the default metrics ends.\<close>

lemma adding_ends:
  assumes "monitor_alive s" "timer_pc s = Timer_Adding c els"
  shows "\<exists>evs s'. monitor_run os push_back s evs s' \<and> timer_pc s' = Timer_Adding c [] \<and> monitor_alive s' \<and>
    receiver_pc s' = receiver_pc s \<and> length evs = length els"
  using assms
proof (induction els arbitrary: s)
  case Nil
  then show ?case using monitor_run.run_start by fastforce
next
  case (Cons el els)
  let ?s1 = "s\<lparr>metric_repo := push_back max_metrics_per_interval (metric_repo s) (el, 0), timer_pc := Timer_Adding c els\<rparr>"
  have "monitor_step os push_back s Silent ?s1" by (rule timer_adds [OF Cons.prems])
  moreover obtain evs s' where "monitor_run os push_back ?s1 evs s'" "timer_pc s' = Timer_Adding c []"
    "monitor_alive s'" "receiver_pc s' = receiver_pc s" "length evs = length els"
    using Cons.IH [of ?s1] Cons.prems(1) by auto
  ultimately show ?case using run_cons by (metis length_Cons)
qed

definition releases :: "'e OS \<Rightarrow> push_back \<Rightarrow> nat \<Rightarrow> 'e monitor_threads \<Rightarrow> bool" where
  "releases os push_back n s \<longleftrightarrow>
     (\<exists>evs s'. monitor_run os push_back s evs s' \<and> mutex s' = None \<and> monitor_alive s' \<and> length evs \<le> n \<and>
        (receiver_pc s' = receiver_pc s \<or> timer_pc s' = timer_pc s))"

lemma timer_releases:
  assumes "monitor_alive s"
  shows "timer_pc s = Timer_Adding c els \<Longrightarrow> releases os push_back (Suc (length els)) s"
    and "timer_pc s = Timer_Clearing c \<Longrightarrow> releases os push_back (length DefaultZeroMetrics + 2) s"
    and "timer_pc s = Timer_Copying \<Longrightarrow> releases os push_back (length DefaultZeroMetrics + 3) s"
proof -
  have adding: "\<exists>evs s'. monitor_run os push_back s evs s' \<and> mutex s' = None \<and> monitor_alive s' \<and>
      length evs = Suc (length els) \<and> receiver_pc s' = receiver_pc s"
    if s: "monitor_alive s" "timer_pc s = Timer_Adding c els" for s :: "'a monitor_threads" and c els
  proof -
    obtain evs s1 where s1: "monitor_run os push_back s evs s1" "timer_pc s1 = Timer_Adding c []" "monitor_alive s1"
      "receiver_pc s1 = receiver_pc s" "length evs = length els"
      using adding_ends [OF s, of os push_back] by blast
    show ?thesis
      using monitor_run.run_step [OF s1(1) timer_unlocks [OF s1(3,2)]] s1 by fastforce
  qed
  have clearing: "\<exists>evs s'. monitor_run os push_back s evs s' \<and> mutex s' = None \<and> monitor_alive s' \<and>
      length evs = length DefaultZeroMetrics + 2 \<and> receiver_pc s' = receiver_pc s"
    if "monitor_alive s" "timer_pc s = Timer_Clearing c" for s :: "'a monitor_threads" and c
    using adding [of "s\<lparr>metric_repo := [], timer_pc := Timer_Adding c DefaultZeroMetrics\<rparr>" c DefaultZeroMetrics]
      run_cons [OF timer_clears [OF that]] that(1) by fastforce
  show "timer_pc s = Timer_Adding c els \<Longrightarrow> releases os push_back (Suc (length els)) s"
    using adding [OF assms] by (fastforce simp: releases_def)
  show "timer_pc s = Timer_Clearing c \<Longrightarrow> releases os push_back (length DefaultZeroMetrics + 2) s"
    using clearing [OF assms] by (fastforce simp: releases_def)
  show "releases os push_back (length DefaultZeroMetrics + 3) s" if t: "timer_pc s = Timer_Copying"
    using clearing [of "s\<lparr>timer_pc := Timer_Clearing (metric_repo s)\<rparr>" "metric_repo s"]
      run_cons [OF timer_copies [OF assms t]] assms by (fastforce simp: releases_def)
qed

lemma receiver_releases:
  assumes "monitor_alive s" "receiver_holds (receiver_pc s)"
  shows "releases os push_back 2 s"
proof -
  have unlocking: "\<exists>s'. monitor_run os push_back s [Silent] s' \<and> mutex s' = None \<and> monitor_alive s' \<and> timer_pc s' = timer_pc s"
    if "monitor_alive s" "receiver_pc s = Receiver_Unlocking" for s :: "'a monitor_threads"
    using run_cons [OF receiver_unlocks [OF that] run_start] that by fastforce
  show ?thesis
  proof (cases "receiver_pc s")
    case (Receiver_Pushing r)
    show ?thesis
      using run_cons [OF receiver_pushes [OF assms(1) Receiver_Pushing]] unlocking
        [of "s\<lparr>metric_repo := push_back max_metrics_per_interval (metric_repo s) r, receiver_pc := Receiver_Unlocking\<rparr>"]
        assms(1) by (fastforce simp: releases_def)
  next
    case Receiver_Unlocking
    then show ?thesis using unlocking [OF assms(1)] by (fastforce simp: releases_def)
  qed (use assms(2) in \<open>simp_all add: receiver_holds_def\<close>)
qed

section \<open>An example run\<close>

text \<open>A report arrives and is added, and then the timer fires.\<close>

definition example_start :: "nat monitor_threads" where
  "example_start = barn_agent_local_monitor_main 100 host_world"

definition example_report :: Report where
  "example_report = (''barn_files_shipped'', 2)"

definition example_pushing :: "nat monitor_threads" where
  "example_pushing = example_start\<lparr>socket := [], mutex := Some Receiver_Thread, receiver_pc := Receiver_Pushing example_report\<rparr>"

definition example_taken :: "nat monitor_threads" where
  "example_taken = example_start\<lparr>socket := [], metric_repo := [example_report],
     receiver_pc := Receiver_Waiting, mutex := Some Timer_Thread, timer_pc := Timer_Clearing [example_report]\<rparr>"

lemma example_start_simps:
  "monitor_alive example_start" "socket example_start = []" "mutex example_start = None"
  "receiver_pc example_start = Receiver_Waiting" "timer_pc example_start = Timer_Waiting"
  "metric_repo example_start = []" "expires_at example_start = 100" "clock example_start = 100"
  by (simp_all add: example_start_def barn_agent_local_monitor_main_def)

lemma example_run_pushing:
  "monitor_run os reference_push_back example_start [Silent, Silent, Silent] example_pushing"
proof -
  have report: "receive_report 0 ''barn_files_shipped 2'' = example_report"
    unfolding example_report_def by code_simp
  let ?s1 = "example_start\<lparr>socket := [''barn_files_shipped 2'']\<rparr>"
  let ?s2 = "?s1\<lparr>socket := [], receiver_pc := Receiver_Locking example_report\<rparr>"
  have 1: "monitor_step os reference_push_back example_start Silent ?s1"
    using arrives [of example_start os reference_push_back "''barn_files_shipped 2''"] by (simp add: example_start_simps)
  have 2: "monitor_step os reference_push_back ?s1 Silent ?s2"
    using receives [of ?s1 "''barn_files_shipped 2''" "[]" os reference_push_back 0]
    by (simp add: example_start_simps report)
  have 3: "monitor_step os reference_push_back ?s2 Silent
      (?s2\<lparr>mutex := Some Receiver_Thread, receiver_pc := Receiver_Pushing example_report\<rparr>)"
    by (rule receiver_locks) (simp_all add: example_start_simps)
  show ?thesis
    using run_cons [OF 1 run_cons [OF 2 run_cons [OF 3 run_start]]] by (simp add: example_pushing_def)
qed

lemma example_run_taken:
  "monitor_run os reference_push_back example_start
     ([Silent, Silent, Silent, Pushed example_report, Silent, Silent, Silent, Silent] @ [Taken [example_report]])
     example_taken"
proof -
  let ?s1 = "example_pushing\<lparr>metric_repo := [example_report], receiver_pc := Receiver_Unlocking\<rparr>"
  let ?s2 = "?s1\<lparr>mutex := None, receiver_pc := Receiver_Waiting\<rparr>"
  let ?s3 = "?s2\<lparr>timer_pc := Timer_Checking\<rparr>" and ?s4 = "?s2\<lparr>timer_pc := Timer_Locking\<rparr>"
  let ?s5 = "?s2\<lparr>mutex := Some Timer_Thread, timer_pc := Timer_Copying\<rparr>"
  note simps = example_pushing_def example_start_simps
  have 1: "monitor_step os reference_push_back example_pushing (Pushed example_report) ?s1"
    using receiver_pushes [of example_pushing example_report os reference_push_back]
    by (simp add: simps reference_push_back_def max_metrics_per_interval_def)
  have 2: "monitor_step os reference_push_back ?s1 Silent ?s2"
    by (rule receiver_unlocks) (simp_all add: simps)
  have 3: "monitor_step os reference_push_back ?s2 Silent ?s3"
    by (rule timer_fires) (simp_all add: simps)
  have 4: "monitor_step os reference_push_back ?s3 Silent ?s4"
    using timer_checks [of ?s3 os reference_push_back] by (simp add: simps)
  have 5: "monitor_step os reference_push_back ?s4 Silent ?s5"
    using timer_locks [of ?s4 os reference_push_back] by (simp add: simps)
  have 6: "monitor_step os reference_push_back ?s5 (Taken [example_report]) example_taken"
    using timer_copies [of ?s5 os reference_push_back] by (simp add: simps example_taken_def)
  show ?thesis
    using run_append [OF run_cons [OF 1 run_cons [OF 2 run_cons [OF 3 run_cons [OF 4 run_cons [OF 5
          run_cons [OF 6 run_start]]]]]] example_run_pushing] by simp
qed

text \<open>
  The test for a full buffer is outside the lock: the timer can be at it while the receiver
  changes the repository.
\<close>

lemma unlocked_test:
  "\<exists>evs s. monitor_run os reference_push_back example_start evs s \<and>
     timer_pc s = Timer_Checking \<and> receiver_pc s = Receiver_Pushing example_report"
proof -
  have "monitor_step os reference_push_back example_pushing Silent (example_pushing\<lparr>timer_pc := Timer_Checking\<rparr>)"
    by (rule timer_fires) (simp_all add: example_pushing_def example_start_simps)
  then have "monitor_run os reference_push_back example_start ([Silent, Silent, Silent] @ [Silent])
      (example_pushing\<lparr>timer_pc := Timer_Checking\<rparr>)"
    by (rule run_step [OF example_run_pushing])
  then show ?thesis by (fastforce simp: example_pushing_def)
qed

section \<open>When the timer fires\<close>

definition firings :: "monitor_event list \<Rightarrow> nat" where
  "firings evs = length (filter (\<lambda>ev. \<exists>c. ev = Taken c) evs)"

definition between_take_and_rearm :: "timer_pc \<Rightarrow> bool" where
  "between_take_and_rearm pc =
     (case pc of Timer_Clearing _ \<Rightarrow> True | Timer_Adding _ _ \<Rightarrow> True | Timer_Reporting _ \<Rightarrow> True | _ \<Rightarrow> False)"

text \<open>The timer is due thirty seconds later for each firing that is over, and not early.\<close>

definition on_schedule :: "int \<Rightarrow> monitor_event list \<Rightarrow> 'e monitor_threads \<Rightarrow> bool" where
  "on_schedule start evs s \<longleftrightarrow>
     expires_at s = start + 30 * (int (firings evs) - (if between_take_and_rearm (timer_pc s) then 1 else 0)) \<and>
     (timer_pc s \<noteq> Timer_Waiting \<longrightarrow> expires_at s \<le> clock s) \<and>
     (firings evs > 0 \<longrightarrow> start + 30 * (int (firings evs) - 1) \<le> clock s) \<and> start \<le> clock s"

lemma firings_simps [simp]:
  "firings [] = 0" "firings (evs @ [ev]) = firings evs + (case ev of Taken c \<Rightarrow> 1 | _ \<Rightarrow> 0)"
  by (simp_all add: firings_def split: monitor_event.split)

lemma schedule_step:
  assumes "monitor_step os push_back s ev s'" and "on_schedule start evs s"
  shows "on_schedule start (evs @ [ev]) s'"
  using assms
proof (cases rule: monitor_step.cases)
  case (timer_reports k v ms b s1)
  have "expires_at s1 = expires_at s" "clock s1 = clock s"
    using keepsD [OF threads_view timer_reports(5)] by simp_all
  then show ?thesis using timer_reports assms(2) by (auto simp: on_schedule_def between_take_and_rearm_def)
next
  case (timer_aborts k v ms e s1)
  have "expires_at s1 = expires_at s" "clock s1 = clock s" "timer_pc s1 = timer_pc s"
    using keepsD [OF threads_view timer_aborts(5)] by simp_all
  then show ?thesis using timer_aborts assms(2) by (auto simp: on_schedule_def between_take_and_rearm_def)
qed (use assms(2) in \<open>auto simp: on_schedule_def between_take_and_rearm_def report_interval_seconds_def\<close>)

lemma schedule_run:
  "monitor_run os push_back (barn_agent_local_monitor_main start w) evs s \<Longrightarrow> on_schedule start evs s"
proof (induction rule: monitor_run.induct)
  case run_start
  then show ?case by (simp add: on_schedule_def barn_agent_local_monitor_main_def between_take_and_rearm_def)
next
  case (run_step evs s ev s')
  then show ?case using schedule_step by blast
qed

section \<open>Properties\<close>

text \<open>
  C26: the threads of the monitor do what one machine does that adds and takes reports at once. Every
  interleaving of the steps of the two threads shows a run of that machine: each publication is the
  next sum of what was last taken, and whenever the timer is not in its critical section the
  repository is that of the machine. The two threads are never in their critical sections together.
\<close>

theorem threads_refine_atomic:
  assumes "monitor_run os push_back (barn_agent_local_monitor_main start w) evs s"
  shows "\<exists>buf pend. atomic_run push_back evs = Some (buf, pend) \<and>
    (\<not> timer_holds (timer_pc s) \<longrightarrow> metric_repo s = buf) \<and>
    \<not> (timer_holds (timer_pc s) \<and> receiver_holds (receiver_pc s))"
proof -
  obtain buf pend where "atomic_run push_back evs = Some (buf, pend)" "simulates push_back (buf, pend) s"
    using simulation_run [OF assms] by (metis surj_pair)
  moreover from this have "\<not> timer_holds (timer_pc s) \<longrightarrow> metric_repo s = buf"
    "\<not> (timer_holds (timer_pc s) \<and> receiver_holds (receiver_pc s))"
    by (auto simp: simulates_def repo_after_def timer_holds_def split: timer_pc.splits)
  ultimately show ?thesis by blast
qed

theorem threads_refine_atomic_witness:
  "\<exists>buf pend. atomic_run reference_push_back
       ([Silent, Silent, Silent, Pushed example_report, Silent, Silent, Silent, Silent] @ [Taken [example_report]]) =
     Some (buf, pend)"
  using threads_refine_atomic [OF example_run_taken [of "host_os None", unfolded example_start_def]] by blast

text \<open>
  C27: what a firing of the timer takes, however the threads interleave. In line are the eight zeroes
  of the default metrics, unless it is the first firing, and then the reports that were added since
  the previous firing, in order; the firing takes the last thousand of these. So with at most 992
  reports in the interval all are taken and no report is lost or in two intervals; with more the
  full buffer has dropped the oldest entries, which are the zeroes first.
\<close>

theorem firing_takes_interval:
  assumes "circular_documented push_back"
    and "monitor_run os push_back (barn_agent_local_monitor_main start w) (xs @ Taken c # ys) s"
    and "due = (if taken_before xs then map (\<lambda>k. (k, 0)) DefaultZeroMetrics else []) @ interval_reports xs"
  shows "c = drop (length due - 1000) due \<and> (length (interval_reports xs) \<le> 992 \<longrightarrow> c = due)"
proof -
  obtain a where "atomic_run push_back (xs @ Taken c # ys) = Some a"
    using simulation_run [OF assms(2)] by blast
  then obtain buf pend where x: "atomic_run push_back xs = Some (buf, pend)" "c = buf"
    using atomic_prefix by (fastforce split: if_splits)
  let ?start = "if taken_before xs then default_reports else []"
  have few: "length ?start \<le> 8" by (simp add: default_reports_def DefaultZeroMetrics_def)
  have "buf = fold (\<lambda>r ms. push_back max_metrics_per_interval ms r) (interval_reports xs) ?start"
    using atomic_repository [OF x(1)] by (simp add: add_defaults [OF assms(1)])
  also have "\<dots> = drop (length ?start + length (interval_reports xs) - 1000) (?start @ interval_reports xs)"
    using fold_push_full [OF assms(1), of ?start max_metrics_per_interval] few
    by (simp add: max_metrics_per_interval_def split del: if_split)
  also have "?start @ interval_reports xs = due" by (simp add: assms(3) default_reports_def)
  finally have "c = drop (length ?start + length (interval_reports xs) - 1000) due" by (simp add: x(2))
  moreover have "length due = length ?start + length (interval_reports xs)"
    by (simp add: assms(3) default_reports_def)
  ultimately show ?thesis using few by auto
qed

theorem firing_takes_interval_witness:
  "[example_report] =
     (if taken_before [Silent, Silent, Silent, Pushed example_report, Silent, Silent, Silent, Silent]
      then map (\<lambda>k. (k, 0)) DefaultZeroMetrics else []) @
     interval_reports [Silent, Silent, Silent, Pushed example_report, Silent, Silent, Silent, Silent]"
  using firing_takes_interval [OF reference_push_back_documented
        example_run_taken [of "host_os None", unfolded example_start_def] refl]
  by (simp add: interval_reports_def)

text \<open>
  C28: the lock is never held for good. In every reachable state in which a thread holds the mutex,
  that thread can release it by at most eleven steps of its own.
\<close>

theorem lock_is_released:
  assumes "monitor_run os push_back (barn_agent_local_monitor_main start w) evs s"
    and "monitor_alive s" "mutex s \<noteq> None"
  shows "\<exists>evs' s'. monitor_run os push_back s evs' s' \<and> mutex s' = None \<and> length evs' \<le> 11 \<and>
    (receiver_pc s' = receiver_pc s \<or> timer_pc s' = timer_pc s)"
proof -
  obtain a where sim: "simulates push_back a s" using simulation_run [OF assms(1)] by blast
  have "\<exists>n \<le> 11. releases os push_back n s"
  proof (cases "the (mutex s)")
    case Timer_Thread
    then have "timer_holds (timer_pc s)" using sim assms(3) by (auto simp: simulates_def)
    moreover have "length els \<le> length DefaultZeroMetrics" if "timer_pc s = Timer_Adding c els" for c els
      using sim that by (simp add: simulates_def)
    moreover have "length DefaultZeroMetrics = 8" by (simp add: DefaultZeroMetrics_def)
    moreover have "releases os push_back n s \<Longrightarrow> n \<le> 11 \<Longrightarrow> ?thesis" for n by blast
    ultimately show ?thesis
      using timer_releases [OF assms(2), where os = os and push_back = push_back]
      by (cases "timer_pc s") (simp_all add: timer_holds_def)
  next
    case Receiver_Thread
    then have "receiver_holds (receiver_pc s)" using sim assms(3) by (auto simp: simulates_def)
    then show ?thesis using receiver_releases [OF assms(2)] by (intro exI [of _ 2]) simp
  qed
  then show ?thesis unfolding releases_def by (meson order_trans)
qed

lemma example_holds: "mutex example_taken \<noteq> None" "monitor_alive example_taken"
  by (simp_all add: example_taken_def example_start_simps)

theorem lock_is_released_witness:
  "\<exists>evs s. monitor_run (host_os None) reference_push_back example_taken evs s \<and> mutex s = None \<and> length evs \<le> 11"
  using lock_is_released [OF example_run_taken [of "host_os None", unfolded example_start_def] example_holds(2,1)]
  by blast

text \<open>
  The timer fires at most once at the start and once for every thirty seconds since, however
  long publishing takes; a firing that was late makes the next intervals shorter.
\<close>

lemma firings_bounded:
  assumes "monitor_run os push_back (barn_agent_local_monitor_main start w) evs s"
  shows "int (firings evs) \<le> (clock s - start) div 30 + 1"
proof (cases "firings evs = 0")
  case True
  have "start \<le> clock s" using schedule_run [OF assms] by (simp add: on_schedule_def)
  then show ?thesis using True pos_imp_zdiv_nonneg_iff [of 30 "clock s - start"] by simp
next
  case False
  then have "30 * (int (firings evs) - 1) \<le> clock s - start"
    using schedule_run [OF assms] by (simp add: on_schedule_def)
  from zdiv_mono1 [OF this, of 30] show ?thesis by simp
qed

lemma firings_bounded_witness:
  "int (firings ([Silent, Silent, Silent, Pushed example_report, Silent, Silent, Silent, Silent] @ [Taken [example_report]]))
    \<le> (100 - 100) div 30 + 1"
  using firings_bounded [OF example_run_taken [of "host_os None", unfolded example_start_def]]
  by (simp add: example_taken_def example_start_simps)

end
