(* ===== verification/Elpp_Enums.thy ===== *)
theory Elpp_Enums
  imports Barn_Prelude "HOL-Library.Word" "HOL-Library.While_Combinator"
begin

text \<open>
  \<^verbatim>\<open>barn-agent/src/external/easylogging++.h\<close>, the logging library of the agent, its enumerations:
  severity levels and configuration types with their conversions and the loops over them, and
  the flags with their bit operations. The underlying type of all of them is
  \<open>unsigned short\<close>, 16 bits.
\<close>

unbundle bit_operations_syntax

type_synonym EnumType = "16 word"

section \<open>Levels\<close>

datatype Level =
    Level_Global
  | Level_Trace
  | Level_Debug
  | Level_Fatal
  | Level_Error
  | Level_Warning
  | Level_Verbose
  | Level_Info
  | Level_Unknown

fun level_castToInt :: "Level \<Rightarrow> EnumType" where
  "level_castToInt Level_Global = 1"
| "level_castToInt Level_Trace = 2"
| "level_castToInt Level_Debug = 4"
| "level_castToInt Level_Fatal = 8"
| "level_castToInt Level_Error = 16"
| "level_castToInt Level_Warning = 32"
| "level_castToInt Level_Verbose = 64"
| "level_castToInt Level_Info = 128"
| "level_castToInt Level_Unknown = 1010"

text \<open>
  A C++ enumeration can hold a value that is no enumerator. The casts of the code are of values
  that are one; the model makes \<open>Unknown\<close> of the others.
\<close>

definition level_castFromInt :: "EnumType \<Rightarrow> Level" where
  "level_castFromInt l =
     (if l = 1 then Level_Global else if l = 2 then Level_Trace else if l = 4 then Level_Debug
      else if l = 8 then Level_Fatal else if l = 16 then Level_Error
      else if l = 32 then Level_Warning else if l = 64 then Level_Verbose
      else if l = 128 then Level_Info else Level_Unknown)"

definition level_kMinValid :: EnumType where
  "level_kMinValid = level_castToInt Level_Trace"

definition level_kMaxValid :: EnumType where
  "level_kMaxValid = level_castToInt Level_Info"

definition level_convertToString :: "Level \<Rightarrow> string" where
  "level_convertToString level =
     (if level = Level_Global then ''GLOBAL'' else if level = Level_Debug then ''DEBUG''
      else if level = Level_Info then ''INFO'' else if level = Level_Warning then ''WARNING''
      else if level = Level_Error then ''ERROR'' else if level = Level_Fatal then ''FATAL''
      else if level = Level_Verbose then ''VERBOSE'' else if level = Level_Trace then ''TRACE''
      else ''UNKNOWN'')"

definition level_convertFromString :: "string \<Rightarrow> Level" where
  "level_convertFromString levelStr =
     (if levelStr = ''GLOBAL'' \<or> levelStr = ''global'' then Level_Global
      else if levelStr = ''DEBUG'' \<or> levelStr = ''debug'' then Level_Debug
      else if levelStr = ''INFO'' \<or> levelStr = ''info'' then Level_Info
      else if levelStr = ''WARNING'' \<or> levelStr = ''warning'' then Level_Warning
      else if levelStr = ''ERROR'' \<or> levelStr = ''error'' then Level_Error
      else if levelStr = ''FATAL'' \<or> levelStr = ''fatal'' then Level_Fatal
      else if levelStr = ''VERBOSE'' \<or> levelStr = ''verbose'' then Level_Verbose
      else if levelStr = ''TRACE'' \<or> levelStr = ''trace'' then Level_Trace
      else Level_Unknown)"

section \<open>The loops over an enumeration\<close>

text \<open>
  \<open>forEachLevel\<close> and \<open>forEachConfigType\<close> are one do-while loop, up to the last valid value.
  \<open>fn\<close> is the body, on the current value and the state; it says whether to stop. The index is
  doubled after each turn, in 16 bits.
\<close>

definition for_each_step ::
  "(EnumType \<Rightarrow> 's \<Rightarrow> bool \<times> 's) \<Rightarrow> EnumType \<times> bool \<times> 's \<Rightarrow> EnumType \<times> bool \<times> 's" where
  "for_each_step fn = (\<lambda>(startIndex, stop, s).
     let (stop', s') = fn startIndex s in
     if stop' then (startIndex, True, s') else (push_bit 1 startIndex, False, s'))"

definition for_each ::
  "EnumType \<Rightarrow> EnumType \<Rightarrow> (EnumType \<Rightarrow> 's \<Rightarrow> bool \<times> 's) \<Rightarrow> 's \<Rightarrow> 's" where
  "for_each lIndexMax startIndex fn s =
     snd (snd (while (\<lambda>(startIndex, stop, s). \<not> stop \<and> startIndex \<le> lIndexMax)
       (for_each_step fn) (for_each_step fn (startIndex, False, s))))"

definition forEachLevel :: "EnumType \<Rightarrow> (EnumType \<Rightarrow> 's \<Rightarrow> bool \<times> 's) \<Rightarrow> 's \<Rightarrow> 's" where
  "forEachLevel startIndex fn s = for_each level_kMaxValid startIndex fn s"

text \<open>The levels that the loop from \<open>kMinValid\<close> goes through.\<close>

definition valid_levels :: "Level list" where
  "valid_levels = [Level_Trace, Level_Debug, Level_Fatal, Level_Error, Level_Warning,
     Level_Verbose, Level_Info]"

lemma set_valid_levels: "set valid_levels = UNIV - {Level_Global, Level_Unknown}"
proof -
  have "l \<in> set valid_levels \<longleftrightarrow> l \<notin> {Level_Global, Level_Unknown}" for l
    by (cases l) (simp_all add: valid_levels_def)
  then show ?thesis by auto
qed

lemma forEachLevel_fold:
  assumes "\<And>i s. fn i s = (False, f (level_castFromInt i) s)"
  shows "forEachLevel level_kMinValid fn s = fold f valid_levels s"
  unfolding forEachLevel_def for_each_def level_kMinValid_def level_kMaxValid_def valid_levels_def
  by (simp add: for_each_step_def assms while_unfold level_castFromInt_def)

section \<open>Configuration types\<close>

datatype ConfigurationType =
    CT_Enabled
  | CT_ToFile
  | CT_ToStandardOutput
  | CT_Format
  | CT_Filename
  | CT_MillisecondsWidth
  | CT_PerformanceTracking
  | CT_MaxLogFileSize
  | CT_LogFlushThreshold
  | CT_Unknown

fun config_castToInt :: "ConfigurationType \<Rightarrow> EnumType" where
  "config_castToInt CT_Enabled = 1"
| "config_castToInt CT_ToFile = 2"
| "config_castToInt CT_ToStandardOutput = 4"
| "config_castToInt CT_Format = 8"
| "config_castToInt CT_Filename = 16"
| "config_castToInt CT_MillisecondsWidth = 32"
| "config_castToInt CT_PerformanceTracking = 64"
| "config_castToInt CT_MaxLogFileSize = 128"
| "config_castToInt CT_LogFlushThreshold = 256"
| "config_castToInt CT_Unknown = 1010"

definition config_castFromInt :: "EnumType \<Rightarrow> ConfigurationType" where
  "config_castFromInt c =
     (if c = 1 then CT_Enabled else if c = 2 then CT_ToFile else if c = 4 then CT_ToStandardOutput
      else if c = 8 then CT_Format else if c = 16 then CT_Filename
      else if c = 32 then CT_MillisecondsWidth else if c = 64 then CT_PerformanceTracking
      else if c = 128 then CT_MaxLogFileSize else if c = 256 then CT_LogFlushThreshold
      else CT_Unknown)"

definition config_kMinValid :: EnumType where
  "config_kMinValid = config_castToInt CT_Enabled"

definition config_kMaxValid :: EnumType where
  "config_kMaxValid = config_castToInt CT_MaxLogFileSize"

definition config_convertToString :: "ConfigurationType \<Rightarrow> string" where
  "config_convertToString configurationType =
     (if configurationType = CT_Enabled then ''ENABLED''
      else if configurationType = CT_Filename then ''FILENAME''
      else if configurationType = CT_Format then ''FORMAT''
      else if configurationType = CT_ToFile then ''TO_FILE''
      else if configurationType = CT_ToStandardOutput then ''TO_STANDARD_OUTPUT''
      else if configurationType = CT_MillisecondsWidth then ''MILLISECONDS_WIDTH''
      else if configurationType = CT_PerformanceTracking then ''PERFORMANCE_TRACKING''
      else if configurationType = CT_MaxLogFileSize then ''MAX_LOG_FILE_SIZE''
      else if configurationType = CT_LogFlushThreshold then ''LOG_FLUSH_THRESHOLD''
      else ''UNKNOWN'')"

definition config_convertFromString :: "string \<Rightarrow> ConfigurationType" where
  "config_convertFromString configStr =
     (if configStr = ''ENABLED'' \<or> configStr = ''enabled'' then CT_Enabled
      else if configStr = ''TO_FILE'' \<or> configStr = ''to_file'' then CT_ToFile
      else if configStr = ''TO_STANDARD_OUTPUT'' \<or> configStr = ''to_standard_output''
      then CT_ToStandardOutput
      else if configStr = ''FORMAT'' \<or> configStr = ''format'' then CT_Format
      else if configStr = ''FILENAME'' \<or> configStr = ''filename'' then CT_Filename
      else if configStr = ''MILLISECONDS_WIDTH'' \<or> configStr = ''milliseconds_width''
      then CT_MillisecondsWidth
      else if configStr = ''PERFORMANCE_TRACKING'' \<or> configStr = ''performance_tracking''
      then CT_PerformanceTracking
      else if configStr = ''MAX_LOG_FILE_SIZE'' \<or> configStr = ''max_log_file_size''
      then CT_MaxLogFileSize
      else if configStr = ''LOG_FLUSH_THRESHOLD'' \<or> configStr = ''log_flush_threshold''
      then CT_LogFlushThreshold
      else CT_Unknown)"

definition forEachConfigType :: "EnumType \<Rightarrow> (EnumType \<Rightarrow> 's \<Rightarrow> bool \<times> 's) \<Rightarrow> 's \<Rightarrow> 's" where
  "forEachConfigType startIndex fn s = for_each config_kMaxValid startIndex fn s"

section \<open>Flags\<close>

text \<open>The flags that a user sets.\<close>

datatype LoggingFlag =
    NewLineForContainer
  | AllowVerboseIfModuleNotSpecified
  | LogDetailedCrashReason
  | DisableApplicationAbortOnFatalLog
  | ImmediateFlush
  | StrictLogFileSizeCheck
  | ColoredTerminalOutput
  | MultiLoggerSupport
  | DisablePerformanceTrackingCheckpointComparison
  | DisableVModules
  | DisableVModulesExtensions
  | HierarchicalLogging
  | CreateLoggerAutomatically
  | AutoSpacing

fun logging_flag :: "LoggingFlag \<Rightarrow> EnumType" where
  "logging_flag NewLineForContainer = 1"
| "logging_flag AllowVerboseIfModuleNotSpecified = 2"
| "logging_flag LogDetailedCrashReason = 4"
| "logging_flag DisableApplicationAbortOnFatalLog = 8"
| "logging_flag ImmediateFlush = 16"
| "logging_flag StrictLogFileSizeCheck = 32"
| "logging_flag ColoredTerminalOutput = 64"
| "logging_flag MultiLoggerSupport = 128"
| "logging_flag DisablePerformanceTrackingCheckpointComparison = 256"
| "logging_flag DisableVModules = 512"
| "logging_flag DisableVModulesExtensions = 1024"
| "logging_flag HierarchicalLogging = 2048"
| "logging_flag CreateLoggerAutomatically = 4096"
| "logging_flag AutoSpacing = 8192"

text \<open>The flags of a log format: the specifiers it holds.\<close>

datatype FormatFlags =
    FF_DateTime | FF_LoggerId | FF_File | FF_Line | FF_Location | FF_Function | FF_User | FF_Host
  | FF_LogMessage | FF_VerboseLevel | FF_AppName | FF_ThreadId | FF_Level | FF_FileBase
  | FF_LevelShort

fun format_flag :: "FormatFlags \<Rightarrow> EnumType" where
  "format_flag FF_DateTime = push_bit 1 1"
| "format_flag FF_LoggerId = push_bit 2 1"
| "format_flag FF_File = push_bit 3 1"
| "format_flag FF_Line = push_bit 4 1"
| "format_flag FF_Location = push_bit 5 1"
| "format_flag FF_Function = push_bit 6 1"
| "format_flag FF_User = push_bit 7 1"
| "format_flag FF_Host = push_bit 8 1"
| "format_flag FF_LogMessage = push_bit 9 1"
| "format_flag FF_VerboseLevel = push_bit 10 1"
| "format_flag FF_AppName = push_bit 11 1"
| "format_flag FF_ThreadId = push_bit 12 1"
| "format_flag FF_Level = push_bit 13 1"
| "format_flag FF_FileBase = push_bit 14 1"
| "format_flag FF_LevelShort = push_bit 15 1"

text \<open>The templates over an enumeration take the value of the enumerator.\<close>

definition bitwise_And :: "EnumType \<Rightarrow> EnumType \<Rightarrow> EnumType" where
  "bitwise_And e flag = flag AND e"

definition bitwise_Not :: "EnumType \<Rightarrow> EnumType \<Rightarrow> EnumType" where
  "bitwise_Not e flag = flag AND NOT e"

definition bitwise_Or :: "EnumType \<Rightarrow> EnumType \<Rightarrow> EnumType" where
  "bitwise_Or e flag = flag OR e"

definition addFlag :: "EnumType \<Rightarrow> EnumType \<Rightarrow> EnumType" where
  "addFlag e flag = bitwise_Or e flag"

definition removeFlag :: "EnumType \<Rightarrow> EnumType \<Rightarrow> EnumType" where
  "removeFlag e flag = bitwise_Not e flag"

definition hasFlag :: "EnumType \<Rightarrow> EnumType \<Rightarrow> bool" where
  "hasFlag e flag \<longleftrightarrow> bitwise_And e flag > 0"

text \<open>Flags do not overlap.\<close>

lemma format_flag_disjoint:
  "format_flag f AND format_flag g = (if f = g then format_flag f else 0)"
  by (cases f; cases g) simp_all

lemma logging_flag_disjoint:
  "logging_flag f AND logging_flag g = (if f = g then logging_flag f else 0)"
  by (cases f; cases g) simp_all

lemma flag_nonzero [simp]: "format_flag f \<noteq> 0" "logging_flag g \<noteq> 0"
  by (cases f; simp) (cases g; simp)

lemma hasFlag_iff: "hasFlag e flags \<longleftrightarrow> flags AND e \<noteq> 0"
  by (simp add: hasFlag_def bitwise_And_def word_gt_0)

lemma hasFlag_empty [simp]: "\<not> hasFlag e 0"
  by (simp add: hasFlag_iff)

text \<open>The bits of one enumerator against those of another.\<close>

lemma hasFlag_add:
  "hasFlag e (addFlag e' flags) \<longleftrightarrow> e' AND e \<noteq> 0 \<or> hasFlag e flags"
  by (auto simp: hasFlag_iff addFlag_def bitwise_Or_def bit.conj_disj_distrib2 or_eq_0_iff)

lemma hasFlag_remove:
  assumes "e' AND e = 0 \<or> e' = e"
  shows "hasFlag e (removeFlag e' flags) \<longleftrightarrow> e' \<noteq> e \<and> hasFlag e flags"
proof (cases "e' = e")
  case True
  have "(flags AND NOT e) AND e = 0" by (simp add: and.assoc)
  then show ?thesis using True by (simp add: hasFlag_iff removeFlag_def bitwise_Not_def)
next
  case False
  then have "e' AND e = 0" using assms by simp
  then have "bit e n \<Longrightarrow> \<not> bit e' n" for n
    by (metis bit_and_iff bit_0_eq bot_apply bot_bool_def)
  then have "(flags AND NOT e') AND e = flags AND e"
    by (intro bit_word_eqI) (auto simp: bit_simps)
  then show ?thesis using False by (simp add: hasFlag_iff removeFlag_def bitwise_Not_def)
qed

text \<open>
  The flags of a log format are independent of each other, and so are the logging flags:
  adding or removing one changes whether that one is there and nothing else.
\<close>

lemma flags_independent:
  "(hasFlag (format_flag f) (addFlag (format_flag g) s) \<longleftrightarrow> f = g \<or> hasFlag (format_flag f) s) \<and>
   (hasFlag (format_flag f) (removeFlag (format_flag g) s) \<longleftrightarrow> f \<noteq> g \<and> hasFlag (format_flag f) s) \<and>
   (hasFlag (logging_flag h) (addFlag (logging_flag k) s) \<longleftrightarrow> h = k \<or> hasFlag (logging_flag h) s) \<and>
   (hasFlag (logging_flag h) (removeFlag (logging_flag k) s) \<longleftrightarrow> h \<noteq> k \<and> hasFlag (logging_flag h) s)"
proof -
  have inj: "format_flag g = format_flag f \<longleftrightarrow> f = g" "logging_flag k = logging_flag h \<longleftrightarrow> h = k"
    using format_flag_disjoint [of f g] logging_flag_disjoint [of h k]
    by (auto simp: flag_nonzero split: if_splits)
  show ?thesis
    by (subst hasFlag_remove hasFlag_add;
        auto simp: hasFlag_add hasFlag_remove inj format_flag_disjoint logging_flag_disjoint)
qed

text \<open>
  A loop over an enumeration ends, whatever its body does: it goes through the values from the
  start by doubling, and the index cannot wrap to 0 before it exceeds the last valid value.
\<close>

lemma for_each_returns:
  assumes "startIndex \<noteq> 0" and "startIndex < 0x8000" and "lIndexMax < 0x8000"
  shows "\<exists>r. while_option (\<lambda>(i, stop, s). \<not> stop \<and> i \<le> lIndexMax) (for_each_step fn)
    (for_each_step fn (startIndex, False, s)) = Some r"
proof (rule measure_while_option_Some [where P = "\<lambda>(i, stop, s). i \<noteq> 0" and
    f = "\<lambda>(i, stop, s). if stop \<or> lIndexMax < i then 0 else 2 ^ 16 - unat i"])
  have double: "push_bit 1 i \<noteq> 0 \<and> unat (push_bit 1 i) = 2 * unat i \<and> unat i < 2 ^ 15 \<and> 0 < unat i"
    if "i \<noteq> 0" "i < 0x8000" for i :: EnumType
  proof -
    have "unat i < 2 ^ 15" using that(2) by (simp add: word_less_nat_alt)
    then have "unat (push_bit 1 i) = 2 * unat i"
      by (simp add: push_bit_eq_mult unat_word_ariths)
    moreover have "0 < unat i" using that(1) by (simp add: unat_gt_0)
    ultimately show ?thesis using \<open>unat i < 2 ^ 15\<close> by (metis mult_is_0 unat_0 zero_neq_numeral less_numeral_extra(3))
  qed
  show "case for_each_step fn (startIndex, False, s) of (i, stop, s) \<Rightarrow> i \<noteq> 0"
    using double [OF assms(1,2)] assms(1) by (auto simp: for_each_step_def split: prod.split)
  fix t :: "EnumType \<times> bool \<times> 'a"
  assume t: "case t of (i, stop, s) \<Rightarrow> i \<noteq> 0" "case t of (i, stop, s) \<Rightarrow> \<not> stop \<and> i \<le> lIndexMax"
  obtain i s where i: "t = (i, False, s)" "i \<noteq> 0" "i \<le> lIndexMax" using t by (cases t) auto
  have "i < 0x8000" using i(3) assms(3) by (rule order.strict_trans1)
  note d = double [OF i(2) this]
  show "(case for_each_step fn t of (i, stop, s) \<Rightarrow> i \<noteq> 0) \<and>
    (case for_each_step fn t of (i, stop, s) \<Rightarrow> if stop \<or> lIndexMax < i then 0 else 2 ^ 16 - unat i)
    < (case t of (i, stop, s) \<Rightarrow> if stop \<or> lIndexMax < i then 0 else 2 ^ 16 - unat i)"
    using i d by (auto simp: for_each_step_def split: prod.split)
qed

lemma for_each_returns_witness:
  "\<exists>r. while_option (\<lambda>(i, stop, s). \<not> stop \<and> i \<le> level_kMaxValid)
     (for_each_step (\<lambda>i s. (False, i # s))) (for_each_step (\<lambda>i s. (False, i # s)) (level_kMinValid, False, [])) =
     Some r"
  by (rule for_each_returns) (simp_all add: level_kMinValid_def level_kMaxValid_def)

end
