(* ===== verification/Elpp_Str.thy ===== *)
theory Elpp_Str
  imports Barn_Prelude
begin

text \<open>
  The string and file-name utilities of \<^verbatim>\<open>easylogging++.h\<close> (\<open>base::utils::Str\<close> and
  \<open>base::utils::File\<close>). A \<open>std::size_t\<close> that may be \<open>npos\<close> is a \<open>nat option\<close>. Strings passed as
  \<open>const char*\<close> are the characters before the terminator.
\<close>

section \<open>Characters and searching\<close>

definition isDigit :: "char \<Rightarrow> bool" where
  "isDigit c \<longleftrightarrow> CHR ''0'' \<le> c \<and> c \<le> CHR ''9''"

text \<open>\<open>std::string::find\<close> from a position on; \<open>find_last_of\<close> a single character.\<close>

definition find_from :: "string \<Rightarrow> string \<Rightarrow> nat \<Rightarrow> nat option" where
  "find_from str what pos =
     find (\<lambda>i. take (length what) (drop i str) = what) [pos..<Suc (length str - length what)]"

definition find_last_of :: "string \<Rightarrow> char \<Rightarrow> nat option" where
  "find_last_of str c = find (\<lambda>i. str ! i = c) (rev [0..<length str])"

text \<open>\<open>find(what, found + 1)\<close>, where \<open>found\<close> may be \<open>npos\<close> and the sum then 0.\<close>

definition after :: "nat option \<Rightarrow> nat" where
  "after found = (case found of None \<Rightarrow> 0 | Some i \<Rightarrow> Suc i)"

section \<open>Wildcards\<close>

fun wildCardMatch :: "string \<Rightarrow> string \<Rightarrow> bool" where
  "wildCardMatch str [] = (str = [])"
| "wildCardMatch str (p # pattern) =
     (if p = CHR ''?''
      then (case str of [] \<Rightarrow> False | c # str' \<Rightarrow> wildCardMatch str' pattern)
      else if p = CHR ''*''
      then (if wildCardMatch str pattern then True
            else case str of [] \<Rightarrow> False | c # str' \<Rightarrow> wildCardMatch str' (p # pattern))
      else (case str of [] \<Rightarrow> False | c # str' \<Rightarrow> c = p \<and> wildCardMatch str' pattern))"

text \<open>What a pattern stands for, independently of how it is matched.\<close>

fun pattern_language :: "string \<Rightarrow> string set" where
  "pattern_language [] = {[]}"
| "pattern_language (p # pattern) =
     (if p = CHR ''?'' then {c # s | c s. s \<in> pattern_language pattern}
      else if p = CHR ''*'' then {r @ s | r s. s \<in> pattern_language pattern}
      else {p # s | s. s \<in> pattern_language pattern})"

section \<open>Trimming, case, comparison\<close>

definition ltrim :: "string \<Rightarrow> string" where
  "ltrim str = dropWhile is_space str"

definition rtrim :: "string \<Rightarrow> string" where
  "rtrim str = rev (dropWhile is_space (rev str))"

definition trim :: "string \<Rightarrow> string" where
  "trim str = ltrim (rtrim str)"

definition startsWith :: "string \<Rightarrow> string \<Rightarrow> bool" where
  "startsWith str start \<longleftrightarrow> length str \<ge> length start \<and> take (length start) str = start"

definition endsWith :: "string \<Rightarrow> string \<Rightarrow> bool" where
  "endsWith str end' \<longleftrightarrow>
     length str \<ge> length end' \<and> take (length end') (drop (length str - length end') str) = end'"

text \<open>\<open>toupper\<close> in the C locale.\<close>

definition char_upper :: "char \<Rightarrow> char" where
  "char_upper c = (if CHR ''a'' \<le> c \<and> c \<le> CHR ''z'' then char_of (of_char c - 32 :: nat) else c)"

definition toUpper :: "string \<Rightarrow> string" where
  "toUpper str = map char_upper str"

definition cStringEq :: "string option \<Rightarrow> string option \<Rightarrow> bool" where
  "cStringEq s1 s2 =
     (if s1 = None \<and> s2 = None then True
      else if s1 = None \<or> s2 = None then False
      else the s1 = the s2)"

fun case_eq_loop :: "string \<Rightarrow> string \<Rightarrow> bool" where
  "case_eq_loop (c1 # s1) (c2 # s2) =
     (if char_upper c1 \<noteq> char_upper c2 then False else case_eq_loop s1 s2)"
| "case_eq_loop _ _ = True"

definition cStringCaseEq :: "string option \<Rightarrow> string option \<Rightarrow> bool" where
  "cStringCaseEq s1 s2 =
     (if s1 = None \<and> s2 = None then True
      else if s1 = None \<or> s2 = None then False
      else if length (the s1) \<noteq> length (the s2) then False
      else case_eq_loop (the s1) (the s2))"

fun str_contains :: "string \<Rightarrow> char \<Rightarrow> bool" where
  "str_contains [] c = False"
| "str_contains (x # str) c = (if x = c then True else str_contains str c)"

section \<open>Numbers\<close>

text \<open>
  \<open>atoi\<close>: blanks, a sign, digits. The value is undefined, and \<open>None\<close> here, if it does not fit.
\<close>

definition decimal_value :: "string \<Rightarrow> int" where
  "decimal_value s = foldl (\<lambda>v c. 10 * v + (of_char c - 48)) 0 (takeWhile isDigit s)"

definition atoi :: "string \<Rightarrow> int option" where
  "atoi s =
     (let t = dropWhile is_space s;
          v = (case t of
                 [] \<Rightarrow> 0
               | c # t' \<Rightarrow> if c = CHR ''-'' then - decimal_value t'
                           else if c = CHR ''+'' then decimal_value t' else decimal_value t)
      in if - (2 ^ 31) \<le> v \<and> v < 2 ^ 31 then Some v else None)"

text \<open>\<open>atol\<close> of digits, in 64 bits; the GNU library gives the largest number if the value does not fit.\<close>

definition atol_digits :: "string \<Rightarrow> nat" where
  "atol_digits s = nat (min (decimal_value s) (2 ^ 63 - 1))"

section \<open>Replacing\<close>

definition replaceAll_char :: "string \<Rightarrow> char \<Rightarrow> char \<Rightarrow> string" where
  "replaceAll_char str replaceWhat replaceWith =
     map (\<lambda>c. if c = replaceWhat then replaceWith else c) str"

text \<open>\<open>str.replace(at, length, with)\<close>.\<close>

definition str_replace :: "string \<Rightarrow> nat \<Rightarrow> nat \<Rightarrow> string \<Rightarrow> string" where
  "str_replace str at len replaceWith = take at str @ replaceWith @ drop (at + len) str"

text \<open>
  The loop goes on one character after the start of what it has put in, not after its end, so
  it may find what it put in again and not end: its value is then \<open>None\<close>.
\<close>

partial_function (option) replaceAll_loop ::
  "string \<Rightarrow> string \<Rightarrow> string \<Rightarrow> nat option \<Rightarrow> string option" where
  "replaceAll_loop str replaceWhat replaceWith foundAt =
     (case find_from str replaceWhat (after foundAt) of
        None \<Rightarrow> Some str
      | Some i \<Rightarrow>
          replaceAll_loop (str_replace str i (length replaceWhat) replaceWith) replaceWhat replaceWith
            (Some i))"

definition replaceAll :: "string \<Rightarrow> string \<Rightarrow> string \<Rightarrow> string option" where
  "replaceAll str replaceWhat replaceWith =
     (if replaceWhat = replaceWith then Some str
      else replaceAll_loop str replaceWhat replaceWith None)"

definition kFormatSpecifierChar :: char where
  "kFormatSpecifierChar = CHR ''%''"

lemma find_append: "find p (xs @ ys) = (case find p xs of None \<Rightarrow> find p ys | Some x \<Rightarrow> Some x)"
  by (induction xs) auto

lemma find_SomeD: "find P xs = Some x \<Longrightarrow> P x"
  by (auto simp: find_Some_iff)

lemma find_upt_Some:
  "find P [a..<b] = Some i \<longleftrightarrow> a \<le> i \<and> i < b \<and> P i \<and> (\<forall>j. a \<le> j \<and> j < i \<longrightarrow> \<not> P j)"
proof (induction "b - a" arbitrary: a)
  case 0
  then show ?case by auto
next
  case (Suc n)
  then have "[a..<b] = a # [Suc a..<b]" by (simp add: upt_conv_Cons)
  moreover have "(\<forall>j. a \<le> j \<and> j < i \<longrightarrow> \<not> P j) \<longleftrightarrow> (a < i \<longrightarrow> \<not> P a) \<and> (\<forall>j. Suc a \<le> j \<and> j < i \<longrightarrow> \<not> P j)"
    by (metis Suc_le_eq order_le_less)
  ultimately show ?case using Suc by (auto simp: Suc_le_eq order_le_less)
qed

lemma find_upt_None: "find P [a..<b] = None \<longleftrightarrow> (\<forall>i. a \<le> i \<and> i < b \<longrightarrow> \<not> P i)"
  by (auto simp: find_None_iff)

text \<open>Where a string occurs in another.\<close>

definition occurs_at :: "string \<Rightarrow> string \<Rightarrow> nat \<Rightarrow> bool" where
  "occurs_at str what i \<longleftrightarrow> i \<le> length str \<and> prefix what (drop i str)"

lemma take_eq_prefix: "take (length what) s = what \<longleftrightarrow> prefix what s"
  by (metis append_take_drop_id prefixI prefix_def append_eq_conv_conj)

lemma occurs_at_length: "occurs_at str what i \<Longrightarrow> i + length what \<le> length str"
  using prefix_length_le by (fastforce simp: occurs_at_def)

lemma find_from_Some:
  "find_from str what pos = Some i \<longleftrightarrow>
     pos \<le> i \<and> occurs_at str what i \<and> (\<forall>j. pos \<le> j \<and> j < i \<longrightarrow> \<not> occurs_at str what j)"
proof -
  have "i < Suc (length str - length what) \<and> prefix what (drop i str) \<longleftrightarrow> occurs_at str what i" for i
    using occurs_at_length [of str what i] prefix_length_le [of what "drop i str"]
    by (auto simp: occurs_at_def)
  moreover have "j < i \<and> i < Suc (length str - length what) \<Longrightarrow>
      occurs_at str what j \<longleftrightarrow> prefix what (drop j str)" for j
    by (auto simp: occurs_at_def)
  ultimately show ?thesis
    unfolding find_from_def find_upt_Some take_eq_prefix by blast
qed

lemma find_from_None:
  "find_from str what pos = None \<longleftrightarrow> (\<forall>i. pos \<le> i \<longrightarrow> \<not> occurs_at str what i)"
proof -
  have "occurs_at str what i \<Longrightarrow> i < Suc (length str - length what)" for i
    using occurs_at_length [of str what i] by simp
  then show ?thesis
    unfolding find_from_def find_upt_None take_eq_prefix
    by (auto simp: occurs_at_def)
qed

text \<open>
  An occurrence after the escape character loses the escape character and is passed over; the
  first other one is replaced.
\<close>

function replaceFirst_loop :: "string \<Rightarrow> string \<Rightarrow> string \<Rightarrow> nat option \<Rightarrow> string" where
  "replaceFirst_loop str replaceWhat replaceWith foundAt =
     (case find_from str replaceWhat (after foundAt) of
        None \<Rightarrow> str
      | Some i \<Rightarrow>
          if i > 0 \<and> str ! (i - 1) = kFormatSpecifierChar
          then replaceFirst_loop (str_replace str (i - 1) 1 []) replaceWhat replaceWith (Some (i + 1))
          else str_replace str i (length replaceWhat) replaceWith)"
  by pat_completeness auto
termination
proof (relation "measure (\<lambda>(str, what, repl, foundAt). Suc (length str) - after foundAt)", goal_cases)
  case (2 str what repl foundAt i)
  then have "after foundAt \<le> i" "i \<le> length str"
    using occurs_at_length [of str what i] by (auto simp: find_from_Some)
  then show ?case using 2 by (simp add: str_replace_def after_def)
qed simp

declare replaceFirst_loop.simps [simp del]

definition replaceFirstWithEscape :: "string \<Rightarrow> string \<Rightarrow> string \<Rightarrow> string" where
  "replaceFirstWithEscape str replaceWhat replaceWith =
     replaceFirst_loop str replaceWhat replaceWith None"


section \<open>Trimming and prefixes\<close>

lemma startsWith_prefix: "startsWith str start \<longleftrightarrow> prefix start str"
  unfolding startsWith_def take_eq_prefix using prefix_length_le by blast

lemma endsWith_suffix: "endsWith str end' \<longleftrightarrow> suffix end' str"
proof
  assume "endsWith str end'"
  then have "drop (length str - length end') str = end'"
    by (simp add: endsWith_def)
  then show "suffix end' str" by (metis suffix_drop)
next
  assume "suffix end' str"
  then show "endsWith str end'" by (auto simp: suffix_def endsWith_def)
qed

lemma trim_inner:
  assumes "s \<noteq> []" "\<not> is_space (hd s)" "\<not> is_space (last s)" "\<forall>c \<in> set l \<union> set r. is_space c"
  shows "trim (l @ s @ r) = s"
proof -
  have d: "dropWhile is_space (x @ y) = y" if "\<forall>c \<in> set x. is_space c" "y \<noteq> []" "\<not> is_space (hd y)" for x y
    using that by (induction x) (auto simp: dropWhile_eq_self_iff)
  have "dropWhile is_space (rev r @ rev s @ rev l) = rev s @ rev l"
    using assms by (intro d) (auto simp: hd_rev)
  moreover have "dropWhile is_space (l @ s) = s" using assms by (intro d) auto
  ultimately show ?thesis by (simp add: trim_def ltrim_def rtrim_def)
qed

lemma trim_id: "s = [] \<or> (\<not> is_space (hd s) \<and> \<not> is_space (last s)) \<Longrightarrow> trim s = s"
  using trim_inner [of s "[]" "[]"] by (cases "s = []") (auto simp: trim_def ltrim_def rtrim_def)

lemma contains_iff: "str_contains str c \<longleftrightarrow> c \<in> set str"
  by (induction str) auto

section \<open>Replacing everything\<close>

text \<open>What replacing every occurrence means: left to right, without overlaps.\<close>

function subst_all :: "string \<Rightarrow> string \<Rightarrow> string \<Rightarrow> string" where
  "subst_all what repl [] = []"
| "subst_all what repl (c # s) =
     (if what \<noteq> [] \<and> prefix what (c # s) then repl @ subst_all what repl (drop (length what) (c # s))
      else c # subst_all what repl s)"
  by pat_completeness auto
termination
  by (relation "measure (\<lambda>(what, repl, s). length s)") auto

lemma occurs_at_append:
  "occurs_at (x @ y) what (length x + i) \<longleftrightarrow> occurs_at y what i"
  by (simp add: occurs_at_def)

lemma occurs_at_hd:
  assumes "occurs_at str what i" and "what \<noteq> []"
  shows "i < length str \<and> str ! i = hd what"
proof -
  have "i + length what \<le> length str" by (rule occurs_at_length [OF assms(1)])
  then have i: "i < length str" using assms(2) by (cases what) auto
  obtain r where "drop i str = what @ r" using assms(1) by (auto simp: occurs_at_def prefix_def)
  then have "hd (drop i str) = hd what" using assms(2) by simp
  then show ?thesis using i by (simp add: hd_drop_conv_nth)
qed

lemma subst_all_skip:
  assumes "what \<noteq> []" and "\<forall>j < length r. \<not> occurs_at (r @ s) what j"
  shows "subst_all what repl (r @ s) = r @ subst_all what repl s"
  using assms(2)
proof (induction r)
  case Nil
  then show ?case by simp
next
  case (Cons c r)
  have "\<not> occurs_at (c # r @ s) what 0" using Cons.prems by force
  moreover have "\<forall>j < length r. \<not> occurs_at (r @ s) what j"
    using Cons.prems by (auto simp: occurs_at_def dest: spec [of _ "Suc _"])
  ultimately show ?case using Cons.IH by (simp add: occurs_at_def)
qed

lemma subst_all_hit:
  assumes "what \<noteq> []"
  shows "subst_all what repl (what @ s) = repl @ subst_all what repl s"
  using assms by (cases what) simp_all

text \<open>
  The invariant of the loop: what was put in holds no start of a further occurrence.
\<close>

lemma replaceAll_loop_subst:
  assumes "what \<noteq> []" "repl \<noteq> []" "hd what \<notin> set repl"
    and "after f \<le> length pre" "\<forall>j. after f \<le> j \<and> j < length pre \<longrightarrow> pre ! j \<noteq> hd what"
  shows "replaceAll_loop (pre @ rest) what repl f = Some (pre @ subst_all what repl rest)"
  using assms(4,5)
proof (induction "length rest" arbitrary: pre rest f rule: less_induct)
  case less
  have none: "\<not> occurs_at (pre @ rest) what j" if "after f \<le> j" "j < length pre" for j
    using that less.prems(2) occurs_at_hd [of "pre @ rest" what j] assms(1) by (auto simp: nth_append)
  show ?case
  proof (cases "find_from (pre @ rest) what (after f)")
    case None
    then have "\<not> occurs_at rest what j" for j
      using less.prems(1) occurs_at_append [of pre rest what j] by (auto simp: find_from_None)
    then have "subst_all what repl (rest @ []) = rest @ subst_all what repl []"
      by (intro subst_all_skip [OF assms(1)]) simp
    then show ?thesis using None by (subst replaceAll_loop.simps) simp
  next
    case (Some i)
    then have i: "after f \<le> i" "occurs_at (pre @ rest) what i"
      "\<forall>j. after f \<le> j \<and> j < i \<longrightarrow> \<not> occurs_at (pre @ rest) what j"
      by (auto simp: find_from_Some)
    then obtain k where k: "i = length pre + k" using none by (metis not_less le_iff_add)
    have occ: "occurs_at rest what k" using i(2) occurs_at_append k by simp
    then obtain r where r: "drop k rest = what @ r" by (auto simp: occurs_at_def prefix_def)
    then have rest: "rest = take k rest @ what @ r" and len: "length (take k rest) = k"
      using occ by (metis append_take_drop_id, simp add: occurs_at_def)
    let ?r = "take k rest"
    have "\<forall>j < k. \<not> occurs_at (?r @ what @ r) what j"
    proof (intro allI impI)
      fix j assume "j < k"
      then have "\<not> occurs_at (pre @ rest) what (length pre + j)"
        using i(3) k less.prems(1) by simp
      then show "\<not> occurs_at (?r @ what @ r) what j" using rest occurs_at_append by metis
    qed
    then have spec: "subst_all what repl rest = ?r @ repl @ subst_all what repl r"
      using subst_all_skip [OF assms(1), of ?r "what @ r"] subst_all_hit [OF assms(1)] rest len by metis
    have new: "str_replace (pre @ rest) i (length what) repl = (pre @ ?r @ repl) @ r"
      using k r len by (simp add: str_replace_def) (metis append_take_drop_id drop_drop add.commute append_eq_conv_conj)
    have "length r < length rest" using rest len assms(1) by (metis length_append length_greater_0_conv less_add_same_cancel2 trans_less_add2 add.commute add_gr_0)
    moreover have "after (Some i) \<le> length (pre @ ?r @ repl)" using k len assms(2) by (cases repl) (auto simp: after_def)
    moreover have "(pre @ ?r @ repl) ! j \<noteq> hd what" if "after (Some i) \<le> j" "j < length (pre @ ?r @ repl)" for j
    proof -
      have "(pre @ ?r @ repl) ! j = repl ! (j - i)"
        using that k len by (auto simp: nth_append after_def)
      moreover have "j - i < length repl" using that k len by (auto simp: after_def)
      ultimately show ?thesis using assms(3) by (metis nth_mem)
    qed
    ultimately have "replaceAll_loop ((pre @ ?r @ repl) @ r) what repl (Some i) =
        Some ((pre @ ?r @ repl) @ subst_all what repl r)"
      using less.hyps [of r "Some i" "pre @ ?r @ repl"] by blast
    then show ?thesis using Some new spec by (subst replaceAll_loop.simps) simp
  qed
qed


text \<open>If what is put in holds what is looked for after its first character, there is no end.\<close>

lemma occurs_at_appendI: "occurs_at (x @ what @ y) what (length x)"
  by (simp add: occurs_at_def)

lemma replaceAll_loop_hangs:
  assumes "repl = d # u @ what @ v" and "after f \<le> i" "occurs_at str what i"
  shows "replaceAll_loop str what repl f = None"
proof (rule ccontr)
  assume "replaceAll_loop str what repl f \<noteq> None"
  then obtain out where "replaceAll_loop str what repl f = Some out" by auto
  then have "\<forall>d u v i. repl = d # u @ what @ v \<longrightarrow> after f \<le> i \<longrightarrow> \<not> occurs_at str what i"
  proof (rule replaceAll_loop.raw_induct [where P = "\<lambda>str what repl f out.
        \<forall>d u v i. repl = d # u @ what @ v \<longrightarrow> after f \<le> i \<longrightarrow> \<not> occurs_at str what i", rotated])
    fix rec str what repl f out
    assume IH: "\<And>str what repl f out. rec str what repl f = Some out \<Longrightarrow>
        \<forall>d u v i. repl = d # u @ what @ v \<longrightarrow> after f \<le> i \<longrightarrow> \<not> occurs_at str what i"
      and step: "(case find_from str what (after f) of None \<Rightarrow> Some str
        | Some i \<Rightarrow> rec (str_replace str i (length what) repl) what repl (Some i)) = Some out"
    show "\<forall>d u v i. repl = d # u @ what @ v \<longrightarrow> after f \<le> i \<longrightarrow> \<not> occurs_at str what i"
    proof (cases "find_from str what (after f)")
      case None
      then show ?thesis by (auto simp: find_from_None)
    next
      case (Some k)
      then have k: "k \<le> length str"
        using occurs_at_length [of str what k] by (auto simp: find_from_Some)
      show ?thesis
      proof (intro allI impI notI)
        fix d u v i
        assume repl: "repl = d # u @ what @ v" and "after f \<le> i" "occurs_at str what i"
        let ?x = "take k str @ d # u"
        have "str_replace str k (length what) repl = ?x @ what @ v @ drop (k + length what) str"
          using repl by (simp add: str_replace_def)
        then have "occurs_at (str_replace str k (length what) repl) what (length ?x)"
          using occurs_at_appendI by metis
        moreover have "after (Some k) \<le> length ?x" using k by (simp add: after_def)
        moreover have "rec (str_replace str k (length what) repl) what repl (Some k) = Some out"
          using step Some by simp
        ultimately show False using IH repl by blast
      qed
    qed
  qed
  then show False using assms by blast
qed

lemma find_from_absent:
  assumes "c \<notin> set s" and "c \<in> set what"
  shows "find_from s what n = None"
  unfolding find_from_None
proof (intro allI impI notI)
  fix i assume "occurs_at s what i"
  then obtain r where "drop i s = what @ r" by (auto simp: occurs_at_def prefix_def)
  then have "c \<in> set (drop i s)" using assms(2) by simp
  then show False using assms(1) by (blast dest: in_set_dropD)
qed

lemma find_from_char:
  assumes "c \<notin> set s"
  shows "find_from (s @ c # r) [c] 0 = Some (length s)"
  unfolding find_from_Some
proof (intro conjI allI impI)
  show "occurs_at (s @ c # r) [c] (length s)" by (simp add: occurs_at_def)
  fix j assume "0 \<le> j \<and> j < length s"
  then show "\<not> occurs_at (s @ c # r) [c] j"
    using assms by (auto dest!: occurs_at_hd simp: nth_append)
qed simp

lemma find_from_first:
  "find_from s [c] 0 = (if c \<in> set s then Some (length (takeWhile (\<lambda>x. x \<noteq> c) s)) else None)"
proof (cases "c \<in> set s")
  case True
  then obtain x y where s: "s = x @ c # y" "c \<notin> set x" by (metis split_list_first)
  then have "takeWhile (\<lambda>x. x \<noteq> c) s = x" by (auto simp: takeWhile_append takeWhile_eq_all_conv)
  then show ?thesis using True s(2) find_from_char [of c x y] by (simp add: s(1))
next
  case False
  then show ?thesis by (simp add: find_from_absent)
qed

section \<open>Replacing the first\<close>

lemma replaceFirst_none:
  assumes "\<forall>i. \<not> occurs_at str what i"
  shows "replaceFirstWithEscape str what repl = str"
  using assms
  by (simp add: replaceFirstWithEscape_def replaceFirst_loop.simps find_from_None [THEN iffD2])

lemma replaceFirst_found:
  assumes "\<forall>j < length x. \<not> occurs_at (x @ what @ y) what j"
    and "x = [] \<or> last x \<noteq> kFormatSpecifierChar"
  shows "replaceFirstWithEscape (x @ what @ y) what repl = x @ repl @ y"
proof -
  have "find_from (x @ what @ y) what 0 = Some (length x)"
    using assms(1) occurs_at_appendI by (simp add: find_from_Some)
  moreover have "\<not> (0 < length x \<and> (x @ what @ y) ! (length x - 1) = kFormatSpecifierChar)"
    using assms(2) by (auto simp: nth_append last_conv_nth)
  ultimately show ?thesis
    by (auto simp: replaceFirstWithEscape_def replaceFirst_loop.simps [of _ _ _ None] after_def str_replace_def)
qed

section \<open>File names\<close>

definition kFilePathSeperator :: char where "kFilePathSeperator = CHR ''/''"

definition kSourceFilenameMaxLength :: nat where "kSourceFilenameMaxLength = 100"

definition extractPathFromFilename :: "string \<Rightarrow> string" where
  "extractPathFromFilename fullPath =
     (if fullPath = '''' \<or> find_from fullPath [kFilePathSeperator] 0 = None then fullPath
      else case find_last_of fullPath kFilePathSeperator of
          None \<Rightarrow> fullPath
        | Some lastSlashAt \<Rightarrow>
            if lastSlashAt = 0 then [kFilePathSeperator] else take (lastSlashAt + 1) fullPath)"

text \<open>
  Cutting a name from the left so that it fits the limit, with two dots in front; \<open>buff\<close> is
  what the buffer holds before. The test looks at the first two characters of what is kept.
\<close>

definition strip_to_limit :: "string \<Rightarrow> string \<Rightarrow> nat \<Rightarrow> string" where
  "strip_to_limit filename buff limit =
     (let sizeOfFilename = length filename in
      if sizeOfFilename \<ge> limit
      then let cut = drop (sizeOfFilename - limit) filename in
        if cut ! 0 \<noteq> CHR ''.'' \<and> cut ! 1 \<noteq> CHR ''.'' then buff @ ''..'' @ drop 3 cut
        else buff @ cut
      else buff @ filename)"

definition buildStrippedFilename :: "string \<Rightarrow> string \<Rightarrow> nat \<Rightarrow> string" where
  "buildStrippedFilename filename buff limit = strip_to_limit filename buff limit"

definition buildBaseFilename :: "string \<Rightarrow> string \<Rightarrow> nat \<Rightarrow> string" where
  "buildBaseFilename fullPath buff limit =
     (let lastSlashAt = find_last_of fullPath kFilePathSeperator;
          filename = (if lastSlashAt = Some 0 then fullPath else drop (after lastSlashAt) fullPath)
      in strip_to_limit filename buff limit)"


lemma strip_to_limit_length:
  assumes "3 \<le> limit"
  shows "length (strip_to_limit filename [] limit) \<le> limit"
  using assms by (auto simp: strip_to_limit_def Let_def)

lemma strip_to_limit_suffix:
  "\<exists>p \<in> {[], ''..''}. \<exists>s. suffix s filename \<and> strip_to_limit filename [] limit = p @ s"
proof -
  let ?n = "length filename - limit"
  have "strip_to_limit filename [] limit = [] @ filename \<or>
      strip_to_limit filename [] limit = ''..'' @ drop (3 + ?n) filename \<or>
      strip_to_limit filename [] limit = [] @ drop ?n filename"
    by (simp add: strip_to_limit_def Let_def)
  then show ?thesis using suffix_drop [of _ filename] by (elim disjE) blast+
qed

section \<open>Matching\<close>

lemma wildCardMatch_iff:
  "wildCardMatch str pattern \<longleftrightarrow> str \<in> pattern_language pattern"
proof (induction str pattern rule: wildCardMatch.induct)
  case (1 str)
  then show ?case by simp
next
  case (2 str p pattern)
  consider "p = CHR ''?''" | "p = CHR ''*''" | "p \<noteq> CHR ''?''" "p \<noteq> CHR ''*''" by blast
  then show ?case
  proof cases
    case 1
    then show ?thesis using "2.IH"(1) by (auto split: list.splits)
  next
    case star: 2
    have "str \<in> pattern_language (p # pattern) \<longleftrightarrow> str \<in> pattern_language pattern \<or>
        (\<exists>c str'. str = c # str' \<and> str' \<in> pattern_language (p # pattern))"
    proof
      assume "str \<in> pattern_language (p # pattern)"
      then obtain r s where "str = r @ s" "s \<in> pattern_language pattern" using star by auto
      then show "str \<in> pattern_language pattern \<or>
          (\<exists>c str'. str = c # str' \<and> str' \<in> pattern_language (p # pattern))"
        using star by (cases r) auto
    next
      assume "str \<in> pattern_language pattern \<or>
          (\<exists>c str'. str = c # str' \<and> str' \<in> pattern_language (p # pattern))"
      then show "str \<in> pattern_language (p # pattern)"
        using star by simp (metis append_Cons append_Nil)
    qed
    then show ?thesis using star "2.IH"(2,3) by (cases str) auto
  next
    case 3
    then show ?thesis using "2.IH"(4) by (auto split: list.splits)
  qed
qed

section \<open>Properties\<close>

text \<open>
  C33: matching decides the language of the pattern: \<open>?\<close> is any one character, \<open>*\<close> any string,
  and every other character itself.
\<close>

theorem wildCardMatch_language:
  "wildCardMatch str pattern \<longleftrightarrow> str \<in> pattern_language pattern"
  by (rule wildCardMatch_iff)

text \<open>
  C34: \<open>replaceAll\<close> ends, and has replaced every occurrence, if the replacement is not empty and
  does not hold the first character of what is replaced.
\<close>

theorem replaceAll_terminates:
  assumes "what \<noteq> []" and "repl \<noteq> []" and "hd what \<notin> set repl"
  shows "replaceAll str what repl = Some (subst_all what repl str)"
proof -
  have "what \<noteq> repl" using assms by (cases what) auto
  then show ?thesis
    using replaceAll_loop_subst [OF assms, of None "[]" str]
    by (simp add: replaceAll_def after_def)
qed

theorem replaceAll_terminates_witness:
  "replaceAll ''logs/%datetime-%datetime.log'' ''%datetime'' ''03-11-2014'' =
    Some ''logs/03-11-2014-03-11-2014.log''"
proof -
  have "replaceAll ''logs/%datetime-%datetime.log'' ''%datetime'' ''03-11-2014'' =
      Some (subst_all ''%datetime'' ''03-11-2014'' ''logs/%datetime-%datetime.log'')"
    by (rule replaceAll_terminates) simp_all
  also have "\<dots> = Some ''logs/03-11-2014-03-11-2014.log''" by code_simp
  finally show ?thesis .
qed

text \<open>
  \<open>replaceAll\<close> does not return if what is replaced occurs, and occurs again in the replacement
  after its first character.
\<close>

lemma replaceAll_hangs:
  assumes "repl = d # u @ what @ v" and "str = x @ what @ y"
  shows "replaceAll str what repl = None"
proof -
  have "what \<noteq> repl" using arg_cong [OF assms(1), of length] by auto
  then show ?thesis
    using replaceAll_loop_hangs [OF assms(1), of None "length x" str] assms(2) occurs_at_appendI
    by (simp add: replaceAll_def after_def)
qed

lemma replaceAll_hangs_witness: "replaceAll ''%datetime.log'' ''%datetime'' ''1%datetime'' = None"
  by (rule replaceAll_hangs [where x = "[]" and y = "''.log''" and d = "CHR ''1''" and u = "[]" and v = "[]"]) simp_all

text \<open>
  A source file name in a log line has at most as many characters as the limit, and but for two
  leading dots is an end of the name.
\<close>

lemma stripped_name_bounds:
  assumes "3 \<le> limit"
  shows "length (buildStrippedFilename filename [] limit) \<le> limit \<and>
    (\<exists>p \<in> {[], ''..''}. \<exists>s. suffix s filename \<and> buildStrippedFilename filename [] limit = p @ s)"
  using strip_to_limit_length [OF assms] strip_to_limit_suffix [of filename limit]
  unfolding buildStrippedFilename_def by blast

lemma stripped_name_bounds_witness:
  "length (buildStrippedFilename (replicate 200 CHR ''a'') [] 100) \<le> 100"
  using stripped_name_bounds [of 100 "replicate 200 CHR ''a''"] by simp

end
