(* ===== verification/Elpp_Configurations.thy ===== *)
theory Elpp_Configurations
  imports Elpp_Enums Elpp_Str
begin

text \<open>
  The configurations of a logger in \<^verbatim>\<open>easylogging++.h\<close>: a registry of values by level and
  type (\<open>Configurations\<close> over \<open>RegistryWithPred\<close>), its defaults, and the parser for
  configuration files. The registry owns its entries, so that a list of values models the vector
  of pointers. Messages to the standard error stream are left out.
\<close>

section \<open>Registry\<close>

record Configuration =
  conf_level :: Level
  conf_type :: ConfigurationType
  conf_value :: string

record Configurations =
  conf_list :: "Configuration list"
  configurationFile :: string
  isFromFile :: bool

definition new_Configurations :: Configurations where
  "new_Configurations = \<lparr>conf_list = [], configurationFile = [], isFromFile = False\<rparr>"

definition conf_predicate :: "Level \<Rightarrow> ConfigurationType \<Rightarrow> Configuration \<Rightarrow> bool" where
  "conf_predicate level configurationType conf \<longleftrightarrow>
     conf_level conf = level \<and> conf_type conf = configurationType"

definition conf_get :: "Level \<Rightarrow> ConfigurationType \<Rightarrow> Configurations \<Rightarrow> Configuration option" where
  "conf_get level configurationType cs = find (conf_predicate level configurationType) (conf_list cs)"

text \<open>\<open>conf->setValue(value)\<close> on the entry that \<open>get\<close> finds.\<close>

fun set_first :: "(Configuration \<Rightarrow> bool) \<Rightarrow> string \<Rightarrow> Configuration list \<Rightarrow> Configuration list" where
  "set_first p val [] = []"
| "set_first p val (c # cs) =
     (if p c then c\<lparr>conf_value := val\<rparr> # cs else c # set_first p val cs)"

text \<open>
  \<open>unsafeSet\<close> and \<open>unsafeSetGlobally\<close> call each other. The loop of the second never reaches
  the level \<open>Global\<close>, where the first would call it again; \<open>unsafeSet_entry\<close> is the first up
  to that point. \<open>unsafeSetGlobally_loop\<close> below is the loop as it is written.
\<close>

definition unsafeSet_entry ::
  "Level \<Rightarrow> ConfigurationType \<Rightarrow> string \<Rightarrow> Configurations \<Rightarrow> Configurations" where
  "unsafeSet_entry level configurationType val cs =
     (case conf_get level configurationType cs of
        None \<Rightarrow> cs\<lparr>conf_list := conf_list cs @
                  [\<lparr>conf_level = level, conf_type = configurationType, conf_value = val\<rparr>]\<rparr>
      | Some conf \<Rightarrow> cs\<lparr>conf_list := set_first (conf_predicate level configurationType) val (conf_list cs)\<rparr>)"

definition unsafeSet ::
  "Level \<Rightarrow> ConfigurationType \<Rightarrow> string \<Rightarrow> Configurations \<Rightarrow> Configurations" where
  "unsafeSet level configurationType val cs =
     (let cs' = unsafeSet_entry level configurationType val cs in
      if level = Level_Global
      then forEachLevel level_kMinValid
             (\<lambda>lIndex c. (False, unsafeSet_entry (level_castFromInt lIndex) configurationType val c)) cs'
      else cs')"

definition unsafeSetGlobally ::
  "ConfigurationType \<Rightarrow> string \<Rightarrow> bool \<Rightarrow> Configurations \<Rightarrow> Configurations" where
  "unsafeSetGlobally configurationType val includeGlobalLevel cs =
     forEachLevel level_kMinValid
       (\<lambda>lIndex c. (False, unsafeSet (level_castFromInt lIndex) configurationType val c))
       (if includeGlobalLevel then unsafeSet Level_Global configurationType val cs else cs)"

definition unsafeSetIfNotExist ::
  "Level \<Rightarrow> ConfigurationType \<Rightarrow> string \<Rightarrow> Configurations \<Rightarrow> Configurations" where
  "unsafeSetIfNotExist level configurationType val cs =
     (if conf_get level configurationType cs = None
      then unsafeSet level configurationType val cs else cs)"

definition conf_set ::
  "Level \<Rightarrow> ConfigurationType \<Rightarrow> string \<Rightarrow> Configurations \<Rightarrow> Configurations" where
  "conf_set level configurationType val cs =
     (let cs' = unsafeSet level configurationType val cs in
      if level = Level_Global then unsafeSetGlobally configurationType val False cs' else cs')"

definition setGlobally ::
  "ConfigurationType \<Rightarrow> string \<Rightarrow> bool \<Rightarrow> Configurations \<Rightarrow> Configurations" where
  "setGlobally configurationType val includeGlobalLevel cs =
     forEachLevel level_kMinValid
       (\<lambda>lIndex c. (False, conf_set (level_castFromInt lIndex) configurationType val c))
       (if includeGlobalLevel then conf_set Level_Global configurationType val cs else cs)"

definition hasConfiguration_at :: "Level \<Rightarrow> ConfigurationType \<Rightarrow> Configurations \<Rightarrow> bool" where
  "hasConfiguration_at level configurationType cs \<longleftrightarrow> conf_get level configurationType cs \<noteq> None"

definition hasConfiguration :: "ConfigurationType \<Rightarrow> Configurations \<Rightarrow> bool" where
  "hasConfiguration configurationType cs =
     forEachLevel level_kMinValid
       (\<lambda>lIndex result.
          let result' = (if hasConfiguration_at (level_castFromInt lIndex) configurationType cs
                         then True else result)
          in (result', result')) False"

text \<open>\<open>None\<close> stands for a null pointer and for a pointer to the object itself.\<close>

definition setFromBase :: "Configurations option \<Rightarrow> Configurations \<Rightarrow> Configurations" where
  "setFromBase base cs =
     (case base of
        None \<Rightarrow> cs
      | Some b \<Rightarrow> fold (\<lambda>conf. conf_set (conf_level conf) (conf_type conf) (conf_value conf))
                    (conf_list b) cs)"

section \<open>Defaults\<close>

definition kDefaultLogFile :: string where "kDefaultLogFile = ''logs/myeasylog.log''"

definition setToDefault :: "Configurations \<Rightarrow> Configurations" where
  "setToDefault cs0 =
     (let cs1 = setGlobally CT_Enabled ''true'' True cs0;
          cs2 = setGlobally CT_Filename kDefaultLogFile True cs1;
          cs3 = setGlobally CT_ToFile ''true'' True cs2;
          cs4 = setGlobally CT_ToStandardOutput ''true'' True cs3;
          cs5 = setGlobally CT_MillisecondsWidth ''3'' True cs4;
          cs6 = setGlobally CT_PerformanceTracking ''true'' True cs5;
          cs7 = setGlobally CT_MaxLogFileSize ''0'' True cs6;
          cs8 = setGlobally CT_LogFlushThreshold ''0'' True cs7;
          cs9 = setGlobally CT_Format ''%datetime %level [%logger] %msg'' True cs8;
          cs10 = conf_set Level_Debug CT_Format
                   ''%datetime %level [%logger] [%user@%host] [%func] [%loc] %msg'' cs9;
          cs11 = conf_set Level_Error CT_Format ''%datetime %level [%logger] %msg'' cs10;
          cs12 = conf_set Level_Fatal CT_Format ''%datetime %level [%logger] %msg'' cs11;
          cs13 = conf_set Level_Verbose CT_Format ''%datetime %level-%vlevel [%logger] %msg'' cs12
      in conf_set Level_Trace CT_Format ''%datetime %level [%logger] [%func] [%loc] %msg'' cs13)"

definition setRemainingToDefault :: "Configurations \<Rightarrow> Configurations" where
  "setRemainingToDefault cs0 =
     (let cs1 = unsafeSetIfNotExist Level_Global CT_Enabled ''true'' cs0;
          cs2 = unsafeSetIfNotExist Level_Global CT_Filename kDefaultLogFile cs1;
          cs3 = unsafeSetIfNotExist Level_Global CT_ToFile ''true'' cs2;
          cs4 = unsafeSetIfNotExist Level_Global CT_ToStandardOutput ''true'' cs3;
          cs5 = unsafeSetIfNotExist Level_Global CT_MillisecondsWidth ''3'' cs4;
          cs6 = unsafeSetIfNotExist Level_Global CT_PerformanceTracking ''true'' cs5;
          cs7 = unsafeSetIfNotExist Level_Global CT_MaxLogFileSize ''0'' cs6;
          cs8 = unsafeSetIfNotExist Level_Global CT_Format ''%datetime %level [%logger] %msg'' cs7;
          cs9 = unsafeSetIfNotExist Level_Debug CT_Format
                  ''%datetime %level [%logger] [%user@%host] [%func] [%loc] %msg'' cs8;
          cs10 = unsafeSetIfNotExist Level_Error CT_Format ''%datetime %level [%logger] %msg'' cs9;
          cs11 = unsafeSetIfNotExist Level_Fatal CT_Format ''%datetime %level [%logger] %msg'' cs10;
          cs12 = unsafeSetIfNotExist Level_Verbose CT_Format
                   ''%datetime %level-%vlevel [%logger] %msg'' cs11
      in unsafeSetIfNotExist Level_Trace CT_Format
           ''%datetime %level [%logger] [%func] [%loc] %msg'' cs12)"

section \<open>The parser\<close>

definition DQUOTE :: string where "DQUOTE = [CHR 0x22]"
definition BACKSLASH :: char where "BACKSLASH = CHR 0x5C"
definition kConfigurationComment :: string where "kConfigurationComment = ''##''"
definition kConfigurationLevel :: string where "kConfigurationLevel = ''*''"

text \<open>The end of the quotes, past those behind a backslash; the search goes on two further.\<close>

function quotes_end :: "string \<Rightarrow> nat option \<Rightarrow> nat option" where
  "quotes_end line quotesEnd =
     (case quotesEnd of
        None \<Rightarrow> None
      | Some q \<Rightarrow> if line ! (q - 1) = BACKSLASH then quotes_end line (find_from line DQUOTE (q + 2))
                  else Some q)"
  by pat_completeness auto
termination
proof (relation "measure (\<lambda>(line, quotesEnd).
    case quotesEnd of None \<Rightarrow> 0 | Some q \<Rightarrow> Suc (Suc (length line) - q))", goal_cases)
  case (2 line quotesEnd q)
  then show ?case
    using occurs_at_length [of line DQUOTE]
    by (fastforce simp: find_from_Some split: option.splits)
qed simp

declare quotes_end.simps [simp del]

definition ignoreComments :: "string \<Rightarrow> string" where
  "ignoreComments line =
     (let quotesStart = find_from line DQUOTE 0;
          quotesEnd = (case quotesStart of
              None \<Rightarrow> None
            | Some qs \<Rightarrow> quotes_end line (find_from line DQUOTE (qs + 1)))
      in case find_from line kConfigurationComment 0 of
           None \<Rightarrow> line
         | Some foundAt \<Rightarrow>
             let foundAt' = (if quotesEnd = None \<or> foundAt < the quotesEnd
                             then find_from line kConfigurationComment (after quotesEnd)
                             else Some foundAt)
             in case foundAt' of None \<Rightarrow> line | Some n \<Rightarrow> take n line)"


definition isLevel :: "string \<Rightarrow> bool" where
  "isLevel line = startsWith line kConfigurationLevel"

definition isComment :: "string \<Rightarrow> bool" where
  "isComment line = startsWith line kConfigurationComment"

text \<open>The test of the first character holds of every character.\<close>

definition isConfig :: "string \<Rightarrow> bool" where
  "isConfig line \<longleftrightarrow>
     (let assignment = find_from line ''='' 0; c = (of_char (line ! 0) :: int) in
      line \<noteq> '''' \<and> (c \<ge> 65 \<or> c \<le> 90 \<or> c \<ge> 97 \<or> c \<le> 122) \<and> assignment \<noteq> None \<and>
      length line > the assignment)"

text \<open>
  The value loses the backslash of every quote behind one; the end of the quotes is the position
  of the next quote, again looked for two characters further on.
\<close>

function unescape_quotes :: "string \<Rightarrow> nat option \<Rightarrow> string \<times> nat option" where
  "unescape_quotes val quotesEnd =
     (case quotesEnd of
        None \<Rightarrow> (val, None)
      | Some q \<Rightarrow>
          if val ! (q - 1) = BACKSLASH
          then let val' = str_replace val (q - 1) 1 [] in unescape_quotes val' (find_from val' DQUOTE (q + 2))
          else (val, Some q))"
  by pat_completeness auto
termination
proof (relation "measure (\<lambda>(line, quotesEnd).
    case quotesEnd of None \<Rightarrow> 0 | Some q \<Rightarrow> Suc (Suc (length line) - q))", goal_cases)
  case (2 line quotesEnd q line')
  then have "length line' \<le> length line" by (simp add: str_replace_def)
  then show ?case using 2 occurs_at_length [of line' DQUOTE]
    by (fastforce simp: find_from_Some split: option.splits)
qed simp

declare unescape_quotes.simps [simp del]

text \<open>The value of a configuration, from what follows the equals sign.\<close>

definition config_value :: "string \<Rightarrow> string" where
  "config_value text =
     (let currValue = trim text;
          quotesStart = find_from currValue DQUOTE 0
      in case quotesStart of
           None \<Rightarrow> currValue
         | Some qs \<Rightarrow>
             (case unescape_quotes currValue (find_from currValue DQUOTE (qs + 1)) of
                (currValue', None) \<Rightarrow> currValue'
              | (currValue', Some qe) \<Rightarrow>
                  if qs \<noteq> qe \<and> qs + 1 \<noteq> qe then take (qe - 1) (drop (qs + 1) currValue')
                  else currValue'))"

record parser_state =
  currConfigStr :: string
  currLevelStr :: string
  currLevel :: Level
  parsed_conf :: Configurations

definition parseLine :: "string \<Rightarrow> parser_state \<Rightarrow> bool \<times> parser_state" where
  "parseLine line0 st =
     (let line1 = trim line0 in
      if isComment line1 then (True, st)
      else
        let line = trim (ignoreComments line1) in
        if line = [] then (True, st)
        else if isLevel line
        then (if length line \<le> 2 then (True, st)
              else let levelStr = trim (toUpper (take (length line - 2) (drop 1 line))) in
                (True, st\<lparr>currLevelStr := levelStr,
                          currLevel := level_convertFromString (c_str levelStr)\<rparr>))
        else
          let (currConfig, currValue, st') =
                (if isConfig line
                 then let assignment = the (find_from line ''='' 0);
                          configStr = trim (toUpper (take assignment line))
                      in (config_convertFromString (c_str configStr),
                          config_value (drop (assignment + 1) line),
                          st\<lparr>currConfigStr := configStr\<rparr>)
                 else (CT_Unknown, '''', st))
          in if currLevel st' = Level_Unknown \<or> currConfig = CT_Unknown then (False, st')
             else (True, st'\<lparr>parsed_conf :=
                      conf_set (currLevel st') currConfig currValue (parsed_conf st')\<rparr>))"

fun parse_lines :: "string list \<Rightarrow> bool \<Rightarrow> parser_state \<Rightarrow> bool \<times> parser_state" where
  "parse_lines [] parsedSuccessfully st = (parsedSuccessfully, st)"
| "parse_lines (line # rest) parsedSuccessfully st =
     (let (parsedSuccessfully', st') = parseLine line st in parse_lines rest parsedSuccessfully' st')"

lemma length_after_dropWhile: "dropWhile P s = x # r \<Longrightarrow> length r < length s"
  using length_dropWhile_le [of P s] by simp

text \<open>
  The lines that \<open>while (std::getline(ss, line))\<close> reads, and those of a loop that looks at the
  state of the stream first and so reads one more, empty line after a last newline.
\<close>

function text_lines :: "string \<Rightarrow> string list" where
  "text_lines s =
     (if s = [] then []
      else takeWhile (\<lambda>c. c \<noteq> CHR 0x0A) s
           # (case dropWhile (\<lambda>c. c \<noteq> CHR 0x0A) s of [] \<Rightarrow> [] | _ # s' \<Rightarrow> text_lines s'))"
  by pat_completeness auto
termination
  by (relation "measure length") (auto dest: length_after_dropWhile)

function file_lines :: "string \<Rightarrow> string list" where
  "file_lines s =
     takeWhile (\<lambda>c. c \<noteq> CHR 0x0A) s
     # (case dropWhile (\<lambda>c. c \<noteq> CHR 0x0A) s of [] \<Rightarrow> [] | _ # s' \<Rightarrow> file_lines s')"
  by pat_completeness auto
termination
  by (relation "measure length") (auto dest: length_after_dropWhile)

declare text_lines.simps [simp del] file_lines.simps [simp del]

definition parser_start :: "Configurations \<Rightarrow> parser_state" where
  "parser_start sender =
     \<lparr>currConfigStr = [], currLevelStr = [], currLevel = Level_Unknown, parsed_conf = sender\<rparr>"

definition Parser_parseFromText ::
  "string \<Rightarrow> Configurations \<Rightarrow> Configurations option \<Rightarrow> bool \<times> Configurations" where
  "Parser_parseFromText text sender base =
     (let (ok, st) = parse_lines (text_lines text) False (parser_start (setFromBase base sender))
      in (ok, parsed_conf st))"

text \<open>The contents of the file are \<open>None\<close> if it cannot be opened.\<close>

definition Parser_parseFromFile ::
  "string option \<Rightarrow> Configurations \<Rightarrow> Configurations option \<Rightarrow> bool \<times> Configurations" where
  "Parser_parseFromFile contents sender base =
     (let (ok, st) = parse_lines (case contents of None \<Rightarrow> [] | Some text \<Rightarrow> file_lines text) False
                       (parser_start (setFromBase base sender))
      in (ok, parsed_conf st))"

definition parseFromText ::
  "string \<Rightarrow> Configurations option \<Rightarrow> Configurations \<Rightarrow> bool \<times> Configurations" where
  "parseFromText text base cs =
     (let (success, cs') = Parser_parseFromText text cs base
      in (success, if success then cs'\<lparr>isFromFile := False\<rparr> else cs'))"

definition parseFromFile ::
  "bool \<Rightarrow> string option \<Rightarrow> Configurations option \<Rightarrow> Configurations \<Rightarrow> bool \<times> Configurations" where
  "parseFromFile pathExists contents base cs =
     (if \<not> pathExists then (False, cs)
      else let (success, cs') = Parser_parseFromFile contents cs base
           in (success, cs'\<lparr>isFromFile := success\<rparr>))"

definition Configurations_of_file ::
  "string \<Rightarrow> bool \<Rightarrow> string option \<Rightarrow> bool \<Rightarrow> Configurations option \<Rightarrow> Configurations" where
  "Configurations_of_file file pathExists contents useDefaultsForRemaining base =
     (let cs = snd (parseFromFile pathExists contents base (new_Configurations\<lparr>configurationFile := file\<rparr>))
      in if useDefaultsForRemaining then setRemainingToDefault cs else cs)"


section \<open>What setting does to lookups\<close>

lemma get_new_Configurations [simp]: "conf_get l t new_Configurations = None"
  by (simp add: conf_get_def new_Configurations_def)

text \<open>The levels that setting at a level sets: the global level stands for all.\<close>

definition level_covers :: "Level \<Rightarrow> Level \<Rightarrow> bool" where
  "level_covers level level' \<longleftrightarrow> level' = level \<or> (level = Level_Global \<and> level' \<noteq> Level_Unknown)"

named_theorems conf_simps "lookups in configurations"

lemma conf_predicate_update: "conf_predicate l t (c\<lparr>conf_value := v\<rparr>) = conf_predicate l t c"
  by (simp add: conf_predicate_def)

lemma find_set_first:
  "find (conf_predicate l' t') (set_first (conf_predicate l t) v list) =
     (if l' = l \<and> t' = t
      then map_option (\<lambda>c. c\<lparr>conf_value := v\<rparr>) (find (conf_predicate l t) list)
      else find (conf_predicate l' t') list)"
proof (cases "l' = l \<and> t' = t")
  case True
  moreover have "find (conf_predicate l t) (set_first (conf_predicate l t) v list) =
    map_option (\<lambda>c. c\<lparr>conf_value := v\<rparr>) (find (conf_predicate l t) list)"
    by (induction list) (simp_all add: conf_predicate_update)
  ultimately show ?thesis by simp
next
  case False
  then have other: "conf_predicate l t c \<Longrightarrow> \<not> conf_predicate l' t' c" for c
    by (auto simp: conf_predicate_def)
  have "find (conf_predicate l' t') (set_first (conf_predicate l t) v list)
    = find (conf_predicate l' t') list"
    by (induction list) (auto simp: conf_predicate_update dest: other)
  then show ?thesis by (simp only: if_not_P [OF False])
qed

lemma get_entry [conf_simps]:
  "conf_get l' t' (unsafeSet_entry l t v cs) =
     (if l' = l \<and> t' = t then Some \<lparr>conf_level = l, conf_type = t, conf_value = v\<rparr>
      else conf_get l' t' cs)"
proof (cases "conf_get l t cs")
  case None
  then show ?thesis
    by (auto simp: unsafeSet_entry_def conf_get_def find_append conf_predicate_def split: option.splits)
next
  case (Some c)
  then have "conf_level c = l" "conf_type c = t"
    by (auto simp: conf_get_def find_Some_iff conf_predicate_def)
  then show ?thesis using Some
    by (cases c) (auto simp: unsafeSet_entry_def conf_get_def find_set_first)
qed

lemma get_fold_entries:
  "conf_get l' t' (fold (\<lambda>l. unsafeSet_entry l t v) ls cs) =
     (if l' \<in> set ls \<and> t' = t then Some \<lparr>conf_level = l', conf_type = t, conf_value = v\<rparr>
      else conf_get l' t' cs)"
  by (induction ls arbitrary: cs) (auto simp: get_entry)

lemma unsafeSet_fold:
  "unsafeSet l t v cs =
     fold (\<lambda>l. unsafeSet_entry l t v) (l # (if l = Level_Global then valid_levels else [])) cs"
  by (simp add: unsafeSet_def forEachLevel_fold [where f = "\<lambda>l. unsafeSet_entry l t v"])

lemma fold_cong_unsafeSet:
  "fold (\<lambda>l. unsafeSet l t v) valid_levels cs = fold (\<lambda>l. unsafeSet_entry l t v) valid_levels cs"
  by (simp add: valid_levels_def unsafeSet_def)

text \<open>The loop of \<open>unsafeSetGlobally\<close> as it is written, with \<open>unsafeSet\<close>, is the loop in \<open>unsafeSet\<close>.\<close>

lemma unsafeSetGlobally_loop:
  "unsafeSetGlobally t v incl cs =
     fold (\<lambda>l. unsafeSet_entry l t v) valid_levels (if incl then unsafeSet Level_Global t v cs else cs)"
  unfolding unsafeSetGlobally_def
  by (subst forEachLevel_fold [where f = "\<lambda>l. unsafeSet l t v"]) (simp_all add: fold_cong_unsafeSet)

lemma get_unsafeSet [conf_simps]:
  "conf_get l' t' (unsafeSet l t v cs) =
     (if level_covers l l' \<and> t' = t then Some \<lparr>conf_level = l', conf_type = t, conf_value = v\<rparr>
      else conf_get l' t' cs)"
  unfolding unsafeSet_fold get_fold_entries by (auto simp: level_covers_def set_valid_levels)

lemma get_conf_set [conf_simps]:
  "conf_get l' t' (conf_set l t v cs) =
     (if level_covers l l' \<and> t' = t then Some \<lparr>conf_level = l', conf_type = t, conf_value = v\<rparr>
      else conf_get l' t' cs)"
  by (auto simp: conf_set_def Let_def unsafeSetGlobally_loop get_fold_entries get_unsafeSet level_covers_def
      set_valid_levels)

lemma get_setIfNotExist [conf_simps]:
  "conf_get l' t' (unsafeSetIfNotExist l t v cs) =
     (if level_covers l l' \<and> t' = t \<and> conf_get l t cs = None
      then Some \<lparr>conf_level = l', conf_type = t, conf_value = v\<rparr> else conf_get l' t' cs)"
  by (simp add: unsafeSetIfNotExist_def get_unsafeSet)

lemma setGlobally_fold:
  "setGlobally t v incl cs =
     fold (\<lambda>l. conf_set l t v) valid_levels (if incl then conf_set Level_Global t v cs else cs)"
  by (simp add: setGlobally_def forEachLevel_fold [where f = "\<lambda>l. conf_set l t v"])

lemma get_fold_conf_set:
  "conf_get l' t' (fold (\<lambda>l. conf_set l t v) ls cs) =
     (if (\<exists>l \<in> set ls. level_covers l l') \<and> t' = t
      then Some \<lparr>conf_level = l', conf_type = t, conf_value = v\<rparr> else conf_get l' t' cs)"
  by (induction ls arbitrary: cs) (auto simp: get_conf_set)

lemma get_setGlobally [conf_simps]:
  "conf_get l' t' (setGlobally t v incl cs) =
     (if l' \<noteq> Level_Unknown \<and> (incl \<or> l' \<noteq> Level_Global) \<and> t' = t
      then Some \<lparr>conf_level = l', conf_type = t, conf_value = v\<rparr> else conf_get l' t' cs)"
  by (auto simp: setGlobally_fold get_fold_conf_set get_conf_set level_covers_def set_valid_levels)

text \<open>No entry is there twice.\<close>

definition conf_wf :: "Configurations \<Rightarrow> bool" where
  "conf_wf cs \<longleftrightarrow> distinct (map (\<lambda>c. (conf_level c, conf_type c)) (conf_list cs))"

named_theorems conf_intros "what keeps configurations well-formed"

lemma set_first_keys:
  "map (\<lambda>c. (conf_level c, conf_type c)) (set_first p v cs) = map (\<lambda>c. (conf_level c, conf_type c)) cs"
  by (induction cs) auto

lemma wf_entry [conf_intros]: "conf_wf cs \<Longrightarrow> conf_wf (unsafeSet_entry l t v cs)"
  by (auto simp: unsafeSet_entry_def conf_wf_def set_first_keys conf_get_def find_None_iff conf_predicate_def
      split: option.splits)

lemma wf_fold: "(\<And>x cs. conf_wf cs \<Longrightarrow> conf_wf (f x cs)) \<Longrightarrow> conf_wf cs \<Longrightarrow> conf_wf (fold f xs cs)"
  by (induction xs arbitrary: cs) auto

lemma wf_unsafeSet [conf_intros]: "conf_wf cs \<Longrightarrow> conf_wf (unsafeSet l t v cs)"
  unfolding unsafeSet_fold by (rule wf_fold) (rule wf_entry)

lemma wf_conf_set [conf_intros]: "conf_wf cs \<Longrightarrow> conf_wf (conf_set l t v cs)"
  by (simp add: conf_set_def Let_def unsafeSetGlobally_loop wf_fold wf_entry wf_unsafeSet)

lemma wf_setIfNotExist [conf_intros]: "conf_wf cs \<Longrightarrow> conf_wf (unsafeSetIfNotExist l t v cs)"
  by (simp add: unsafeSetIfNotExist_def wf_unsafeSet)

lemma wf_setGlobally [conf_intros]: "conf_wf cs \<Longrightarrow> conf_wf (setGlobally t v incl cs)"
  unfolding setGlobally_fold by (auto intro!: wf_fold wf_conf_set)

lemma wf_setFromBase [conf_intros]: "conf_wf cs \<Longrightarrow> conf_wf (setFromBase base cs)"
  by (auto simp: setFromBase_def intro!: wf_fold wf_conf_set split: option.splits)

lemma wf_setToDefault [conf_intros]: "conf_wf cs \<Longrightarrow> conf_wf (setToDefault cs)"
  unfolding setToDefault_def Let_def by (intro conf_intros)

lemma wf_setRemainingToDefault [conf_intros]: "conf_wf cs \<Longrightarrow> conf_wf (setRemainingToDefault cs)"
  unfolding setRemainingToDefault_def Let_def by (intro conf_intros)

lemma wf_isFromFile: "conf_wf (cs\<lparr>isFromFile := b\<rparr>) = conf_wf cs"
  by (simp add: conf_wf_def)

lemma wf_parseLine: "conf_wf (parsed_conf st) \<Longrightarrow> conf_wf (parsed_conf (snd (parseLine line st)))"
  by (simp add: parseLine_def Let_def case_prod_unfold wf_conf_set)

lemma wf_parse_lines:
  "conf_wf (parsed_conf st) \<Longrightarrow> conf_wf (parsed_conf (snd (parse_lines ls ok st)))"
  by (induction ls ok st rule: parse_lines.induct) (simp_all add: case_prod_unfold Let_def wf_parseLine)


lemma wf_parseFromFile [conf_intros]: "conf_wf cs \<Longrightarrow> conf_wf (snd (parseFromFile ex contents base cs))"
  by (simp add: parseFromFile_def Parser_parseFromFile_def case_prod_unfold Let_def parser_start_def
      wf_isFromFile wf_parse_lines wf_setFromBase)

text \<open>What has a value for the global level has one for every level.\<close>

definition conf_closed :: "Configurations \<Rightarrow> bool" where
  "conf_closed cs \<longleftrightarrow>
     (\<forall>l t. conf_get Level_Global t cs \<noteq> None \<longrightarrow> l \<noteq> Level_Unknown \<longrightarrow> conf_get l t cs \<noteq> None)"

lemma closed_conf_set: "conf_closed cs \<Longrightarrow> conf_closed (conf_set l t v cs)"
  by (auto simp: conf_closed_def get_conf_set level_covers_def)

lemma closed_setIfNotExist: "conf_closed cs \<Longrightarrow> conf_closed (unsafeSetIfNotExist l t v cs)"
  by (auto simp: conf_closed_def get_setIfNotExist level_covers_def)

lemma closed_fold:
  "(\<And>x cs. conf_closed cs \<Longrightarrow> conf_closed (f x cs)) \<Longrightarrow> conf_closed cs \<Longrightarrow> conf_closed (fold f xs cs)"
  by (induction xs arbitrary: cs) auto

lemma closed_setFromBase: "conf_closed cs \<Longrightarrow> conf_closed (setFromBase base cs)"
  by (auto simp: setFromBase_def intro!: closed_fold closed_conf_set split: option.splits)

lemma closed_parse_lines:
  "conf_closed (parsed_conf st) \<Longrightarrow> conf_closed (parsed_conf (snd (parse_lines ls ok st)))"
proof (induction ls ok st rule: parse_lines.induct)
  case (2 line rest ok st)
  have "conf_closed (parsed_conf (snd (parseLine line st)))"
    using "2.prems" by (simp add: parseLine_def Let_def case_prod_unfold closed_conf_set)
  then show ?case using "2.IH" by (simp add: case_prod_unfold Let_def)
qed simp

lemma closed_isFromFile: "conf_closed (cs\<lparr>isFromFile := b\<rparr>) = conf_closed cs"
  by (simp add: conf_closed_def conf_get_def)

lemma closed_parseFromFile: "conf_closed cs \<Longrightarrow> conf_closed (snd (parseFromFile ex contents base cs))"
  by (simp add: parseFromFile_def Parser_parseFromFile_def case_prod_unfold Let_def parser_start_def
      closed_isFromFile closed_parse_lines closed_setFromBase)

lemma new_Configurations_ok:
  shows wf_new_Configurations: "conf_wf (new_Configurations\<lparr>configurationFile := f\<rparr>)"
    and closed_new_Configurations: "conf_closed (new_Configurations\<lparr>configurationFile := f\<rparr>)"
  by (simp_all add: conf_wf_def conf_closed_def conf_get_def new_Configurations_def)

text \<open>Setting what does not exist keeps what does, and gives every level a value from the global one.\<close>

lemma has_kept:
  "hasConfiguration_at l t cs \<Longrightarrow> hasConfiguration_at l t (unsafeSetIfNotExist l' t' v cs)"
  by (auto simp: hasConfiguration_at_def get_setIfNotExist)

lemma has_global:
  "conf_closed cs \<Longrightarrow> l \<noteq> Level_Unknown \<Longrightarrow>
     hasConfiguration_at l t (unsafeSetIfNotExist Level_Global t v cs)"
  by (auto simp: hasConfiguration_at_def get_setIfNotExist conf_closed_def level_covers_def)

lemma defaults_complete:
  assumes "conf_closed cs" and "l \<noteq> Level_Unknown" and "t \<noteq> CT_Unknown" "t \<noteq> CT_LogFlushThreshold"
  shows "hasConfiguration_at l t (setRemainingToDefault cs)"
proof -
  have t: "t \<in> {CT_Enabled, CT_ToFile, CT_ToStandardOutput, CT_Format, CT_Filename, CT_MillisecondsWidth,
      CT_PerformanceTracking, CT_MaxLogFileSize}"
    using assms(3,4) by (cases t) simp_all
  show ?thesis
    unfolding setRemainingToDefault_def Let_def using t assms(1,2)
    by (elim insertE emptyE; hypsubst; simp only: has_kept has_global closed_setIfNotExist)
qed

section \<open>Reading back what was written\<close>

text \<open>A configuration as a file has it: its level on a line, its type and value on the next.\<close>

definition entry_lines :: "Configuration \<Rightarrow> string list" where
  "entry_lines conf =
     [''*'' @ level_convertToString (conf_level conf) @ '':'',
      config_convertToString (conf_type conf) @ ''='' @ conf_value conf]"

definition NEWLINE :: char where "NEWLINE = CHR 0x0A"

definition configuration_text :: "Configuration list \<Rightarrow> string" where
  "configuration_text confs = concat (map (\<lambda>line. line @ [NEWLINE]) (concat (map entry_lines confs)))"

text \<open>What a file can say: neither quotes nor comments, nor blanks at either end of the value.\<close>

definition expressible :: "Configuration \<Rightarrow> bool" where
  "expressible conf \<longleftrightarrow>
     conf_level conf \<noteq> Level_Unknown \<and> conf_type conf \<noteq> CT_Unknown \<and>
     (conf_value conf = [] \<or>
       \<not> is_space (hd (conf_value conf)) \<and> \<not> is_space (last (conf_value conf))) \<and>
     (\<forall>c \<in> set (conf_value conf). c \<notin> {CHR 0x22, CHR ''#'', NEWLINE})"

definition key_char :: "char \<Rightarrow> bool" where
  "key_char c \<longleftrightarrow> c = CHR ''_'' \<or> (of_char c :: nat) \<in> {65..90}"

lemma key_char_level: "list_all key_char (level_convertToString l)"
  by (cases l) (simp_all add: level_convertToString_def key_char_def)

lemma key_char_config: "list_all key_char (config_convertToString t)"
  by (cases t) (simp_all add: config_convertToString_def key_char_def)

lemma names_nonempty [simp]: "level_convertToString l \<noteq> []" "config_convertToString t \<noteq> []"
  by (simp_all add: level_convertToString_def config_convertToString_def)

lemma level_from_to: "level_convertFromString (level_convertToString l) = l"
  by (cases l) (simp_all add: level_convertToString_def level_convertFromString_def)

lemma config_from_to: "config_convertFromString (config_convertToString t) = t"
  by (cases t) (simp_all add: config_convertToString_def config_convertFromString_def)

lemma key_char_simps:
  assumes "key_char c"
  shows "\<not> is_space c" "c \<noteq> CHR 0x22" "c \<noteq> CHR ''#''" "c \<noteq> CHR ''=''" "c \<noteq> CHR ''*''" "c \<noteq> NEWLINE"
    "c \<noteq> CHR 0x00" "char_upper c = c"
  using assms by (auto simp: key_char_def is_space_def char_upper_def NEWLINE_def less_eq_char_def)

lemma toUpper_key: "list_all key_char s \<Longrightarrow> toUpper s = s"
  unfolding toUpper_def by (induction s) (auto simp: key_char_simps)

lemma c_str_key: "list_all key_char s \<Longrightarrow> c_str s = s"
  by (rule c_str_id) (auto simp: list_all_iff dest: key_char_simps(7))

lemma trim_key: "list_all key_char s \<Longrightarrow> trim s = s"
proof (rule trim_id, cases "s = []")
  case False
  moreover assume "list_all key_char s"
  ultimately show "s = [] \<or> \<not> is_space (hd s) \<and> \<not> is_space (last s)"
    by (simp add: list_all_iff key_char_simps(1))
qed simp

lemma ignoreComments_plain: "CHR ''#'' \<notin> set line \<Longrightarrow> ignoreComments line = line"
  by (simp add: ignoreComments_def kConfigurationComment_def find_from_absent)

lemma isComment_plain: "CHR ''#'' \<notin> set line \<Longrightarrow> \<not> isComment line"
  by (auto simp: isComment_def startsWith_prefix kConfigurationComment_def dest: set_mono_prefix)

lemma config_value_plain: "CHR 0x22 \<notin> set v \<Longrightarrow> trim v = v \<Longrightarrow> config_value v = v"
  by (simp add: config_value_def DQUOTE_def find_from_absent)

lemma list_all_key_notin:
  "list_all key_char s \<Longrightarrow> x \<in> {CHR 0x22, CHR ''#'', CHR ''='', NEWLINE} \<Longrightarrow> x \<notin> set s"
  by (auto simp: list_all_iff dest: key_char_simps(2-6))

lemma parse_level_line:
  "parseLine (''*'' @ level_convertToString l @ '':'') st =
     (True, st\<lparr>currLevelStr := level_convertToString l, currLevel := l\<rparr>)"
proof -
  let ?k = "level_convertToString l" and ?line = "''*'' @ level_convertToString l @ '':''"
  have plain: "CHR ''#'' \<notin> set ?line" using list_all_key_notin [OF key_char_level, of "CHR ''#''"] by simp
  have "trim ?line = ?line" by (rule trim_id) (simp add: is_space_def)
  moreover have "isLevel ?line" by (simp add: isLevel_def startsWith_def kConfigurationLevel_def)
  moreover have "take (length ?line - 2) (drop 1 ?line) = ?k" by simp
  moreover have "length ?line > 2" by (cases ?k) simp_all
  ultimately show ?thesis
    using plain
    by (simp add: parseLine_def Let_def isComment_plain ignoreComments_plain toUpper_key trim_key c_str_key
        key_char_level level_from_to)
qed


lemma parse_config_line:
  assumes "expressible conf" and "currLevel st = conf_level conf"
  shows "parseLine (config_convertToString (conf_type conf) @ ''='' @ conf_value conf) st =
    (True, st\<lparr>currConfigStr := config_convertToString (conf_type conf),
              parsed_conf := conf_set (conf_level conf) (conf_type conf) (conf_value conf) (parsed_conf st)\<rparr>)"
proof -
  let ?k = "config_convertToString (conf_type conf)" and ?v = "conf_value conf"
  let ?line = "?k @ ''='' @ ?v"
  note nots = list_all_key_notin [OF key_char_config]
  have plain: "CHR ''#'' \<notin> set ?line"
    using nots [of "CHR ''#''"] assms(1) by (auto simp: expressible_def)
  have "\<not> is_space (hd ?k)" "hd ?k \<noteq> CHR ''*''"
    using key_char_config [of "conf_type conf"] by (auto simp: list_all_iff key_char_simps(1,5))
  moreover have "\<not> is_space (last ?line)" using assms(1) by (auto simp: expressible_def is_space_def)
  ultimately have trim: "trim ?line = ?line" and level: "\<not> isLevel ?line"
    using names_nonempty(2) [of "conf_type conf"]
    by (auto simp: trim_id isLevel_def startsWith_prefix kConfigurationLevel_def neq_Nil_conv prefix_def
        simp del: names_nonempty)
  have at: "find_from ?line ''='' 0 = Some (length ?k)"
    using find_from_char [of "CHR ''=''" ?k ?v] nots [of "CHR ''=''"] by simp
  then have config: "isConfig ?line" by (auto simp: isConfig_def Let_def)
  have "trim ?v = ?v" "CHR 0x22 \<notin> set ?v" using assms(1) by (auto simp: expressible_def intro: trim_id)
  then show ?thesis
    using plain trim level at config assms
    by (simp add: parseLine_def Let_def isComment_plain ignoreComments_plain toUpper_key trim_key c_str_key
        key_char_config config_from_to config_value_plain expressible_def)
qed

lemma parse_entry_lines:
  assumes "expressible conf"
  shows "\<exists>st'. parse_lines (entry_lines conf @ ls) ok st = parse_lines ls True st' \<and>
    parsed_conf st' = conf_set (conf_level conf) (conf_type conf) (conf_value conf) (parsed_conf st)"
proof -
  let ?st = "st\<lparr>currLevelStr := level_convertToString (conf_level conf), currLevel := conf_level conf\<rparr>"
  let ?st' = "?st\<lparr>currConfigStr := config_convertToString (conf_type conf),
    parsed_conf := conf_set (conf_level conf) (conf_type conf) (conf_value conf) (parsed_conf st)\<rparr>"
  have "parse_lines (entry_lines conf @ ls) ok st = parse_lines ls True ?st'"
    using parse_config_line [OF assms, of ?st] parse_level_line [of "conf_level conf" st]
    by (simp add: entry_lines_def)
  then show ?thesis by (intro exI [of _ ?st']) simp
qed

lemma parse_entries:
  assumes "list_all expressible confs"
  shows "\<exists>st'. parse_lines (concat (map entry_lines confs)) ok st = (if confs = [] then ok else True, st') \<and>
    parsed_conf st' =
      fold (\<lambda>conf. conf_set (conf_level conf) (conf_type conf) (conf_value conf)) confs (parsed_conf st)"
  using assms
proof (induction confs arbitrary: ok st)
  case Nil
  then show ?case by simp
next
  case (Cons conf confs)
  then obtain st1 where st1: "parse_lines (entry_lines conf @ concat (map entry_lines confs)) ok st =
      parse_lines (concat (map entry_lines confs)) True st1"
      "parsed_conf st1 = conf_set (conf_level conf) (conf_type conf) (conf_value conf) (parsed_conf st)"
    using parse_entry_lines [of conf] by fastforce
  then show ?case using Cons.IH [of True st1] Cons.prems by auto
qed

lemma text_lines_concat:
  assumes "\<forall>line \<in> set ls. NEWLINE \<notin> set line"
  shows "text_lines (concat (map (\<lambda>line. line @ [NEWLINE]) ls)) = ls"
  using assms
proof (induction ls)
  case Nil
  then show ?case by (simp add: text_lines.simps)
next
  case (Cons line ls)
  let ?r = "concat (map (\<lambda>line. line @ [NEWLINE]) ls)"
  have "takeWhile (\<lambda>c. c \<noteq> CHR 0x0A) (line @ NEWLINE # ?r) = line"
    "dropWhile (\<lambda>c. c \<noteq> CHR 0x0A) (line @ NEWLINE # ?r) = NEWLINE # ?r"
    using Cons.prems by (auto simp: NEWLINE_def takeWhile_append dropWhile_append)
  then show ?case using Cons by (simp add: text_lines.simps [of "line @ NEWLINE # ?r"])
qed

lemma entry_lines_no_newline:
  "expressible conf \<Longrightarrow> line \<in> set (entry_lines conf) \<Longrightarrow> NEWLINE \<notin> set line"
proof -
  assume "expressible conf" and line: "line \<in> set (entry_lines conf)"
  then have v: "NEWLINE \<notin> set (conf_value conf)" by (auto simp: expressible_def)
  have key: "list_all key_char s \<Longrightarrow> NEWLINE \<notin> set s" for s by (rule list_all_key_notin) simp_all
  have chars: "NEWLINE \<notin> set ''*:=''" by (simp add: NEWLINE_def)
  have "line = ''*'' @ level_convertToString (conf_level conf) @ '':'' \<or>
      line = config_convertToString (conf_type conf) @ ''='' @ conf_value conf"
    using line by (simp add: entry_lines_def)
  then show "NEWLINE \<notin> set line"
    using v chars key [OF key_char_level] key [OF key_char_config] by (elim disjE) simp_all
qed

section \<open>What the parser returns\<close>

lemma parse_lines_snoc:
  "parse_lines (ls @ [line]) ok st = parseLine line (snd (parse_lines ls ok st))"
  by (induction ls ok st rule: parse_lines.induct) (simp_all add: case_prod_unfold Let_def)

lemma parseLine_empty: "parseLine [] st = (True, st)"
  by (simp add: parseLine_def trim_def ltrim_def rtrim_def ignoreComments_def find_from_def
      isComment_def startsWith_def kConfigurationComment_def DQUOTE_def)

lemma file_lines_newline: "\<exists>ls. file_lines (s @ [NEWLINE]) = ls @ [[]]"
proof (induction "length s" arbitrary: s rule: less_induct)
  case less
  show ?case
  proof (cases "dropWhile (\<lambda>c. c \<noteq> CHR 0x0A) s")
    case Nil
    then have "dropWhile (\<lambda>c. c \<noteq> CHR 0x0A) (s @ [NEWLINE]) = [NEWLINE]"
      by (simp add: dropWhile_append NEWLINE_def)
    then show ?thesis by (simp add: file_lines.simps [of "s @ _"] file_lines.simps [of "[]"])
  next
    case (Cons c r)
    then have "CHR 0x0A \<in> set s"
      using dropWhile_eq_Nil_conv [of "\<lambda>c. c \<noteq> CHR 0x0A" s] by auto
    with Cons have "dropWhile (\<lambda>c. c \<noteq> CHR 0x0A) (s @ [NEWLINE]) = c # r @ [NEWLINE]"
      by (auto simp: dropWhile_append NEWLINE_def)
    moreover obtain ls where "file_lines (r @ [NEWLINE]) = ls @ [[]]"
      using less [of r] length_after_dropWhile [OF Cons] by blast
    ultimately show ?thesis by (simp add: file_lines.simps [of "s @ _"])
  qed
qed

section \<open>Properties\<close>

text \<open>
  Setting a value for a level makes it the value of that level, and setting it for the global
  level makes it the value of every level; no other lookup changes.
\<close>

lemma set_then_get:
  "conf_get l' t' (conf_set l t v cs) =
     (if level_covers l l' \<and> t' = t then Some \<lparr>conf_level = l', conf_type = t, conf_value = v\<rparr>
      else conf_get l' t' cs)"
  by (rule get_conf_set)

text \<open>
  C31: reading a configuration file leaves one entry for each level and type at most, whatever is
  in the file, and, when the rest is to be set to default, an entry for every level and every type
  but the flush threshold.
\<close>

theorem configurations_of_file_complete:
  "conf_wf (Configurations_of_file file ex contents d base) \<and>
   (\<forall>l t. d \<and> l \<noteq> Level_Unknown \<and> t \<notin> {CT_Unknown, CT_LogFlushThreshold} \<longrightarrow>
      hasConfiguration_at l t (Configurations_of_file file ex contents d base))"
  by (simp add: Configurations_of_file_def Let_def wf_parseFromFile wf_setRemainingToDefault
      wf_new_Configurations closed_parseFromFile closed_new_Configurations defaults_complete)

theorem configurations_of_file_complete_witness:
  "hasConfiguration_at Level_Debug CT_ToFile
     (Configurations_of_file ''log.conf'' True (Some ''*DEBUG:'') True None)"
  using configurations_of_file_complete [of "''log.conf''" True "Some ''*DEBUG:''" True None] by blast

text \<open>
  C30: parsing what was written for a list of configurations is the same as setting from them.
\<close>

theorem parse_written:
  assumes "list_all expressible (conf_list written)" and "conf_list written \<noteq> []"
  shows "parseFromText (configuration_text (conf_list written)) None cs =
    (True, (setFromBase (Some written) cs)\<lparr>isFromFile := False\<rparr>)"
proof -
  have "\<forall>line \<in> set (concat (map entry_lines (conf_list written))). NEWLINE \<notin> set line"
    using assms(1) entry_lines_no_newline by (fastforce simp: list_all_iff)
  then have "text_lines (configuration_text (conf_list written)) = concat (map entry_lines (conf_list written))"
    unfolding configuration_text_def by (rule text_lines_concat)
  then show ?thesis
    using parse_entries [OF assms(1), of False "parser_start cs"] assms(2)
    by (auto simp: parseFromText_def Parser_parseFromText_def setFromBase_def parser_start_def)
qed

theorem parse_written_witness:
  "parseFromText (configuration_text
      [\<lparr>conf_level = Level_Global, conf_type = CT_Format, conf_value = ''%level [svc:cat] : %msg''\<rparr>,
       \<lparr>conf_level = Level_Debug, conf_type = CT_ToFile, conf_value = ''false''\<rparr>]) None new_Configurations =
    (True, (conf_set Level_Debug CT_ToFile ''false''
      (conf_set Level_Global CT_Format ''%level [svc:cat] : %msg'' new_Configurations))\<lparr>isFromFile := False\<rparr>)"
  using parse_written [of "\<lparr>conf_list =
      [\<lparr>conf_level = Level_Global, conf_type = CT_Format, conf_value = ''%level [svc:cat] : %msg''\<rparr>,
       \<lparr>conf_level = Level_Debug, conf_type = CT_ToFile, conf_value = ''false''\<rparr>],
      configurationFile = [], isFromFile = False\<rparr>" new_Configurations]
  by (simp add: expressible_def setFromBase_def NEWLINE_def is_space_def)

text \<open>
  Setting what remains to its default for the global level also replaces what was set for a
  single level, as long as nothing was set for the global level.
\<close>

lemma remaining_overwrites:
  assumes "t \<in> {CT_Enabled, CT_ToFile, CT_ToStandardOutput}" and "l \<noteq> Level_Unknown"
  shows "conf_get l t (setRemainingToDefault cs) =
    (if conf_get Level_Global t cs = None
     then Some \<lparr>conf_level = l, conf_type = t, conf_value = ''true''\<rparr> else conf_get l t cs)"
  using assms unfolding setRemainingToDefault_def Let_def
  by (elim insertE emptyE) (simp_all add: get_setIfNotExist level_covers_def)

lemma remaining_overwrites_witness:
  "conf_get Level_Debug CT_Enabled
     (setRemainingToDefault (conf_set Level_Debug CT_Enabled ''false'' new_Configurations)) =
   Some \<lparr>conf_level = Level_Debug, conf_type = CT_Enabled, conf_value = ''true''\<rparr>"
  using remaining_overwrites [of CT_Enabled Level_Debug "conf_set Level_Debug CT_Enabled ''false'' new_Configurations"]
  by (simp add: get_conf_set level_covers_def get_new_Configurations)

text \<open>
  A configuration file that ends with a newline is always said to be parsed, whatever its lines:
  the last, empty line decides.
\<close>

lemma parse_status_of_last_line:
  "fst (parseFromFile True (Some (text @ [NEWLINE])) base cs)"
proof -
  obtain ls where "file_lines (text @ [NEWLINE]) = ls @ [[]]" using file_lines_newline by blast
  then show ?thesis
    by (simp add: parseFromFile_def Parser_parseFromFile_def case_prod_unfold Let_def parse_lines_snoc
        parseLine_empty)
qed

end
