(* ===== verification/Elpp_DateTime.thy ===== *)
theory Elpp_DateTime
  imports Elpp_Str
begin

text \<open>
  Dates and times of log lines in \<^verbatim>\<open>easylogging++.h\<close>: the buffer functions of
  \<open>base::utils::Str\<close>, \<open>MillisecondsWidth\<close>, and \<open>DateTime\<close>. A buffer is the array with the
  position of the write pointer; the limit is the length of the array.
\<close>

type_synonym buffer = "string \<times> nat"

definition NUL :: char where "NUL = CHR 0x00"

section \<open>Writing to a buffer\<close>

text \<open>The terminator is written if there is room for it.\<close>

fun addToBuff :: "string \<Rightarrow> buffer \<Rightarrow> buffer" where
  "addToBuff str (arr, buf) =
     (if buf < length arr
      then (case str of
              [] \<Rightarrow> (arr[buf := NUL], buf)
            | c # str' \<Rightarrow> addToBuff str' (arr[buf := c], buf + 1))
      else (arr, buf))"

text \<open>
  Digits are written from the right into a local array of ten characters, of which the last
  two stay free: there is room for eight.
\<close>

fun convert_digits :: "nat \<Rightarrow> int \<Rightarrow> string \<Rightarrow> int \<times> string" where
  "convert_digits n len p =
     (if n > 0 \<and> length p < 8 \<and> len > 0
      then convert_digits (n div 10) (len - 1) (char_of (n mod 10 + 48) # p)
      else (len, p))"

declare convert_digits.simps [simp del]

function zero_pad :: "int \<Rightarrow> string \<Rightarrow> string" where
  "zero_pad len p = (if length p < 8 \<and> len > 0 then zero_pad (len - 1) (CHR ''0'' # p) else p)"
  by pat_completeness auto
termination
  by (relation "measure (\<lambda>(len, p). nat len)") auto

declare zero_pad.simps [simp del]

definition convert_number :: "nat \<Rightarrow> int \<Rightarrow> bool \<Rightarrow> string" where
  "convert_number n len zeroPadded =
     (let (len', p) = (if n > 0 then convert_digits n len [] else (len - 1, ''0''))
      in if zeroPadded then zero_pad len' p else p)"

definition convertAndAddToBuff :: "nat \<Rightarrow> int \<Rightarrow> buffer \<Rightarrow> bool \<Rightarrow> buffer" where
  "convertAndAddToBuff n len b zeroPadded = addToBuff (convert_number n len zeroPadded) b"

text \<open>Reading the buffer as a C string: without a terminator the read runs past the array.\<close>

definition buffer_string :: "buffer \<Rightarrow> string option" where
  "buffer_string b = (if NUL \<in> set (fst b) then Some (takeWhile (\<lambda>c. c \<noteq> NUL) (fst b)) else None)"

section \<open>Milliseconds\<close>

record MillisecondsWidth =
  m_width :: int
  m_offset :: nat

definition kDefaultMillisecondsWidth :: int where "kDefaultMillisecondsWidth = 3"

definition new_MillisecondsWidth :: "int \<Rightarrow> MillisecondsWidth" where
  "new_MillisecondsWidth width0 =
     (let width = (if width0 < 1 \<or> width0 > 6 then kDefaultMillisecondsWidth else width0)
      in \<lparr>m_width = width,
          m_offset = (if width = 3 then 1000 else if width = 4 then 100 else if width = 5 then 10
                      else if width = 6 then 1 else 1000)\<rparr>)"

section \<open>Formats\<close>

definition kDays :: "string list" where
  "kDays = [''Sunday'', ''Monday'', ''Tuesday'', ''Wednesday'', ''Thursday'', ''Friday'', ''Saturday'']"

definition kDaysAbbrev :: "string list" where
  "kDaysAbbrev = [''Sun'', ''Mon'', ''Tue'', ''Wed'', ''Thu'', ''Fri'', ''Sat'']"

definition kMonths :: "string list" where
  "kMonths = [''January'', ''February'', ''March'', ''Apri'', ''May'', ''June'', ''July'', ''August'',
     ''September'', ''October'', ''November'', ''December'']"

definition kMonthsAbbrev :: "string list" where
  "kMonthsAbbrev = [''Jan'', ''Feb'', ''Mar'', ''Apr'', ''May'', ''Jun'', ''Jul'', ''Aug'', ''Sep'',
     ''Oct'', ''Nov'', ''Dec'']"

definition kDefaultDateTimeFormat :: string where
  "kDefaultDateTimeFormat = ''%d/%M/%Y %H:%m:%s,%g''"

definition kDefaultDateTimeFormatInFilename :: string where
  "kDefaultDateTimeFormatInFilename = ''%d-%M-%Y_%H-%m''"

definition kYearBase :: int where "kYearBase = 1900"

text \<open>A broken-down time, as \<open>localtime_r\<close> fills it in. Years before 1900 are negative.\<close>

record tm =
  tm_sec :: nat
  tm_min :: nat
  tm_hour :: nat
  tm_mday :: nat
  tm_mon :: nat
  tm_year :: int
  tm_wday :: nat

definition size_t_of :: "int \<Rightarrow> nat" where
  "size_t_of i = nat (i mod 2 ^ 64)"

definition format_specifier :: "char \<Rightarrow> tm \<Rightarrow> nat \<Rightarrow> MillisecondsWidth \<Rightarrow> buffer \<Rightarrow> buffer" where
  "format_specifier s tInfo msec msWidth buf =
     (if s = CHR ''d'' then convertAndAddToBuff (tm_mday tInfo) 2 buf True
      else if s = CHR ''a'' then addToBuff (kDaysAbbrev ! tm_wday tInfo) buf
      else if s = CHR ''A'' then addToBuff (kDays ! tm_wday tInfo) buf
      else if s = CHR ''M'' then convertAndAddToBuff (tm_mon tInfo + 1) 2 buf True
      else if s = CHR ''b'' then addToBuff (kMonthsAbbrev ! tm_mon tInfo) buf
      else if s = CHR ''B'' then addToBuff (kMonths ! tm_mon tInfo) buf
      else if s = CHR ''y'' then convertAndAddToBuff (size_t_of (tm_year tInfo + kYearBase)) 2 buf True
      else if s = CHR ''Y'' then convertAndAddToBuff (size_t_of (tm_year tInfo + kYearBase)) 4 buf True
      else if s = CHR ''h'' then convertAndAddToBuff (tm_hour tInfo mod 12) 2 buf True
      else if s = CHR ''H'' then convertAndAddToBuff (tm_hour tInfo) 2 buf True
      else if s = CHR ''m'' then convertAndAddToBuff (tm_min tInfo) 2 buf True
      else if s = CHR ''s'' then convertAndAddToBuff (tm_sec tInfo) 2 buf True
      else if s = CHR ''z'' \<or> s = CHR ''g'' then convertAndAddToBuff msec (m_width msWidth) buf True
      else if s = CHR ''F'' then addToBuff (if tm_hour tInfo \<ge> 12 then ''PM'' else ''AM'') buf
      else buf)"

text \<open>
  A percent sign at the end and the second of two are characters like any other; a full buffer
  ends the loop at the next such character.
\<close>

fun parseFormat :: "string \<Rightarrow> tm \<Rightarrow> nat \<Rightarrow> MillisecondsWidth \<Rightarrow> buffer \<Rightarrow> buffer" where
  "parseFormat [] tInfo msec msWidth (arr, buf) = (arr, buf)"
| "parseFormat (c # format) tInfo msec msWidth (arr, buf) =
     (if c = kFormatSpecifierChar
      then (case format of
              [] \<Rightarrow> if buf = length arr then (arr, buf) else (arr[buf := c], buf + 1)
            | s # format' \<Rightarrow>
                if s = kFormatSpecifierChar
                then (if buf = length arr then (arr, buf)
                      else parseFormat format' tInfo msec msWidth (arr[buf := s], buf + 1))
                else parseFormat format' tInfo msec msWidth
                       (format_specifier s tInfo msec msWidth (arr, buf)))
      else (if buf = length arr then (arr, buf)
            else parseFormat format tInfo msec msWidth (arr[buf := c], buf + 1)))"

text \<open>
  \<open>now\<close> is the time of day in microseconds and the local time it belongs to. The buffer has thirty
  characters, all zero at first.
\<close>

definition getDateTime :: "nat \<Rightarrow> tm \<Rightarrow> string \<Rightarrow> MillisecondsWidth \<Rightarrow> string option" where
  "getDateTime usec timeInfo format msWidth =
     buffer_string (parseFormat format timeInfo (usec div m_offset msWidth) msWidth (replicate 30 NUL, 0))"

section \<open>The text a format stands for\<close>

definition specifier_text :: "char \<Rightarrow> tm \<Rightarrow> nat \<Rightarrow> MillisecondsWidth \<Rightarrow> string" where
  "specifier_text s tInfo msec msWidth =
     (if s = CHR ''d'' then convert_number (tm_mday tInfo) 2 True
      else if s = CHR ''a'' then kDaysAbbrev ! tm_wday tInfo
      else if s = CHR ''A'' then kDays ! tm_wday tInfo
      else if s = CHR ''M'' then convert_number (tm_mon tInfo + 1) 2 True
      else if s = CHR ''b'' then kMonthsAbbrev ! tm_mon tInfo
      else if s = CHR ''B'' then kMonths ! tm_mon tInfo
      else if s = CHR ''y'' then convert_number (size_t_of (tm_year tInfo + kYearBase)) 2 True
      else if s = CHR ''Y'' then convert_number (size_t_of (tm_year tInfo + kYearBase)) 4 True
      else if s = CHR ''h'' then convert_number (tm_hour tInfo mod 12) 2 True
      else if s = CHR ''H'' then convert_number (tm_hour tInfo) 2 True
      else if s = CHR ''m'' then convert_number (tm_min tInfo) 2 True
      else if s = CHR ''s'' then convert_number (tm_sec tInfo) 2 True
      else if s = CHR ''z'' \<or> s = CHR ''g'' then convert_number msec (m_width msWidth) True
      else if s = CHR ''F'' then (if tm_hour tInfo \<ge> 12 then ''PM'' else ''AM'')
      else [])"

fun format_text :: "string \<Rightarrow> tm \<Rightarrow> nat \<Rightarrow> MillisecondsWidth \<Rightarrow> string" where
  "format_text [] tInfo msec w = []"
| "format_text [c] tInfo msec w = [c]"
| "format_text (c # s # format) tInfo msec w =
     (if c = CHR ''%'' then
        (if s = CHR ''%'' then [CHR ''%''] else specifier_text s tInfo msec w) @ format_text format tInfo msec w
      else c # format_text (s # format) tInfo msec w)"


section \<open>The buffer holds the beginning of the text\<close>

definition filled :: "nat \<Rightarrow> string \<Rightarrow> buffer" where
  "filled k t = (take k t @ replicate (k - length t) NUL, min k (length t))"

lemma filled_length [simp]: "length (fst (filled k t)) = k"
  by (simp add: filled_def)

lemma filled_full: "k \<le> length t \<Longrightarrow> filled k (t @ s) = filled k t"
  by (simp add: filled_def)

lemma filled_put:
  assumes "length t < k"
  shows "((fst (filled k t))[snd (filled k t) := c], snd (filled k t) + 1) = filled k (t @ [c])"
proof -
  have "replicate (k - length t) NUL = NUL # replicate (k - Suc (length t)) NUL"
    using assms by (metis Suc_diff_Suc replicate_Suc)
  then show ?thesis using assms by (simp add: filled_def list_update_append)
qed

lemma addToBuff_filled: "addToBuff s (filled k t) = filled k (t @ s)"
proof (induction s arbitrary: t)
  case Nil
  have "(t @ replicate (k - length t) NUL)[length t := NUL] = t @ replicate (k - length t) NUL" if "length t < k"
    using that by (simp add: list_update_append list_update_same_conv)
  then show ?case by (simp add: filled_def)
next
  case (Cons c s)
  show ?case
  proof (cases "length t < k")
    case True
    have "addToBuff (c # s) (filled k t) = addToBuff s (filled k (t @ [c]))"
      using True filled_put [OF True, of c] by (simp add: filled_def)
    then show ?thesis using Cons.IH by simp
  next
    case False
    then show ?thesis by (simp add: filled_def)
  qed
qed

lemma format_specifier_filled:
  "format_specifier s tInfo msec w (filled k t) = filled k (t @ specifier_text s tInfo msec w)"
  by (simp add: format_specifier_def specifier_text_def convertAndAddToBuff_def addToBuff_filled)

lemma parseFormat_filled:
  "parseFormat format tInfo msec w (filled k t) = filled k (t @ format_text format tInfo msec w)"
proof (induction format tInfo msec w arbitrary: t rule: format_text.induct)
  case (1 tInfo msec w)
  then show ?case by (simp add: filled_def)
next
  case (2 c tInfo msec w)
  show ?case
  proof (cases "length t < k")
    case True
    then show ?thesis using filled_put [OF True, of c] by (auto simp: filled_def)
  next
    case False
    then show ?thesis using filled_full [of k t "[c]"] by (simp add: filled_def)
  qed
next
  case (3 c s format tInfo msec w)
  have full: "parseFormat (c # s # format) tInfo msec w (filled k t) =
      filled k (t @ format_text (c # s # format) tInfo msec w)"
    if "\<not> length t < k" "c \<noteq> CHR ''%'' \<or> s = CHR ''%''"
    using that filled_full [of k t] by (auto simp: filled_def kFormatSpecifierChar_def)
  show ?case
  proof (cases "c = CHR ''%''")
    case True
    note c = True
    show ?thesis
    proof (cases "s = CHR ''%''")
      case True
      then show ?thesis
      proof (cases "length t < k")
        case len: True
        have "parseFormat (c # s # format) tInfo msec w (filled k t) =
            parseFormat format tInfo msec w (filled k (t @ [CHR ''%'']))"
          using len c True filled_put [OF len, of "CHR ''%''"]
          by (simp add: filled_def kFormatSpecifierChar_def)
        then show ?thesis using "3.IH"(1) c True by simp
      qed (use full True in simp)
    next
      case False
      have "parseFormat (c # s # format) tInfo msec w (filled k t) =
          parseFormat format tInfo msec w (format_specifier s tInfo msec w (filled k t))"
        using c False by (simp add: filled_def kFormatSpecifierChar_def)
      then show ?thesis using "3.IH"(1) c False by (simp add: format_specifier_filled)
    qed
  next
    case False
    show ?thesis
    proof (cases "length t < k")
      case True
      have "parseFormat (c # s # format) tInfo msec w (filled k t) =
          parseFormat (s # format) tInfo msec w (filled k (t @ [c]))"
        using True False filled_put [OF True, of c]
        by (simp add: filled_def kFormatSpecifierChar_def del: parseFormat.simps(2)) (simp add: kFormatSpecifierChar_def)
      then show ?thesis using "3.IH"(2) False by simp
    qed (use full False in simp)
  qed
qed

section \<open>Numbers\<close>

lemma convert_digits_0: "convert_digits 0 len p = (len, p)"
  by (simp add: convert_digits.simps)

text \<open>The low digits of a number.\<close>

fun low_digits :: "nat \<Rightarrow> nat \<Rightarrow> string" where
  "low_digits 0 n = []"
| "low_digits (Suc k) n = low_digits k (n div 10) @ [char_of (n mod 10 + 48)]"

lemma length_low_digits [simp]: "length (low_digits k n) = k"
  by (induction k n rule: low_digits.induct) simp_all

lemma zero_pad_replicate:
  "length p + nat len \<le> 8 \<Longrightarrow> zero_pad len p = replicate (nat len) (CHR ''0'') @ p"
proof (induction len p rule: zero_pad.induct)
  case (1 len p)
  show ?case
  proof (cases "length p < 8 \<and> len > 0")
    case True
    then have "nat len = Suc (nat (len - 1))" by arith
    then show ?thesis using True 1 by (subst zero_pad.simps) (simp add: replicate_app_Cons_same)
  next
    case False
    then show ?thesis using 1 by (subst zero_pad.simps) auto
  qed
qed

lemma low_digits_0: "low_digits k 0 = replicate k (CHR ''0'')"
proof (induction k)
  case (Suc k)
  have "char_of (48 :: nat) = CHR ''0''" by code_simp
  then show ?case using Suc by (simp add: replicate_append_same)
qed simp

lemma pad_convert_digits:
  "length p + k \<le> 8 \<Longrightarrow>
   (case convert_digits n (int k) p of (len, q) \<Rightarrow> zero_pad len q) = low_digits k n @ p"
proof (induction k arbitrary: n p)
  case 0
  then show ?case by (simp add: convert_digits.simps zero_pad.simps)
next
  case (Suc k)
  show ?case
  proof (cases "n = 0")
    case True
    then show ?thesis using Suc.prems zero_pad_replicate [of p "int (Suc k)"]
      by (simp add: convert_digits_0 low_digits_0 nat_add_distrib)
  next
    case False
    then have "convert_digits n (int (Suc k)) p =
        convert_digits (n div 10) (int k) (char_of (n mod 10 + 48) # p)"
      using Suc.prems by (subst convert_digits.simps) simp
    then show ?thesis using Suc.IH [of "char_of (n mod 10 + 48) # p" "n div 10"] Suc.prems by simp
  qed
qed

lemma convert_number_low_digits:
  assumes "0 < k" "k \<le> 8"
  shows "convert_number n (int k) True = low_digits k n"
proof (cases "n = 0")
  case True
  have "low_digits k 0 = zero_pad (int k - 1) ''0''"
    using assms zero_pad_replicate [of "''0''" "int k - 1"]
    by (cases k) (simp_all add: low_digits_0 replicate_app_Cons_same)
  then show ?thesis using True by (simp add: convert_number_def)
next
  case False
  then show ?thesis using pad_convert_digits [of "[]" k n] assms
    by (simp add: convert_number_def case_prod_unfold Let_def)
qed


lemma low_digits_no_NUL: "NUL \<notin> set (low_digits k n)"
proof (induction k n rule: low_digits.induct)
  case (2 k n)
  have "of_char (char_of (n mod 10 + 48) :: char) = n mod 10 + 48" by simp
  moreover have "of_char NUL = (0 :: nat)" by (simp add: NUL_def)
  ultimately have "char_of (n mod 10 + 48) \<noteq> NUL" by force
  then show ?case using 2 by simp
qed simp

lemma convert_number_no_NUL:
  assumes "0 < len" "len \<le> 8"
  shows "NUL \<notin> set (convert_number n len True)"
  using low_digits_no_NUL [of "nat len" n] convert_number_low_digits [of "nat len" n] assms by simp

lemma names_length:
  "length kDays = 7" "length kDaysAbbrev = 7" "length kMonths = 12" "length kMonthsAbbrev = 12"
  by (simp_all add: kDays_def kDaysAbbrev_def kMonths_def kMonthsAbbrev_def)

lemma names_no_NUL: "\<forall>d \<in> set (kDays @ kDaysAbbrev @ kMonths @ kMonthsAbbrev). NUL \<notin> set d"
  by (simp add: kDays_def kDaysAbbrev_def kMonths_def kMonthsAbbrev_def NUL_def)

definition tm_ok :: "tm \<Rightarrow> bool" where
  "tm_ok t \<longleftrightarrow> tm_wday t < 7 \<and> tm_mon t < 12"

lemma specifier_no_NUL:
  assumes "tm_ok t" and "0 < m_width w" "m_width w \<le> 8"
  shows "NUL \<notin> set (specifier_text s t msec w)"
proof -
  have "kDays ! tm_wday t \<in> set kDays" "kDaysAbbrev ! tm_wday t \<in> set kDaysAbbrev"
    "kMonths ! tm_mon t \<in> set kMonths" "kMonthsAbbrev ! tm_mon t \<in> set kMonthsAbbrev"
    using assms(1) by (intro nth_mem; simp add: tm_ok_def names_length)+
  then have "NUL \<notin> set (kDays ! tm_wday t)" "NUL \<notin> set (kDaysAbbrev ! tm_wday t)"
    "NUL \<notin> set (kMonths ! tm_mon t)" "NUL \<notin> set (kMonthsAbbrev ! tm_mon t)"
    using names_no_NUL by auto
  moreover have "NUL \<notin> set ''PM''" "NUL \<notin> set ''AM''" by (simp_all add: NUL_def)
  ultimately show ?thesis
    using convert_number_no_NUL assms by (simp add: specifier_text_def)
qed

lemma format_text_no_NUL:
  assumes "tm_ok t" and "0 < m_width w" "m_width w \<le> 8" and "NUL \<notin> set format"
  shows "NUL \<notin> set (format_text format t msec w)"
  using assms
  by (induction format t msec w rule: format_text.induct) (auto simp: NUL_def specifier_no_NUL [unfolded NUL_def])

lemma getDateTime_format:
  assumes "tm_ok t" and "NUL \<notin> set format" and "0 < m_width w" "m_width w \<le> 8"
  shows "getDateTime usec t format w =
    (let text = format_text format t (usec div m_offset w) w in
     if length text < 30 then Some text else None)"
proof -
  let ?text = "format_text format t (usec div m_offset w) w"
  have parse: "parseFormat format t (usec div m_offset w) w (replicate 30 NUL, 0) = filled 30 ?text"
    using parseFormat_filled [of format t "usec div m_offset w" w 30 "[]"] by (simp add: filled_def)
  have no: "NUL \<notin> set ?text" by (rule format_text_no_NUL [OF assms(1,3,4,2)])
  show ?thesis
  proof (cases "length ?text < 30")
    case True
    then have arr: "fst (filled 30 ?text) = ?text @ NUL # replicate (29 - length ?text) NUL"
      by (simp add: filled_def replicate_Suc [symmetric] Suc_diff_le del: replicate_Suc)
    have "takeWhile (\<lambda>c. c \<noteq> NUL) (?text @ NUL # ys) = ?text" for ys
      using no by (subst takeWhile_append2) auto
    then show ?thesis using True arr by (simp add: getDateTime_def parse buffer_string_def)
  next
    case False
    then have "fst (filled 30 ?text) = take 30 ?text" by (simp add: filled_def)
    moreover have "NUL \<notin> set (take 30 ?text)" using no by (meson in_set_takeD)
    ultimately show ?thesis using False by (simp add: getDateTime_def parse buffer_string_def)
  qed
qed

section \<open>Properties\<close>

text \<open>
  C32: a date is the text its format stands for, as long as that has fewer than thirty characters. If
  it has thirty or more the buffer is left without a terminator, and reading it back runs past
  the array.
\<close>

theorem getDateTime_text:
  assumes "tm_ok t" and "NUL \<notin> set format" and "0 < m_width w" "m_width w \<le> 8"
  shows "getDateTime usec t format w =
    (let text = format_text format t (usec div m_offset w) w in
     if length text < 30 then Some text else None)"
  using assms by (rule getDateTime_format)

definition example_tm :: tm where
  "example_tm = \<lparr>tm_sec = 5, tm_min = 4, tm_hour = 15, tm_mday = 30, tm_mon = 8, tm_year = 114, tm_wday = 2\<rparr>"

theorem getDateTime_text_witness:
  "getDateTime 123456 example_tm kDefaultDateTimeFormat (new_MillisecondsWidth 3) =
     Some ''30/09/2014 15:04:05,123'' \<and>
   getDateTime 123456 example_tm ''%A, %d %B %Y %H:%m:%s,%g'' (new_MillisecondsWidth 3) = None"
proof -
  have w: "m_width (new_MillisecondsWidth 3) = 3" "m_offset (new_MillisecondsWidth 3) = 1000"
    by (simp_all add: new_MillisecondsWidth_def)
  have t: "tm_ok example_tm" by (simp add: tm_ok_def example_tm_def)
  have texts: "format_text kDefaultDateTimeFormat example_tm 123 (new_MillisecondsWidth 3) =
      ''30/09/2014 15:04:05,123''"
    "\<not> length (format_text ''%A, %d %B %Y %H:%m:%s,%g'' example_tm 123 (new_MillisecondsWidth 3)) < 30"
    by code_simp+
  have nul: "NUL \<notin> set kDefaultDateTimeFormat" "NUL \<notin> set ''%A, %d %B %Y %H:%m:%s,%g''"
    by (simp_all add: NUL_def kDefaultDateTimeFormat_def)
  have width: "0 < m_width (new_MillisecondsWidth 3)" "m_width (new_MillisecondsWidth 3) \<le> 8"
    by (simp_all add: w)
  show ?thesis
    unfolding getDateTime_text [OF t nul(1) width] getDateTime_text [OF t nul(2) width]
    using texts by (simp add: w Let_def del: format_text.simps)
qed

text \<open>
  The fraction of a second is cut to the width, for widths of three to six digits. For one and
  two digits the milliseconds are cut from the left instead: the last digits are printed.
\<close>

lemma fraction_digits:
  assumes "1 \<le> n" "n \<le> 6" and "tm_ok t"
  shows "getDateTime usec t ''%g'' (new_MillisecondsWidth (int n)) =
    Some (low_digits n (if n < 3 then usec div 1000 else usec div 10 ^ (6 - n)))"
proof -
  let ?w = "new_MillisecondsWidth (int n)"
  have w: "m_width ?w = int n" using assms by (simp add: new_MillisecondsWidth_def Let_def)
  have offset: "m_offset ?w = (if n < 3 then 1000 else 10 ^ (6 - n))"
  proof -
    have "n = 1 \<or> n = 2 \<or> n = 3 \<or> n = 4 \<or> n = 5 \<or> n = 6" using assms by arith
    then show ?thesis by (elim disjE) (simp_all add: new_MillisecondsWidth_def)
  qed
  have "format_text ''%g'' t msec ?w = low_digits n msec" for msec
    using convert_number_low_digits [of n msec] assms w by (simp add: specifier_text_def)
  moreover have "getDateTime usec t ''%g'' ?w =
    (let text = format_text ''%g'' t (usec div m_offset ?w) ?w in if length text < 30 then Some text else None)"
    using assms w by (intro getDateTime_format) (simp_all add: NUL_def)
  moreover have "length (low_digits n k) = n" for k by (rule length_low_digits)
  ultimately show ?thesis using assms(2) offset by (simp add: Let_def)
qed

lemma fraction_digits_witness:
  "getDateTime 123456 example_tm ''%g'' (new_MillisecondsWidth (int 1)) = Some ''3''"
proof -
  have digits: "low_digits 1 123 = ''3''" by code_simp
  have msec: "(123 :: nat) = (if 1 < (3 :: nat) then 123456 div 1000 else 123456 div 10 ^ (6 - 1))" by simp
  show ?thesis unfolding digits [symmetric] unfolding msec
    by (rule fraction_digits) (simp_all add: tm_ok_def example_tm_def)
qed

end
