(* ===== verification/Elpp_Format.thy ===== *)
theory Elpp_Format
  imports Elpp_Enums Elpp_Str Elpp_DateTime
begin

text \<open>
  The format of a log line in \<^verbatim>\<open>easylogging++.h\<close> (\<open>LogFormat\<close>): which specifiers a user's format
  has, the format of its date, and the replacement of what is known when it is configured.
\<close>

section \<open>Specifiers and the names of levels\<close>

definition kInfoLevelLogValue :: string where "kInfoLevelLogValue = ''INFO ''"
definition kDebugLevelLogValue :: string where "kDebugLevelLogValue = ''DEBUG''"
definition kWarningLevelLogValue :: string where "kWarningLevelLogValue = ''WARN ''"
definition kErrorLevelLogValue :: string where "kErrorLevelLogValue = ''ERROR''"
definition kFatalLevelLogValue :: string where "kFatalLevelLogValue = ''FATAL''"
definition kVerboseLevelLogValue :: string where "kVerboseLevelLogValue = ''VER''"
definition kTraceLevelLogValue :: string where "kTraceLevelLogValue = ''TRACE''"
definition kInfoLevelShortLogValue :: string where "kInfoLevelShortLogValue = ''I''"
definition kDebugLevelShortLogValue :: string where "kDebugLevelShortLogValue = ''D''"
definition kWarningLevelShortLogValue :: string where "kWarningLevelShortLogValue = ''W''"
definition kErrorLevelShortLogValue :: string where "kErrorLevelShortLogValue = ''E''"
definition kFatalLevelShortLogValue :: string where "kFatalLevelShortLogValue = ''F''"
definition kVerboseLevelShortLogValue :: string where "kVerboseLevelShortLogValue = ''V''"
definition kTraceLevelShortLogValue :: string where "kTraceLevelShortLogValue = ''T''"

definition kAppNameFormatSpecifier :: string where "kAppNameFormatSpecifier = ''%app''"
definition kLoggerIdFormatSpecifier :: string where "kLoggerIdFormatSpecifier = ''%logger''"
definition kThreadIdFormatSpecifier :: string where "kThreadIdFormatSpecifier = ''%thread''"
definition kSeverityLevelFormatSpecifier :: string where "kSeverityLevelFormatSpecifier = ''%level''"
definition kSeverityLevelShortFormatSpecifier :: string where "kSeverityLevelShortFormatSpecifier = ''%levshort''"
definition kDateTimeFormatSpecifier :: string where "kDateTimeFormatSpecifier = ''%datetime''"
definition kLogFileFormatSpecifier :: string where "kLogFileFormatSpecifier = ''%file''"
definition kLogFileBaseFormatSpecifier :: string where "kLogFileBaseFormatSpecifier = ''%fbase''"
definition kLogLineFormatSpecifier :: string where "kLogLineFormatSpecifier = ''%line''"
definition kLogLocationFormatSpecifier :: string where "kLogLocationFormatSpecifier = ''%loc''"
definition kLogFunctionFormatSpecifier :: string where "kLogFunctionFormatSpecifier = ''%func''"
definition kCurrentUserFormatSpecifier :: string where "kCurrentUserFormatSpecifier = ''%user''"
definition kCurrentHostFormatSpecifier :: string where "kCurrentHostFormatSpecifier = ''%host''"
definition kMessageFormatSpecifier :: string where "kMessageFormatSpecifier = ''%msg''"
definition kVerboseLevelFormatSpecifier :: string where "kVerboseLevelFormatSpecifier = ''%vlevel''"

section \<open>Log formats\<close>

record LogFormat =
  lf_level :: Level
  lf_userFormat :: string
  lf_format :: string
  lf_dateTimeFormat :: string
  lf_flags :: EnumType

definition new_LogFormat :: LogFormat where
  "new_LogFormat = \<lparr>lf_level = Level_Unknown, lf_userFormat = [], lf_format = [], lf_dateTimeFormat = [], lf_flags = 0\<rparr>"

text \<open>Assignment to a format: it leaves the old resolved format in place.\<close>

definition assign_LogFormat :: "LogFormat \<Rightarrow> LogFormat \<Rightarrow> LogFormat" where
  "assign_LogFormat this logFormat =
     this\<lparr>lf_level := lf_level logFormat, lf_userFormat := lf_userFormat logFormat,
          lf_dateTimeFormat := lf_dateTimeFormat logFormat, lf_flags := lf_flags logFormat\<rparr>"

definition lf_hasFlag :: "FormatFlags \<Rightarrow> LogFormat \<Rightarrow> bool" where
  "lf_hasFlag flag lf = hasFlag (format_flag flag) (lf_flags lf)"

definition lf_addFlag :: "FormatFlags \<Rightarrow> LogFormat \<Rightarrow> LogFormat" where
  "lf_addFlag flag lf = lf\<lparr>lf_flags := addFlag (format_flag flag) (lf_flags lf)\<rparr>"

function conditionalAddFlag_loop ::
  "string \<Rightarrow> FormatFlags \<Rightarrow> nat option \<Rightarrow> string \<Rightarrow> LogFormat \<Rightarrow> string \<times> LogFormat" where
  "conditionalAddFlag_loop specifier flag foundAt formatCopy lf =
     (case find_from formatCopy specifier (after foundAt) of
        None \<Rightarrow> (formatCopy, lf)
      | Some i \<Rightarrow>
          if i > 0 \<and> formatCopy ! (i - 1) = kFormatSpecifierChar
          then if lf_hasFlag flag lf
            then conditionalAddFlag_loop specifier flag (Some (i + 1)) (str_replace formatCopy (i - 1) 1 []) lf
            else conditionalAddFlag_loop specifier flag (Some i) formatCopy lf
          else conditionalAddFlag_loop specifier flag (Some i) formatCopy
                 (if \<not> lf_hasFlag flag lf then lf_addFlag flag lf else lf))"
  by pat_completeness auto
termination
proof (relation "measure (\<lambda>(spec, flag, foundAt, str, lf). Suc (length str) - after foundAt)", goal_cases)
  case (2 spec flag foundAt str lf i)
  then have "after foundAt \<le> i" "i \<le> length str"
    using occurs_at_length [of str spec i] by (auto simp: find_from_Some)
  then show ?case using 2 by (simp add: str_replace_def after_def)
next
  case (3 spec flag foundAt str lf i)
  then show ?case using occurs_at_length [of str spec i] by (auto simp: find_from_Some after_def)
next
  case (4 spec flag foundAt str lf i)
  then show ?case using occurs_at_length [of str spec i] by (auto simp: find_from_Some after_def)
qed simp

declare conditionalAddFlag_loop.simps [simp del]

definition conditionalAddFlag ::
  "string \<Rightarrow> FormatFlags \<Rightarrow> string \<times> LogFormat \<Rightarrow> string \<times> LogFormat" where
  "conditionalAddFlag specifier flag p = conditionalAddFlag_loop specifier flag None (fst p) (snd p)"

definition updateDateFormat :: "nat \<Rightarrow> string \<Rightarrow> LogFormat \<Rightarrow> string \<times> LogFormat" where
  "updateDateFormat index0 currFormat lf =
     (let index = (if lf_hasFlag FF_DateTime lf then index0 + length kDateTimeFormatSpecifier else index0)
      in if length currFormat > index \<and> currFormat ! index = CHR ''{''
         then
           let ptr = drop (index + 1) currFormat;
               fmt = takeWhile (\<lambda>c. c \<noteq> NUL \<and> c \<noteq> CHR ''}'') ptr;
               count = (case drop (length fmt) ptr of
                          c # _ \<Rightarrow> if c = CHR ''}'' then length fmt + 2 else length fmt + 1
                        | [] \<Rightarrow> length fmt + 1)
           in (str_replace currFormat index count [], lf\<lparr>lf_dateTimeFormat := fmt\<rparr>)
         else if lf_hasFlag FF_DateTime lf
         then (currFormat, lf\<lparr>lf_dateTimeFormat := kDefaultDateTimeFormat\<rparr>)
         else (currFormat, lf))"

text \<open>What the library finds out about the user when it starts.\<close>

record identity =
  s_currentUser :: string
  s_currentHost :: string

definition replace_level :: "string \<Rightarrow> string \<Rightarrow> string \<Rightarrow> string" where
  "replace_level long short fmt =
     replaceFirstWithEscape (replaceFirstWithEscape fmt kSeverityLevelFormatSpecifier long)
       kSeverityLevelShortFormatSpecifier short"

definition updateFormatSpec :: "identity \<Rightarrow> LogFormat \<Rightarrow> LogFormat" where
  "updateFormatSpec ident lf =
     (let l = lf_level lf;
          f0 = lf_format lf;
          f1 = (if l = Level_Debug then replace_level kDebugLevelLogValue kDebugLevelShortLogValue f0
                else if l = Level_Info then replace_level kInfoLevelLogValue kInfoLevelShortLogValue f0
                else if l = Level_Warning
                then replace_level kWarningLevelLogValue kWarningLevelShortLogValue f0
                else if l = Level_Error then replace_level kErrorLevelLogValue kErrorLevelShortLogValue f0
                else if l = Level_Fatal then replace_level kFatalLevelLogValue kFatalLevelShortLogValue f0
                else if l = Level_Verbose
                then replace_level kVerboseLevelLogValue kVerboseLevelShortLogValue f0
                else if l = Level_Trace then replace_level kTraceLevelLogValue kTraceLevelShortLogValue f0
                else f0);
          f2 = (if lf_hasFlag FF_User lf
                then replaceFirstWithEscape f1 kCurrentUserFormatSpecifier (s_currentUser ident) else f1);
          f3 = (if lf_hasFlag FF_Host lf
                then replaceFirstWithEscape f2 kCurrentHostFormatSpecifier (s_currentHost ident) else f2)
      in lf\<lparr>lf_format := f3\<rparr>)"

text \<open>
  Passing over escaped date specifiers. If none is left the code looks at the character before
  position \<open>npos\<close>, outside the string: there is no result then.
\<close>

function unescaped_date :: "string \<Rightarrow> string \<Rightarrow> nat \<Rightarrow> nat option" where
  "unescaped_date formatCopy specifier dateIndex =
     (if dateIndex > 0 \<and> formatCopy ! (dateIndex - 1) = kFormatSpecifierChar
      then (case find_from formatCopy specifier (dateIndex + 1) of
              None \<Rightarrow> None
            | Some i \<Rightarrow> unescaped_date formatCopy specifier i)
      else Some dateIndex)"
  by pat_completeness auto
termination
proof (relation "measure (\<lambda>(str, spec, i). Suc (length str) - i)", goal_cases)
  case (2 str spec i j)
  then show ?case using occurs_at_length [of str spec j] by (auto simp: find_from_Some)
qed simp

declare unescaped_date.simps [simp del]

definition specifier_flags :: "(string \<times> FormatFlags) list" where
  "specifier_flags =
     [(kAppNameFormatSpecifier, FF_AppName), (kSeverityLevelFormatSpecifier, FF_Level),
      (kSeverityLevelShortFormatSpecifier, FF_LevelShort), (kLoggerIdFormatSpecifier, FF_LoggerId),
      (kThreadIdFormatSpecifier, FF_ThreadId), (kLogFileFormatSpecifier, FF_File),
      (kLogFileBaseFormatSpecifier, FF_FileBase), (kLogLineFormatSpecifier, FF_Line),
      (kLogLocationFormatSpecifier, FF_Location), (kLogFunctionFormatSpecifier, FF_Function),
      (kCurrentUserFormatSpecifier, FF_User), (kCurrentHostFormatSpecifier, FF_Host),
      (kMessageFormatSpecifier, FF_LogMessage), (kVerboseLevelFormatSpecifier, FF_VerboseLevel)]"

definition parseFromFormat :: "identity \<Rightarrow> string \<Rightarrow> LogFormat \<Rightarrow> LogFormat option" where
  "parseFromFormat ident userFormat lf =
     (let (formatCopy, lf1) =
            fold (\<lambda>(specifier, flag). conditionalAddFlag specifier flag) specifier_flags
              (userFormat, lf\<lparr>lf_flags := 0\<rparr>);
          done = (\<lambda>p. Some (updateFormatSpec ident ((snd p)\<lparr>lf_format := fst p\<rparr>)))
      in case find_from formatCopy kDateTimeFormatSpecifier 0 of
           None \<Rightarrow> done (formatCopy, lf1)
         | Some i \<Rightarrow>
             (case unescaped_date formatCopy kDateTimeFormatSpecifier i of
                None \<Rightarrow> None
              | Some dateIndex \<Rightarrow> done (updateDateFormat dateIndex formatCopy (lf_addFlag FF_DateTime lf1))))"

definition make_LogFormat :: "identity \<Rightarrow> Level \<Rightarrow> string \<Rightarrow> LogFormat option" where
  "make_LogFormat ident level format =
     parseFromFormat ident format (new_LogFormat\<lparr>lf_level := level, lf_userFormat := format\<rparr>)"

section \<open>Formats with a level and a message\<close>

lemma conditionalAddFlag_none:
  assumes "\<forall>j. \<not> occurs_at str spec j"
  shows "conditionalAddFlag spec flag (str, lf) = (str, lf)"
  using assms
  by (simp add: conditionalAddFlag_def conditionalAddFlag_loop.simps [of _ _ None] find_from_None [THEN iffD2])

lemma conditionalAddFlag_one:
  assumes "\<forall>j. occurs_at str spec j \<longleftrightarrow> j = i" and "i = 0 \<or> str ! (i - 1) \<noteq> kFormatSpecifierChar"
  shows "conditionalAddFlag spec flag (str, lf) = (str, if lf_hasFlag flag lf then lf else lf_addFlag flag lf)"
proof -
  have "find_from str spec 0 = Some i" using assms(1) by (simp add: find_from_Some)
  moreover have "find_from str spec (Suc i) = None" using assms(1) by (simp add: find_from_None)
  ultimately show ?thesis
    using assms(2)
    by (auto simp: conditionalAddFlag_def conditionalAddFlag_loop.simps [of _ _ None]
        conditionalAddFlag_loop.simps [of _ _ "Some i"] after_def)
qed

definition level_msg :: "string \<Rightarrow> string" where
  "level_msg b = ''%level'' @ b @ ''%msg''"

lemma drop_level_msg: "drop (6 + length b) (level_msg b) = ''%msg''"
proof -
  have parts: "level_msg b = (''%level'' @ b) @ ''%msg''" by (simp add: level_msg_def)
  have "6 + length b = length (''%level'' @ b)" by simp
  then show ?thesis unfolding parts by (simp only: drop_append length_append) simp
qed

lemma length_level_msg: "length (level_msg b) = 10 + length b"
  by (simp add: level_msg_def)

lemma occurs_level_msg:
  assumes "CHR ''%'' \<notin> set b" and "spec \<noteq> []" "hd spec = CHR ''%''"
  shows "occurs_at (level_msg b) spec j \<longleftrightarrow>
    (j = 0 \<and> prefix spec (level_msg b)) \<or> (j = 6 + length b \<and> prefix spec ''%msg'')"
proof
  assume occ: "occurs_at (level_msg b) spec j"
  then have hd: "j < length (level_msg b)" "level_msg b ! j = CHR ''%''"
    using occurs_at_hd [OF _ assms(2)] assms(3) by auto
  have parts: "level_msg b = (''%level'' @ b) @ ''%msg''" by (simp add: level_msg_def)
  have "j = 0 \<or> j = 6 + length b"
  proof (cases "j < length (''%level'' @ b)")
    case True
    then have "(''%level'' @ b) ! j = CHR ''%''" using hd unfolding parts by (simp only: nth_append if_True)
    moreover have "(''level'' @ b) ! (j - 1) \<in> set (''level'' @ b)" if "j > 0" using True that by (intro nth_mem) simp
    ultimately show ?thesis using assms(1) by (cases j) auto
  next
    case False
    then have "''%msg'' ! (j - length (''%level'' @ b)) = CHR ''%''"
      using hd unfolding parts by (simp only: nth_append if_False)
    moreover have "j - length (''%level'' @ b) < 4" using False hd(1) unfolding parts by simp
    ultimately have "j - length (''%level'' @ b) = 0"
      by (auto simp: less_Suc_eq numeral_eq_Suc)
    then show ?thesis using False by simp
  qed
  then show "(j = 0 \<and> prefix spec (level_msg b)) \<or> (j = 6 + length b \<and> prefix spec ''%msg'')"
    using occ by (elim disjE) (simp_all add: occurs_at_def drop_level_msg)
next
  assume "(j = 0 \<and> prefix spec (level_msg b)) \<or> (j = 6 + length b \<and> prefix spec ''%msg'')"
  then show "occurs_at (level_msg b) spec j"
    by (elim disjE conjE) (simp_all add: occurs_at_def drop_level_msg length_level_msg)
qed

lemma level_msg_no_spec:
  assumes "CHR ''%'' \<notin> set b"
    and "spec \<in> {''%app'', ''%levshort'', ''%logger'', ''%thread'', ''%file'', ''%fbase'', ''%line'', ''%loc'',
      ''%func'', ''%user'', ''%host'', ''%vlevel'', ''%datetime''}"
  shows "\<not> occurs_at (level_msg b) spec j"
proof -
  have "spec \<noteq> [] \<and> hd spec = CHR ''%'' \<and> \<not> prefix spec (level_msg b) \<and> \<not> prefix spec ''%msg''"
    using assms(2) by (auto simp: level_msg_def)
  then show ?thesis using occurs_level_msg [OF assms(1), of spec j] by blast
qed

lemma occurs_level:
  "CHR ''%'' \<notin> set b \<Longrightarrow> occurs_at (level_msg b) ''%level'' j \<longleftrightarrow> j = 0"
  using occurs_level_msg [of b "''%level''" j] by (simp add: level_msg_def)

lemma occurs_msg:
  "CHR ''%'' \<notin> set b \<Longrightarrow> occurs_at (level_msg b) ''%msg'' j \<longleftrightarrow> j = 6 + length b"
  using occurs_level_msg [of b "''%msg''" j] by (simp add: level_msg_def)

text \<open>The name that replaces the level.\<close>

fun level_value :: "Level \<Rightarrow> string" where
  "level_value Level_Debug = ''DEBUG''"
| "level_value Level_Info = ''INFO ''"
| "level_value Level_Warning = ''WARN ''"
| "level_value Level_Error = ''ERROR''"
| "level_value Level_Fatal = ''FATAL''"
| "level_value Level_Verbose = ''VER''"
| "level_value Level_Trace = ''TRACE''"
| "level_value _ = ''%level''"

lemma fold_specifiers:
  assumes "CHR ''%'' \<notin> set b"
  shows "fold (\<lambda>(specifier, flag). conditionalAddFlag specifier flag) specifier_flags (level_msg b, lf\<lparr>lf_flags := 0\<rparr>) =
    (level_msg b, lf\<lparr>lf_flags := addFlag (format_flag FF_LogMessage) (addFlag (format_flag FF_Level) 0)\<rparr>)"
proof -
  note none = conditionalAddFlag_none [OF allI, OF level_msg_no_spec [OF assms]]
  have level: "conditionalAddFlag ''%level'' FF_Level (level_msg b, lf) =
      (level_msg b, if lf_hasFlag FF_Level lf then lf else lf_addFlag FF_Level lf)" for lf
    using occurs_level [OF assms] by (intro conditionalAddFlag_one [where i = 0]) auto
  have last: "level_msg b ! (6 + length b - 1) \<noteq> kFormatSpecifierChar"
  proof -
    have parts: "level_msg b = (''%level'' @ b) @ ''%msg''" by (simp add: level_msg_def)
    have "level_msg b ! (5 + length b) = (''%level'' @ b) ! (5 + length b)"
      by (subst parts, subst nth_append) simp
    moreover have "(''%level'' @ b) ! (5 + length b) = last (''%level'' @ b)"
      by (subst last_conv_nth) simp_all
    moreover have "last (''%level'' @ b) \<noteq> CHR ''%''"
      using assms by (cases "b = []") (auto dest: last_in_set)
    ultimately show ?thesis by (simp only: kFormatSpecifierChar_def) simp
  qed
  have msg: "conditionalAddFlag ''%msg'' FF_LogMessage (level_msg b, lf) =
      (level_msg b, if lf_hasFlag FF_LogMessage lf then lf else lf_addFlag FF_LogMessage lf)" for lf
    using occurs_msg [OF assms] last by (intro conditionalAddFlag_one [where i = "6 + length b"]) auto
  have "\<not> lf_hasFlag FF_Level (lf\<lparr>lf_flags := 0\<rparr>)" by (simp add: lf_hasFlag_def)
  moreover have "\<not> lf_hasFlag FF_LogMessage (lf\<lparr>lf_flags := addFlag (format_flag FF_Level) 0\<rparr>)"
    by (simp add: lf_hasFlag_def hasFlag_add format_flag_disjoint)
  ultimately show ?thesis
    by (simp add: specifier_flags_def kAppNameFormatSpecifier_def kSeverityLevelFormatSpecifier_def
        kSeverityLevelShortFormatSpecifier_def kLoggerIdFormatSpecifier_def kThreadIdFormatSpecifier_def
        kLogFileFormatSpecifier_def kLogFileBaseFormatSpecifier_def kLogLineFormatSpecifier_def
        kLogLocationFormatSpecifier_def kLogFunctionFormatSpecifier_def kCurrentUserFormatSpecifier_def
        kCurrentHostFormatSpecifier_def kMessageFormatSpecifier_def kVerboseLevelFormatSpecifier_def
        none level msg lf_addFlag_def)
qed

text \<open>Replacing the level of such a format, and then its message.\<close>

lemma replace_level_level_msg:
  assumes "CHR ''%'' \<notin> set b" "CHR ''%'' \<notin> set long"
  shows "replace_level long short (level_msg b) = long @ b @ ''%msg''"
proof -
  have "replaceFirstWithEscape ([] @ ''%level'' @ (b @ ''%msg'')) ''%level'' long = [] @ long @ (b @ ''%msg'')"
    by (rule replaceFirst_found) simp_all
  then have first: "replaceFirstWithEscape (level_msg b) ''%level'' long = long @ b @ ''%msg''"
    by (simp add: level_msg_def)
  have "\<not> occurs_at (long @ b @ ''%msg'') ''%levshort'' j" for j
  proof
    assume occ: "occurs_at (long @ b @ ''%msg'') ''%levshort'' j"
    then have "(long @ b @ ''%msg'') ! j = CHR ''%''" "j + 9 \<le> length (long @ b @ ''%msg'')"
      using occurs_at_hd [OF occ] occurs_at_length [OF occ] by simp_all
    then have "CHR ''%'' \<in> set (long @ b)"
      by (auto simp: nth_append split: if_splits dest: nth_mem)
    then show False using assms by simp
  qed
  then show ?thesis
    by (simp add: replace_level_def kSeverityLevelFormatSpecifier_def kSeverityLevelShortFormatSpecifier_def first
        replaceFirst_none)
qed

lemma updateFormatSpec_level_msg:
  assumes "CHR ''%'' \<notin> set b" "\<not> lf_hasFlag FF_User lf" "\<not> lf_hasFlag FF_Host lf"
    and "lf_format lf = level_msg b"
  shows "updateFormatSpec ident lf = lf\<lparr>lf_format := level_value (lf_level lf) @ b @ ''%msg''\<rparr>"
proof -
  show ?thesis
    using assms
    by (cases "lf_level lf")
      (simp_all add: updateFormatSpec_def Let_def replace_level_level_msg kInfoLevelLogValue_def
        kDebugLevelLogValue_def kWarningLevelLogValue_def kErrorLevelLogValue_def kFatalLevelLogValue_def
        kVerboseLevelLogValue_def kTraceLevelLogValue_def, simp_all add: level_msg_def)
qed

lemma make_LogFormat_level_msg:
  assumes "CHR ''%'' \<notin> set b"
  shows "make_LogFormat ident l (level_msg b) =
    Some \<lparr>lf_level = l, lf_userFormat = level_msg b, lf_format = level_value l @ b @ ''%msg'',
      lf_dateTimeFormat = [],
      lf_flags = addFlag (format_flag FF_LogMessage) (addFlag (format_flag FF_Level) 0)\<rparr>"
proof -
  have date: "find_from (level_msg b) kDateTimeFormatSpecifier 0 = None"
    using level_msg_no_spec [OF assms] by (simp add: find_from_None kDateTimeFormatSpecifier_def)
  let ?lf = "new_LogFormat\<lparr>lf_level := l, lf_userFormat := level_msg b\<rparr>"
  let ?flags = "addFlag (format_flag FF_LogMessage) (addFlag (format_flag FF_Level) 0)"
  let ?lf1 = "(?lf\<lparr>lf_flags := ?flags\<rparr>)\<lparr>lf_format := level_msg b\<rparr>"
  have make: "make_LogFormat ident l (level_msg b) = Some (updateFormatSpec ident ?lf1)"
    unfolding make_LogFormat_def parseFromFormat_def fold_specifiers [OF assms] by (simp add: date)
  have flags: "\<not> lf_hasFlag FF_User ?lf1" "\<not> lf_hasFlag FF_Host ?lf1"
    by (simp_all add: lf_hasFlag_def hasFlag_add format_flag_disjoint del: format_flag.simps)
  have "updateFormatSpec ident ?lf1 = ?lf1\<lparr>lf_format := level_value l @ b @ ''%msg''\<rparr>"
    using updateFormatSpec_level_msg [OF assms flags] by simp
  then show ?thesis unfolding make by (simp add: new_LogFormat_def)
qed

end
