(* ===== verification/Elpp_Typed.thy ===== *)
theory Elpp_Typed
  imports Elpp_Configurations Elpp_Format Barn_World
begin

text \<open>
  The typed configurations of a logger in \<^verbatim>\<open>easylogging++.h\<close> (\<open>TypedConfigurations\<close>): the maps from
  levels to values that are built from the string configurations, and the log files that are
  opened on the way and shared between loggers.

  The calls to the system are a parameter, a record \<open>log_os\<close> over arbitrary surroundings. A stream
  is known by the name of its file, as the map of streams holds one for each name; a null pointer
  is \<open>None\<close>. What has no defined behaviour has no result (\<open>stuck\<close>).
\<close>

section \<open>Surroundings\<close>

record 'e log_os =
  lo_gettimeofday :: "(int \<times> nat, 'e) sys"
  lo_localtime :: "int \<Rightarrow> (tm, 'e) sys"
  lo_stat :: "string \<Rightarrow> (bool, 'e) sys"
  lo_mkdir :: "string \<Rightarrow> (bool, 'e) sys"
  lo_open_append :: "string \<Rightarrow> (bool, 'e) sys"
  lo_write :: "string \<Rightarrow> string \<Rightarrow> (bool, 'e) sys"
  lo_flush :: "string \<Rightarrow> (unit, 'e) sys"
  lo_size :: "string \<Rightarrow> (nat, 'e) sys"
  lo_truncate :: "string \<Rightarrow> (unit, 'e) sys"
  lo_stdout :: "string \<Rightarrow> (unit, 'e) sys"

type_synonym stream = "string option"

record 'e log_world =
  log_env :: 'e
  logStreamsReference :: "(string \<times> stream) list"

definition log_call :: "('a, 'e) sys \<Rightarrow> ('a, ('e, 'z) log_world_scheme) io" where
  "log_call c w =
     (case c (log_env w) of None \<Rightarrow> None | Some (a, e) \<Rightarrow> Some (Inr a, w\<lparr>log_env := e\<rparr>))"

definition stuck :: "('a, 'w) io" where
  "stuck w = None"

definition defined :: "'a option \<Rightarrow> ('a, 'w) io" where
  "defined v = (case v of None \<Rightarrow> stuck | Some a \<Rightarrow> ret a)"

text \<open>Running a computation for each element of a list, with a result carried along.\<close>

fun foldE :: "('a \<Rightarrow> 'b \<Rightarrow> ('b, 'w) io) \<Rightarrow> 'a list \<Rightarrow> 'b \<Rightarrow> ('b, 'w) io" where
  "foldE f [] b = ret b"
| "foldE f (x # xs) b = bindE (f x b) (foldE f xs)"

section \<open>Files\<close>

definition newFileStream :: "'e log_os \<Rightarrow> string \<Rightarrow> (stream, ('e, 'z) log_world_scheme) io" where
  "newFileStream os file =
     bindE (log_call (lo_open_append os (c_str file))) (\<lambda>is_open.
     if is_open then bindE (log_call (lo_flush os file)) (\<lambda>_. ret (Some file)) else ret None)"

definition getSizeOfFile :: "'e log_os \<Rightarrow> stream \<Rightarrow> (nat, ('e, 'z) log_world_scheme) io" where
  "getSizeOfFile os fs = (case fs of None \<Rightarrow> ret 0 | Some f \<Rightarrow> log_call (lo_size os f))"

definition pathExists :: "'e log_os \<Rightarrow> string \<Rightarrow> (bool, ('e, 'z) log_world_scheme) io" where
  "pathExists os path = log_call (lo_stat os (c_str path))"

text \<open>\<open>strtok\<close>: the parts between separators, without the empty ones.\<close>

function tokens :: "char \<Rightarrow> string \<Rightarrow> string list" where
  "tokens c s =
     (let t = dropWhile (\<lambda>x. x = c) s in
      if t = [] then [] else takeWhile (\<lambda>x. x \<noteq> c) t # tokens c (dropWhile (\<lambda>x. x \<noteq> c) t))"
  by pat_completeness auto
termination
proof (relation "measure (\<lambda>(c, s). length s)", goal_cases)
  case (2 c s t)
  then obtain x r where t: "t = x # r" by (metis neq_Nil_conv)
  then have "x \<noteq> c" using 2 hd_dropWhile [of "\<lambda>x. x = c" s] by (metis list.sel(1))
  note t = t this
  have "length t \<le> length s" using 2 by (simp add: length_dropWhile_le)
  moreover have "length (dropWhile (\<lambda>x. x \<noteq> c) t) < length t"
    using t by (simp add: le_imp_less_Suc length_dropWhile_le)
  ultimately show ?case by simp
qed simp

declare tokens.simps [simp del]

fun createPath_loop ::
  "'e log_os \<Rightarrow> string list \<Rightarrow> string \<Rightarrow> bool \<Rightarrow> (bool, ('e, 'z) log_world_scheme) io" where
  "createPath_loop os [] builtPath status = ret status"
| "createPath_loop os (currPath # parts) builtPath status =
     (let builtPath' = builtPath @ currPath @ [kFilePathSeperator] in
      bindE (log_call (lo_mkdir os builtPath')) (createPath_loop os parts builtPath'))"

definition createPath :: "'e log_os \<Rightarrow> string \<Rightarrow> (bool, ('e, 'z) log_world_scheme) io" where
  "createPath os path =
     (if path = [] then ret False
      else bindE (pathExists os path) (\<lambda>exists.
        if exists then ret True
        else createPath_loop os (tokens kFilePathSeperator (c_str path))
               (if path ! 0 = CHR ''/'' then ''/'' else []) False))"

definition now_text ::
  "'e log_os \<Rightarrow> string \<Rightarrow> MillisecondsWidth \<Rightarrow> (string, ('e, 'z) log_world_scheme) io" where
  "now_text os format msWidth =
     bindE (log_call (lo_gettimeofday os)) (\<lambda>tv.
     bindE (log_call (lo_localtime os (fst tv))) (\<lambda>timeInfo.
     defined (getDateTime (snd tv) timeInfo (c_str format) msWidth)))"

section \<open>Typed configurations\<close>

type_synonym 'v level_map = "(Level \<times> 'v) list"

record TypedConfigurations =
  m_enabledMap :: "bool level_map"
  m_toFileMap :: "bool level_map"
  m_filenameMap :: "string level_map"
  m_toStandardOutputMap :: "bool level_map"
  m_logFormatMap :: "LogFormat level_map"
  m_millisecondsWidthMap :: "MillisecondsWidth level_map"
  m_performanceTrackingMap :: "bool level_map"
  m_fileStreamMap :: "stream level_map"
  m_maxLogFileSizeMap :: "nat level_map"
  m_logFlushThresholdMap :: "nat level_map"

definition empty_TypedConfigurations :: TypedConfigurations where
  "empty_TypedConfigurations =
     \<lparr>m_enabledMap = [], m_toFileMap = [], m_filenameMap = [], m_toStandardOutputMap = [],
      m_logFormatMap = [], m_millisecondsWidthMap = [], m_performanceTrackingMap = [],
      m_fileStreamMap = [], m_maxLogFileSizeMap = [], m_logFlushThresholdMap = []\<rparr>"

text \<open>\<open>None\<close> is the dereferencing of the end of the map.\<close>

definition getConfigByRef :: "Level \<Rightarrow> 'v level_map \<Rightarrow> 'v option" where
  "getConfigByRef level confMap =
     (case map_of confMap level of None \<Rightarrow> map_of confMap Level_Global | Some v \<Rightarrow> Some v)"

definition getConfigByVal :: "'v \<Rightarrow> Level \<Rightarrow> 'v level_map \<Rightarrow> 'v" where
  "getConfigByVal dflt level confMap =
     (case map_of confMap level of
        None \<Rightarrow> (case map_of confMap Level_Global of None \<Rightarrow> dflt | Some v \<Rightarrow> v)
      | Some v \<Rightarrow> v)"

definition level_insert :: "Level \<Rightarrow> 'v \<Rightarrow> 'v level_map \<Rightarrow> 'v level_map" where
  "level_insert level v confMap =
     (if map_of confMap level = None then confMap @ [(level, v)] else confMap)"

fun level_update :: "Level \<Rightarrow> ('v \<Rightarrow> 'v) \<Rightarrow> 'v level_map \<Rightarrow> 'v level_map" where
  "level_update level f [] = []"
| "level_update level f ((l, v) # m) = (if l = level then (l, f v) # m else (l, v) # level_update level f m)"

text \<open>\<open>assign\<close> is the assignment operator of the type of the values.\<close>

definition setValue :: "('v \<Rightarrow> 'v \<Rightarrow> 'v) \<Rightarrow> Level \<Rightarrow> 'v \<Rightarrow> bool \<Rightarrow> 'v level_map \<Rightarrow> 'v level_map" where
  "setValue assign level val includeGlobalLevel confMap =
     (if confMap = [] \<and> includeGlobalLevel then level_insert Level_Global val confMap
      else if map_of confMap Level_Global = Some val then confMap
      else if map_of confMap level = None then level_insert level val confMap
      else level_update level (\<lambda>old. assign old val) confMap)"

definition plain :: "'v \<Rightarrow> 'v \<Rightarrow> 'v" where "plain old new = new"

text \<open>The accessors.\<close>

definition tc_enabled :: "Level \<Rightarrow> TypedConfigurations \<Rightarrow> bool" where
  "tc_enabled level tc = getConfigByVal False level (m_enabledMap tc)"

definition tc_toFile :: "Level \<Rightarrow> TypedConfigurations \<Rightarrow> bool" where
  "tc_toFile level tc = getConfigByVal False level (m_toFileMap tc)"

definition tc_filename :: "Level \<Rightarrow> TypedConfigurations \<Rightarrow> string option" where
  "tc_filename level tc = getConfigByRef level (m_filenameMap tc)"

definition tc_toStandardOutput :: "Level \<Rightarrow> TypedConfigurations \<Rightarrow> bool" where
  "tc_toStandardOutput level tc = getConfigByVal False level (m_toStandardOutputMap tc)"

definition tc_logFormat :: "Level \<Rightarrow> TypedConfigurations \<Rightarrow> LogFormat option" where
  "tc_logFormat level tc = getConfigByRef level (m_logFormatMap tc)"

definition tc_millisecondsWidth :: "Level \<Rightarrow> TypedConfigurations \<Rightarrow> MillisecondsWidth option" where
  "tc_millisecondsWidth level tc = getConfigByRef level (m_millisecondsWidthMap tc)"

definition tc_performanceTracking :: "Level \<Rightarrow> TypedConfigurations \<Rightarrow> bool" where
  "tc_performanceTracking level tc = getConfigByVal False level (m_performanceTrackingMap tc)"

definition tc_fileStream :: "Level \<Rightarrow> TypedConfigurations \<Rightarrow> stream option" where
  "tc_fileStream level tc = getConfigByRef level (m_fileStreamMap tc)"

definition tc_maxLogFileSize :: "Level \<Rightarrow> TypedConfigurations \<Rightarrow> nat" where
  "tc_maxLogFileSize level tc = getConfigByVal 0 level (m_maxLogFileSizeMap tc)"

definition tc_logFlushThreshold :: "Level \<Rightarrow> TypedConfigurations \<Rightarrow> nat" where
  "tc_logFlushThreshold level tc = getConfigByVal 0 level (m_logFlushThresholdMap tc)"

section \<open>Building them\<close>

definition getBool :: "string \<Rightarrow> bool" where
  "getBool boolStr = (trim boolStr = ''TRUE'' \<or> trim boolStr = ''true'' \<or> trim boolStr = ''1'')"

definition getULong :: "string \<Rightarrow> nat" where
  "getULong confVal0 =
     (let confVal = trim confVal0;
          valid = (confVal \<noteq> [] \<and> find (\<lambda>c. \<not> isDigit c) confVal = None)
      in if \<not> valid then 0 else atol_digits confVal)"

definition build_value ::
  "identity \<Rightarrow> Configuration \<Rightarrow> TypedConfigurations \<Rightarrow> TypedConfigurations option" where
  "build_value ident conf tc =
     (let t = conf_type conf; l = conf_level conf; v = conf_value conf in
      if t = CT_Enabled
      then Some (tc\<lparr>m_enabledMap := setValue plain l (getBool v) True (m_enabledMap tc)\<rparr>)
      else if t = CT_ToFile
      then Some (tc\<lparr>m_toFileMap := setValue plain l (getBool v) True (m_toFileMap tc)\<rparr>)
      else if t = CT_ToStandardOutput
      then Some (tc\<lparr>m_toStandardOutputMap := setValue plain l (getBool v) True (m_toStandardOutputMap tc)\<rparr>)
      else if t = CT_Filename then Some tc
      else if t = CT_Format
      then map_option (\<lambda>lf. tc\<lparr>m_logFormatMap := setValue assign_LogFormat l lf True (m_logFormatMap tc)\<rparr>)
             (make_LogFormat ident l v)
      else if t = CT_MillisecondsWidth
      then Some (tc\<lparr>m_millisecondsWidthMap :=
                   setValue plain Level_Global (new_MillisecondsWidth (to_int32 (int (getULong v)))) True
                     (m_millisecondsWidthMap tc)\<rparr>)
      else if t = CT_PerformanceTracking
      then Some (tc\<lparr>m_performanceTrackingMap :=
                   setValue plain Level_Global (getBool v) True (m_performanceTrackingMap tc)\<rparr>)
      else if t = CT_MaxLogFileSize
      then Some (tc\<lparr>m_maxLogFileSizeMap := setValue plain l (getULong v) True (m_maxLogFileSizeMap tc)\<rparr>)
      else if t = CT_LogFlushThreshold
      then Some (tc\<lparr>m_logFlushThresholdMap := setValue plain l (getULong v) True (m_logFlushThresholdMap tc)\<rparr>)
      else Some tc)"

fun build_values ::
  "identity \<Rightarrow> Configuration list \<Rightarrow> TypedConfigurations \<Rightarrow> TypedConfigurations option" where
  "build_values ident [] tc = Some tc"
| "build_values ident (conf # confs) tc =
     (case build_value ident conf tc of None \<Rightarrow> None | Some tc' \<Rightarrow> build_values ident confs tc')"

definition resolveFilename :: "'e log_os \<Rightarrow> string \<Rightarrow> (string, ('e, 'z) log_world_scheme) io" where
  "resolveFilename os name =
     (case find_from name kDateTimeFormatSpecifier 0 of
        None \<Rightarrow> ret name
      | Some i \<Rightarrow>
          bindE (defined (unescaped_date name kDateTimeFormatSpecifier i)) (\<lambda>dateIndex.
          let at = dateIndex + length kDateTimeFormatSpecifier;
              braces = (length name > dateIndex \<and> length name > at \<and> name ! at = CHR ''{'');
              ptr = drop (at + 1) name;
              inner = takeWhile (\<lambda>c. c \<noteq> NUL \<and> c \<noteq> CHR ''}'') ptr;
              count = (case drop (length inner) ptr of
                         c # _ \<Rightarrow> if c = CHR ''}'' then length inner + 2 else length inner + 1
                       | [] \<Rightarrow> length inner + 1);
              resulting = (if braces then str_replace name at count [] else name);
              fmt = (if braces then inner else kDefaultDateTimeFormatInFilename)
          in bindE (now_text os fmt (new_MillisecondsWidth 3)) (\<lambda>now.
             defined (replaceAll resulting kDateTimeFormatSpecifier (replaceAll_char now CHR ''/'' CHR ''-'')))))"

definition insertFile_create ::
  "'e log_os \<Rightarrow> string \<Rightarrow> Level \<Rightarrow> TypedConfigurations \<Rightarrow> (TypedConfigurations, ('e, 'z) log_world_scheme) io" where
  "insertFile_create os resolvedFilename level tc =
     bindE (getE logStreamsReference) (\<lambda>refs.
     bindE
       (case map_of refs resolvedFilename of
          None \<Rightarrow>
            bindE (newFileStream os resolvedFilename) (\<lambda>fs.
            let tc' = tc\<lparr>m_filenameMap := level_insert level resolvedFilename (m_filenameMap tc),
                         m_fileStreamMap := level_insert level fs (m_fileStreamMap tc)\<rparr>
            in thenE (modifyE (\<lambda>w. w\<lparr>logStreamsReference :=
                        map_insert resolvedFilename (the (map_of (m_fileStreamMap tc') level))
                          (logStreamsReference w)\<rparr>))
                 (ret (fs, tc')))
        | Some fs \<Rightarrow>
            ret (fs, tc\<lparr>m_filenameMap := level_insert level resolvedFilename (m_filenameMap tc),
                        m_fileStreamMap := level_insert level fs (m_fileStreamMap tc)\<rparr>))
       (\<lambda>(fs, tc').
          ret (if fs = None then tc'\<lparr>m_toFileMap := setValue plain level False True (m_toFileMap tc')\<rparr>
               else tc')))"

definition insertFile ::
  "'e log_os \<Rightarrow> Level \<Rightarrow> string \<Rightarrow> TypedConfigurations \<Rightarrow> (TypedConfigurations, ('e, 'z) log_world_scheme) io" where
  "insertFile os level fullFilename tc =
     bindE (resolveFilename os fullFilename) (\<lambda>resolvedFilename.
     let filePath = extractPathFromFilename resolvedFilename in
     bindE (if length filePath < length resolvedFilename then createPath os filePath else ret True) (\<lambda>_.
     insertFile_create os resolvedFilename
       (if m_filenameMap tc = [] \<and> m_fileStreamMap tc = [] then Level_Global else level) tc))"

type_synonym 'e preRollOut = "string \<Rightarrow> nat \<Rightarrow> (unit, 'e) sys"

definition defaultPreRollOutCallback :: "'e preRollOut" where
  "defaultPreRollOutCallback name sz e = Some ((), e)"

definition unsafeValidateFileRolling ::
  "'e log_os \<Rightarrow> Level \<Rightarrow> 'e preRollOut \<Rightarrow> TypedConfigurations \<Rightarrow> (bool, ('e, 'z) log_world_scheme) io" where
  "unsafeValidateFileRolling os level preRollOutCallback tc =
     bindE (defined (tc_fileStream level tc)) (\<lambda>fs.
     case fs of
       None \<Rightarrow> ret True
     | Some f \<Rightarrow>
         bindE (getSizeOfFile os fs) (\<lambda>currFileSize.
         let maxLogFileSize = tc_maxLogFileSize level tc in
         if maxLogFileSize \<noteq> 0 \<and> currFileSize \<ge> maxLogFileSize
         then
           bindE (defined (tc_filename level tc)) (\<lambda>fname.
           bindE (log_call (preRollOutCallback fname currFileSize)) (\<lambda>_.
           bindE (log_call (lo_truncate os f)) (\<lambda>_.
           ret True)))
         else ret False))"

text \<open>\<open>with_file_size_limit\<close> are the configurations whose file is checked at the end.\<close>

definition build ::
  "'e log_os \<Rightarrow> identity \<Rightarrow> Configurations \<Rightarrow> (TypedConfigurations, ('e, 'z) log_world_scheme) io" where
  "build os ident configurations =
     (let confs = conf_list configurations in
      bindE (defined (build_values ident confs empty_TypedConfigurations)) (\<lambda>tc1.
      bindE (foldE (\<lambda>conf. insertFile os (conf_level conf) (conf_value conf))
               (filter (\<lambda>conf. conf_type conf = CT_Filename) confs) tc1) (\<lambda>tc2.
      foldE (\<lambda>conf tc. bindE (unsafeValidateFileRolling os (conf_level conf) defaultPreRollOutCallback tc) (\<lambda>_. ret tc))
        (filter (\<lambda>conf. conf_type conf = CT_MaxLogFileSize) confs) tc2)))"

section \<open>What the maps hold\<close>

text \<open>
  The entries of one type, in their order, and the map they are built into. The first entry
  goes to the global level whatever its own level is, and later entries of the same value are
  left out.
\<close>

definition entries_of :: "ConfigurationType \<Rightarrow> Configuration list \<Rightarrow> Configuration list" where
  "entries_of t confs = filter (\<lambda>c. conf_type c = t) confs"

definition typed_map :: "('v \<Rightarrow> 'v \<Rightarrow> 'v) \<Rightarrow> (Level \<times> 'v) list \<Rightarrow> 'v level_map \<Rightarrow> 'v level_map" where
  "typed_map assign entries m = fold (\<lambda>(l, v). setValue assign l v True) entries m"

lemma map_of_append_one: "map_of (m @ [(k, v)]) x = (case map_of m x of None \<Rightarrow> if x = k then Some v else None | Some y \<Rightarrow> Some y)"
  by (simp add: map_add_def split: option.split)

lemma setValue_fresh:
  assumes "map_of m Level_Global = Some gv" and "map_of m l = None"
  shows "map_of (setValue assign l v True m) x = (if x = l \<and> v \<noteq> gv then Some v else map_of m x)"
proof -
  have "m \<noteq> []" using assms by auto
  then show ?thesis
    using assms by (auto simp del: map_of_append simp: setValue_def level_insert_def map_of_append_one split: option.split)
qed

lemma getConfigByRef_step:
  assumes "map_of m Level_Global = Some gv" "map_of m l = None" "l \<noteq> Level_Global"
  shows "getConfigByRef x (setValue assign l v True m) = (if x = l then Some v else getConfigByRef x m)"
    and "map_of (setValue assign l v True m) Level_Global = Some gv"
    and "y \<noteq> l \<Longrightarrow> map_of (setValue assign l v True m) y = map_of m y"
  using assms by (auto simp: getConfigByRef_def setValue_fresh split: option.split)

lemma typed_map_step:
  assumes "distinct (map fst es)" "Level_Global \<notin> fst ` set es"
    and "map_of m Level_Global = Some gv" "\<forall>(l, v) \<in> set es. map_of m l = None"
  shows "getConfigByRef l (typed_map assign es m) =
    (case map_of es l of Some v \<Rightarrow> Some v | None \<Rightarrow> getConfigByRef l m)"
  using assms
proof (induction es arbitrary: m)
  case Nil
  then show ?case by (simp add: typed_map_def)
next
  case (Cons e es)
  obtain k v where e: "e = (k, v)" by fastforce
  have k: "map_of m k = None" "k \<noteq> Level_Global" using Cons.prems e by auto
  let ?m = "setValue assign k v True m"
  note step = getConfigByRef_step [OF Cons.prems(3) k]
  have global: "map_of ?m Level_Global = Some gv" by (rule step(2))
  have es: "map_of es k = None" using Cons.prems(1) e by (auto simp: map_of_eq_None_iff)
  have "map_of ?m l = None" if "(l, v') \<in> set es" for l v'
  proof -
    have "l \<noteq> k" using that Cons.prems(1) e by (auto simp: image_iff)
    moreover have "map_of m l = None" using that Cons.prems(4) by auto
    ultimately show ?thesis by (simp add: step(3))
  qed
  then have "getConfigByRef l (typed_map assign es ?m) =
      (case map_of es l of Some v \<Rightarrow> Some v | None \<Rightarrow> getConfigByRef l ?m)"
    using Cons.IH [OF _ _ global] Cons.prems(1,2) by auto
  moreover have "typed_map assign (e # es) m = typed_map assign es ?m" by (simp add: typed_map_def e)
  ultimately show ?case using es by (auto simp: e step(1) split: option.splits)
qed

text \<open>With the global level first, if it is there at all, every level has the value set for it.\<close>

lemma typed_map_lookup:
  assumes "distinct (map fst es)" "Level_Global \<notin> fst ` set (tl es)" and "map_of es l = Some v"
  shows "getConfigByRef l (typed_map assign es []) = Some v"
proof -
  obtain l0 gv rest where es: "es = (l0, gv) # rest" using assms(3) by (cases es) auto
  have first: "setValue assign l0 gv True [] = [(Level_Global, gv)]"
    by (simp add: setValue_def level_insert_def)
  have "getConfigByRef l (typed_map assign rest [(Level_Global, gv)]) =
      (case map_of rest l of Some v \<Rightarrow> Some v | None \<Rightarrow> getConfigByRef l [(Level_Global, gv)])"
    using assms(1,2) es by (intro typed_map_step [where gv = gv]) (auto simp: image_iff)
  moreover have "typed_map assign es [] = typed_map assign rest [(Level_Global, gv)]"
    by (simp add: typed_map_def es first)
  moreover have "getConfigByRef x [(Level_Global, gv)] = Some gv" for x by (simp add: getConfigByRef_def)
  moreover have "map_of rest l0 = None" using assms(1) es by (simp add: map_of_eq_None_iff)
  ultimately show ?thesis using assms(3) es by (auto split: option.splits if_splits)
qed

lemma getConfigByVal_Ref: "getConfigByRef l m = Some v \<Longrightarrow> getConfigByVal d l m = v"
  by (auto simp: getConfigByVal_def getConfigByRef_def split: option.splits)

text \<open>What is set for the global level alone, with the level of each entry left out: the last one stays.\<close>

lemma typed_map_global:
  "es \<noteq> [] \<Longrightarrow> typed_map plain (map (\<lambda>v. (Level_Global, v)) es) [] = [(Level_Global, last es)]"
proof (induction es rule: rev_induct)
  case (snoc v es)
  have "setValue plain Level_Global v True (typed_map plain (map (\<lambda>v. (Level_Global, v)) es) []) =
      [(Level_Global, v)]"
  proof (cases "es = []")
    case True
    then show ?thesis by (simp add: typed_map_def setValue_def level_insert_def)
  next
    case False
    then show ?thesis using snoc.IH by (simp add: setValue_def plain_def [abs_def])
  qed
  then show ?case by (simp add: typed_map_def)
qed simp

section \<open>From configurations to typed values\<close>

definition typed_entries :: "(Configuration \<Rightarrow> 'v) \<Rightarrow> ConfigurationType \<Rightarrow> Configuration list \<Rightarrow> (Level \<times> 'v) list" where
  "typed_entries f t confs = map (\<lambda>c. (conf_level c, f c)) (entries_of t confs)"

text \<open>
  Configurations that grew from the defaults: of every type the first entry is that of the global
  level.
\<close>

definition first_level :: "ConfigurationType \<Rightarrow> Configuration list \<Rightarrow> Level option" where
  "first_level t confs = map_option conf_level (find (\<lambda>c. conf_type c = t) confs)"

definition conf_based :: "Configurations \<Rightarrow> bool" where
  "conf_based cs \<longleftrightarrow> (\<forall>t. t \<noteq> CT_Unknown \<longrightarrow> first_level t (conf_list cs) = Some Level_Global)"

lemma first_level_set_first: "first_level t (set_first p v cs) = first_level t cs"
  by (induction cs) (auto simp: first_level_def)

lemma first_level_append: "first_level t cs = Some l \<Longrightarrow> first_level t (cs @ ds) = Some l"
  by (auto simp: first_level_def find_append)

lemma based_entry: "conf_based cs \<Longrightarrow> conf_based (unsafeSet_entry l t v cs)"
  by (auto simp: conf_based_def unsafeSet_entry_def first_level_set_first first_level_append split: option.splits)

lemma based_fold: "(\<And>x cs. conf_based cs \<Longrightarrow> conf_based (f x cs)) \<Longrightarrow> conf_based cs \<Longrightarrow> conf_based (fold f xs cs)"
  by (induction xs arbitrary: cs) auto

lemma based_unsafeSet: "conf_based cs \<Longrightarrow> conf_based (unsafeSet l t v cs)"
  unfolding unsafeSet_fold by (rule based_fold) (rule based_entry)

lemma based_conf_set: "conf_based cs \<Longrightarrow> conf_based (conf_set l t v cs)"
  by (simp add: conf_set_def Let_def unsafeSetGlobally_loop based_fold based_entry based_unsafeSet)

lemma based_setFromBase: "conf_based cs \<Longrightarrow> conf_based (setFromBase base cs)"
  by (auto simp: setFromBase_def intro!: based_fold based_conf_set split: option.splits)

text \<open>What building the values makes of the entries of each type.\<close>

lemma build_values_maps:
  assumes "build_values ident confs tc = Some tc'"
  shows "m_enabledMap tc' = typed_map plain (typed_entries (\<lambda>c. getBool (conf_value c)) CT_Enabled confs) (m_enabledMap tc)"
    and "m_toFileMap tc' = typed_map plain (typed_entries (\<lambda>c. getBool (conf_value c)) CT_ToFile confs) (m_toFileMap tc)"
    and "m_toStandardOutputMap tc' =
      typed_map plain (typed_entries (\<lambda>c. getBool (conf_value c)) CT_ToStandardOutput confs) (m_toStandardOutputMap tc)"
    and "m_logFormatMap tc' =
      typed_map assign_LogFormat (typed_entries (\<lambda>c. the (make_LogFormat ident (conf_level c) (conf_value c))) CT_Format confs)
        (m_logFormatMap tc)"
    and "m_maxLogFileSizeMap tc' =
      typed_map plain (typed_entries (\<lambda>c. getULong (conf_value c)) CT_MaxLogFileSize confs) (m_maxLogFileSizeMap tc)"
    and "m_logFlushThresholdMap tc' =
      typed_map plain (typed_entries (\<lambda>c. getULong (conf_value c)) CT_LogFlushThreshold confs) (m_logFlushThresholdMap tc)"
    and "m_millisecondsWidthMap tc' =
      typed_map plain (map (\<lambda>v. (Level_Global, v))
        (map (\<lambda>c. new_MillisecondsWidth (to_int32 (int (getULong (conf_value c))))) (entries_of CT_MillisecondsWidth confs)))
        (m_millisecondsWidthMap tc)"
    and "m_filenameMap tc' = m_filenameMap tc" "m_fileStreamMap tc' = m_fileStreamMap tc"
    and "\<forall>c \<in> set (entries_of CT_Format confs). make_LogFormat ident (conf_level c) (conf_value c) \<noteq> None"
  using assms
  by (induction confs arbitrary: tc)
    (auto simp: typed_map_def typed_entries_def entries_of_def build_value_def Let_def split: option.splits if_splits)

text \<open>An entry of configurations without doubles is the entry of its level among those of its type.\<close>

lemma entries_distinct: "conf_wf cs \<Longrightarrow> distinct (map conf_level (entries_of t (conf_list cs)))"
proof -
  have "distinct (map (\<lambda>c. (conf_level c, conf_type c)) cs) \<Longrightarrow> distinct (map conf_level (entries_of t cs))" for cs
    by (induction cs) (auto simp: entries_of_def)
  then show "conf_wf cs \<Longrightarrow> distinct (map conf_level (entries_of t (conf_list cs)))" by (simp add: conf_wf_def)
qed

lemma entry_lookup:
  "conf_get l t cs = Some c \<Longrightarrow> map_of (typed_entries f t (conf_list cs)) l = Some (f c)"
proof -
  have "find (conf_predicate l t) cs = Some c \<Longrightarrow> map_of (typed_entries f t cs) l = Some (f c)" for cs
    by (induction cs) (auto simp: typed_entries_def entries_of_def conf_predicate_def split: if_splits)
  then show "conf_get l t cs = Some c \<Longrightarrow> map_of (typed_entries f t (conf_list cs)) l = Some (f c)"
    by (simp add: conf_get_def)
qed

lemma based_global_first:
  assumes "conf_wf cs" "conf_based cs" "t \<noteq> CT_Unknown"
  shows "distinct (map fst (typed_entries f t (conf_list cs)))"
    and "Level_Global \<notin> fst ` set (tl (typed_entries f t (conf_list cs)))"
proof -
  have fst: "map fst (typed_entries f t cs') = map conf_level (entries_of t cs')" for cs'
    by (simp add: typed_entries_def comp_def)
  show d: "distinct (map fst (typed_entries f t (conf_list cs)))"
    using entries_distinct [OF assms(1)] by (simp add: fst)
  have "first_level t cs' = (case entries_of t cs' of [] \<Rightarrow> None | c # _ \<Rightarrow> Some (conf_level c))" for cs'
    by (induction cs') (auto simp: first_level_def entries_of_def)
  then obtain c es where "entries_of t (conf_list cs) = c # es" "conf_level c = Level_Global"
    using assms(2,3) by (auto simp: conf_based_def split: list.splits)
  then show "Level_Global \<notin> fst ` set (tl (typed_entries f t (conf_list cs)))"
    using d by (auto simp: typed_entries_def comp_def)
qed

lemma typed_lookup:
  assumes "conf_wf cs" "conf_based cs" "t \<noteq> CT_Unknown" and "conf_get l t cs = Some c"
  shows "getConfigByRef l (typed_map assign (typed_entries f t (conf_list cs)) []) = Some (f c)"
  using typed_map_lookup [OF based_global_first [OF assms(1,2,3)] entry_lookup [OF assms(4)]] .

lemma conf_get_Some: "conf_get l t cs = Some c \<Longrightarrow> conf_level c = l \<and> conf_type c = t \<and> c \<in> set (conf_list cs)"
  by (auto simp: conf_get_def conf_predicate_def find_Some_iff)

text \<open>The first level of a type, once there is one, stays.\<close>

definition or_else :: "'a option \<Rightarrow> 'a option \<Rightarrow> 'a option" where
  "or_else a b = (case a of None \<Rightarrow> b | Some x \<Rightarrow> Some x)"

lemma or_else_simps [simp]: "or_else None b = b" "or_else (Some x) b = Some x" "or_else a None = a"
  by (simp_all add: or_else_def split: option.split)

lemma or_else_assoc: "or_else (or_else a b) c = or_else a (or_else b c)"
  by (simp add: or_else_def split: option.split)

definition cs_first :: "ConfigurationType \<Rightarrow> Configurations \<Rightarrow> Level option" where
  "cs_first t cs = first_level t (conf_list cs)"

lemma first_entry:
  "cs_first t' (unsafeSet_entry l t v cs) = or_else (cs_first t' cs) (if t' = t then Some l else None)"
proof (cases "conf_get l t cs")
  case None
  then show ?thesis
    by (auto simp: cs_first_def unsafeSet_entry_def first_level_def find_append or_else_def split: option.split)
next
  case (Some c)
  then have "cs_first t cs \<noteq> None"
    using conf_get_Some [OF Some] by (auto simp: cs_first_def first_level_def find_None_iff)
  then show ?thesis
    using Some by (auto simp: cs_first_def unsafeSet_entry_def first_level_set_first)
qed

lemma first_fold:
  "cs_first t' (fold (\<lambda>l. unsafeSet_entry l t v) ls cs) =
     or_else (cs_first t' cs) (if t' = t \<and> ls \<noteq> [] then Some (hd ls) else None)"
  by (induction ls arbitrary: cs) (auto simp: first_entry or_else_assoc)

lemma first_conf_set:
  "cs_first t' (conf_set l t v cs) = or_else (cs_first t' cs) (if t' = t then Some l else None)"
  by (auto simp: conf_set_def Let_def unsafeSetGlobally_loop unsafeSet_fold first_fold first_entry or_else_assoc)

lemma first_fold_conf_set:
  "cs_first t' (fold (\<lambda>l. conf_set l t v) ls cs) =
     or_else (cs_first t' cs) (if t' = t \<and> ls \<noteq> [] then Some (hd ls) else None)"
  by (induction ls arbitrary: cs) (auto simp: first_conf_set or_else_assoc)

lemma first_setGlobally:
  "cs_first t' (setGlobally t v True cs) = or_else (cs_first t' cs) (if t' = t then Some Level_Global else None)"
  by (auto simp: setGlobally_fold first_fold_conf_set first_conf_set or_else_assoc)

lemma default_based: "conf_based (setToDefault new_Configurations)"
proof -
  have "cs_first t new_Configurations = None" for t
    by (simp add: cs_first_def first_level_def new_Configurations_def)
  then have "cs_first t (setToDefault new_Configurations) = Some Level_Global" if "t \<noteq> CT_Unknown" for t
    using that by (cases t) (simp_all add: setToDefault_def first_conf_set first_setGlobally)
  then show ?thesis by (simp add: conf_based_def cs_first_def)
qed

lemma default_wf: "conf_wf (setToDefault new_Configurations)"
  by (rule wf_setToDefault) (simp add: conf_wf_def new_Configurations_def)

lemma entries_of_append: "entries_of t (xs @ ys) = entries_of t xs @ entries_of t ys"
  by (simp add: entries_of_def)

lemma typed_lookup_val:
  assumes "conf_wf cs" "conf_based cs" "t \<noteq> CT_Unknown" and "conf_get l t cs = Some c"
  shows "getConfigByVal d l (typed_map assign (typed_entries f t (conf_list cs)) []) = f c"
  by (rule getConfigByVal_Ref) (rule typed_lookup [OF assms])

definition example_configurations :: Configurations where
  "example_configurations =
     \<lparr>conf_list =
        [\<lparr>conf_level = Level_Global, conf_type = CT_Enabled, conf_value = ''true''\<rparr>,
         \<lparr>conf_level = Level_Debug, conf_type = CT_Enabled, conf_value = ''false''\<rparr>,
         \<lparr>conf_level = Level_Global, conf_type = CT_Filename, conf_value = ''agent.log''\<rparr>,
         \<lparr>conf_level = Level_Global, conf_type = CT_ToFile, conf_value = ''true''\<rparr>,
         \<lparr>conf_level = Level_Global, conf_type = CT_ToStandardOutput, conf_value = ''true''\<rparr>,
         \<lparr>conf_level = Level_Global, conf_type = CT_MillisecondsWidth, conf_value = ''3''\<rparr>,
         \<lparr>conf_level = Level_Info, conf_type = CT_MillisecondsWidth, conf_value = ''6''\<rparr>,
         \<lparr>conf_level = Level_Global, conf_type = CT_PerformanceTracking, conf_value = ''true''\<rparr>,
         \<lparr>conf_level = Level_Global, conf_type = CT_MaxLogFileSize, conf_value = ''0''\<rparr>,
         \<lparr>conf_level = Level_Global, conf_type = CT_LogFlushThreshold, conf_value = ''0''\<rparr>,
         \<lparr>conf_level = Level_Global, conf_type = CT_Format, conf_value = level_msg '' : ''\<rparr>],
      configurationFile = [], isFromFile = False\<rparr>"

lemma example_ok: "conf_wf example_configurations" "conf_based example_configurations"
  subgoal by (simp add: conf_wf_def example_configurations_def)
  subgoal
    unfolding conf_based_def
  proof (intro allI impI)
    fix t assume "t \<noteq> CT_Unknown"
    then show "first_level t (conf_list example_configurations) = Some Level_Global"
      by (cases t) (simp_all add: first_level_def example_configurations_def)
  qed
  done

lemma example_built: "\<exists>tc. build_values ident (conf_list example_configurations) empty_TypedConfigurations = Some tc"
  by (simp add: example_configurations_def build_value_def Let_def make_LogFormat_level_msg)

section \<open>Properties\<close>

text \<open>
  In configurations that grew from the defaults, every typed value is what the string set for
  its level says.
\<close>

lemma typed_values:
  assumes "conf_wf cs" "conf_based cs" and "build_values ident (conf_list cs) empty_TypedConfigurations = Some tc"
    and "conf_get l t cs = Some c"
  shows "(t = CT_Enabled \<longrightarrow> tc_enabled l tc = getBool (conf_value c)) \<and>
    (t = CT_ToFile \<longrightarrow> tc_toFile l tc = getBool (conf_value c)) \<and>
    (t = CT_ToStandardOutput \<longrightarrow> tc_toStandardOutput l tc = getBool (conf_value c)) \<and>
    (t = CT_Format \<longrightarrow> tc_logFormat l tc = make_LogFormat ident l (conf_value c)) \<and>
    (t = CT_MaxLogFileSize \<longrightarrow> tc_maxLogFileSize l tc = getULong (conf_value c)) \<and>
    (t = CT_LogFlushThreshold \<longrightarrow> tc_logFlushThreshold l tc = getULong (conf_value c))"
proof (intro conjI impI)
  note maps = build_values_maps [OF assms(3)]
  note lookup = typed_lookup [OF assms(1,2) _ assms(4)] typed_lookup_val [OF assms(1,2) _ assms(4)]
  note tc = tc_enabled_def tc_toFile_def tc_toStandardOutput_def tc_logFormat_def tc_maxLogFileSize_def
    tc_logFlushThreshold_def empty_TypedConfigurations_def
  show "tc_enabled l tc = getBool (conf_value c)" if "t = CT_Enabled"
    using lookup that maps(1) by (simp add: tc)
  show "tc_toFile l tc = getBool (conf_value c)" if "t = CT_ToFile"
    using lookup that maps(2) by (simp add: tc)
  show "tc_toStandardOutput l tc = getBool (conf_value c)" if "t = CT_ToStandardOutput"
    using lookup that maps(3) by (simp add: tc)
  show "tc_maxLogFileSize l tc = getULong (conf_value c)" if "t = CT_MaxLogFileSize"
    using lookup that maps(5) by (simp add: tc)
  show "tc_logFlushThreshold l tc = getULong (conf_value c)" if "t = CT_LogFlushThreshold"
    using lookup that maps(6) by (simp add: tc)
  show "tc_logFormat l tc = make_LogFormat ident l (conf_value c)" if t: "t = CT_Format"
  proof -
    have c: "conf_level c = l" "c \<in> set (entries_of CT_Format (conf_list cs))"
      using conf_get_Some [OF assms(4)] t by (auto simp: entries_of_def)
    then have "make_LogFormat ident l (conf_value c) \<noteq> None" using maps(10) by auto
    moreover have "tc_logFormat l tc = Some (the (make_LogFormat ident (conf_level c) (conf_value c)))"
      using lookup t maps(4) by (simp add: tc)
    ultimately show ?thesis using c by auto
  qed
qed

lemma typed_values_witness:
  "\<exists>tc. build_values (\<lparr>s_currentUser = ''barn'', s_currentHost = ''host''\<rparr>) (conf_list example_configurations)
      empty_TypedConfigurations = Some tc \<and> \<not> tc_enabled Level_Debug tc"
proof -
  let ?ident = "\<lparr>s_currentUser = ''barn'', s_currentHost = ''host''\<rparr>"
  obtain tc where tc: "build_values ?ident (conf_list example_configurations) empty_TypedConfigurations = Some tc"
    using example_built by blast
  have "conf_get Level_Debug CT_Enabled example_configurations =
      Some \<lparr>conf_level = Level_Debug, conf_type = CT_Enabled, conf_value = ''false''\<rparr>"
    by (simp add: conf_get_def conf_predicate_def example_configurations_def)
  from typed_values [OF example_ok tc this]
  have "\<not> tc_enabled Level_Debug tc" by (simp add: getBool_def trim_id is_space_def)
  then show ?thesis using tc by blast
qed

text \<open>
  The number of digits of a fraction of a second is the one that the last entry sets, for
  whatever level that is, and not the one set for the global level.
\<close>

lemma width_of_last_level:
  assumes "build_values ident (conf_list cs) empty_TypedConfigurations = Some tc"
    and "entries_of CT_MillisecondsWidth (conf_list cs) = es @ [c]"
  shows "tc_millisecondsWidth l tc = Some (new_MillisecondsWidth (to_int32 (int (getULong (conf_value c)))))"
proof -
  have snoc: "typed_map plain (map (Pair Level_Global) vs @ [(Level_Global, v)]) [] = [(Level_Global, v)]"
    for vs :: "MillisecondsWidth list" and v
    using typed_map_global [of "vs @ [v]"] by simp
  have "m_millisecondsWidthMap tc =
      [(Level_Global, new_MillisecondsWidth (to_int32 (int (getULong (conf_value c)))))]"
    unfolding build_values_maps(7) [OF assms(1)] assms(2) empty_TypedConfigurations_def
    by (simp add: snoc del: map_map)
  then show ?thesis by (simp add: tc_millisecondsWidth_def getConfigByRef_def)
qed

lemma width_of_last_level_witness:
  "\<exists>tc. build_values (\<lparr>s_currentUser = ''barn'', s_currentHost = ''host''\<rparr>) (conf_list example_configurations)
      empty_TypedConfigurations = Some tc \<and>
    tc_millisecondsWidth Level_Error tc = Some (new_MillisecondsWidth (to_int32 (int (getULong ''6''))))"
proof -
  let ?ident = "\<lparr>s_currentUser = ''barn'', s_currentHost = ''host''\<rparr>"
  obtain tc where tc: "build_values ?ident (conf_list example_configurations) empty_TypedConfigurations = Some tc"
    using example_built by blast
  have "entries_of CT_MillisecondsWidth (conf_list example_configurations) =
      [\<lparr>conf_level = Level_Global, conf_type = CT_MillisecondsWidth, conf_value = ''3''\<rparr>] @
      [\<lparr>conf_level = Level_Info, conf_type = CT_MillisecondsWidth, conf_value = ''6''\<rparr>]"
    by (simp add: entries_of_def example_configurations_def)
  from width_of_last_level [OF tc this] show ?thesis using tc by auto
qed

end
