(* ===== verification/Elpp_Verbose.thy ===== *)
theory Elpp_Verbose
  imports Elpp_Enums Elpp_Str
begin

text \<open>
  Which log statements of \<^verbatim>\<open>easylogging++.h\<close> are let through: the command line arguments that
  set verbose levels (\<open>CommandLineArgs\<close>), the registry of verbose levels by module
  (\<open>VRegistry\<close>), and the counters behind the macros that log every n-th time, after n times or
  n times (\<open>RegisteredHitCounters\<close>).
\<close>

section \<open>Command line arguments\<close>

record CommandLineArgs =
  m_params :: "string list"
  m_paramsWithValue :: "(string \<times> string) list"

definition new_CommandLineArgs :: CommandLineArgs where
  "new_CommandLineArgs = \<lparr>m_params = [], m_paramsWithValue = []\<rparr>"

definition hasParamWithValue :: "string \<Rightarrow> CommandLineArgs \<Rightarrow> bool" where
  "hasParamWithValue paramKey args \<longleftrightarrow> map_of (m_paramsWithValue args) paramKey \<noteq> None"

text \<open>Only called for keys that have a value.\<close>

definition getParamValue :: "string \<Rightarrow> CommandLineArgs \<Rightarrow> string" where
  "getParamValue paramKey args = the (map_of (m_paramsWithValue args) paramKey)"

definition hasParam :: "string \<Rightarrow> CommandLineArgs \<Rightarrow> bool" where
  "hasParam paramKey args \<longleftrightarrow> paramKey \<in> set (m_params args)"

definition args_empty :: "CommandLineArgs \<Rightarrow> bool" where
  "args_empty args \<longleftrightarrow> m_params args = [] \<and> m_paramsWithValue args = []"

definition args_size :: "CommandLineArgs \<Rightarrow> nat" where
  "args_size args = length (m_params args) + length (m_paramsWithValue args)"

definition setArg :: "string \<Rightarrow> CommandLineArgs \<Rightarrow> CommandLineArgs" where
  "setArg arg args =
     (case find_from arg ''='' 0 of
        Some v \<Rightarrow>
          let key = take v arg in
          if hasParamWithValue key args then args
          else args\<lparr>m_paramsWithValue := map_insert key (drop (v + 1) arg) (m_paramsWithValue args)\<rparr>
      | None \<Rightarrow> if hasParam arg args then args else args\<lparr>m_params := m_params args @ [arg]\<rparr>)"

text \<open>\<open>argv\<close> is empty for \<open>argc == 0\<close> and for a null pointer.\<close>

definition setArgs :: "string list \<Rightarrow> CommandLineArgs" where
  "setArgs argv = fold setArg (tl argv) new_CommandLineArgs"

section \<open>Verbose levels\<close>

record VRegistry =
  m_vlevel :: int
  m_modules :: "(string \<times> int) list"

definition kMaxVerboseLevel :: int where "kMaxVerboseLevel = 9"

definition setLevel :: "int \<Rightarrow> VRegistry \<Rightarrow> VRegistry" where
  "setLevel level r =
     (if level < 0 then r\<lparr>m_vlevel := 0\<rparr>
      else if level > 9 then r\<lparr>m_vlevel := kMaxVerboseLevel\<rparr>
      else r\<lparr>m_vlevel := level\<rparr>)"

definition clearModules :: "VRegistry \<Rightarrow> VRegistry" where
  "clearModules r = r\<lparr>m_modules := []\<rparr>"

definition addSuffix :: "string \<Rightarrow> string \<Rightarrow> string option \<Rightarrow> string" where
  "addSuffix ss sfx prev =
     (let ss1 = (case prev of
                   None \<Rightarrow> ss
                 | Some p \<Rightarrow> if endsWith ss p then take (length ss - length p) ss else ss);
          ss2 = (if endsWith ss1 sfx then take (length ss1 - length sfx) ss1 else ss1)
      in ss2 @ sfx)"

type_synonym modules = "(string \<times> int) list"

definition insert_suffixed :: "string \<Rightarrow> string option \<Rightarrow> int \<Rightarrow> string \<times> modules \<Rightarrow> string \<times> modules" where
  "insert_suffixed sfx prev level p =
     (let ss = addSuffix (fst p) sfx prev in (ss, map_insert ss level (snd p)))"

definition insert_module :: "EnumType \<Rightarrow> string \<Rightarrow> int \<Rightarrow> modules \<Rightarrow> modules" where
  "insert_module flags ss level ms =
     (if \<not> hasFlag (logging_flag DisableVModulesExtensions) flags
      then
        let p1 = insert_suffixed ''.h'' None level (ss, ms);
            p2 = insert_suffixed ''.c'' (Some ''.h'') level p1;
            p3 = insert_suffixed ''.cpp'' (Some ''.c'') level p2;
            p4 = insert_suffixed ''.cc'' (Some ''.cpp'') level p3;
            p5 = insert_suffixed ''.cxx'' (Some ''.cc'') level p4;
            p6 = insert_suffixed ''.-inl.h'' (Some ''.cxx'') level p5;
            p7 = insert_suffixed ''.hxx'' (Some ''.-inl.h'') level p6;
            p8 = insert_suffixed ''.hpp'' (Some ''.hxx'') level p7
        in snd (insert_suffixed ''.hh'' (Some ''.hpp'') level p8)
      else map_insert ss level ms)"

record modules_state =
  isMod :: bool
  ms_isLevel :: bool
  ms_ss :: string
  ms_level :: int
  ms_modules :: modules

definition modules_start :: "modules \<Rightarrow> modules_state" where
  "modules_start ms = \<lparr>isMod = True, ms_isLevel = False, ms_ss = [], ms_level = -1, ms_modules = ms\<rparr>"

definition setModules_char :: "EnumType \<Rightarrow> char \<Rightarrow> modules_state \<Rightarrow> modules_state" where
  "setModules_char flags c st =
     (if c = CHR ''='' then st\<lparr>ms_isLevel := True, isMod := False\<rparr>
      else if c = CHR '',''
      then
        let st' = st\<lparr>ms_isLevel := False, isMod := True\<rparr> in
        if ms_ss st' \<noteq> [] \<and> ms_level st' \<noteq> -1
        then st'\<lparr>ms_modules := insert_module flags (ms_ss st') (ms_level st') (ms_modules st'),
                 ms_ss := [], ms_level := -1\<rparr>
        else st'
      else if isMod st then st\<lparr>ms_ss := ms_ss st @ [c]\<rparr>
      else if ms_isLevel st
      then (if isDigit c then st\<lparr>ms_level := of_char c - 48\<rparr> else st)
      else st)"

definition setModules :: "EnumType \<Rightarrow> string \<Rightarrow> VRegistry \<Rightarrow> VRegistry" where
  "setModules flags mods r =
     (let st = fold (setModules_char flags) mods (modules_start (m_modules r))
      in r\<lparr>m_modules :=
             if ms_ss st \<noteq> [] \<and> ms_level st \<noteq> -1
             then insert_module flags (ms_ss st) (ms_level st) (ms_modules st)
             else ms_modules st\<rparr>)"

fun allowed_loop :: "EnumType \<Rightarrow> int \<Rightarrow> string \<Rightarrow> modules \<Rightarrow> bool" where
  "allowed_loop flags vlevel file [] =
     (if hasFlag (logging_flag AllowVerboseIfModuleNotSpecified) flags then True else False)"
| "allowed_loop flags vlevel file ((m, l) # ms) =
     (if wildCardMatch file m then vlevel \<le> l else allowed_loop flags vlevel file ms)"

definition allowed :: "EnumType \<Rightarrow> int \<Rightarrow> string option \<Rightarrow> VRegistry \<Rightarrow> bool" where
  "allowed flags vlevel file r =
     (if m_modules r = [] \<or> file = None then vlevel \<le> m_vlevel r
      else allowed_loop flags vlevel (the file) (m_modules r))"

definition setLevel_from :: "string \<Rightarrow> VRegistry \<Rightarrow> VRegistry option" where
  "setLevel_from val r = map_option (\<lambda>level. setLevel level r) (atoi val)"

definition setFromArgs :: "EnumType \<Rightarrow> CommandLineArgs \<Rightarrow> VRegistry \<Rightarrow> VRegistry option" where
  "setFromArgs flags args r =
     (if hasParam ''-v'' args \<or> hasParam ''--verbose'' args \<or> hasParam ''-V'' args \<or>
         hasParam ''--VERBOSE'' args
      then Some (setLevel kMaxVerboseLevel r)
      else if hasParamWithValue ''--v'' args then setLevel_from (getParamValue ''--v'' args) r
      else if hasParamWithValue ''--V'' args then setLevel_from (getParamValue ''--V'' args) r
      else if hasParamWithValue ''-vmodule'' args \<and> \<not> hasFlag (logging_flag DisableVModules) flags
      then Some (setModules flags (getParamValue ''-vmodule'' args) r)
      else if hasParamWithValue ''-VMODULE'' args \<and> \<not> hasFlag (logging_flag DisableVModules) flags
      then Some (setModules flags (getParamValue ''-VMODULE'' args) r)
      else Some r)"

section \<open>Hit counters\<close>

record HitCounter =
  hc_filename :: string
  hc_lineNumber :: nat
  hc_hitCounts :: nat

definition kMaxLogPerCounter :: nat where "kMaxLogPerCounter = 100000"

definition size_inc :: "nat \<Rightarrow> nat" where
  "size_inc n = (n + 1) mod 2 ^ 64"

definition new_HitCounter :: "string \<Rightarrow> nat \<Rightarrow> HitCounter" where
  "new_HitCounter file line = \<lparr>hc_filename = file, hc_lineNumber = line, hc_hitCounts = 0\<rparr>"

definition resetLocation :: "string \<Rightarrow> nat \<Rightarrow> HitCounter \<Rightarrow> HitCounter" where
  "resetLocation file line c = c\<lparr>hc_filename := file, hc_lineNumber := line\<rparr>"

definition validateHitCounts :: "nat \<Rightarrow> HitCounter \<Rightarrow> HitCounter" where
  "validateHitCounts n c =
     (let c' = (if hc_hitCounts c \<ge> kMaxLogPerCounter
                then c\<lparr>hc_hitCounts := if n \<ge> 1 then kMaxLogPerCounter mod n else 0\<rparr> else c)
      in c'\<lparr>hc_hitCounts := size_inc (hc_hitCounts c')\<rparr>)"

definition hc_increment :: "HitCounter \<Rightarrow> HitCounter" where
  "hc_increment c = c\<lparr>hc_hitCounts := size_inc (hc_hitCounts c)\<rparr>"

definition hc_predicate :: "string \<Rightarrow> nat \<Rightarrow> HitCounter \<Rightarrow> bool" where
  "hc_predicate file line c \<longleftrightarrow> hc_filename c = file \<and> hc_lineNumber c = line"

text \<open>A registry of counters; an operation on the counter of a location registers it if need be.\<close>

type_synonym counters = "HitCounter list"

definition getCounter :: "string \<Rightarrow> nat \<Rightarrow> counters \<Rightarrow> HitCounter option" where
  "getCounter file line cs = find (hc_predicate file line) cs"

fun update_first :: "('a \<Rightarrow> bool) \<Rightarrow> 'a \<Rightarrow> 'a list \<Rightarrow> 'a list" where
  "update_first P y [] = []"
| "update_first P y (x # xs) = (if P x then y # xs else x # update_first P y xs)"

definition get_or_register :: "string \<Rightarrow> nat \<Rightarrow> counters \<Rightarrow> HitCounter \<times> counters" where
  "get_or_register file line cs =
     (case getCounter file line cs of
        None \<Rightarrow> (new_HitCounter file line, cs @ [new_HitCounter file line])
      | Some c \<Rightarrow> (c, cs))"

definition validateEveryN :: "string \<Rightarrow> nat \<Rightarrow> nat \<Rightarrow> counters \<Rightarrow> bool \<times> counters" where
  "validateEveryN file line n cs0 =
     (let (counter, cs) = get_or_register file line cs0;
          counter' = validateHitCounts n counter;
          result = (n \<ge> 1 \<and> hc_hitCounts counter' \<noteq> 0 \<and> hc_hitCounts counter' mod n = 0)
      in (result, update_first (hc_predicate file line) counter' cs))"

definition validateAfterN :: "string \<Rightarrow> nat \<Rightarrow> nat \<Rightarrow> counters \<Rightarrow> bool \<times> counters" where
  "validateAfterN file line n cs0 =
     (let (counter, cs) = get_or_register file line cs0 in
      if hc_hitCounts counter \<ge> n then (True, cs)
      else (False, update_first (hc_predicate file line) (hc_increment counter) cs))"

definition validateNTimes :: "string \<Rightarrow> nat \<Rightarrow> nat \<Rightarrow> counters \<Rightarrow> bool \<times> counters" where
  "validateNTimes file line n cs0 =
     (let (counter, cs) = get_or_register file line cs0;
          counter' = hc_increment counter;
          cs' = update_first (hc_predicate file line) counter' cs
      in if hc_hitCounts counter' \<le> n then (True, cs') else (False, cs'))"


section \<open>Counting calls\<close>

text \<open>How often the counter of a location was hit; one that is not registered was not.\<close>

type_synonym location = "string \<times> nat"

definition hits :: "counters \<Rightarrow> location \<Rightarrow> nat" where
  "hits cs loc = (case getCounter (fst loc) (snd loc) cs of None \<Rightarrow> 0 | Some c \<Rightarrow> hc_hitCounts c)"

lemma find_update_first:
  assumes "hc_predicate f l y"
  shows "find (hc_predicate f' l') (update_first (hc_predicate f l) y cs) =
    (if f' = f \<and> l' = l \<and> find (hc_predicate f l) cs \<noteq> None then Some y
     else find (hc_predicate f' l') cs)"
  using assms by (induction cs) (auto simp: hc_predicate_def split: if_splits)

lemma hits_register:
  assumes "get_or_register f l cs = (c, cs')"
  shows "hits cs' loc = hits cs loc" "getCounter f l cs' = Some c" "hc_predicate f l c"
    "hc_hitCounts c = hits cs (f, l)"
proof -
  have new: "hc_predicate f' l' (new_HitCounter f l) \<longleftrightarrow> f' = f \<and> l' = l" for f' l'
    by (auto simp: hc_predicate_def new_HitCounter_def)
  have zero: "hc_hitCounts (new_HitCounter f l) = 0" by (simp add: new_HitCounter_def)
  show "hits cs' loc = hits cs loc" "getCounter f l cs' = Some c" "hc_predicate f l c"
    "hc_hitCounts c = hits cs (f, l)"
    using assms new zero
    by (auto simp: get_or_register_def hits_def getCounter_def find_append dest: find_SomeD split: option.splits if_splits)
qed

lemma hits_update:
  assumes "getCounter f l cs \<noteq> None" and "hc_predicate f l c"
  shows "hits (update_first (hc_predicate f l) c cs) loc = (if loc = (f, l) then hc_hitCounts c else hits cs loc)"
  using assms by (cases loc) (auto simp: hits_def getCounter_def find_update_first)

text \<open>A sequence of calls at locations, with the answers.\<close>

fun run_calls :: "(location \<Rightarrow> counters \<Rightarrow> bool \<times> counters) \<Rightarrow> location list \<Rightarrow> counters \<Rightarrow>
    bool list \<times> counters" where
  "run_calls validate [] cs = ([], cs)"
| "run_calls validate (loc # calls) cs =
     (let (r, cs') = validate loc cs; (rs, cs'') = run_calls validate calls cs' in (r # rs, cs''))"

lemma run_calls_snoc:
  "run_calls validate (calls @ [loc]) cs =
     (fst (run_calls validate calls cs) @ [fst (validate loc (snd (run_calls validate calls cs)))],
      snd (validate loc (snd (run_calls validate calls cs))))"
  by (induction calls arbitrary: cs) (simp_all add: case_prod_unfold Let_def)

text \<open>
  What the three ways of counting have in common: a call counts at its location only, and
  what it answers is determined by the number of calls so far. \<open>rep\<close> relates the number of calls
  at a location to the count, \<open>answer\<close> tells what the call with that number may answer.
\<close>

locale counted_calls =
  fixes validate :: "location \<Rightarrow> counters \<Rightarrow> bool \<times> counters"
    and rep :: "location \<Rightarrow> nat \<Rightarrow> nat \<Rightarrow> bool"
    and answer :: "location \<Rightarrow> nat \<Rightarrow> bool \<Rightarrow> bool"
  assumes other: "loc' \<noteq> loc \<Longrightarrow> hits (snd (validate loc cs)) loc' = hits cs loc'"
    and start: "rep loc 0 0"
    and step: "rep loc k (hits cs loc) \<Longrightarrow> rep loc (Suc k) (hits (snd (validate loc cs)) loc)"
    and answers: "rep loc k (hits cs loc) \<Longrightarrow> answer loc (Suc k) (fst (validate loc cs))"
begin

lemma run_rep: "rep loc (count_list calls loc) (hits (snd (run_calls validate calls [])) loc)"
proof (induction calls rule: rev_induct)
  case Nil
  then show ?case by (simp add: start hits_def getCounter_def)
next
  case (snoc x calls)
  then show ?case by (cases "x = loc") (simp_all add: run_calls_snoc step other)
qed

lemma run_answers:
  "i < length calls \<Longrightarrow>
     answer (calls ! i) (count_list (take (Suc i) calls) (calls ! i)) (fst (run_calls validate calls []) ! i)"
proof (induction calls rule: rev_induct)
  case (snoc x calls)
  have len: "length (fst (run_calls validate calls [])) = length calls"
    by (induction calls rule: rev_induct) (simp_all add: run_calls_snoc)
  show ?case
  proof (cases "i < length calls")
    case True
    then show ?thesis using snoc by (simp add: run_calls_snoc nth_append len)
  next
    case False
    then have "i = length calls" using snoc.prems by simp
    then show ?thesis using answers [OF run_rep, of x calls] by (simp add: run_calls_snoc nth_append len)
  qed
qed simp

end

text \<open>The count after a call that logs every n-th time.\<close>

definition every_count :: "nat \<Rightarrow> nat \<Rightarrow> nat" where
  "every_count n h =
     size_inc (if h \<ge> kMaxLogPerCounter then if n \<ge> 1 then kMaxLogPerCounter mod n else 0 else h)"

lemma validateEveryN_hits:
  "fst (validateEveryN f l n cs) \<longleftrightarrow>
     n \<ge> 1 \<and> every_count n (hits cs (f, l)) \<noteq> 0 \<and> every_count n (hits cs (f, l)) mod n = 0"
  "hits (snd (validateEveryN f l n cs)) loc =
     (if loc = (f, l) then every_count n (hits cs (f, l)) else hits cs loc)"
proof -
  obtain c cs' where c: "get_or_register f l cs = (c, cs')" by fastforce
  note reg = hits_register [OF c]
  have count: "hc_hitCounts (validateHitCounts n c) = every_count n (hits cs (f, l))"
    and pred: "hc_predicate f l (validateHitCounts n c)"
    using reg by (simp_all add: validateHitCounts_def every_count_def hc_predicate_def Let_def)
  show "fst (validateEveryN f l n cs) \<longleftrightarrow>
     n \<ge> 1 \<and> every_count n (hits cs (f, l)) \<noteq> 0 \<and> every_count n (hits cs (f, l)) mod n = 0"
    by (simp add: validateEveryN_def c Let_def count)
  show "hits (snd (validateEveryN f l n cs)) loc =
     (if loc = (f, l) then every_count n (hits cs (f, l)) else hits cs loc)"
    using reg(1,2) pred by (simp add: validateEveryN_def c Let_def count hits_update)
qed

lemma validateAfterN_hits:
  "fst (validateAfterN f l n cs) \<longleftrightarrow> hits cs (f, l) \<ge> n"
  "hits (snd (validateAfterN f l n cs)) loc =
     (if loc = (f, l) \<and> hits cs (f, l) < n then size_inc (hits cs (f, l)) else hits cs loc)"
proof -
  obtain c cs' where c: "get_or_register f l cs = (c, cs')" by fastforce
  note reg = hits_register [OF c]
  have pred: "hc_predicate f l (hc_increment c)" using reg(3) by (simp add: hc_increment_def hc_predicate_def)
  show "fst (validateAfterN f l n cs) \<longleftrightarrow> hits cs (f, l) \<ge> n"
    by (simp add: validateAfterN_def c reg(4))
  show "hits (snd (validateAfterN f l n cs)) loc =
     (if loc = (f, l) \<and> hits cs (f, l) < n then size_inc (hits cs (f, l)) else hits cs loc)"
    using reg(1,2,4) pred by (simp add: validateAfterN_def c hits_update hc_increment_def)
qed

lemma validateNTimes_hits:
  "fst (validateNTimes f l n cs) \<longleftrightarrow> size_inc (hits cs (f, l)) \<le> n"
  "hits (snd (validateNTimes f l n cs)) loc =
     (if loc = (f, l) then size_inc (hits cs (f, l)) else hits cs loc)"
proof -
  obtain c cs' where c: "get_or_register f l cs = (c, cs')" by fastforce
  note reg = hits_register [OF c]
  have pred: "hc_predicate f l (hc_increment c)" using reg(3) by (simp add: hc_increment_def hc_predicate_def)
  show "fst (validateNTimes f l n cs) \<longleftrightarrow> size_inc (hits cs (f, l)) \<le> n"
    by (simp add: validateNTimes_def c Let_def reg(4) hc_increment_def)
  show "hits (snd (validateNTimes f l n cs)) loc =
     (if loc = (f, l) then size_inc (hits cs (f, l)) else hits cs loc)"
    using reg(1,2,4) pred by (simp add: validateNTimes_def c Let_def hits_update hc_increment_def)
qed

text \<open>The calls of a program in which each place has its own n.\<close>

definition every_call :: "(location \<Rightarrow> nat) \<Rightarrow> location \<Rightarrow> counters \<Rightarrow> bool \<times> counters" where
  "every_call N loc = validateEveryN (fst loc) (snd loc) (N loc)"

definition after_call :: "(location \<Rightarrow> nat) \<Rightarrow> location \<Rightarrow> counters \<Rightarrow> bool \<times> counters" where
  "after_call N loc = validateAfterN (fst loc) (snd loc) (N loc)"

definition times_call :: "(location \<Rightarrow> nat) \<Rightarrow> location \<Rightarrow> counters \<Rightarrow> bool \<times> counters" where
  "times_call N loc = validateNTimes (fst loc) (snd loc) (N loc)"

text \<open>
  Every n-th time, for an n up to the bound of the counters: the count stays within the bound and
  keeps the remainder of the number of calls.
\<close>

definition every_rep :: "(location \<Rightarrow> nat) \<Rightarrow> location \<Rightarrow> nat \<Rightarrow> nat \<Rightarrow> bool" where
  "every_rep N loc k h \<longleftrightarrow>
     (1 \<le> N loc \<and> N loc \<le> kMaxLogPerCounter \<longrightarrow> h \<le> kMaxLogPerCounter \<and> h mod N loc = k mod N loc)"

lemma every_count_step:
  assumes "1 \<le> n" "n \<le> kMaxLogPerCounter" and "h \<le> kMaxLogPerCounter" "h mod n = k mod n"
  shows "every_count n h \<le> kMaxLogPerCounter" "every_count n h mod n = Suc k mod n" "every_count n h \<noteq> 0"
proof -
  let ?h = "if h \<ge> kMaxLogPerCounter then kMaxLogPerCounter mod n else h"
  have "kMaxLogPerCounter mod n < n" using assms(1) by simp
  then have bound: "Suc ?h \<le> kMaxLogPerCounter" using assms(2,3) by auto
  have "?h mod n = k mod n" using assms(3,4) by auto
  then have "Suc ?h mod n = Suc k mod n" by (metis mod_Suc_eq)
  moreover have "every_count n h = Suc ?h"
    using assms(1) bound by (auto simp: every_count_def size_inc_def kMaxLogPerCounter_def)
  ultimately show "every_count n h \<le> kMaxLogPerCounter" "every_count n h mod n = Suc k mod n"
    "every_count n h \<noteq> 0" using bound by simp_all
qed

interpretation every_n: counted_calls
  "every_call N" "every_rep N"
  "\<lambda>loc k r. 1 \<le> N loc \<and> N loc \<le> kMaxLogPerCounter \<longrightarrow> (r \<longleftrightarrow> N loc dvd k)"
  for N
proof unfold_locales
  fix loc loc' :: location and cs k
  obtain f l where loc: "loc = (f, l)" by fastforce
  show "loc' \<noteq> loc \<Longrightarrow> hits (snd (every_call N loc cs)) loc' = hits cs loc'"
    by (simp add: loc every_call_def validateEveryN_hits)
  show "every_rep N loc 0 0" by (simp add: every_rep_def)
  assume "every_rep N loc k (hits cs loc)"
  then show "every_rep N loc (Suc k) (hits (snd (every_call N loc cs)) loc)"
    and "1 \<le> N loc \<and> N loc \<le> kMaxLogPerCounter \<longrightarrow>
      fst (every_call N loc cs) = (N loc dvd Suc k)"
    using every_count_step [of "N loc" "hits cs loc" k]
    by (auto simp: loc every_rep_def every_call_def validateEveryN_hits mod_eq_0_iff_dvd)
qed

interpretation after_n: counted_calls
  "after_call N" "\<lambda>loc k h. N loc < 2 ^ 64 \<longrightarrow> h = min k (N loc)"
  "\<lambda>loc k r. N loc < 2 ^ 64 \<longrightarrow> (r \<longleftrightarrow> N loc < k)"
  for N
proof unfold_locales
  fix loc loc' :: location and cs k
  obtain f l where loc: "loc = (f, l)" by fastforce
  show "loc' \<noteq> loc \<Longrightarrow> hits (snd (after_call N loc cs)) loc' = hits cs loc'"
    by (simp add: loc after_call_def validateAfterN_hits)
  assume "N loc < 2 ^ 64 \<longrightarrow> hits cs loc = min k (N loc)"
  then show "N loc < 2 ^ 64 \<longrightarrow>
      hits (snd (after_call N loc cs)) loc = min (Suc k) (N loc)"
    and "N loc < 2 ^ 64 \<longrightarrow> fst (after_call N loc cs) = (N loc < Suc k)"
    by (auto simp: loc after_call_def validateAfterN_hits size_inc_def)
qed simp

interpretation n_times: counted_calls
  "times_call N" "\<lambda>loc k h. h = k mod 2 ^ 64"
  "\<lambda>loc k r. k < 2 ^ 64 \<longrightarrow> (r \<longleftrightarrow> k \<le> N loc)"
  for N
proof unfold_locales
  fix loc loc' :: location and cs k
  obtain f l where loc: "loc = (f, l)" by fastforce
  show "loc' \<noteq> loc \<Longrightarrow> hits (snd (times_call N loc cs)) loc' = hits cs loc'"
    by (simp add: loc times_call_def validateNTimes_hits)
  assume h: "hits cs loc = k mod 2 ^ 64"
  have inc: "size_inc (k mod 2 ^ 64) = Suc k mod 2 ^ 64" by (simp add: size_inc_def mod_Suc_eq)
  show "hits (snd (times_call N loc cs)) loc = Suc k mod 2 ^ 64"
    using h inc by (simp add: loc times_call_def validateNTimes_hits)
  show "Suc k < 2 ^ 64 \<longrightarrow> fst (times_call N loc cs) = (Suc k \<le> N loc)"
    using h inc by (auto simp: loc times_call_def validateNTimes_hits)
qed simp

section \<open>Modules\<close>

text \<open>The file names a module stands for.\<close>

definition extensions :: "string list" where
  "extensions = [''.h'', ''.c'', ''.cpp'', ''.cc'', ''.cxx'', ''.-inl.h'', ''.hxx'', ''.hpp'', ''.hh'']"

definition plain_module :: "string \<Rightarrow> bool" where
  "plain_module b \<longleftrightarrow> b \<noteq> [] \<and> CHR ''='' \<notin> set b \<and> CHR '','' \<notin> set b \<and>
     (\<forall>e \<in> set extensions. \<not> suffix e b)"

lemma addSuffix_first: "\<not> suffix e b \<Longrightarrow> addSuffix b e None = b @ e"
  by (simp add: addSuffix_def endsWith_suffix)

lemma addSuffix_next: "\<not> suffix e b \<Longrightarrow> addSuffix (b @ p) e (Some p) = b @ e"
  by (simp add: addSuffix_def endsWith_suffix suffix_def Let_def)

lemma insert_module_fold:
  assumes "plain_module b" and "\<not> hasFlag (logging_flag DisableVModulesExtensions) flags"
  shows "insert_module flags b level ms = fold (\<lambda>e. map_insert (b @ e) level) extensions ms"
proof -
  have "\<not> suffix e b" if "e \<in> set extensions" for e using assms(1) that by (simp add: plain_module_def)
  then show ?thesis
    using assms(2)
    by (simp add: insert_module_def insert_suffixed_def Let_def addSuffix_first addSuffix_next extensions_def)
qed

lemma setModules_name:
  assumes "CHR ''='' \<notin> set b" "CHR '','' \<notin> set b" and "isMod st"
  shows "fold (setModules_char flags) b st = st\<lparr>ms_ss := ms_ss st @ b\<rparr>"
  using assms
proof (induction b arbitrary: st)
  case (Cons c b)
  then show ?case by (auto simp: setModules_char_def)
qed simp

definition digit :: "nat \<Rightarrow> char" where "digit d = char_of (d + 48)"

lemma digit_simps:
  assumes "d \<le> 9"
  shows "isDigit (digit d)" "of_char (digit d) = int d + 48" "digit d \<noteq> CHR ''=''" "digit d \<noteq> CHR '',''"
proof -
  have nat: "of_char (digit d) = d + 48" using assms by (simp add: digit_def)
  then show "isDigit (digit d)" using assms by (simp add: isDigit_def less_eq_char_def)
  show "of_char (digit d) = int d + 48"
    using nat of_nat_of_char [of "digit d", where 'a = int] by linarith
  show "digit d \<noteq> CHR ''=''" "digit d \<noteq> CHR '',''" using assms nat by auto
qed

text \<open>One module with its level, and a list of them.\<close>

definition module_text :: "nat \<Rightarrow> string \<Rightarrow> string" where
  "module_text d b = b @ ''='' @ [digit d]"

fun modules_text :: "nat \<Rightarrow> string list \<Rightarrow> string" where
  "modules_text d [] = []"
| "modules_text d [b] = module_text d b"
| "modules_text d (b # bs) = module_text d b @ '','' @ modules_text d bs"

lemma setModules_module:
  assumes "plain_module b" "d \<le> 9"
  shows "fold (setModules_char flags) (module_text d b) (modules_start ms) =
    \<lparr>isMod = False, ms_isLevel = True, ms_ss = b, ms_level = int d, ms_modules = ms\<rparr>"
  using assms digit_simps [OF assms(2)]
  by (simp add: module_text_def plain_module_def setModules_name modules_start_def setModules_char_def)

lemma setModules_loop:
  assumes "\<forall>b \<in> set bs. plain_module b" "d \<le> 9" "bs \<noteq> []"
  shows "fold (setModules_char flags) (modules_text d bs) (modules_start ms) =
    \<lparr>isMod = False, ms_isLevel = True, ms_ss = last bs, ms_level = int d,
     ms_modules = fold (\<lambda>b. insert_module flags b (int d)) (butlast bs) ms\<rparr>"
  using assms
proof (induction d bs arbitrary: ms rule: modules_text.induct)
  case (2 d b)
  then show ?case using setModules_module [of b d flags ms] by auto
next
  case (3 d b b' bs)
  have "setModules_char flags (CHR '','') (fold (setModules_char flags) (module_text d b) (modules_start ms)) =
      modules_start (insert_module flags b (int d) ms)"
    using 3 setModules_module [of b d flags ms]
    by (simp add: setModules_char_def Let_def modules_start_def plain_module_def)
  then show ?case using 3 by simp
qed simp

text \<open>What is in the registry then, and who is let through.\<close>

lemma allowed_loop_level:
  assumes "\<forall>(p, l) \<in> set ms. l = d"
  shows "allowed_loop flags vlevel file ms \<longleftrightarrow>
    (if \<exists>p \<in> fst ` set ms. file \<in> pattern_language p then vlevel \<le> d
     else hasFlag (logging_flag AllowVerboseIfModuleNotSpecified) flags)"
  using assms
proof (induction ms)
  case (Cons p ms)
  then show ?case by (cases p; cases "file \<in> pattern_language (fst p)") (simp_all add: wildCardMatch_iff)
qed simp

lemma set_map_insert_subset: "set (map_insert k v m) \<subseteq> insert (k, v) (set m)"
  by (induction k v m rule: map_insert.induct) auto

lemma inserted_patterns:
  assumes "\<forall>(p, l) \<in> set ms. l = d"
  shows "(\<forall>(p, l) \<in> set (fold (\<lambda>e. map_insert (b @ e) d) es ms). l = d) \<and>
    fst ` set (fold (\<lambda>e. map_insert (b @ e) d) es ms) = fst ` set ms \<union> (\<lambda>e. b @ e) ` set es"
  using assms
proof (induction es arbitrary: ms)
  case (Cons e es)
  have "\<forall>(p, l) \<in> set (map_insert (b @ e) d ms). l = d"
    using set_map_insert_subset [of "b @ e" d ms] Cons.prems by fastforce
  from Cons.IH [OF this] show ?case by (auto simp: keys_map_insert)
qed simp

lemma inserted_modules:
  assumes "\<forall>b \<in> set bs. plain_module b" "\<not> hasFlag (logging_flag DisableVModulesExtensions) flags"
    and "\<forall>(p, l) \<in> set ms. l = d"
  shows "(\<forall>(p, l) \<in> set (fold (\<lambda>b. insert_module flags b d) bs ms). l = d) \<and>
    fst ` set (fold (\<lambda>b. insert_module flags b d) bs ms) =
      fst ` set ms \<union> {b @ e | b e. b \<in> set bs \<and> e \<in> set extensions}"
  using assms
proof (induction bs arbitrary: ms)
  case (Cons b bs)
  have b: "plain_module b" and bs: "\<forall>b \<in> set bs. plain_module b" using Cons.prems by simp_all
  note inserted = inserted_patterns [OF Cons.prems(3), of b extensions,
      folded insert_module_fold [OF b Cons.prems(2)]]
  have IH: "(\<forall>(p, l) \<in> set (fold (\<lambda>b. insert_module flags b d) (b # bs) ms). l = d) \<and>
      fst ` set (fold (\<lambda>b. insert_module flags b d) (b # bs) ms) =
        fst ` set (insert_module flags b d ms) \<union> {b @ e | b e. b \<in> set bs \<and> e \<in> set extensions}"
    using Cons.IH [OF bs Cons.prems(2) conjunct1 [OF inserted]] by simp
  have "fst ` set (insert_module flags b d ms) = fst ` set ms \<union> (\<lambda>e. b @ e) ` set extensions"
    using inserted by simp
  with IH show ?case by auto
qed simp

section \<open>Arguments\<close>

text \<open>An argument with a value, taken apart at the first equals sign.\<close>

definition key_value :: "string \<Rightarrow> string \<times> string" where
  "key_value arg = (takeWhile (\<lambda>c. c \<noteq> CHR ''='') arg, tl (dropWhile (\<lambda>c. c \<noteq> CHR ''='') arg))"

lemma setArg_cases:
  "setArg arg args =
     (if CHR ''='' \<in> set arg
      then if map_of (m_paramsWithValue args) (fst (key_value arg)) = None
        then args\<lparr>m_paramsWithValue :=
               map_insert (fst (key_value arg)) (snd (key_value arg)) (m_paramsWithValue args)\<rparr>
        else args
      else if arg \<in> set (m_params args) then args else args\<lparr>m_params := m_params args @ [arg]\<rparr>)"
proof -
  have "take (length (takeWhile (\<lambda>c. c \<noteq> CHR ''='') arg)) arg = takeWhile (\<lambda>c. c \<noteq> CHR ''='') arg"
    by (metis takeWhile_eq_take)
  moreover have "drop (Suc (length (takeWhile (\<lambda>c. c \<noteq> CHR ''='') arg))) arg = tl (dropWhile (\<lambda>c. c \<noteq> CHR ''='') arg)"
    by (metis drop_Suc dropWhile_eq_drop tl_drop)
  ultimately show ?thesis
    by (auto simp: setArg_def find_from_first key_value_def hasParamWithValue_def hasParam_def Let_def)
qed

lemma fold_setArg:
  assumes "sorted (map fst (m_paramsWithValue args))"
  shows "map_of (m_paramsWithValue (fold setArg argv args)) k =
      (case map_of (m_paramsWithValue args) k of
         None \<Rightarrow> map_of (map key_value (filter (\<lambda>a. CHR ''='' \<in> set a) argv)) k | Some v \<Rightarrow> Some v)"
    and "set (m_params (fold setArg argv args)) =
      set (m_params args) \<union> {a \<in> set argv. CHR ''='' \<notin> set a}"
proof -
  have "map_of (m_paramsWithValue (fold setArg argv args)) k =
      (case map_of (m_paramsWithValue args) k of
         None \<Rightarrow> map_of (map key_value (filter (\<lambda>a. CHR ''='' \<in> set a) argv)) k | Some v \<Rightarrow> Some v) \<and>
    set (m_params (fold setArg argv args)) = set (m_params args) \<union> {a \<in> set argv. CHR ''='' \<notin> set a}"
    using assms
  proof (induction argv arbitrary: args)
    case (Cons a argv)
    have "sorted (map fst (m_paramsWithValue (setArg a args)))"
      using Cons.prems by (simp add: setArg_cases sorted_map_insert)
    from Cons.IH [OF this] show ?case
      by (cases "key_value a")
        (auto simp: setArg_cases map_of_map_insert [OF Cons.prems] split: option.splits)
  qed (simp split: option.split)
  then show "map_of (m_paramsWithValue (fold setArg argv args)) k =
      (case map_of (m_paramsWithValue args) k of
         None \<Rightarrow> map_of (map key_value (filter (\<lambda>a. CHR ''='' \<in> set a) argv)) k | Some v \<Rightarrow> Some v)"
    and "set (m_params (fold setArg argv args)) =
      set (m_params args) \<union> {a \<in> set argv. CHR ''='' \<notin> set a}" by simp_all
qed

text \<open>The first value given for a key counts; the program's name is passed over.\<close>

lemma setArgs_lookup:
  "hasParam p (setArgs argv) \<longleftrightarrow> p \<in> set (tl argv) \<and> CHR ''='' \<notin> set p"
  "map_of (m_paramsWithValue (setArgs argv)) k =
     map_of (map key_value (filter (\<lambda>a. CHR ''='' \<in> set a) (tl argv))) k"
  using fold_setArg [of new_CommandLineArgs "tl argv"]
  by (auto simp: setArgs_def hasParam_def new_CommandLineArgs_def)

lemma setLevel_range: "0 \<le> m_vlevel (setLevel level r) \<and> m_vlevel (setLevel level r) \<le> 9"
  by (simp add: setLevel_def kMaxVerboseLevel_def)

section \<open>Properties\<close>

text \<open>
  After \<open>-vmodule\<close> with some module names and one level, a verbose statement in a file is let
  through up to that level exactly if the file matches one of the names with one of the nine
  extensions; in any other file it is let through only if unspecified modules are.
\<close>

lemma vmodule_allowed:
  assumes "bs \<noteq> []" "\<forall>b \<in> set bs. plain_module b" "d \<le> 9"
    and "m_modules r = []" "\<not> hasFlag (logging_flag DisableVModulesExtensions) flags"
  shows "allowed flags vlevel (Some file) (setModules flags (modules_text d bs) r) \<longleftrightarrow>
    (if \<exists>b \<in> set bs. \<exists>e \<in> set extensions. file \<in> pattern_language (b @ e) then vlevel \<le> int d
     else hasFlag (logging_flag AllowVerboseIfModuleNotSpecified) flags)"
proof -
  let ?ms = "fold (\<lambda>b. insert_module flags b (int d)) bs []"
  have "last bs \<noteq> []" using assms(1,2) by (auto simp: plain_module_def)
  moreover have "?ms = insert_module flags (last bs) (int d)
      (fold (\<lambda>b. insert_module flags b (int d)) (butlast bs) [])"
    using fold_append [of "\<lambda>b. insert_module flags b (int d)" "butlast bs" "[last bs]"] assms(1) by simp
  ultimately have r: "m_modules (setModules flags (modules_text d bs) r) = ?ms"
    using setModules_loop [OF assms(2,3,1), of flags "[]"] assms(4) by (simp add: setModules_def)
  have level: "\<forall>(p, l) \<in> set ?ms. l = int d"
    and names: "fst ` set ?ms = {b @ e | b e. b \<in> set bs \<and> e \<in> set extensions}"
    using inserted_modules [OF assms(2,5), of "[]" "int d"] by simp_all
  have "hd bs @ ''.h'' \<in> fst ` set ?ms"
    unfolding names using hd_in_set [OF assms(1)] by (fastforce simp: extensions_def)
  then have "?ms \<noteq> []" by auto
  moreover have "(\<exists>p \<in> fst ` set ?ms. file \<in> pattern_language p) \<longleftrightarrow>
      (\<exists>b \<in> set bs. \<exists>e \<in> set extensions. file \<in> pattern_language (b @ e))"
    unfolding names by blast
  ultimately show ?thesis
    using allowed_loop_level [OF level] by (simp add: allowed_def r)
qed

lemma vmodule_allowed_witness:
  "\<not> allowed 0 4 (Some ''rsync.cpp'')
     (setModules 0 (modules_text 3 [''rsync'', ''*agent'']) \<lparr>m_vlevel = 9, m_modules = []\<rparr>)"
  using vmodule_allowed [of "[''rsync'', ''*agent'']" 3 "\<lparr>m_vlevel = 9, m_modules = []\<rparr>" 0 4 "''rsync.cpp''"]
  by (simp add: plain_module_def extensions_def suffix_def)

text \<open>
  A statement that logs every n-th time logs exactly the calls whose number at its place in the
  source is a multiple of n, for n up to the bound at which counters start again, and whatever
  other statements are counted in between.
\<close>

lemma every_nth_call:
  assumes "i < length calls" and "1 \<le> N (calls ! i)" "N (calls ! i) \<le> 100000"
  shows "fst (run_calls (every_call N) calls []) ! i \<longleftrightarrow>
    N (calls ! i) dvd count_list (take (Suc i) calls) (calls ! i)"
  using every_n.run_answers [OF assms(1), of N] assms(2,3) by (simp add: kMaxLogPerCounter_def)

lemma every_nth_call_witness:
  "fst (run_calls (every_call (\<lambda>(f, l). if f = ''a.cpp'' then 2 else 3))
     [(''a.cpp'', 7), (''b.cpp'', 7), (''a.cpp'', 7)] []) ! 2"
  using every_nth_call [of 2 "[(''a.cpp'', 7), (''b.cpp'', 7), (''a.cpp'', 7)]"
      "\<lambda>(f, l). if f = ''a.cpp'' then 2 else 3"] by simp

text \<open>
  A statement that logs n times logs exactly its first n calls, and one that logs after n times
  all but its first n.
\<close>

lemma first_and_later_calls:
  assumes "i < length calls" and "N (calls ! i) < 2 ^ 64" "length calls < 2 ^ 64"
  shows "(fst (run_calls (times_call N) calls []) ! i \<longleftrightarrow>
      count_list (take (Suc i) calls) (calls ! i) \<le> N (calls ! i)) \<and>
    (fst (run_calls (after_call N) calls []) ! i \<longleftrightarrow>
      N (calls ! i) < count_list (take (Suc i) calls) (calls ! i))"
proof -
  have "count_list (take (Suc i) calls) (calls ! i) \<le> length (take (Suc i) calls)"
    by (rule count_le_length)
  then have "count_list (take (Suc i) calls) (calls ! i) < 2 ^ 64" using assms(3) by simp
  then show ?thesis
    using n_times.run_answers [OF assms(1), of N] after_n.run_answers [OF assms(1), of N] assms(2) by simp
qed

lemma first_and_later_calls_witness:
  "fst (run_calls (times_call (\<lambda>_. 1)) [(''a.cpp'', 7), (''b.cpp'', 7), (''b.cpp'', 7)] []) ! 1 \<and>
   fst (run_calls (after_call (\<lambda>_. 1)) [(''a.cpp'', 7), (''b.cpp'', 7), (''b.cpp'', 7)] []) ! 2"
  using first_and_later_calls [of 1 "[(''a.cpp'', 7), (''b.cpp'', 7), (''b.cpp'', 7)]" "\<lambda>_. 1"]
    first_and_later_calls [of 2 "[(''a.cpp'', 7), (''b.cpp'', 7), (''b.cpp'', 7)]" "\<lambda>_. 1"] by simp

end
