(* ===== verification/Elpp_Logger.thy ===== *)
theory Elpp_Logger
  imports Elpp_Typed Elpp_Verbose
begin

text \<open>
  Loggers and their registry in \<^verbatim>\<open>easylogging++.h\<close> (\<open>Logger\<close>, \<open>RegisteredLoggers\<close>,
  \<open>Storage\<close>, \<open>Loggers\<close>). The registered loggers are values in the state, found by their identifier, which is
  what a pointer to one stands for. All loggers use the default log builder.
\<close>

section \<open>Loggers\<close>

record Logger =
  lg_id :: string
  lg_typedConfigurations :: "TypedConfigurations option"
  lg_stream :: string
  lg_parentApplicationName :: string
  lg_isConfigured :: bool
  lg_configurations :: Configurations
  lg_unflushedCount :: "nat level_map"

definition initUnflushedCount :: "Logger \<Rightarrow> Logger" where
  "initUnflushedCount lg =
     lg\<lparr>lg_unflushedCount :=
          forEachLevel level_kMinValid (\<lambda>lIndex m. (False, level_insert (level_castFromInt lIndex) 0 m)) []\<rparr>"

definition bare_Logger :: "string \<Rightarrow> Logger" where
  "bare_Logger lid =
     initUnflushedCount
       \<lparr>lg_id = lid, lg_typedConfigurations = None, lg_stream = [], lg_parentApplicationName = [],
        lg_isConfigured = False, lg_configurations = new_Configurations, lg_unflushedCount = []\<rparr>"

definition kValidLoggerIdSymbols :: string where
  "kValidLoggerIdSymbols =
     ''abcdefghijklmnopqrstuvwxyzABCDEFGHIJKLMNOPQRSTUVWXYZ0123456789-._''"

definition isValidId :: "string \<Rightarrow> bool" where
  "isValidId lid = list_all (str_contains kValidLoggerIdSymbols) lid"

text \<open>A logger whose typed configurations were not built yet is not to be asked for them.\<close>

definition typedConfigurations :: "Logger \<Rightarrow> (TypedConfigurations, 'w) io" where
  "typedConfigurations lg = defined (lg_typedConfigurations lg)"

definition flush_level ::
  "'e log_os \<Rightarrow> Level \<Rightarrow> stream \<Rightarrow> Logger \<Rightarrow> (Logger, ('e, 'z) log_world_scheme) io" where
  "flush_level os level fs0 lg =
     bindE (typedConfigurations lg) (\<lambda>tc.
     bindE (if fs0 = None \<and> tc_toFile level tc then defined (tc_fileStream level tc) else ret fs0) (\<lambda>fs.
     case fs of
       None \<Rightarrow> ret lg
     | Some f \<Rightarrow>
         bindE (log_call (lo_flush os f)) (\<lambda>_.
         if map_of (lg_unflushedCount lg) level = None then stuck
         else ret (lg\<lparr>lg_unflushedCount := level_update level (\<lambda>_. 0) (lg_unflushedCount lg)\<rparr>))))"

definition flush_all_levels :: "'e log_os \<Rightarrow> Logger \<Rightarrow> (Logger, ('e, 'z) log_world_scheme) io" where
  "flush_all_levels os lg =
     forEachLevel level_kMinValid
       (\<lambda>lIndex m. (False, bindE m (flush_level os (level_castFromInt lIndex) None))) (ret lg)"

definition isFlushNeeded :: "Level \<Rightarrow> Logger \<Rightarrow> (bool \<times> Logger, 'w) io" where
  "isFlushNeeded level lg =
     bindE (typedConfigurations lg) (\<lambda>tc.
     case map_of (lg_unflushedCount lg) level of
       None \<Rightarrow> stuck
     | Some n \<Rightarrow>
         let n' = (n + 1) mod 2 ^ 32 in
         ret (n' \<ge> tc_logFlushThreshold level tc,
              lg\<lparr>lg_unflushedCount := level_update level (\<lambda>_. n') (lg_unflushedCount lg)\<rparr>))"

text \<open>The format that a level refers to, its own or the global one, is changed in place.\<close>

definition resolve_level :: "string \<Rightarrow> Level \<Rightarrow> LogFormat level_map \<Rightarrow> LogFormat level_map option" where
  "resolve_level lid level m =
     (let resolve = level_update (if map_of m level = None then Level_Global else level)
            (\<lambda>lf. lf\<lparr>lf_format := replaceFirstWithEscape (lf_format lf) kLoggerIdFormatSpecifier lid\<rparr>)
      in if getConfigByRef level m = None then None else Some (resolve m))"

definition resolveLoggerFormatSpec :: "string \<Rightarrow> TypedConfigurations \<Rightarrow> TypedConfigurations option" where
  "resolveLoggerFormatSpec lid tc =
     map_option (\<lambda>m. tc\<lparr>m_logFormatMap := m\<rparr>)
       (forEachLevel level_kMinValid
          (\<lambda>lIndex m. (False, Option.bind m (resolve_level lid (level_castFromInt lIndex))))
          (Some (m_logFormatMap tc)))"

text \<open>\<open>None\<close> stands for the configurations of the logger itself.\<close>

definition configure ::
  "'e log_os \<Rightarrow> identity \<Rightarrow> Configurations option \<Rightarrow> Logger \<Rightarrow> (Logger, ('e, 'z) log_world_scheme) io" where
  "configure os ident configurations lg =
     (let lg1 = initUnflushedCount (lg\<lparr>lg_isConfigured := False\<rparr>) in
      bindE (if lg_typedConfigurations lg1 \<noteq> None \<and>
                hasConfiguration_at Level_Global CT_Filename (lg_configurations lg1)
             then flush_all_levels os lg1 else ret lg1) (\<lambda>lg2.
      let confs = setFromBase configurations (lg_configurations lg2) in
      bindE (build os ident confs) (\<lambda>tc.
      bindE (defined (resolveLoggerFormatSpec (lg_id lg2) tc)) (\<lambda>tc'.
      ret (lg2\<lparr>lg_configurations := confs, lg_typedConfigurations := Some tc', lg_isConfigured := True\<rparr>)))))"

definition reconfigure ::
  "'e log_os \<Rightarrow> identity \<Rightarrow> Logger \<Rightarrow> (Logger, ('e, 'z) log_world_scheme) io" where
  "reconfigure os ident lg = configure os ident None lg"

definition new_Logger ::
  "'e log_os \<Rightarrow> identity \<Rightarrow> string \<Rightarrow> Configurations \<Rightarrow> (Logger, ('e, 'z) log_world_scheme) io" where
  "new_Logger os ident lid configurations = configure os ident (Some configurations) (bare_Logger lid)"

definition logger_enabled :: "Level \<Rightarrow> Logger \<Rightarrow> (bool, 'w) io" where
  "logger_enabled level lg = bindE (typedConfigurations lg) (\<lambda>tc. ret (tc_enabled level tc))"

section \<open>Storage\<close>

text \<open>
  The callbacks are those of the default class, with whether they are enabled. The logging level
  is not initialised.
\<close>

record 'e storage = "'e log_world" +
  st_loggers :: "(string \<times> Logger) list"
  st_defaultConfigurations :: Configurations
  st_flags :: EnumType
  st_vRegistry :: VRegistry
  st_hitCounters :: counters
  st_commandLineArgs :: CommandLineArgs
  st_preRollOutCallback :: "'e preRollOut"
  st_logDispatchCallbacks :: "(string \<times> bool) list"
  st_customFormatSpecifiers :: "(string \<times> string) list"
  st_loggingLevel :: "Level option"

definition kDefaultLoggerId :: string where "kDefaultLoggerId = ''default''"
definition kPerformanceLoggerId :: string where "kPerformanceLoggerId = ''performance''"

definition find_logger :: "string \<Rightarrow> (Logger option, ('e, 'z) storage_scheme) io" where
  "find_logger lid = getE (\<lambda>s. map_of (st_loggers s) lid)"

fun put_assoc :: "string \<Rightarrow> Logger \<Rightarrow> (string \<times> Logger) list \<Rightarrow> (string \<times> Logger) list" where
  "put_assoc lid lg [] = []"
| "put_assoc lid lg ((k, x) # m) = (if k = lid then (k, lg) # m else (k, x) # put_assoc lid lg m)"

text \<open>A change of the object that the registry points to.\<close>

definition put_logger :: "string \<Rightarrow> Logger \<Rightarrow> (unit, ('e, 'z) storage_scheme) io" where
  "put_logger lid lg = modifyE (\<lambda>s. s\<lparr>st_loggers := put_assoc lid lg (st_loggers s)\<rparr>)"

definition with_logger ::
  "string \<Rightarrow> (Logger \<Rightarrow> (Logger, ('e, 'z) storage_scheme) io) \<Rightarrow> (unit, ('e, 'z) storage_scheme) io" where
  "with_logger lid f =
     bindE (find_logger lid) (\<lambda>l.
     case l of None \<Rightarrow> stuck | Some lg \<Rightarrow> bindE (f lg) (put_logger lid))"

definition st_hasFlag :: "LoggingFlag \<Rightarrow> (bool, ('e, 'z) storage_scheme) io" where
  "st_hasFlag flag = getE (\<lambda>s. hasFlag (logging_flag flag) (st_flags s))"

definition st_addFlag :: "LoggingFlag \<Rightarrow> (unit, ('e, 'z) storage_scheme) io" where
  "st_addFlag flag = modifyE (\<lambda>s. s\<lparr>st_flags := addFlag (logging_flag flag) (st_flags s)\<rparr>)"

definition st_removeFlag :: "LoggingFlag \<Rightarrow> (unit, ('e, 'z) storage_scheme) io" where
  "st_removeFlag flag = modifyE (\<lambda>s. s\<lparr>st_flags := removeFlag (logging_flag flag) (st_flags s)\<rparr>)"

definition st_setFlags :: "EnumType \<Rightarrow> (unit, ('e, 'z) storage_scheme) io" where
  "st_setFlags flags = modifyE (\<lambda>s. s\<lparr>st_flags := flags\<rparr>)"

section \<open>The registry of loggers\<close>

text \<open>The result is the identifier of the logger, as a pointer to it, or \<open>None\<close> for a null pointer.\<close>

definition loggers_get ::
  "'e log_os \<Rightarrow> identity \<Rightarrow> string \<Rightarrow> bool \<Rightarrow> (string option, ('e, 'z) storage_scheme) io" where
  "loggers_get os ident lid forceCreation =
     bindE (find_logger lid) (\<lambda>l.
     if l = None \<and> forceCreation
     then
       if \<not> isValidId lid then ret None
       else
         bindE (getE st_defaultConfigurations) (\<lambda>defaults.
         bindE (new_Logger os ident lid defaults) (\<lambda>lg.
         thenE (modifyE (\<lambda>s. s\<lparr>st_loggers := map_insert lid lg (st_loggers s)\<rparr>)) (ret (Some lid))))
     else ret (if l = None then None else Some lid))"

definition loggers_has :: "string \<Rightarrow> (bool, ('e, 'z) storage_scheme) io" where
  "loggers_has lid = bindE (find_logger lid) (\<lambda>l. ret (l \<noteq> None))"

text \<open>
  Unregistering a logger, given as its identifier. The key is \<open>logger->id()\<close>, a reference into the
  logger, which \<open>Registry::unregister\<close> deletes before it reads the key for the second time, to erase
  the entry: for a registered logger there is no defined result (Elpp\_Registry has the same over
  a store of objects). If none is registered, nothing happens.
\<close>

definition loggers_unregister :: "string \<Rightarrow> (unit, ('e, 'z) storage_scheme) io" where
  "loggers_unregister lid =
     bindE (find_logger lid) (\<lambda>existing. if existing \<noteq> None then stuck else ret ())"

definition loggers_remove :: "string \<Rightarrow> (bool, ('e, 'z) storage_scheme) io" where
  "loggers_remove lid =
     (if lid = ''default'' then ret False
      else bindE (find_logger lid) (\<lambda>l.
        thenE (if l \<noteq> None then loggers_unregister lid else ret ()) (ret True)))"

text \<open>So \<open>remove\<close> is defined for the default logger and for names of no logger only.\<close>

lemma loggers_remove_run:
  "loggers_remove lid s =
     (if lid = ''default'' then Some (Inr False, s)
      else if map_of (st_loggers s) lid = None then Some (Inr True, s)
      else None)"
  by (simp add: loggers_remove_def loggers_unregister_def find_logger_def io_simps stuck_def)

definition setDefaultConfigurations :: "Configurations \<Rightarrow> (unit, ('e, 'z) storage_scheme) io" where
  "setDefaultConfigurations configurations =
     modifyE (\<lambda>s. s\<lparr>st_defaultConfigurations := setFromBase (Some configurations) (st_defaultConfigurations s)\<rparr>)"

fun flush_streams :: "'e log_os \<Rightarrow> stream list \<Rightarrow> (unit, ('e, 'z) log_world_scheme) io" where
  "flush_streams os [] = ret ()"
| "flush_streams os (None # fs) = flush_streams os fs"
| "flush_streams os (Some f # fs) = thenE (log_call (lo_flush os f)) (flush_streams os fs)"

definition flushAll :: "'e log_os \<Rightarrow> (unit, ('e, 'z) log_world_scheme) io" where
  "flushAll os = bindE (getE logStreamsReference) (\<lambda>refs. flush_streams os (map snd refs))"

section \<open>The storage\<close>

definition installLogDispatchCallback :: "string \<Rightarrow> (bool, ('e, 'z) storage_scheme) io" where
  "installLogDispatchCallback lid =
     bindE (getE st_logDispatchCallbacks) (\<lambda>cbs.
     if map_of cbs lid = None
     then thenE (modifyE (\<lambda>s. s\<lparr>st_logDispatchCallbacks := map_insert lid True cbs\<rparr>)) (ret True)
     else ret False)"

definition uninstallLogDispatchCallback :: "string \<Rightarrow> (unit, ('e, 'z) storage_scheme) io" where
  "uninstallLogDispatchCallback lid =
     modifyE (\<lambda>s. s\<lparr>st_logDispatchCallbacks := filter (\<lambda>p. fst p \<noteq> lid) (st_logDispatchCallbacks s)\<rparr>)"

definition hasCustomFormatSpecifier :: "string \<Rightarrow> (bool, ('e, 'z) storage_scheme) io" where
  "hasCustomFormatSpecifier spec = getE (\<lambda>s. map_of (st_customFormatSpecifiers s) spec \<noteq> None)"

definition installCustomFormatSpecifier :: "string \<Rightarrow> string \<Rightarrow> (unit, ('e, 'z) storage_scheme) io" where
  "installCustomFormatSpecifier spec val =
     bindE (hasCustomFormatSpecifier spec) (\<lambda>has.
     if has then ret ()
     else modifyE (\<lambda>s. s\<lparr>st_customFormatSpecifiers := st_customFormatSpecifiers s @ [(spec, val)]\<rparr>))"

fun remove_first_spec :: "string \<Rightarrow> (string \<times> string) list \<Rightarrow> (string \<times> string) list" where
  "remove_first_spec spec [] = []"
| "remove_first_spec spec (p # ps) = (if fst p = spec then ps else p # remove_first_spec spec ps)"

definition uninstallCustomFormatSpecifier :: "string \<Rightarrow> (bool, ('e, 'z) storage_scheme) io" where
  "uninstallCustomFormatSpecifier spec =
     bindE (hasCustomFormatSpecifier spec) (\<lambda>has.
     if has
     then thenE (modifyE (\<lambda>s. s\<lparr>st_customFormatSpecifiers := remove_first_spec spec (st_customFormatSpecifiers s)\<rparr>))
            (ret True)
     else ret False)"

definition setLoggingLevel :: "Level \<Rightarrow> (unit, ('e, 'z) storage_scheme) io" where
  "setLoggingLevel level = modifyE (\<lambda>s. s\<lparr>st_loggingLevel := Some level\<rparr>)"

definition setPreRollOutCallback :: "'e preRollOut \<Rightarrow> (unit, ('e, 'z) storage_scheme) io" where
  "setPreRollOutCallback cb = modifyE (\<lambda>s. s\<lparr>st_preRollOutCallback := cb\<rparr>)"

definition unsetPreRollOutCallback :: "(unit, ('e, 'z) storage_scheme) io" where
  "unsetPreRollOutCallback = modifyE (\<lambda>s. s\<lparr>st_preRollOutCallback := defaultPreRollOutCallback\<rparr>)"

text \<open>The storage before the body of its constructor, and that body.\<close>

definition initial_storage :: "'e \<Rightarrow> 'e storage" where
  "initial_storage e =
     \<lparr>log_env = e, logStreamsReference = [], st_loggers = [],
      st_defaultConfigurations = setToDefault new_Configurations, st_flags = 0,
      st_vRegistry = \<lparr>m_vlevel = 0, m_modules = []\<rparr>, st_hitCounters = [],
      st_commandLineArgs = new_CommandLineArgs, st_preRollOutCallback = defaultPreRollOutCallback,
      st_logDispatchCallbacks = [], st_customFormatSpecifiers = [], st_loggingLevel = None\<rparr>"

definition new_Storage :: "'e log_os \<Rightarrow> identity \<Rightarrow> (unit, ('e, 'z) storage_scheme) io" where
  "new_Storage os ident =
     bindE (loggers_get os ident kDefaultLoggerId True) (\<lambda>_.
     bindE (loggers_get os ident kPerformanceLoggerId True) (\<lambda>_.
     thenE (with_logger kPerformanceLoggerId (\<lambda>lg.
        reconfigure os ident
          (lg\<lparr>lg_configurations := setGlobally CT_Format ''%datetime %level %msg'' False (lg_configurations lg)\<rparr>)))
     (thenE (st_addFlag AllowVerboseIfModuleNotSpecified)
     (bindE (installLogDispatchCallback ''DefaultLogDispatchCallback'') (\<lambda>_. ret ())))))"

definition kDefaultLogFileParam :: string where "kDefaultLogFileParam = ''--default-log-file''"

text \<open>A loop over the registered loggers.\<close>

fun each_logger ::
  "(Logger \<Rightarrow> (Logger, ('e, 'z) storage_scheme) io) \<Rightarrow> string list \<Rightarrow> (unit, ('e, 'z) storage_scheme) io" where
  "each_logger f [] = ret ()"
| "each_logger f (lid # lids) = thenE (with_logger lid f) (each_logger f lids)"

definition all_loggers ::
  "(Logger \<Rightarrow> (Logger, ('e, 'z) storage_scheme) io) \<Rightarrow> (unit, ('e, 'z) storage_scheme) io" where
  "all_loggers f = bindE (getE (\<lambda>s. map fst (st_loggers s))) (each_logger f)"

definition setApplicationArguments ::
  "'e log_os \<Rightarrow> identity \<Rightarrow> string list \<Rightarrow> (unit, ('e, 'z) storage_scheme) io" where
  "setApplicationArguments os ident argv =
     (let args = setArgs argv in
      thenE (modifyE (\<lambda>s. s\<lparr>st_commandLineArgs := args\<rparr>))
      (bindE (getE (\<lambda>s. setFromArgs (st_flags s) args (st_vRegistry s))) (\<lambda>v.
       bindE (defined v) (\<lambda>v'.
       thenE (modifyE (\<lambda>s. s\<lparr>st_vRegistry := v'\<rparr>))
       (if hasParamWithValue kDefaultLogFileParam args
        then
          let c = setGlobally CT_Filename (getParamValue kDefaultLogFileParam args) False new_Configurations
          in thenE (setDefaultConfigurations c) (all_loggers (configure os ident (Some c)))
        else ret ())))))"

section \<open>The interface for programs\<close>

definition getLogger ::
  "'e log_os \<Rightarrow> identity \<Rightarrow> string \<Rightarrow> bool \<Rightarrow> (string option, ('e, 'z) storage_scheme) io" where
  "getLogger os ident identity registerIfNotAvailable = loggers_get os ident identity registerIfNotAvailable"

definition unregisterLogger :: "string \<Rightarrow> (bool, ('e, 'z) storage_scheme) io" where
  "unregisterLogger identity = loggers_remove identity"

definition hasLogger :: "string \<Rightarrow> (bool, ('e, 'z) storage_scheme) io" where
  "hasLogger identity = loggers_has identity"

definition reconfigureLogger ::
  "'e log_os \<Rightarrow> identity \<Rightarrow> string \<Rightarrow> Configurations \<Rightarrow> (string option, ('e, 'z) storage_scheme) io" where
  "reconfigureLogger os ident identity configurations =
     bindE (getLogger os ident identity True) (\<lambda>l.
     case l of
       None \<Rightarrow> ret None
     | Some lid \<Rightarrow> thenE (with_logger lid (configure os ident (Some configurations))) (ret (Some lid)))"

definition reconfigureLogger_value ::
  "'e log_os \<Rightarrow> identity \<Rightarrow> string \<Rightarrow> ConfigurationType \<Rightarrow> string \<Rightarrow>
     (string option, ('e, 'z) storage_scheme) io" where
  "reconfigureLogger_value os ident identity configurationType val =
     bindE (getLogger os ident identity True) (\<lambda>l.
     case l of
       None \<Rightarrow> ret None
     | Some lid \<Rightarrow>
         thenE (with_logger lid (\<lambda>lg. reconfigure os ident
             (lg\<lparr>lg_configurations := conf_set Level_Global configurationType val (lg_configurations lg)\<rparr>)))
           (ret (Some lid)))"

definition reconfigureAllLoggers ::
  "'e log_os \<Rightarrow> identity \<Rightarrow> Configurations \<Rightarrow> (unit, ('e, 'z) storage_scheme) io" where
  "reconfigureAllLoggers os ident configurations = all_loggers (configure os ident (Some configurations))"

definition reconfigureAllLoggers_at ::
  "'e log_os \<Rightarrow> identity \<Rightarrow> Level \<Rightarrow> ConfigurationType \<Rightarrow> string \<Rightarrow> (unit, ('e, 'z) storage_scheme) io" where
  "reconfigureAllLoggers_at os ident level configurationType val =
     all_loggers (\<lambda>lg. reconfigure os ident
       (lg\<lparr>lg_configurations := conf_set level configurationType val (lg_configurations lg)\<rparr>))"

definition reconfigureAllLoggers_value ::
  "'e log_os \<Rightarrow> identity \<Rightarrow> ConfigurationType \<Rightarrow> string \<Rightarrow> (unit, ('e, 'z) storage_scheme) io" where
  "reconfigureAllLoggers_value os ident configurationType val =
     reconfigureAllLoggers_at os ident Level_Global configurationType val"

definition setDefaultConfigurations_all ::
  "'e log_os \<Rightarrow> identity \<Rightarrow> Configurations \<Rightarrow> bool \<Rightarrow> (unit, ('e, 'z) storage_scheme) io" where
  "setDefaultConfigurations_all os ident configurations reconfigureExistingLoggers =
     thenE (setDefaultConfigurations configurations)
       (if reconfigureExistingLoggers then reconfigureAllLoggers os ident configurations else ret ())"

definition populateAllLoggerIds :: "(string list, ('e, 'z) storage_scheme) io" where
  "populateAllLoggerIds = getE (\<lambda>s. map fst (st_loggers s))"

definition kConfigurationLoggerId :: string where "kConfigurationLoggerId = ''--''"

text \<open>
  A file that configures several loggers: what follows the name of a logger is its configuration.
  The state of the loop is what was read for the current logger, and that logger.
\<close>

definition configure_from_text ::
  "'e log_os \<Rightarrow> identity \<Rightarrow> string \<Rightarrow> string \<Rightarrow> (unit, ('e, 'z) storage_scheme) io" where
  "configure_from_text os ident lid ss =
     with_logger lid (configure os ident (Some (snd (parseFromText ss None new_Configurations))))"

definition global_line ::
  "'e log_os \<Rightarrow> identity \<Rightarrow> string \<Rightarrow> string \<times> string option \<Rightarrow>
     (string \<times> string option, ('e, 'z) storage_scheme) io" where
  "global_line os ident line0 st =
     (let (ss, logger) = st; line1 = trim line0 in
      if isComment line1 then ret st
      else
        let line = trim (ignoreComments line1) in
        if length line > 2 \<and> startsWith line kConfigurationLoggerId
        then
          thenE (case logger of
                   Some lid \<Rightarrow> if ss \<noteq> [] then configure_from_text os ident lid ss else ret ()
                 | None \<Rightarrow> ret ())
            (let name = trim (drop 2 line) in
             if length name > 1
             then bindE (getLogger os ident name True) (\<lambda>l. ret ([], l))
             else ret ([], logger))
        else ret (ss @ line @ [NEWLINE], logger))"

definition configureFromGlobal ::
  "'e log_os \<Rightarrow> identity \<Rightarrow> string option \<Rightarrow> (unit, ('e, 'z) storage_scheme) io" where
  "configureFromGlobal os ident contents =
     bindE (foldE (global_line os ident) (case contents of None \<Rightarrow> [] | Some t \<Rightarrow> file_lines t) ([], None)) (\<lambda>st.
     case st of
       (ss, Some lid) \<Rightarrow> if ss \<noteq> [] then configure_from_text os ident lid ss else ret ()
     | (ss, None) \<Rightarrow> ret ())"

text \<open>\<open>file_contents\<close> reads the file that an argument names.\<close>

definition configureFromArg ::
  "'e log_os \<Rightarrow> identity \<Rightarrow> (string \<Rightarrow> string option) \<Rightarrow> string \<Rightarrow> (bool, ('e, 'z) storage_scheme) io" where
  "configureFromArg os ident file_contents argKey =
     bindE (getE st_commandLineArgs) (\<lambda>args.
     if \<not> hasParamWithValue argKey args then ret False
     else thenE (configureFromGlobal os ident (file_contents (getParamValue argKey args))) (ret True))"

end
