(* ===== verification/Elpp_Writer.thy ===== *)
theory Elpp_Writer
  imports Elpp_Logger
begin

text \<open>
  How a log statement of \<^verbatim>\<open>easylogging++.h\<close> runs: \<open>Writer\<close> picks the loggers and collects the
  message, \<open>LogDispatcher\<close> hands it to the callbacks, \<open>DefaultLogBuilder\<close> makes the line and
  \<open>DefaultLogDispatchCallback\<close> writes it to the log file and the standard output. A fatal message
  aborts the program.
\<close>

section \<open>Messages\<close>

datatype DispatchAction = DA_None | DA_NormalLog | DA_SysLog

record LogMessage =
  msg_level :: Level
  msg_file :: string
  msg_line :: nat
  msg_func :: string
  msg_verboseLevel :: int
  msg_message :: string

text \<open>What is written into a message: a \<open>std::string\<close>, or the text of any other simple value.\<close>

datatype log_arg = Std_String string | Simple string

definition append_arg :: "EnumType \<Rightarrow> log_arg \<Rightarrow> string \<Rightarrow> string" where
  "append_arg flags arg stream =
     (case arg of
        Std_String s \<Rightarrow> stream @ c_str s
      | Simple s \<Rightarrow> stream @ s @ (if hasFlag (logging_flag AutoSpacing) flags then '' '' else []))"

section \<open>The line\<close>

definition kSourceLineMaxLength :: nat where "kSourceLineMaxLength = 10"

text \<open>The buffer for source locations, with a string in it; and the text that is in it in the end.\<close>

definition source_buffer :: "string \<Rightarrow> buffer" where
  "source_buffer s = (s @ replicate (kSourceFilenameMaxLength + kSourceLineMaxLength - length s) NUL, length s)"

definition add_line_number :: "nat \<Rightarrow> buffer \<Rightarrow> buffer" where
  "add_line_number line buf = convertAndAddToBuff line (int kSourceLineMaxLength) buf False"

definition replace_if ::
  "FormatFlags \<Rightarrow> LogFormat \<Rightarrow> string \<Rightarrow> (string, 'w) io \<Rightarrow> string \<Rightarrow> (string, 'w) io" where
  "replace_if flag lf specifier val logLine =
     (if lf_hasFlag flag lf then bindE val (\<lambda>v. ret (replaceFirstWithEscape logLine specifier v))
      else ret logLine)"

definition replace_custom :: "(string \<times> string) list \<Rightarrow> string \<Rightarrow> string" where
  "replace_custom specs logLine =
     fold (\<lambda>(spec, val) line. replaceFirstWithEscape line spec val) specs logLine"

definition build_line ::
  "'e log_os \<Rightarrow> Logger \<Rightarrow> LogMessage \<Rightarrow> bool \<Rightarrow> (string, ('e, 'z) storage_scheme) io" where
  "build_line os logger msg appendNewLine =
     bindE (typedConfigurations logger) (\<lambda>tc.
     bindE (defined (tc_logFormat (msg_level msg) tc)) (\<lambda>lf.
     bindE (replace_if FF_AppName lf kAppNameFormatSpecifier (ret (lg_parentApplicationName logger)) (lf_format lf)) (\<lambda>l1.
     bindE (replace_if FF_ThreadId lf kThreadIdFormatSpecifier (ret []) l1) (\<lambda>l2.
     bindE (replace_if FF_DateTime lf kDateTimeFormatSpecifier
              (bindE (defined (tc_millisecondsWidth (msg_level msg) tc)) (now_text os (lf_dateTimeFormat lf))) l2) (\<lambda>l3.
     bindE (replace_if FF_Function lf kLogFunctionFormatSpecifier (ret (msg_func msg)) l3) (\<lambda>l4.
     bindE (replace_if FF_File lf kLogFileFormatSpecifier
              (defined (buffer_string (source_buffer
                (buildStrippedFilename (c_str (msg_file msg)) [] kSourceFilenameMaxLength)))) l4) (\<lambda>l5.
     bindE (replace_if FF_FileBase lf kLogFileBaseFormatSpecifier
              (defined (buffer_string (source_buffer
                (buildBaseFilename (msg_file msg) [] kSourceFilenameMaxLength)))) l5) (\<lambda>l6.
     bindE (replace_if FF_Line lf kLogLineFormatSpecifier
              (defined (buffer_string (add_line_number (msg_line msg) (source_buffer [])))) l6) (\<lambda>l7.
     bindE (replace_if FF_Location lf kLogLocationFormatSpecifier
              (defined (buffer_string (add_line_number (msg_line msg) (addToBuff '':''
                (source_buffer (buildStrippedFilename (c_str (msg_file msg)) [] kSourceFilenameMaxLength)))))) l7) (\<lambda>l8.
     bindE (if msg_level msg = Level_Verbose
            then replace_if FF_VerboseLevel lf kVerboseLevelFormatSpecifier
                   (defined (buffer_string (convertAndAddToBuff (size_t_of (msg_verboseLevel msg)) 1 (source_buffer []) False))) l8
            else ret l8) (\<lambda>l9.
     bindE (replace_if FF_LogMessage lf kMessageFormatSpecifier (ret (msg_message msg)) l9) (\<lambda>l10.
     bindE (getE st_customFormatSpecifiers) (\<lambda>specs.
     ret (replace_custom specs l10 @ (if appendNewLine then [NEWLINE] else [])))))))))))))))"

definition s_termSupportsColor :: "string \<Rightarrow> bool" where
  "s_termSupportsColor term =
     (term = ''xterm'' \<or> term = ''xterm-color'' \<or> term = ''xterm-256color'' \<or>
      term = ''screen'' \<or> term = ''linux'' \<or> term = ''cygwin'')"

definition ESC :: char where "ESC = CHR 0x1B"

definition convertToColoredOutput :: "bool \<Rightarrow> Level \<Rightarrow> string \<Rightarrow> string" where
  "convertToColoredOutput supported level logLine =
     (let resetColor = ESC # ''[0m'' in
      if \<not> supported then logLine
      else if level = Level_Error \<or> level = Level_Fatal then (ESC # ''[31m'') @ logLine @ resetColor
      else if level = Level_Warning then (ESC # ''[33m'') @ logLine @ resetColor
      else logLine)"

section \<open>Dispatch\<close>

text \<open>Writing a line to the file of its level, and flushing it when it is time.\<close>

definition write_file ::
  "'e log_os \<Rightarrow> string \<Rightarrow> Level \<Rightarrow> string \<Rightarrow> (unit, ('e, 'z) storage_scheme) io" where
  "write_file os lid level logLine =
     with_logger lid (\<lambda>lg.
       bindE (typedConfigurations lg) (\<lambda>tc.
       if \<not> tc_toFile level tc then ret lg
       else
         bindE (defined (tc_fileStream level tc)) (\<lambda>fs.
         case fs of
           None \<Rightarrow> ret lg
         | Some f \<Rightarrow>
             bindE (log_call (lo_write os f logLine)) (\<lambda>good.
             if \<not> good then ret lg
             else
               bindE (st_hasFlag ImmediateFlush) (\<lambda>immediate.
               bindE (if immediate then ret (True, lg) else isFlushNeeded level lg) (\<lambda>(needed, lg').
               if needed then flush_level os level fs lg' else ret lg'))))))"

definition write_stdout ::
  "'e log_os \<Rightarrow> bool \<Rightarrow> string \<Rightarrow> Level \<Rightarrow> string \<Rightarrow> (unit, ('e, 'z) storage_scheme) io" where
  "write_stdout os termColor lid level logLine =
     with_logger lid (\<lambda>lg.
       bindE (typedConfigurations lg) (\<lambda>tc.
       if tc_toStandardOutput level tc
       then
         bindE (st_hasFlag ColoredTerminalOutput) (\<lambda>coloured.
         bindE (log_call (lo_stdout os (if coloured then convertToColoredOutput termColor level logLine else logLine)))
           (\<lambda>_. ret lg))
       else ret lg))"

text \<open>\<open>DefaultLogDispatchCallback\<close>: system logs are compiled out.\<close>

definition handle ::
  "'e log_os \<Rightarrow> bool \<Rightarrow> string \<Rightarrow> LogMessage \<Rightarrow> DispatchAction \<Rightarrow> (unit, ('e, 'z) storage_scheme) io" where
  "handle os termColor lid msg action =
     bindE (find_logger lid) (\<lambda>l.
     bindE (defined l) (\<lambda>lg.
     bindE (build_line os lg msg (action = DA_NormalLog)) (\<lambda>logLine.
     if action = DA_NormalLog
     then thenE (write_file os lid (msg_level msg) logLine)
            (write_stdout os termColor lid (msg_level msg) logLine)
     else ret ())))"

fun run_callbacks ::
  "(unit, 'w) io \<Rightarrow> (string \<times> bool) list \<Rightarrow> (unit, 'w) io" where
  "run_callbacks h [] = ret ()"
| "run_callbacks h ((lid, enabled) # cbs) =
     (if enabled then thenE h (run_callbacks h cbs) else run_callbacks h cbs)"

definition dispatch ::
  "'e log_os \<Rightarrow> bool \<Rightarrow> bool \<Rightarrow> string \<Rightarrow> LogMessage \<Rightarrow> DispatchAction \<Rightarrow> (unit, ('e, 'z) storage_scheme) io" where
  "dispatch os termColor proceed0 lid msg action =
     (let proceed = (if proceed0 \<and> action = DA_None then False else proceed0) in
      if \<not> proceed then ret ()
      else
        bindE (st_hasFlag StrictLogFileSizeCheck) (\<lambda>strict.
        thenE
          (if strict
           then
             bindE (find_logger lid) (\<lambda>l.
             bindE (defined l) (\<lambda>lg.
             bindE (typedConfigurations lg) (\<lambda>tc.
             bindE (getE st_preRollOutCallback) (\<lambda>cb.
             bindE (unsafeValidateFileRolling os (msg_level msg) cb tc) (\<lambda>_. ret ())))))
           else ret ())
          (bindE (getE st_logDispatchCallbacks) (run_callbacks (handle os termColor lid msg action)))))"

section \<open>Writers\<close>

record Writer =
  w_level :: Level
  w_file :: string
  w_line :: nat
  w_func :: string
  w_verboseLevel :: int
  w_logger :: "string option"
  w_proceed :: bool
  w_dispatchAction :: DispatchAction
  w_loggerIds :: "string list"

definition new_Writer :: "Level \<Rightarrow> string \<Rightarrow> nat \<Rightarrow> string \<Rightarrow> DispatchAction \<Rightarrow> int \<Rightarrow> Writer" where
  "new_Writer level file line func action verboseLevel =
     \<lparr>w_level = level, w_file = file, w_line = line, w_func = func, w_verboseLevel = verboseLevel,
      w_logger = None, w_proceed = False, w_dispatchAction = action, w_loggerIds = []\<rparr>"

text \<open>Whether a message of a level goes on to a logger. The logging level may be indeterminate.\<close>

definition may_proceed :: "Level \<Rightarrow> string \<Rightarrow> (bool, ('e, 'z) storage_scheme) io" where
  "may_proceed level lid =
     bindE (find_logger lid) (\<lambda>l.
     bindE (defined l) (\<lambda>lg.
     bindE (st_hasFlag HierarchicalLogging) (\<lambda>hierarchical.
     if hierarchical \<and> level \<noteq> Level_Verbose
     then bindE (getE st_loggingLevel) (\<lambda>ll.
          bindE (defined ll) (\<lambda>loggingLevel.
          ret (level_castToInt level \<ge> level_castToInt loggingLevel)))
     else logger_enabled level lg)))"

definition set_stream :: "string \<Rightarrow> (string \<Rightarrow> string) \<Rightarrow> (unit, ('e, 'z) storage_scheme) io" where
  "set_stream lid f = with_logger lid (\<lambda>lg. ret (lg\<lparr>lg_stream := f (lg_stream lg)\<rparr>))"

definition write_args :: "Writer \<Rightarrow> log_arg list \<Rightarrow> (unit, ('e, 'z) storage_scheme) io" where
  "write_args w args =
     (case w_logger w of
        Some lid \<Rightarrow>
          if w_proceed w
          then bindE (getE st_flags) (\<lambda>flags. set_stream lid (fold (append_arg flags) args))
          else ret ()
      | None \<Rightarrow> ret ())"

definition dispatch_message ::
  "'e log_os \<Rightarrow> bool \<Rightarrow> Writer \<Rightarrow> string \<Rightarrow> (unit, ('e, 'z) storage_scheme) io" where
  "dispatch_message os termColor w lid =
     bindE (find_logger lid) (\<lambda>l.
     bindE (defined l) (\<lambda>lg.
     dispatch os termColor (w_proceed w) lid
       \<lparr>msg_level = w_level w, msg_file = w_file w, msg_line = w_line w, msg_func = w_func w,
        msg_verboseLevel = w_verboseLevel w, msg_message = lg_stream lg\<rparr> (w_dispatchAction w)))"

text \<open>
  A statement of the library's own, to the default logger, which is registered then, and at a
  level that does not abort.
\<close>

definition log_default ::
  "'e log_os \<Rightarrow> bool \<Rightarrow> Level \<Rightarrow> Writer \<Rightarrow> log_arg list \<Rightarrow> (unit, ('e, 'z) storage_scheme) io" where
  "log_default os termColor level w0 args =
     bindE (may_proceed level kDefaultLoggerId) (\<lambda>proceed.
     let w = (new_Writer level (w_file w0) (w_line w0) (w_func w0) DA_NormalLog 0)
               \<lparr>w_logger := Some kDefaultLoggerId, w_proceed := proceed\<rparr>
     in thenE (write_args w args)
          (thenE (if proceed then dispatch_message os termColor w kDefaultLoggerId else ret ())
             (set_stream kDefaultLoggerId (\<lambda>_. []))))"

definition initializeLogger ::
  "'e log_os \<Rightarrow> identity \<Rightarrow> bool \<Rightarrow> string \<Rightarrow> bool \<Rightarrow> Writer \<Rightarrow> (Writer, ('e, 'z) storage_scheme) io" where
  "initializeLogger os ident termColor loggerId lookup w =
     bindE (if lookup
            then bindE (st_hasFlag CreateLoggerAutomatically) (loggers_get os ident loggerId)
            else ret (w_logger w)) (\<lambda>l.
     case l of
       None \<Rightarrow>
         bindE (loggers_has kDefaultLoggerId) (\<lambda>has.
         bindE (if has then ret None else loggers_get os ident kDefaultLoggerId True) (\<lambda>_.
         thenE (log_default os termColor Level_Debug w
                  [Simple ''Logger ['', Std_String loggerId, Simple ''] is not registered yet!''])
           (ret (w\<lparr>w_logger := None, w_proceed := False\<rparr>))))
     | Some lid \<Rightarrow>
         bindE (may_proceed (w_level w) lid) (\<lambda>proceed.
         ret (w\<lparr>w_logger := Some lid, w_proceed := proceed\<rparr>)))"

definition construct ::
  "'e log_os \<Rightarrow> identity \<Rightarrow> bool \<Rightarrow> string list \<Rightarrow> Writer \<Rightarrow> (Writer, ('e, 'z) storage_scheme) io" where
  "construct os ident termColor loggerIds w =
     bindE (st_hasFlag MultiLoggerSupport) (\<lambda>multi.
     if multi then initializeLogger os ident termColor (hd loggerIds) True (w\<lparr>w_loggerIds := loggerIds\<rparr>)
     else initializeLogger os ident termColor (hd loggerIds) True w)"

definition clear_stream :: "Writer \<Rightarrow> (unit, ('e, 'z) storage_scheme) io" where
  "clear_stream w = (case w_logger w of None \<Rightarrow> ret () | Some lid \<Rightarrow> set_stream lid (\<lambda>_. []))"

definition triggerDispatch ::
  "'e log_os \<Rightarrow> bool \<Rightarrow> Writer \<Rightarrow> (Writer, ('e, 'z) storage_scheme) io" where
  "triggerDispatch os termColor w =
     thenE (case w_logger w of
              Some lid \<Rightarrow> if w_proceed w then dispatch_message os termColor w lid else ret ()
            | None \<Rightarrow> ret ())
     (thenE (clear_stream w)
     (bindE (st_hasFlag DisableApplicationAbortOnFatalLog) (\<lambda>no_abort.
      if w_proceed w \<and> w_level w = Level_Fatal \<and> \<not> no_abort
      then thenE (log_default os termColor Level_Warning w
                    [Simple ''Aborting application. Reason: Fatal log at ['', Simple (w_file w), Simple '':'',
                     Simple (show_nat (w_line w)), Simple '']''])
             (throw (Abort ''Fatal log''))
      else ret (w\<lparr>w_proceed := False\<rparr>))))"

text \<open>
  The loop over several loggers, from the one that is initialised. \<open>logMessage\<close> is the message
  of the first that went on, and is kept only if there are more loggers than one.
\<close>

fun process_loggers ::
  "'e log_os \<Rightarrow> identity \<Rightarrow> bool \<Rightarrow> string list \<Rightarrow> bool \<Rightarrow> string \<Rightarrow> Writer \<Rightarrow>
     (unit, ('e, 'z) storage_scheme) io" where
  "process_loggers os ident termColor rest firstDispatched logMessage w =
     bindE
       (if w_proceed w
        then
          bindE (bindE (find_logger (the (w_logger w))) defined) (\<lambda>lg.
          let message = (if firstDispatched then logMessage
                         else if length (w_loggerIds w) > 1 then lg_stream lg else logMessage)
          in thenE (if firstDispatched then set_stream (the (w_logger w)) (\<lambda>s. s @ logMessage) else ret ())
               (bindE (triggerDispatch os termColor w) (\<lambda>w'. ret (True, message, w'))))
        else thenE (clear_stream w) (ret (firstDispatched, logMessage, w)))
       (\<lambda>(firstDispatched', logMessage', w').
          case rest of
            [] \<Rightarrow> ret ()
          | lid # rest' \<Rightarrow>
              bindE (initializeLogger os ident termColor lid True w')
                (process_loggers os ident termColor rest' firstDispatched' logMessage'))"

definition processDispatch ::
  "'e log_os \<Rightarrow> identity \<Rightarrow> bool \<Rightarrow> Writer \<Rightarrow> (unit, ('e, 'z) storage_scheme) io" where
  "processDispatch os ident termColor w =
     bindE (st_hasFlag MultiLoggerSupport) (\<lambda>multi.
     if multi then process_loggers os ident termColor (tl (w_loggerIds w)) False [] w
     else if w_proceed w then bindE (triggerDispatch os termColor w) (\<lambda>_. ret ())
     else clear_stream w)"

text \<open>A whole statement: \<open>CLOG(level, ids) << args\<close>.\<close>

definition log_statement ::
  "'e log_os \<Rightarrow> identity \<Rightarrow> bool \<Rightarrow> Writer \<Rightarrow> string list \<Rightarrow> log_arg list \<Rightarrow>
     (unit, ('e, 'z) storage_scheme) io" where
  "log_statement os ident termColor w0 loggerIds args =
     bindE (construct os ident termColor loggerIds w0) (\<lambda>w.
     thenE (write_args w args) (processDispatch os ident termColor w))"

end
