(* ===== verification/Elpp_Log_Line.thy ===== *)
theory Elpp_Log_Line
  imports Elpp_Writer
begin

text \<open>
  What a program sees of the logging library: the lines that its statements append to the log file
  and to the standard output, from the storage as the library sets it up, with the format that
  \<^verbatim>\<open>main.cpp\<close> configures. \<open>device_works\<close> is what is relied on of the system, and \<open>ready\<close> the
  invariant of a logger between two statements.
\<close>

section \<open>A system that takes what is written\<close>

text \<open>
  Of the surroundings two things are looked at: the text that went to each file, and the text that
  went to the standard output.
\<close>

definition shows_same ::
  "('e \<Rightarrow> string \<Rightarrow> string) \<Rightarrow> ('e \<Rightarrow> string) \<Rightarrow> 'e \<Rightarrow> 'e \<Rightarrow> bool" where
  "shows_same file_text console e e' \<longleftrightarrow> file_text e' = file_text e \<and> console e' = console e"

definition device_works ::
  "'e log_os \<Rightarrow> ('e \<Rightarrow> string \<Rightarrow> string) \<Rightarrow> ('e \<Rightarrow> string) \<Rightarrow> bool" where
  "device_works os file_text console \<longleftrightarrow>
     (\<forall>f t e. \<exists>e'. lo_write os f t e = Some (True, e') \<and>
        file_text e' = (file_text e)(f := file_text e f @ t) \<and> console e' = console e) \<and>
     (\<forall>t e. \<exists>e'. lo_stdout os t e = Some ((), e') \<and>
        file_text e' = file_text e \<and> console e' = console e @ t) \<and>
     (\<forall>f e. \<exists>e'. lo_open_append os f e = Some (True, e') \<and> shows_same file_text console e e') \<and>
     (\<forall>f e. \<exists>e'. lo_flush os f e = Some ((), e') \<and> shows_same file_text console e e') \<and>
     (\<forall>f e. \<exists>r e'. lo_stat os f e = Some (r, e') \<and> shows_same file_text console e e') \<and>
     (\<forall>f e. \<exists>r e'. lo_mkdir os f e = Some (r, e') \<and> shows_same file_text console e e') \<and>
     (\<forall>f e. \<exists>n e'. lo_size os f e = Some (n, e') \<and> shows_same file_text console e e')"

lemma device_write:
  assumes "device_works os file_text console"
  obtains e' where "lo_write os f t e = Some (True, e')"
    "file_text e' = (file_text e)(f := file_text e f @ t)" "console e' = console e"
  using assms unfolding device_works_def by blast

lemma device_stdout:
  assumes "device_works os file_text console"
  obtains e' where "lo_stdout os t e = Some ((), e')"
    "file_text e' = file_text e" "console e' = console e @ t"
  using assms unfolding device_works_def by blast

lemma device_quiet:
  assumes "device_works os file_text console"
  shows "\<exists>e'. lo_open_append os f e = Some (True, e') \<and> shows_same file_text console e e'"
    and "\<exists>e'. lo_flush os f e = Some ((), e') \<and> shows_same file_text console e e'"
    and "\<exists>r e'. lo_stat os f e = Some (r, e') \<and> shows_same file_text console e e'"
    and "\<exists>r e'. lo_mkdir os f e = Some (r, e') \<and> shows_same file_text console e e'"
    and "\<exists>n e'. lo_size os f e = Some (n, e') \<and> shows_same file_text console e e'"
  using assms unfolding device_works_def by blast+

lemma shows_same_trans [trans]:
  "shows_same ft co e e' \<Longrightarrow> shows_same ft co e' e'' \<Longrightarrow> shows_same ft co e e''"
  by (simp add: shows_same_def)

lemma shows_same_refl [simp]: "shows_same ft co e e"
  by (simp add: shows_same_def)

section \<open>The line of a statement\<close>

text \<open>The levels that messages have, and those of which a message does not end the program.\<close>

definition dispatched :: "Level \<Rightarrow> bool" where
  "dispatched l \<longleftrightarrow> l \<notin> {Level_Global, Level_Unknown}"

definition loggable :: "Level \<Rightarrow> bool" where
  "loggable l \<longleftrightarrow> l \<notin> {Level_Global, Level_Unknown, Level_Fatal}"

lemma loggable_dispatched: "loggable l \<Longrightarrow> dispatched l"
  by (simp add: loggable_def dispatched_def)

fun arg_text :: "log_arg \<Rightarrow> string" where
  "arg_text (Std_String s) = c_str s"
| "arg_text (Simple s) = s"

definition log_line :: "string \<Rightarrow> Level \<times> log_arg list \<Rightarrow> string" where
  "log_line b st = level_value (fst st) @ b @ concat (map arg_text (snd st)) @ [NEWLINE]"

definition level_msg_flags :: EnumType where
  "level_msg_flags = addFlag (format_flag FF_LogMessage) (addFlag (format_flag FF_Level) 0)"

definition level_msg_format :: "string \<Rightarrow> Level \<Rightarrow> LogFormat" where
  "level_msg_format b l =
     \<lparr>lf_level = l, lf_userFormat = level_msg b, lf_format = level_value l @ b @ ''%msg'',
      lf_dateTimeFormat = [], lf_flags = level_msg_flags\<rparr>"

lemma make_level_msg_format:
  "CHR ''%'' \<notin> set b \<Longrightarrow> make_LogFormat ident l (level_msg b) = Some (level_msg_format b l)"
  by (simp add: make_LogFormat_level_msg level_msg_format_def level_msg_flags_def)

lemma level_msg_format_flags:
  "lf_hasFlag flag (level_msg_format b l) \<longleftrightarrow> flag = FF_LogMessage \<or> flag = FF_Level"
  by (simp add: lf_hasFlag_def level_msg_format_def level_msg_flags_def hasFlag_add
      format_flag_disjoint del: format_flag.simps)

lemma level_msg_format_format: "lf_format (level_msg_format b l) = level_value l @ b @ ''%msg''"
  by (simp add: level_msg_format_def)

lemma level_value_plain: "dispatched l \<Longrightarrow> CHR ''%'' \<notin> set (level_value l)"
  by (cases l) (simp_all add: dispatched_def)

text \<open>What is before the message has no specifier in it, so that the message goes where it belongs.\<close>

lemma replace_message:
  assumes "CHR ''%'' \<notin> set x"
  shows "replaceFirstWithEscape (x @ ''%msg'') kMessageFormatSpecifier m = x @ m"
proof -
  have "\<forall>j < length x. \<not> occurs_at (x @ ''%msg'' @ []) ''%msg'' j"
  proof (intro allI impI notI)
    fix j assume j: "j < length x" "occurs_at (x @ ''%msg'' @ []) ''%msg'' j"
    then have "(x @ ''%msg'' @ []) ! j = CHR ''%''" using occurs_at_hd [OF j(2)] by simp
    then show False using j(1) assms by (auto simp: nth_append dest: nth_mem)
  qed
  moreover have "x = [] \<or> last x \<noteq> kFormatSpecifierChar"
    using assms by (auto simp: kFormatSpecifierChar_def dest: last_in_set)
  ultimately have "replaceFirstWithEscape (x @ ''%msg'' @ []) ''%msg'' m = x @ m @ []"
    by (rule replaceFirst_found)
  then show ?thesis by (simp add: kMessageFormatSpecifier_def)
qed

lemma build_line_level_msg:
  assumes "lg_typedConfigurations lg = Some tc" "tc_logFormat (msg_level m) tc = Some (level_msg_format b (msg_level m))"
    and "dispatched (msg_level m)" "CHR ''%'' \<notin> set b" "st_customFormatSpecifiers s = []"
  shows "build_line os lg m True s =
    Some (Inr (level_value (msg_level m) @ b @ msg_message m @ [NEWLINE]), s)"
proof -
  have off: "replace_if flag (level_msg_format b l) spec val x = ret x"
    if "flag \<noteq> FF_LogMessage" "flag \<noteq> FF_Level" for flag spec val x l
    using that by (simp add: replace_if_def level_msg_format_flags)
  have msg: "replace_if FF_LogMessage (level_msg_format b l) kMessageFormatSpecifier (ret t)
      (lf_format (level_msg_format b l)) = ret (level_value l @ b @ t)" if "dispatched l" for l t
    using replace_message [of "level_value l @ b" t] level_value_plain [OF that] assms(4)
    by (simp add: replace_if_def level_msg_format_flags level_msg_format_format)
  show ?thesis
    using assms(1,2,3,5)
    by (simp add: build_line_def typedConfigurations_def defined_def off msg replace_custom_def io_simps)
qed

section \<open>One statement\<close>

definition default_flags :: "EnumType \<Rightarrow> bool" where
  "default_flags flags \<longleftrightarrow> (\<forall>flag. flag \<noteq> AllowVerboseIfModuleNotSpecified \<longrightarrow> \<not> hasFlag (logging_flag flag) flags)"

declare logging_flag.simps [simp del]

lemma default_flagsD [simp]:
  "default_flags flags \<Longrightarrow> flag \<noteq> AllowVerboseIfModuleNotSpecified \<Longrightarrow> \<not> hasFlag (logging_flag flag) flags"
  by (simp add: default_flags_def)

text \<open>Typed configurations that send every message, in the format, to one file and the standard output.\<close>

definition typed_ready :: "string \<Rightarrow> string \<Rightarrow> TypedConfigurations \<Rightarrow> bool" where
  "typed_ready b f tc \<longleftrightarrow>
     (\<forall>l. dispatched l \<longrightarrow> tc_enabled l tc \<and> tc_toFile l tc \<and> tc_toStandardOutput l tc \<and>
        tc_fileStream l tc = Some (Some f) \<and> tc_logFormat l tc = Some (level_msg_format b l))"

definition logger_ready :: "string \<Rightarrow> string \<Rightarrow> Logger \<Rightarrow> bool" where
  "logger_ready b f lg \<longleftrightarrow>
     (\<exists>tc. lg_typedConfigurations lg = Some tc \<and> typed_ready b f tc) \<and>
     (\<forall>l. dispatched l \<longrightarrow> map_of (lg_unflushedCount lg) l \<noteq> None)"

definition ready :: "string \<Rightarrow> string \<Rightarrow> string \<Rightarrow> ('e, 'z) storage_scheme \<Rightarrow> bool" where
  "ready b f lid s \<longleftrightarrow>
     default_flags (st_flags s) \<and> st_logDispatchCallbacks s = [(''DefaultLogDispatchCallback'', True)] \<and>
     st_customFormatSpecifiers s = [] \<and>
     (\<exists>lg. map_of (st_loggers s) lid = Some lg \<and> lg_stream lg = [] \<and> logger_ready b f lg)"

text \<open>A state with another value for a logger.\<close>

definition store :: "string \<Rightarrow> Logger \<Rightarrow> ('e, 'z) storage_scheme \<Rightarrow> ('e, 'z) storage_scheme" where
  "store lid lg s = s\<lparr>st_loggers := put_assoc lid lg (st_loggers s)\<rparr>"

lemma put_assoc_lookup: "map_of (put_assoc lid lg m) k = (if k = lid \<and> map_of m lid \<noteq> None then Some lg else map_of m k)"
  by (induction m) auto

lemma put_assoc_again [simp]: "put_assoc lid lg (put_assoc lid lg' m) = put_assoc lid lg m"
  by (induction m) auto

lemma keys_put_assoc [simp]: "map fst (put_assoc lid lg m) = map fst m"
  by (induction m) auto

lemma store_simps [simp]:
  "log_env (store lid lg s) = log_env s" "logStreamsReference (store lid lg s) = logStreamsReference s"
  "st_flags (store lid lg s) = st_flags s"
  "st_logDispatchCallbacks (store lid lg s) = st_logDispatchCallbacks s"
  "st_customFormatSpecifiers (store lid lg s) = st_customFormatSpecifiers s"
  "store lid lg (store lid lg' s) = store lid lg s"
  "map fst (st_loggers (store lid lg s)) = map fst (st_loggers s)"
  "(store lid lg s)\<lparr>log_env := e\<rparr> = store lid lg (s\<lparr>log_env := e\<rparr>)"
  "map_of (st_loggers (store lid lg s)) k =
     (if k = lid \<and> map_of (st_loggers s) lid \<noteq> None then Some lg else map_of (st_loggers s) k)"
  by (simp_all add: store_def put_assoc_lookup)

lemma find_logger_run [io_simps]: "find_logger lid s = Some (Inr (map_of (st_loggers s) lid), s)"
  by (simp add: find_logger_def io_simps)

lemma st_hasFlag_run [io_simps]: "st_hasFlag flag s = Some (Inr (hasFlag (logging_flag flag) (st_flags s)), s)"
  by (simp add: st_hasFlag_def io_simps)

lemma bindE_lookups [io_simps]:
  "bindE (st_hasFlag flag) g s = g (hasFlag (logging_flag flag) (st_flags s)) s"
  "bindE (find_logger lid) h s = h (map_of (st_loggers s) lid) s"
  "bindE (getE k) m s = m (k s) s"
  by (simp_all add: bindE_def st_hasFlag_run find_logger_run getE_def)

lemma with_logger_run:
  assumes "map_of (st_loggers s) lid = Some lg" and "f lg s = Some (Inr lg', s')"
  shows "with_logger lid f s = Some (Inr (), store lid lg' s')"
  using assms by (simp add: with_logger_def put_logger_def store_def io_simps)

lemma level_update_dom: "map_of (level_update l f m) k = (if k = l then map_option f (map_of m k) else map_of m k)"
  by (induction m) auto

text \<open>The file: the text is written, and the count of what is not flushed is kept.\<close>

lemma write_file_run:
  assumes dev: "device_works os file_text console" and lg: "map_of (st_loggers s) lid = Some lg"
    and rdy: "logger_ready b f lg" and l: "dispatched l" and flags: "default_flags (st_flags s)"
  obtains e lg' where "write_file os lid l t s = Some (Inr (), store lid lg' (s\<lparr>log_env := e\<rparr>))"
    "logger_ready b f lg'" "lg_stream lg' = lg_stream lg"
    "file_text e = (file_text (log_env s))(f := file_text (log_env s) f @ t)" "console e = console (log_env s)"
proof -
  obtain tc where tc: "lg_typedConfigurations lg = Some tc" "typed_ready b f tc"
    using rdy by (auto simp: logger_ready_def)
  then have tcl: "tc_toFile l tc" "tc_fileStream l tc = Some (Some f)" using l by (simp_all add: typed_ready_def)
  obtain n where n: "map_of (lg_unflushedCount lg) l = Some n" using rdy l by (auto simp: logger_ready_def)
  obtain e1 where e1: "lo_write os f t (log_env s) = Some (True, e1)"
    "file_text e1 = (file_text (log_env s))(f := file_text (log_env s) f @ t)" "console e1 = console (log_env s)"
    using device_write [OF dev] by blast
  obtain e2 where e2: "lo_flush os f e1 = Some ((), e2)" "shows_same file_text console e1 e2"
    using device_quiet(2) [OF dev] by blast
  let ?n = "(n + 1) mod 2 ^ 32"
  let ?lg1 = "lg\<lparr>lg_unflushedCount := level_update l (\<lambda>_. ?n) (lg_unflushedCount lg)\<rparr>"
  let ?lg2 = "?lg1\<lparr>lg_unflushedCount := level_update l (\<lambda>_. 0) (lg_unflushedCount ?lg1)\<rparr>"
  have no_flush: "\<not> hasFlag (logging_flag ImmediateFlush) (st_flags s)" using flags by simp
  have keep: "logger_ready b f ?lg1" "logger_ready b f ?lg2"
    using rdy by (simp_all add: logger_ready_def level_update_dom)
  show ?thesis
  proof (cases "?n \<ge> tc_logFlushThreshold l tc")
    case True
    have "write_file os lid l t s = Some (Inr (), store lid ?lg2 (s\<lparr>log_env := e2\<rparr>))"
      unfolding write_file_def
      by (rule with_logger_run [OF lg])
        (use tc tcl n e1 e2 no_flush True in \<open>simp add: typedConfigurations_def defined_def isFlushNeeded_def
          flush_level_def log_call_def Let_def level_update_dom io_simps\<close>)
    then show ?thesis using that keep(2) e1 e2(2) by (simp add: shows_same_def)
  next
    case False
    have "write_file os lid l t s = Some (Inr (), store lid ?lg1 (s\<lparr>log_env := e1\<rparr>))"
      unfolding write_file_def
      by (rule with_logger_run [OF lg])
        (use tc tcl n e1 no_flush False in \<open>simp add: typedConfigurations_def defined_def isFlushNeeded_def
          log_call_def Let_def io_simps\<close>)
    then show ?thesis using that keep(1) e1 by simp
  qed
qed

lemma write_stdout_run:
  assumes dev: "device_works os file_text console" and lg: "map_of (st_loggers s) lid = Some lg"
    and rdy: "logger_ready b f lg" and l: "dispatched l" and flags: "default_flags (st_flags s)"
  obtains e where "write_stdout os termColor lid l t s = Some (Inr (), store lid lg (s\<lparr>log_env := e\<rparr>))"
    "file_text e = file_text (log_env s)" "console e = console (log_env s) @ t"
proof -
  obtain tc where tc: "lg_typedConfigurations lg = Some tc" "tc_toStandardOutput l tc"
    using rdy l by (auto simp: logger_ready_def typed_ready_def)
  obtain e where e: "lo_stdout os t (log_env s) = Some ((), e)"
    "file_text e = file_text (log_env s)" "console e = console (log_env s) @ t"
    using device_stdout [OF dev] by blast
  have "write_stdout os termColor lid l t s = Some (Inr (), store lid lg (s\<lparr>log_env := e\<rparr>))"
    unfolding write_stdout_def
    by (rule with_logger_run [OF lg])
      (use tc e flags in \<open>simp add: typedConfigurations_def defined_def log_call_def io_simps\<close>)
  then show ?thesis using that e by blast
qed

text \<open>What a line does to the surroundings.\<close>

definition shows_line ::
  "('e \<Rightarrow> string \<Rightarrow> string) \<Rightarrow> ('e \<Rightarrow> string) \<Rightarrow> string \<Rightarrow> string \<Rightarrow> 'e \<Rightarrow> 'e \<Rightarrow> bool" where
  "shows_line file_text console f t e e' \<longleftrightarrow>
     file_text e' = (file_text e)(f := file_text e f @ t) \<and> console e' = console e @ t"

lemma dispatch_message_run:
  assumes dev: "device_works os file_text console" and lg: "map_of (st_loggers s) lid = Some lg"
    and rdy: "logger_ready b f lg" and l: "dispatched (w_level w)" and flags: "default_flags (st_flags s)"
    and cbs: "st_logDispatchCallbacks s = [(''DefaultLogDispatchCallback'', True)]"
    and specs: "st_customFormatSpecifiers s = []" and b: "CHR ''%'' \<notin> set b"
    and w: "w_proceed w" "w_dispatchAction w = DA_NormalLog"
  obtains e lg' where "dispatch_message os termColor w lid s = Some (Inr (), store lid lg' (s\<lparr>log_env := e\<rparr>))"
    "logger_ready b f lg'" "lg_stream lg' = lg_stream lg"
    "shows_line file_text console f (level_value (w_level w) @ b @ lg_stream lg @ [NEWLINE]) (log_env s) e"
proof -
  let ?m = "\<lparr>msg_level = w_level w, msg_file = w_file w, msg_line = w_line w, msg_func = w_func w,
    msg_verboseLevel = w_verboseLevel w, msg_message = lg_stream lg\<rparr>"
  let ?t = "level_value (w_level w) @ b @ lg_stream lg @ [NEWLINE]"
  obtain tc where tc: "lg_typedConfigurations lg = Some tc"
    "tc_logFormat (w_level w) tc = Some (level_msg_format b (w_level w))"
    using rdy l by (auto simp: logger_ready_def typed_ready_def)
  have line: "build_line os lg ?m True s = Some (Inr ?t, s)"
    using build_line_level_msg [of lg tc ?m b s os] tc l b specs by simp
  obtain e1 lg1 where wf: "write_file os lid (w_level w) ?t s = Some (Inr (), store lid lg1 (s\<lparr>log_env := e1\<rparr>))"
    "logger_ready b f lg1" "lg_stream lg1 = lg_stream lg"
    "file_text e1 = (file_text (log_env s))(f := file_text (log_env s) f @ ?t)" "console e1 = console (log_env s)"
    using write_file_run [OF dev lg rdy l flags] by blast
  let ?s1 = "store lid lg1 (s\<lparr>log_env := e1\<rparr>)"
  have lg1: "map_of (st_loggers ?s1) lid = Some lg1" using lg by simp
  obtain e2 where out: "write_stdout os termColor lid (w_level w) ?t ?s1 =
      Some (Inr (), store lid lg1 (?s1\<lparr>log_env := e2\<rparr>))"
    "file_text e2 = file_text (log_env ?s1)" "console e2 = console (log_env ?s1) @ ?t"
    using write_stdout_run [OF dev lg1 wf(2) l] flags by auto
  have hd: "handle os termColor lid ?m DA_NormalLog s = Some (Inr (), store lid lg1 (s\<lparr>log_env := e2\<rparr>))"
    using lg line wf(1) out(1) by (simp add: handle_def defined_def io_simps)
  have "dispatch_message os termColor w lid s = Some (Inr (), store lid lg1 (s\<lparr>log_env := e2\<rparr>))"
    using lg hd flags cbs w by (simp add: dispatch_message_def dispatch_def defined_def io_simps)
  then show ?thesis
    using that [of lg1 e2] wf(2-5) out(2,3) by (simp add: shows_line_def)
qed

definition LOG :: "'e log_os \<Rightarrow> identity \<Rightarrow> bool \<Rightarrow> string \<Rightarrow> string \<times> nat \<times> string \<Rightarrow> Level \<times> log_arg list \<Rightarrow>
    (unit, ('e, 'z) storage_scheme) io" where
  "LOG os ident termColor lid place st =
     log_statement os ident termColor
       (new_Writer (fst st) (fst place) (fst (snd place)) (snd (snd place)) DA_NormalLog 0) [lid] (snd st)"

lemma append_args:
  "\<not> hasFlag (logging_flag AutoSpacing) flags \<Longrightarrow>
     fold (append_arg flags) args stream = stream @ concat (map arg_text args)"
proof (induction args arbitrary: stream)
  case (Cons a args)
  then show ?case by (cases a) (simp_all add: append_arg_def)
qed simp

text \<open>
  A logger whose message stream holds \<open>pending\<close>: a statement to it writes what is pending before
  its own text, and leaves the stream empty.
\<close>

definition holding :: "string \<Rightarrow> string \<Rightarrow> string \<Rightarrow> string \<Rightarrow> ('e, 'z) storage_scheme \<Rightarrow> bool" where
  "holding pending b f lid s \<longleftrightarrow>
     default_flags (st_flags s) \<and> st_logDispatchCallbacks s = [(''DefaultLogDispatchCallback'', True)] \<and>
     st_customFormatSpecifiers s = [] \<and>
     (\<exists>lg. map_of (st_loggers s) lid = Some lg \<and> lg_stream lg = pending \<and> logger_ready b f lg)"

lemma ready_holding: "ready b f lid s \<longleftrightarrow> holding [] b f lid s"
  by (simp add: ready_def holding_def)

lemma write_args_run:
  assumes "holding pending b f lid s" and "w_logger w = Some lid" "w_proceed w"
  obtains lg where "write_args w args s = Some (Inr (), store lid lg s)"
    "holding (pending @ concat (map arg_text args)) b f lid (store lid lg s)"
proof -
  obtain lg0 where lg0: "map_of (st_loggers s) lid = Some lg0" "lg_stream lg0 = pending" "logger_ready b f lg0"
    and flags: "default_flags (st_flags s)"
    using assms(1) by (auto simp: holding_def)
  let ?lg1 = "lg0\<lparr>lg_stream := pending @ concat (map arg_text args)\<rparr>"
  have "write_args w args s = Some (Inr (), store lid ?lg1 s)"
    using with_logger_run [OF lg0(1), of "\<lambda>lg. ret (lg\<lparr>lg_stream := fold (append_arg (st_flags s)) args (lg_stream lg)\<rparr>)"]
      lg0(2) flags assms(2,3) by (simp add: write_args_def set_stream_def append_args io_simps)
  moreover have "holding (pending @ concat (map arg_text args)) b f lid (store lid ?lg1 s)"
    using assms(1) lg0 by (simp add: holding_def logger_ready_def)
  ultimately show ?thesis using that by blast
qed

text \<open>The message is sent and the stream cleared, whatever comes after.\<close>

lemma sent_and_cleared:
  assumes dev: "device_works os file_text console" and held: "holding pending b f lid s"
    and b: "CHR ''%'' \<notin> set b" and l: "dispatched (w_level w)"
    and w: "w_logger w = Some lid" "w_proceed w" "w_dispatchAction w = DA_NormalLog"
  obtains e lg where
    "\<And>m :: (Writer, _) io. thenE (dispatch_message os termColor w lid) (thenE (clear_stream w) m) s = m (store lid lg (s\<lparr>log_env := e\<rparr>))"
    "ready b f lid (store lid lg (s\<lparr>log_env := e\<rparr>))"
    "shows_line file_text console f (level_value (w_level w) @ b @ pending @ [NEWLINE]) (log_env s) e"
proof -
  obtain lg1 where lg1: "map_of (st_loggers s) lid = Some lg1" "lg_stream lg1 = pending" "logger_ready b f lg1"
    and flags: "default_flags (st_flags s)"
    and cbs: "st_logDispatchCallbacks s = [(''DefaultLogDispatchCallback'', True)]"
    and specs: "st_customFormatSpecifiers s = []"
    using held by (auto simp: holding_def)
  obtain e lg2 where sent: "dispatch_message os termColor w lid s = Some (Inr (), store lid lg2 (s\<lparr>log_env := e\<rparr>))"
    "logger_ready b f lg2"
    "shows_line file_text console f (level_value (w_level w) @ b @ pending @ [NEWLINE]) (log_env s) e"
    by (rule dispatch_message_run [OF dev lg1(1,3) l flags cbs specs b w(2,3), where termColor = termColor])
      (use lg1(2) in simp)
  let ?s2 = "store lid lg2 (s\<lparr>log_env := e\<rparr>)"
  let ?lg3 = "lg2\<lparr>lg_stream := []\<rparr>"
  have cleared: "clear_stream w ?s2 = Some (Inr (), store lid ?lg3 ?s2)"
    using with_logger_run [of ?s2 lid lg2 "\<lambda>lg. ret (lg\<lparr>lg_stream := []\<rparr>)"] lg1(1) w(1)
    by (simp add: clear_stream_def set_stream_def io_simps)
  have "ready b f lid (store lid ?lg3 (s\<lparr>log_env := e\<rparr>))"
    using flags cbs specs lg1(1) sent(2) by (simp add: ready_def logger_ready_def)
  then show ?thesis using that [of ?lg3 e] sent(1,3) cleared by (simp add: io_simps)
qed

lemma processDispatch_run:
  assumes dev: "device_works os file_text console" and held: "holding pending b f lid s"
    and b: "CHR ''%'' \<notin> set b" and l: "loggable (w_level w)"
    and w: "w_logger w = Some lid" "w_proceed w" "w_dispatchAction w = DA_NormalLog"
  obtains e lg where "processDispatch os ident termColor w s = Some (Inr (), store lid lg (s\<lparr>log_env := e\<rparr>))"
    "ready b f lid (store lid lg (s\<lparr>log_env := e\<rparr>))"
    "shows_line file_text console f (level_value (w_level w) @ b @ pending @ [NEWLINE]) (log_env s) e"
proof -
  have flags: "default_flags (st_flags s)" using held by (simp add: holding_def)
  obtain e lg where sent: "\<And>m :: (Writer, _) io. thenE (dispatch_message os termColor w lid) (thenE (clear_stream w) m) s =
      m (store lid lg (s\<lparr>log_env := e\<rparr>))"
    "ready b f lid (store lid lg (s\<lparr>log_env := e\<rparr>))"
    "shows_line file_text console f (level_value (w_level w) @ b @ pending @ [NEWLINE]) (log_env s) e"
    by (rule sent_and_cleared [OF dev held b loggable_dispatched [OF l] w, where termColor = termColor]) blast
  have "\<not> (w_level w = Level_Fatal)" using l by (auto simp: loggable_def)
  then have "triggerDispatch os termColor w s = Some (Inr (w\<lparr>w_proceed := False\<rparr>), store lid lg (s\<lparr>log_env := e\<rparr>))"
    using w(1,2) by (simp add: triggerDispatch_def sent(1)) (simp add: io_simps)
  then have "processDispatch os ident termColor w s = Some (Inr (), store lid lg (s\<lparr>log_env := e\<rparr>))"
    using w(2) flags by (simp add: processDispatch_def io_simps)
  then show ?thesis using that sent(2,3) by blast
qed

lemma statement_run:
  assumes dev: "device_works os file_text console" and held: "holding pending b f lid s"
    and b: "CHR ''%'' \<notin> set b" and l: "loggable (w_level w)"
    and w: "w_logger w = Some lid" "w_proceed w" "w_dispatchAction w = DA_NormalLog"
  obtains e lg where "thenE (write_args w args) (processDispatch os ident termColor w) s =
      Some (Inr (), store lid lg (s\<lparr>log_env := e\<rparr>))"
    "ready b f lid (store lid lg (s\<lparr>log_env := e\<rparr>))"
    "shows_line file_text console f
       (level_value (w_level w) @ b @ pending @ concat (map arg_text args) @ [NEWLINE]) (log_env s) e"
proof -
  obtain lg1 where args: "write_args w args s = Some (Inr (), store lid lg1 s)"
    "holding (pending @ concat (map arg_text args)) b f lid (store lid lg1 s)"
    using write_args_run [OF held w(1,2)] by blast
  obtain e lg2 where "processDispatch os ident termColor w (store lid lg1 s) =
      Some (Inr (), store lid lg2 ((store lid lg1 s)\<lparr>log_env := e\<rparr>))"
    "ready b f lid (store lid lg2 ((store lid lg1 s)\<lparr>log_env := e\<rparr>))"
    "shows_line file_text console f
       (level_value (w_level w) @ b @ (pending @ concat (map arg_text args)) @ [NEWLINE])
       (log_env (store lid lg1 s)) e"
    using processDispatch_run [OF dev args(2) b l w] by blast
  then show ?thesis using that [of lg2 e] args(1) by (simp add: io_simps)
qed

text \<open>The writer of a statement to a logger that is there and takes the level.\<close>

lemma holding_enabled:
  assumes "holding pending b f lid s" and "dispatched l"
  shows "may_proceed l lid s = Some (Inr True, s)" and "\<exists>lg. map_of (st_loggers s) lid = Some lg"
  using assms
  by (auto simp: holding_def logger_ready_def typed_ready_def may_proceed_def defined_def logger_enabled_def
      typedConfigurations_def io_simps)

lemma LOG_run_holding:
  assumes dev: "device_works os file_text console" and held: "holding pending b f lid s"
    and b: "CHR ''%'' \<notin> set b" and l: "loggable (fst st)"
  obtains e lg where "LOG os ident termColor lid place st s = Some (Inr (), store lid lg (s\<lparr>log_env := e\<rparr>))"
    "ready b f lid (store lid lg (s\<lparr>log_env := e\<rparr>))"
    "shows_line file_text console f (log_line (b @ pending) st) (log_env s) e"
proof -
  let ?start = "new_Writer (fst st) (fst place) (fst (snd place)) (snd (snd place)) DA_NormalLog 0"
  let ?w = "?start\<lparr>w_logger := Some lid, w_proceed := True\<rparr>"
  have flags: "default_flags (st_flags s)" using held by (simp add: holding_def)
  have level: "w_level ?start = fst st" by (simp add: new_Writer_def)
  have made: "construct os ident termColor [lid] ?start s = Some (Inr ?w, s)"
    using holding_enabled [OF held loggable_dispatched [OF l]] flags level
    by (auto simp: construct_def initializeLogger_def loggers_get_def io_simps)
  have w: "loggable (w_level ?w)" "w_logger ?w = Some lid" "w_proceed ?w" "w_dispatchAction ?w = DA_NormalLog"
    "w_level ?w = fst st"
    using l by (simp_all add: new_Writer_def)
  obtain e lg where "thenE (write_args ?w (snd st)) (processDispatch os ident termColor ?w) s =
      Some (Inr (), store lid lg (s\<lparr>log_env := e\<rparr>))"
    "ready b f lid (store lid lg (s\<lparr>log_env := e\<rparr>))"
    "shows_line file_text console f
       (level_value (w_level ?w) @ b @ pending @ concat (map arg_text (snd st)) @ [NEWLINE]) (log_env s) e"
    by (rule statement_run [OF dev held b w(1-4)])
  then show ?thesis
    using that made w(5) by (simp add: LOG_def log_statement_def log_line_def bindE_value)
qed

lemma LOG_run:
  assumes dev: "device_works os file_text console" and rdy: "ready b f lid s"
    and b: "CHR ''%'' \<notin> set b" and l: "loggable (fst st)"
  obtains e lg where "LOG os ident termColor lid place st s = Some (Inr (), store lid lg (s\<lparr>log_env := e\<rparr>))"
    "ready b f lid (store lid lg (s\<lparr>log_env := e\<rparr>))"
    "shows_line file_text console f (log_line b st) (log_env s) e"
  using LOG_run_holding [OF dev rdy [unfolded ready_holding] b l, where termColor = termColor] that
  by (metis append_Nil2)

end
