(* ===== verification/Elpp_Log_Setup.thy ===== *)
theory Elpp_Log_Setup
  imports Elpp_Log_Line Agent_Properties
begin

text \<open>
  The setting up of the logging library and its configuration by \<^verbatim>\<open>main.cpp\<close>: the storage with its
  two loggers, and then one format for all of them. \<open>quietly\<close> are the computations that
  return and that show nothing; the default logger is ready for its statements after them.
\<close>

section \<open>Formats without escapes\<close>

fun no_escape :: "string \<Rightarrow> bool" where
  "no_escape (c # d # s) = (\<not> (c = kFormatSpecifierChar \<and> d = kFormatSpecifierChar) \<and> no_escape (d # s))"
| "no_escape _ = True"

lemma no_escape_nth:
  "no_escape s \<Longrightarrow> Suc i < length s \<Longrightarrow> s ! Suc i = kFormatSpecifierChar \<Longrightarrow> s ! i \<noteq> kFormatSpecifierChar"
proof (induction s arbitrary: i rule: no_escape.induct)
  case (1 c d s)
  then show ?case by (cases i) auto
qed auto

lemma not_escaped:
  assumes "no_escape str" "find_from str spec k = Some i" and "spec \<noteq> []" "hd spec = kFormatSpecifierChar"
  shows "\<not> (i > 0 \<and> str ! (i - 1) = kFormatSpecifierChar)"
proof
  assume i: "i > 0 \<and> str ! (i - 1) = kFormatSpecifierChar"
  have "occurs_at str spec i" using assms(2) by (simp add: find_from_Some)
  then have "i < length str" "str ! i = kFormatSpecifierChar"
    using occurs_at_hd [of str spec i] assms(3,4) by auto
  then show False using no_escape_nth [OF assms(1), of "i - 1"] i by simp
qed

lemma conditionalAddFlag_no_escape:
  assumes "spec \<noteq> []" "hd spec = kFormatSpecifierChar" "no_escape str"
  shows "\<exists>lf'. conditionalAddFlag spec flag (str, lf) = (str, lf')"
proof -
  have "\<exists>lf'. conditionalAddFlag_loop spec flag foundAt str lf = (str, lf')" for foundAt
    using assms
  proof (induction spec flag foundAt str lf rule: conditionalAddFlag_loop.induct)
    case (1 spec flag foundAt str lf)
    show ?case
    proof (cases "find_from str spec (after foundAt)")
      case None
      then show ?thesis by (simp add: conditionalAddFlag_loop.simps [of spec flag foundAt])
    next
      case (Some i)
      have plain: "\<not> (i > 0 \<and> str ! (i - 1) = kFormatSpecifierChar)"
        using not_escaped [OF "1.prems"(3) Some "1.prems"(1,2)] .
      then show ?thesis
        using "1.IH"(3) [OF Some plain "1.prems"] plain Some
        by (subst conditionalAddFlag_loop.simps) (simp only: option.case if_False)
    qed
  qed
  then show ?thesis by (simp add: conditionalAddFlag_def)
qed

lemma fold_flags_no_escape:
  assumes "no_escape str" and "\<forall>p \<in> set ps. fst p \<noteq> [] \<and> hd (fst p) = kFormatSpecifierChar"
  shows "\<exists>lf'. fold (\<lambda>(specifier, flag). conditionalAddFlag specifier flag) ps (str, lf) = (str, lf')"
  using assms(2)
proof (induction ps arbitrary: lf)
  case (Cons p ps)
  obtain spec flag where p: "p = (spec, flag)" by fastforce
  then obtain lf' where "conditionalAddFlag spec flag (str, lf) = (str, lf')"
    using conditionalAddFlag_no_escape [of spec str flag lf] Cons.prems assms(1) by auto
  then show ?case using Cons.IH [of lf'] Cons.prems p by simp
qed simp

lemma make_LogFormat_defined:
  assumes "no_escape fmt"
  shows "make_LogFormat ident l fmt \<noteq> None"
proof -
  have specs: "\<forall>p \<in> set specifier_flags. fst p \<noteq> [] \<and> hd (fst p) = kFormatSpecifierChar"
    by (simp add: specifier_flags_def kAppNameFormatSpecifier_def kSeverityLevelFormatSpecifier_def
        kSeverityLevelShortFormatSpecifier_def kLoggerIdFormatSpecifier_def kThreadIdFormatSpecifier_def
        kLogFileFormatSpecifier_def kLogFileBaseFormatSpecifier_def kLogLineFormatSpecifier_def
        kLogLocationFormatSpecifier_def kLogFunctionFormatSpecifier_def kCurrentUserFormatSpecifier_def
        kCurrentHostFormatSpecifier_def kMessageFormatSpecifier_def kVerboseLevelFormatSpecifier_def
        kFormatSpecifierChar_def)
  obtain lf' where folded: "fold (\<lambda>(specifier, flag). conditionalAddFlag specifier flag) specifier_flags
      (fmt, (new_LogFormat\<lparr>lf_level := l, lf_userFormat := fmt\<rparr>)\<lparr>lf_flags := 0\<rparr>) = (fmt, lf')"
    using fold_flags_no_escape [OF assms specs] by blast
  have "unescaped_date fmt kDateTimeFormatSpecifier i = Some i"
    if "find_from fmt kDateTimeFormatSpecifier 0 = Some i" for i
    using not_escaped [OF assms that]
    by (subst unescaped_date.simps) (auto simp: kDateTimeFormatSpecifier_def kFormatSpecifierChar_def)
  then show ?thesis
    unfolding make_LogFormat_def parseFromFormat_def folded by (simp add: Let_def split: option.splits)
qed

section \<open>Computations that show nothing\<close>

text \<open>
  \<open>refs_ok\<close>: if the log file is among the open streams, it is open for writing. A quiet step
  changes the surroundings, without showing anything, and the open streams.
\<close>

definition refs_ok :: "string \<Rightarrow> ('e, 'z) log_world_scheme \<Rightarrow> bool" where
  "refs_ok name s \<longleftrightarrow> map_of (logStreamsReference s) name \<in> {None, Some (Some name)}"

definition quiet ::
  "('e \<Rightarrow> string \<Rightarrow> string) \<Rightarrow> ('e \<Rightarrow> string) \<Rightarrow> ('e, 'z) log_world_scheme \<Rightarrow> ('e, 'z) log_world_scheme \<Rightarrow> bool" where
  "quiet ft co s s' \<longleftrightarrow>
     (\<exists>e refs. s' = s\<lparr>log_env := e, logStreamsReference := refs\<rparr> \<and> shows_same ft co (log_env s) e)"

definition quietly ::
  "('e \<Rightarrow> string \<Rightarrow> string) \<Rightarrow> ('e \<Rightarrow> string) \<Rightarrow> string \<Rightarrow> ('a, ('e, 'z) log_world_scheme) io \<Rightarrow> ('a \<Rightarrow> bool) \<Rightarrow> bool" where
  "quietly ft co name m Q \<longleftrightarrow>
     (\<forall>s. refs_ok name s \<longrightarrow> (\<exists>a s'. m s = Some (Inr a, s') \<and> Q a \<and> quiet ft co s s' \<and> refs_ok name s'))"

lemma quiet_refl: "quiet ft co s s"
  unfolding quiet_def by (rule exI [of _ "log_env s"], rule exI [of _ "logStreamsReference s"]) simp

lemma quiet_trans: "quiet ft co s s' \<Longrightarrow> quiet ft co s' s'' \<Longrightarrow> quiet ft co s s''"
  unfolding quiet_def by (elim exE conjE) (auto intro!: exI dest: shows_same_trans)

named_theorems quietly_intros "what computes quietly"

lemma quietlyE:
  assumes "quietly ft co name m Q" "refs_ok name s"
  obtains a s' where "m s = Some (Inr a, s')" "Q a" "quiet ft co s s'" "refs_ok name s'"
  using assms unfolding quietly_def by blast

lemma quietly_ret: "Q a \<Longrightarrow> quietly ft co name (ret a) Q"
  by (auto simp: quietly_def ret_def quiet_refl)

lemma quietly_bind:
  assumes "quietly ft co name m Q" and "\<And>a. Q a \<Longrightarrow> quietly ft co name (f a) R"
  shows "quietly ft co name (bindE m f) R"
  unfolding quietly_def
proof (intro allI impI)
  fix s :: "('a, 'b) log_world_scheme" assume "refs_ok name s"
  then obtain a s1 where 1: "m s = Some (Inr a, s1)" "Q a" "quiet ft co s s1" "refs_ok name s1"
    by (rule quietlyE [OF assms(1)])
  obtain b s2 where 2: "f a s1 = Some (Inr b, s2)" "R b" "quiet ft co s1 s2" "refs_ok name s2"
    by (rule quietlyE [OF assms(2) [OF 1(2)] 1(4)])
  show "\<exists>b s'. bindE m f s = Some (Inr b, s') \<and> R b \<and> quiet ft co s s' \<and> refs_ok name s'"
    using 1(1) 2 quiet_trans [OF 1(3) 2(3)] by (auto simp: bindE_def)
qed

lemma quietly_weaken: "quietly ft co name m Q \<Longrightarrow> (\<And>a. Q a \<Longrightarrow> R a) \<Longrightarrow> quietly ft co name m R"
  unfolding quietly_def by blast

lemma quietly_any: "quietly ft co name m Q \<Longrightarrow> quietly ft co name m (\<lambda>_. True)"
  by (rule quietly_weaken) simp_all

lemma quietly_if:
  "(c \<Longrightarrow> quietly ft co name m Q) \<Longrightarrow> (\<not> c \<Longrightarrow> quietly ft co name n Q) \<Longrightarrow>
     quietly ft co name (if c then m else n) Q"
  by simp

lemma quietly_defined: "v = Some a \<Longrightarrow> Q a \<Longrightarrow> quietly ft co name (defined v) Q"
  by (simp add: defined_def quietly_ret)

lemma quietly_call:
  assumes "\<And>e. \<exists>a e'. c e = Some (a, e') \<and> Q a \<and> shows_same ft co e e'"
  shows "quietly ft co name (log_call c) Q"
  unfolding quietly_def
proof (intro allI impI)
  fix s :: "('a, 'c) log_world_scheme" assume s: "refs_ok name s"
  obtain a e where "c (log_env s) = Some (a, e)" "Q a" "shows_same ft co (log_env s) e" using assms by blast
  moreover have "quiet ft co s (s\<lparr>log_env := e\<rparr>)" if "shows_same ft co (log_env s) e"
    unfolding quiet_def by (rule exI [of _ e], rule exI [of _ "logStreamsReference s"]) (simp add: that)
  ultimately show "\<exists>a s'. log_call c s = Some (Inr a, s') \<and> Q a \<and> quiet ft co s s' \<and> refs_ok name s'"
    using s by (auto simp: log_call_def refs_ok_def)
qed

lemma quietly_device:
  assumes "device_works os ft co"
  shows "quietly ft co name (log_call (lo_open_append os f)) (\<lambda>b. b)"
    and "quietly ft co name (log_call (lo_flush os f)) (\<lambda>_. True)"
    and "quietly ft co name (log_call (lo_stat os f)) (\<lambda>_. True)"
    and "quietly ft co name (log_call (lo_mkdir os f)) (\<lambda>_. True)"
    and "quietly ft co name (log_call (lo_size os f)) (\<lambda>_. True)"
  by (rule quietly_call, use device_quiet [OF assms] in blast)+

lemma quietly_foldE:
  assumes "\<And>x b. x \<in> set xs \<Longrightarrow> I b \<Longrightarrow> quietly ft co name (f x b) I" and "I b"
  shows "quietly ft co name (foldE f xs b) I"
  using assms
proof (induction xs arbitrary: b)
  case (Cons x xs)
  then show ?case by (auto intro!: quietly_bind [where Q = I])
qed (simp add: quietly_ret)

lemma quietly_fold_bind:
  assumes "\<And>l a. l \<in> set ls \<Longrightarrow> I a \<Longrightarrow> quietly ft co name (g l a) I" and "quietly ft co name m I"
  shows "quietly ft co name (fold (\<lambda>l m. bindE m (g l)) ls m) I"
  using assms
proof (induction ls arbitrary: m)
  case (Cons l ls)
  have "quietly ft co name (bindE m (g l)) I"
    by (rule quietly_bind [OF Cons.prems(2)]) (simp add: Cons.prems(1))
  then show ?case using Cons.IH Cons.prems(1) by simp
qed simp

section \<open>Opening the log file\<close>

text \<open>Every stream of the typed configurations is that of the file, and there is one for the global level.\<close>

definition streams_ok :: "string \<Rightarrow> TypedConfigurations \<Rightarrow> bool" where
  "streams_ok name tc \<longleftrightarrow>
     (m_fileStreamMap tc = [] \<longrightarrow> m_filenameMap tc = []) \<and>
     (m_fileStreamMap tc \<noteq> [] \<longrightarrow> map_of (m_fileStreamMap tc) Level_Global \<noteq> None) \<and>
     (\<forall>p \<in> set (m_fileStreamMap tc). snd p = Some name)"

lemma map_of_all: "\<forall>p \<in> set m. snd p = x \<Longrightarrow> map_of m l = Some y \<Longrightarrow> y = x"
  using map_of_SomeD by fastforce

lemma streams_ok_lookup:
  assumes "streams_ok name tc" "m_fileStreamMap tc \<noteq> []"
  shows "tc_fileStream l tc = Some (Some name)"
  using assms
  by (auto simp: streams_ok_def tc_fileStream_def getConfigByRef_def dest: map_of_all split: option.split)

lemma level_insert_lookup:
  "map_of (level_insert l v m) k = (if k = l \<and> map_of m l = None then Some v else map_of m k)"
  by (auto simp del: map_of_append simp: level_insert_def map_of_append_one split: option.split)

lemma set_level_insert: "set (level_insert l v m) \<subseteq> insert (l, v) (set m)"
  by (auto simp: level_insert_def)

definition add_stream :: "string \<Rightarrow> Level \<Rightarrow> TypedConfigurations \<Rightarrow> TypedConfigurations" where
  "add_stream name l tc =
     tc\<lparr>m_filenameMap := level_insert l name (m_filenameMap tc),
        m_fileStreamMap := level_insert l (Some name) (m_fileStreamMap tc)\<rparr>"

lemma streams_ok_add:
  assumes "streams_ok name tc" "m_fileStreamMap tc = [] \<longrightarrow> l = Level_Global"
  shows "streams_ok name (add_stream name l tc)"
  using assms set_level_insert [of l "Some name" "m_fileStreamMap tc"]
  by (auto simp: streams_ok_def add_stream_def level_insert_lookup level_insert_def)

lemma add_stream_nonempty [simp]: "m_fileStreamMap (add_stream name l tc) \<noteq> []"
  by (auto simp: add_stream_def level_insert_def)

lemma quietly_refs:
  assumes "\<And>refs. map_of refs name \<in> {None, Some (Some name)} \<Longrightarrow> quietly ft co name (f refs) R"
  shows "quietly ft co name (bindE (getE logStreamsReference) f) R"
  using assms unfolding quietly_def by (simp add: refs_ok_def bindE_def getE_def)

lemma map_insert_self:
  "map_of (map_insert k v m) k = Some v \<or> map_of (map_insert k v m) k = map_of m k"
  by (induction k v m rule: map_insert.induct) auto

lemma quietly_add_ref:
  "quietly ft co name (modifyE (\<lambda>w. w\<lparr>logStreamsReference := map_insert name (Some name) (logStreamsReference w)\<rparr>))
     (\<lambda>_. True)"
  unfolding quietly_def
proof (intro allI impI)
  fix s :: "('a, 'b) log_world_scheme" assume "refs_ok name s"
  let ?s = "s\<lparr>logStreamsReference := map_insert name (Some name) (logStreamsReference s)\<rparr>"
  have "quiet ft co s ?s"
    unfolding quiet_def
    by (rule exI [of _ "log_env s"], rule exI [of _ "map_insert name (Some name) (logStreamsReference s)"]) simp
  moreover have "refs_ok name ?s" if "refs_ok name s"
    using that map_insert_self [of name "Some name" "logStreamsReference s"] by (auto simp: refs_ok_def)
  ultimately show "\<exists>a s'. modifyE (\<lambda>w. w\<lparr>logStreamsReference := map_insert name (Some name) (logStreamsReference w)\<rparr>) s =
      Some (Inr a, s') \<and> True \<and> quiet ft co s s' \<and> refs_ok name s'"
    using \<open>refs_ok name s\<close> by (simp add: modifyE_def)
qed

lemma quietly_insertFile:
  assumes dev: "device_works os ft co" and name: "find_from name kDateTimeFormatSpecifier 0 = None"
    and tc: "streams_ok name tc" and Q: "\<And>l. m_fileStreamMap tc = [] \<longrightarrow> l = Level_Global \<Longrightarrow> Q (add_stream name l tc)"
  shows "quietly ft co name (insertFile os level name tc) Q"
proof -
  let ?l = "if m_filenameMap tc = [] \<and> m_fileStreamMap tc = [] then Level_Global else level"
  have level: "m_fileStreamMap tc = [] \<longrightarrow> ?l = Level_Global" using tc by (auto simp: streams_ok_def)
  have stream: "map_of (level_insert ?l (Some name) (m_fileStreamMap tc)) ?l = Some (Some name)"
    using tc by (auto simp: streams_ok_def level_insert_lookup dest: map_of_all)
  have new: "quietly ft co name (newFileStream os name) (\<lambda>fs. fs = Some name)"
    unfolding newFileStream_def
    by (auto intro!: quietly_bind [OF quietly_device(1) [OF dev]] quietly_bind [OF quietly_device(2) [OF dev]] quietly_ret)
  have create: "quietly ft co name (insertFile_create os name ?l tc) Q"
    unfolding insertFile_create_def
  proof (rule quietly_refs)
    fix refs :: "(string \<times> stream) list" assume refs: "map_of refs name \<in> {None, Some (Some name)}"
    have "quietly ft co name
       (case map_of refs name of
          None \<Rightarrow>
            bindE (newFileStream os name) (\<lambda>fs.
            let tc' = tc\<lparr>m_filenameMap := level_insert ?l name (m_filenameMap tc),
                         m_fileStreamMap := level_insert ?l fs (m_fileStreamMap tc)\<rparr>
            in thenE (modifyE (\<lambda>w. w\<lparr>logStreamsReference :=
                        map_insert name (the (map_of (m_fileStreamMap tc') ?l)) (logStreamsReference w)\<rparr>))
                 (ret (fs, tc')))
        | Some fs \<Rightarrow>
            ret (fs, tc\<lparr>m_filenameMap := level_insert ?l name (m_filenameMap tc),
                        m_fileStreamMap := level_insert ?l fs (m_fileStreamMap tc)\<rparr>))
       (\<lambda>p. p = (Some name, add_stream name ?l tc))" (is "quietly ft co name ?m ?P")
      using refs stream
      by (auto simp: add_stream_def thenE_def intro!: quietly_ret quietly_bind [OF new] quietly_bind [OF quietly_add_ref])
    then show "quietly ft co name (bindE ?m (\<lambda>(fs, tc').
          ret (if fs = None then tc'\<lparr>m_toFileMap := setValue plain ?l False True (m_toFileMap tc')\<rparr> else tc'))) Q"
      by (rule quietly_bind) (use Q [OF level] in \<open>auto intro!: quietly_ret\<close>)
  qed
  have path: "quietly ft co name (createPath_loop os parts built st) (\<lambda>_. True)" for parts built st
    by (induction parts arbitrary: built st)
      (auto simp: Let_def intro!: quietly_ret quietly_bind [OF quietly_device(4) [OF dev]])
  have created: "quietly ft co name (createPath os p) (\<lambda>_. True)" for p
    unfolding createPath_def pathExists_def
    by (auto intro!: quietly_ret quietly_bind [OF quietly_device(3) [OF dev]] path)
  have path: "quietly ft co name
      (if length (extractPathFromFilename name) < length name then createPath os (extractPathFromFilename name)
       else ret True) (\<lambda>_. True)"
    by (simp add: quietly_ret created)
  show ?thesis
    unfolding insertFile_def resolveFilename_def name option.case bindE_ret Let_def
    by (rule quietly_bind [OF path]) (rule create)
qed

section \<open>Building typed configurations\<close>

text \<open>
  What the entries of the configurations that a program starts with are like: everything is sent to
  the one file and to the standard output, without a limit, in a format that is defined.
\<close>

definition good_entry :: "identity \<Rightarrow> string \<Rightarrow> Configuration \<Rightarrow> bool" where
  "good_entry ident name c \<longleftrightarrow>
     conf_level c \<noteq> Level_Unknown \<and>
     (conf_type c \<in> {CT_Enabled, CT_ToFile, CT_ToStandardOutput} \<longrightarrow> conf_value c = ''true'') \<and>
     (conf_type c = CT_Format \<longrightarrow> (\<forall>l. make_LogFormat ident l (conf_value c) \<noteq> None)) \<and>
     (conf_type c = CT_Filename \<longrightarrow> conf_value c = name) \<and>
     (conf_type c = CT_MaxLogFileSize \<longrightarrow> conf_value c = ''0'')"

definition entries_ok :: "(Configuration \<Rightarrow> bool) \<Rightarrow> Configurations \<Rightarrow> bool" where
  "entries_ok P cs \<longleftrightarrow> (\<forall>c \<in> set (conf_list cs). P c)"

definition settled :: "(Configuration \<Rightarrow> bool) \<Rightarrow> Configurations \<Rightarrow> bool" where
  "settled P cs \<longleftrightarrow> conf_wf cs \<and> conf_based cs \<and> conf_closed cs \<and> entries_ok P cs"

lemma build_values_defined:
  assumes "\<forall>c \<in> set confs. conf_type c = CT_Format \<longrightarrow> (\<forall>l. make_LogFormat ident l (conf_value c) \<noteq> None)"
  shows "\<exists>tc'. build_values ident confs tc = Some tc'"
  using assms
proof (induction confs arbitrary: tc)
  case (Cons c confs)
  then obtain tc1 where "build_value ident c tc = Some tc1" by (fastforce simp: build_value_def Let_def)
  then show ?case using Cons.IH [of tc1] Cons.prems by simp
qed simp

lemma settled_entry:
  assumes "settled P cs" "l \<noteq> Level_Unknown" "t \<noteq> CT_Unknown"
  obtains c where "conf_get l t cs = Some c" "P c" "conf_level c = l" "conf_type c = t"
proof -
  have "first_level t (conf_list cs) = Some Level_Global"
    using assms by (simp add: settled_def conf_based_def)
  then obtain g where "find (\<lambda>c. conf_type c = t) (conf_list cs) = Some g" "conf_level g = Level_Global"
    by (auto simp: first_level_def)
  moreover from this have "conf_type g = t" "g \<in> set (conf_list cs)" by (auto simp: find_Some_iff)
  ultimately have "conf_get Level_Global t cs \<noteq> None"
    by (auto simp: conf_get_def find_None_iff conf_predicate_def)
  then obtain c where c: "conf_get l t cs = Some c"
    using assms(1,2) by (auto simp: settled_def conf_closed_def)
  then show ?thesis
    using that conf_get_Some [OF c] assms(1) by (auto simp: settled_def entries_ok_def)
qed

text \<open>The typed values that configurations build.\<close>

definition typed_of :: "identity \<Rightarrow> string \<Rightarrow> Configurations \<Rightarrow> TypedConfigurations \<Rightarrow> bool" where
  "typed_of ident name cs tc \<longleftrightarrow>
     (\<forall>l. l \<noteq> Level_Unknown \<longrightarrow> tc_enabled l tc \<and> tc_toFile l tc \<and> tc_toStandardOutput l tc \<and>
        tc_maxLogFileSize l tc = 0) \<and>
     (\<forall>l. tc_fileStream l tc = Some (Some name)) \<and>
     m_logFormatMap tc =
       typed_map assign_LogFormat
         (typed_entries (\<lambda>c. the (make_LogFormat ident (conf_level c) (conf_value c))) CT_Format (conf_list cs)) []"

lemma built_values:
  assumes cs: "settled (good_entry ident name) cs"
    and built: "build_values ident (conf_list cs) empty_TypedConfigurations = Some tc"
  shows "l \<noteq> Level_Unknown \<Longrightarrow> tc_enabled l tc \<and> tc_toFile l tc \<and> tc_toStandardOutput l tc \<and> tc_maxLogFileSize l tc = 0"
    and "m_logFormatMap tc =
       typed_map assign_LogFormat
         (typed_entries (\<lambda>c. the (make_LogFormat ident (conf_level c) (conf_value c))) CT_Format (conf_list cs)) []"
    and "m_fileStreamMap tc = []" "m_filenameMap tc = []"
proof -
  note maps = build_values_maps [OF built]
  show "m_logFormatMap tc =
       typed_map assign_LogFormat
         (typed_entries (\<lambda>c. the (make_LogFormat ident (conf_level c) (conf_value c))) CT_Format (conf_list cs)) []"
    "m_fileStreamMap tc = []" "m_filenameMap tc = []"
    by (simp_all add: maps(4,8,9) empty_TypedConfigurations_def)
  assume l: "l \<noteq> Level_Unknown"
  have wf: "conf_wf cs" "conf_based cs" using cs by (simp_all add: settled_def)
  have lookup: "\<exists>c. good_entry ident name c \<and> conf_type c = t \<and>
      getConfigByVal d l (typed_map plain (typed_entries f t (conf_list cs)) []) = f c"
    if t: "t \<noteq> CT_Unknown" for t d and f :: "Configuration \<Rightarrow> 'a"
  proof -
    obtain c where c: "conf_get l t cs = Some c" "good_entry ident name c" "conf_type c = t"
      using settled_entry [OF cs l t] by blast
    show ?thesis using typed_lookup_val [OF wf t c(1), of d plain f] c(2,3) by blast
  qed
  have yes: "getBool ''true''" and zero: "getULong ''0'' = 0"
    by (simp_all add: getBool_def getULong_def Let_def trim_id is_space_def isDigit_def atol_digits_def decimal_value_def)
  have "tc_enabled l tc"
    using lookup [of CT_Enabled False "\<lambda>c. getBool (conf_value c)"] yes
    by (auto simp: tc_enabled_def maps(1) empty_TypedConfigurations_def good_entry_def)
  moreover have "tc_toFile l tc"
    using lookup [of CT_ToFile False "\<lambda>c. getBool (conf_value c)"] yes
    by (auto simp: tc_toFile_def maps(2) empty_TypedConfigurations_def good_entry_def)
  moreover have "tc_toStandardOutput l tc"
    using lookup [of CT_ToStandardOutput False "\<lambda>c. getBool (conf_value c)"] yes
    by (auto simp: tc_toStandardOutput_def maps(3) empty_TypedConfigurations_def good_entry_def)
  moreover have "tc_maxLogFileSize l tc = 0"
    using lookup [of CT_MaxLogFileSize 0 "\<lambda>c. getULong (conf_value c)"] zero
    by (auto simp: tc_maxLogFileSize_def maps(5) empty_TypedConfigurations_def good_entry_def)
  ultimately show "tc_enabled l tc \<and> tc_toFile l tc \<and> tc_toStandardOutput l tc \<and> tc_maxLogFileSize l tc = 0"
    by simp
qed

lemma quietly_build:
  assumes dev: "device_works os ft co" and name: "find_from name kDateTimeFormatSpecifier 0 = None"
    and cs: "settled (good_entry ident name) cs"
  shows "quietly ft co name (build os ident cs) (typed_of ident name cs)"
proof -
  let ?confs = "conf_list cs"
  have entries: "\<forall>c \<in> set ?confs. good_entry ident name c" using cs by (simp add: settled_def entries_ok_def)
  have "\<exists>tc1. build_values ident ?confs empty_TypedConfigurations = Some tc1"
    by (rule build_values_defined) (use entries in \<open>simp add: good_entry_def\<close>)
  then obtain tc1 where tc1: "build_values ident ?confs empty_TypedConfigurations = Some tc1" by blast
  note vals = built_values [OF cs tc1]
  let ?like = "\<lambda>tc. \<exists>fm sm. tc = tc1\<lparr>m_filenameMap := fm, m_fileStreamMap := sm\<rparr> \<and> streams_ok name tc"
  let ?files = "filter (\<lambda>c. conf_type c = CT_Filename) ?confs"
  have like1: "?like tc1"
    by (rule exI [of _ "m_filenameMap tc1"], rule exI [of _ "m_fileStreamMap tc1"]) (simp add: streams_ok_def vals(3,4))
  have insert: "quietly ft co name (insertFile os (conf_level c) (conf_value c) tc) (\<lambda>tc. ?like tc \<and> m_fileStreamMap tc \<noteq> [])"
    if c: "c \<in> set ?files" and like: "?like tc" for c tc
  proof -
    have val: "conf_value c = name" using c entries by (auto simp: good_entry_def)
    obtain fm sm where tc: "tc = tc1\<lparr>m_filenameMap := fm, m_fileStreamMap := sm\<rparr>" "streams_ok name tc"
      using like by blast
    have "\<exists>fm' sm'. add_stream name l tc = tc1\<lparr>m_filenameMap := fm', m_fileStreamMap := sm'\<rparr>" for l
      unfolding tc(1) add_stream_def
      by (rule exI [of _ "level_insert l name fm"], rule exI [of _ "level_insert l (Some name) sm"]) simp
    then show ?thesis
      unfolding val by (intro quietly_insertFile [OF dev name tc(2)]) (simp add: streams_ok_add [OF tc(2)])
  qed
  obtain c cs' where files: "?files = c # cs'"
  proof -
    obtain c where "conf_get Level_Global CT_Filename cs = Some c" using settled_entry [OF cs, of Level_Global CT_Filename] by auto
    then have "c \<in> set ?files" using conf_get_Some by fastforce
    then show ?thesis using that by (cases ?files) auto
  qed
  have opened: "quietly ft co name (foldE (\<lambda>conf. insertFile os (conf_level conf) (conf_value conf)) ?files tc1)
      (\<lambda>tc. ?like tc \<and> m_fileStreamMap tc \<noteq> [])"
    unfolding files foldE.simps
    by (rule quietly_bind [OF insert [OF _ like1]], simp add: files, rule quietly_foldE, rule insert) (auto simp: files)
  have roll: "quietly ft co name (bindE (unsafeValidateFileRolling os (conf_level c) defaultPreRollOutCallback tc) (\<lambda>_. ret tc))
      (\<lambda>tc. ?like tc \<and> m_fileStreamMap tc \<noteq> [])"
    if "c \<in> set ?confs" "?like tc \<and> m_fileStreamMap tc \<noteq> []" for c tc
  proof -
    have "tc_fileStream (conf_level c) tc = Some (Some name)" using that(2) streams_ok_lookup by blast
    moreover have "tc_maxLogFileSize (conf_level c) tc = 0"
      using that entries vals(1) [of "conf_level c"] by (auto simp: good_entry_def tc_maxLogFileSize_def)
    ultimately show ?thesis
      using that(2)
      by (auto simp: unsafeValidateFileRolling_def defined_def getSizeOfFile_def Let_def bindE_assoc
          intro!: quietly_bind [OF quietly_device(5) [OF dev]] quietly_ret)
  qed
  have finished: "typed_of ident name cs tc" if "?like tc \<and> m_fileStreamMap tc \<noteq> []" for tc
    using that vals(1,2) streams_ok_lookup [of name tc]
    by (auto simp: typed_of_def tc_enabled_def tc_toFile_def tc_toStandardOutput_def tc_maxLogFileSize_def)
  show ?thesis
    unfolding build_def Let_def
    by (rule quietly_bind [OF quietly_defined [OF tc1, of "\<lambda>tc. tc = tc1"]], simp)
      (auto intro!: quietly_bind [OF opened] quietly_weaken [OF quietly_foldE [OF roll] finished])
qed

section \<open>Configuring a logger\<close>

lemma level_update_same: "map_of m k = Some v \<Longrightarrow> f v = v \<Longrightarrow> level_update k f m = m"
  by (induction m) (auto split: if_splits)

abbreviation resolve_all :: "string \<Rightarrow> Level list \<Rightarrow> LogFormat level_map option \<Rightarrow> LogFormat level_map option" where
  "resolve_all lid ls m0 \<equiv> fold (\<lambda>l m. Option.bind m (resolve_level lid l)) ls m0"

lemma resolve_all_defined:
  "map_of m Level_Global \<noteq> None \<Longrightarrow> \<exists>m'. resolve_all lid ls (Some m) = Some m'"
proof (induction ls arbitrary: m)
  case (Cons l ls)
  have "getConfigByRef l m \<noteq> None" using Cons.prems by (auto simp: getConfigByRef_def split: option.split)
  moreover have "map_of (level_update k f m) Level_Global \<noteq> None" for k f
    using Cons.prems by (simp add: level_update_dom)
  ultimately obtain m1 where "resolve_level lid l m = Some m1" "map_of m1 Level_Global \<noteq> None"
    by (auto simp: resolve_level_def Let_def)
  then show ?case using Cons.IH by simp
qed simp

lemma resolve_all_same:
  assumes "\<forall>l \<in> set ls. \<exists>lf. getConfigByRef l m = Some lf \<and>
      replaceFirstWithEscape (lf_format lf) kLoggerIdFormatSpecifier lid = lf_format lf"
  shows "resolve_all lid ls (Some m) = Some m"
  using assms
proof (induction ls)
  case (Cons l ls)
  then obtain lf where lf: "getConfigByRef l m = Some lf"
    "replaceFirstWithEscape (lf_format lf) kLoggerIdFormatSpecifier lid = lf_format lf"
    by auto
  then have "resolve_level lid l m = Some m"
    by (auto simp: resolve_level_def Let_def getConfigByRef_def intro!: level_update_same split: option.splits)
  then show ?case using Cons by simp
qed simp

lemma resolveLoggerFormatSpec_fold:
  "resolveLoggerFormatSpec lid tc =
     map_option (\<lambda>m. tc\<lparr>m_logFormatMap := m\<rparr>) (resolve_all lid valid_levels (Some (m_logFormatMap tc)))"
  by (simp add: resolveLoggerFormatSpec_def
      forEachLevel_fold [where f = "\<lambda>l m. Option.bind m (resolve_level lid l)"])

lemma no_logger_specifier:
  assumes "CHR ''%'' \<notin> set b" "l \<noteq> Level_Global" "l \<noteq> Level_Unknown"
  shows "replaceFirstWithEscape (lf_format (level_msg_format b l)) kLoggerIdFormatSpecifier lid =
    lf_format (level_msg_format b l)"
proof (rule replaceFirst_none, intro allI notI)
  fix j assume occ: "occurs_at (lf_format (level_msg_format b l)) kLoggerIdFormatSpecifier j"
  let ?x = "level_value l @ b"
  have fmt: "lf_format (level_msg_format b l) = ?x @ ''%msg''" by (simp add: level_msg_format_format)
  have "(?x @ ''%msg'') ! j = CHR ''%''" "j + 7 \<le> length ?x + 4"
    using occurs_at_hd [OF occ] occurs_at_length [OF occ] by (simp_all add: fmt kLoggerIdFormatSpecifier_def)
  then have "CHR ''%'' \<in> set ?x" by (auto simp: nth_append split: if_splits dest: nth_mem)
  then show False using assms by (cases l) simp_all
qed

text \<open>
  A logger that is configured: its typed values are those of its configurations, and if these have
  the one format, so has every level.
\<close>

definition logger_settled :: "identity \<Rightarrow> string \<Rightarrow> Configurations \<Rightarrow> Logger \<Rightarrow> bool" where
  "logger_settled ident name cs lg \<longleftrightarrow>
     lg_configurations lg = cs \<and> lg_stream lg = [] \<and>
     (\<forall>l \<in> set valid_levels. map_of (lg_unflushedCount lg) l \<noteq> None) \<and>
     (\<exists>tc. lg_typedConfigurations lg = Some tc \<and>
        (\<forall>l. l \<noteq> Level_Unknown \<longrightarrow> tc_enabled l tc \<and> tc_toFile l tc \<and> tc_toStandardOutput l tc) \<and>
        (\<forall>l. tc_fileStream l tc = Some (Some name)) \<and>
        (\<forall>b. CHR ''%'' \<notin> set b \<longrightarrow>
           (\<forall>c \<in> set (conf_list cs). conf_type c = CT_Format \<longrightarrow> conf_value c = level_msg b) \<longrightarrow>
           (\<forall>l \<in> set valid_levels. tc_logFormat l tc = Some (level_msg_format b l))))"

lemma initUnflushedCount_run:
  "\<exists>u. initUnflushedCount lg = lg\<lparr>lg_unflushedCount := u\<rparr> \<and> (\<forall>l \<in> set valid_levels. map_of u l \<noteq> None)"
proof -
  have "map_of (fold (\<lambda>l. level_insert l (0::nat)) ls m) l \<noteq> None" if "l \<in> set ls \<or> map_of m l \<noteq> None" for l ls m
    using that by (induction ls arbitrary: m) (auto simp: level_insert_lookup)
  then show ?thesis
    by (auto simp: initUnflushedCount_def forEachLevel_fold [where f = "\<lambda>l. level_insert l 0"])
qed

lemma quietly_flush_all:
  assumes dev: "device_works os ft co" and tc: "lg_typedConfigurations lg = Some tc"
    and files: "\<And>l. tc_fileStream l tc = Some (Some name)"
    and counts: "\<forall>l \<in> set valid_levels. map_of (lg_unflushedCount lg) l \<noteq> None"
  shows "quietly ft co name' (flush_all_levels os lg)
    (\<lambda>lg'. \<exists>u. lg' = lg\<lparr>lg_unflushedCount := u\<rparr> \<and> (\<forall>l \<in> set valid_levels. map_of u l \<noteq> None))"
proof -
  let ?I = "\<lambda>lg'. \<exists>u. lg' = lg\<lparr>lg_unflushedCount := u\<rparr> \<and> (\<forall>l \<in> set valid_levels. map_of u l \<noteq> None)"
  have start: "?I lg" by (rule exI [of _ "lg_unflushedCount lg"]) (simp add: counts)
  have step: "quietly ft co name' (flush_level os l None lg') ?I"
    if l: "l \<in> set valid_levels" and I: "?I lg'" for l lg'
  proof -
    obtain u where u: "lg' = lg\<lparr>lg_unflushedCount := u\<rparr>" "\<forall>l \<in> set valid_levels. map_of u l \<noteq> None"
      using I by blast
    let ?u = "level_update l (\<lambda>_. 0) u"
    have "?I (lg'\<lparr>lg_unflushedCount := ?u\<rparr>)"
      by (rule exI [of _ ?u]) (use u in \<open>simp add: level_update_dom\<close>)
    moreover have "map_of u l \<noteq> None" using l u(2) by blast
    moreover note I
    ultimately show ?thesis
      using u(1)
      by (auto simp: flush_level_def typedConfigurations_def tc defined_def files
          intro!: quietly_bind [OF quietly_device(2) [OF dev]] quietly_ret)
  qed
  show ?thesis
    unfolding flush_all_levels_def
    by (subst forEachLevel_fold [where f = "\<lambda>l m. bindE m (flush_level os l None)"])
      (rule refl, rule quietly_fold_bind [OF step], assumption+, rule quietly_ret, rule start)
qed

lemma typed_formats:
  assumes cs: "settled P cs"
    and tc: "m_logFormatMap tc =
       typed_map assign_LogFormat
         (typed_entries (\<lambda>c. the (make_LogFormat ident (conf_level c) (conf_value c))) CT_Format (conf_list cs)) []"
  shows "map_of (m_logFormatMap tc) Level_Global \<noteq> None"
    and "\<lbrakk>CHR ''%'' \<notin> set b; \<forall>c \<in> set (conf_list cs). conf_type c = CT_Format \<longrightarrow> conf_value c = level_msg b; l \<noteq> Level_Unknown\<rbrakk>
      \<Longrightarrow> getConfigByRef l (m_logFormatMap tc) = Some (level_msg_format b l)"
proof -
  have wf: "conf_wf cs" "conf_based cs" using cs by (simp_all add: settled_def)
  have lookup: "\<exists>c \<in> set (conf_list cs). conf_type c = CT_Format \<and>
      getConfigByRef l (m_logFormatMap tc) = Some (the (make_LogFormat ident l (conf_value c)))" if l: "l \<noteq> Level_Unknown" for l
  proof -
    obtain c where c: "conf_get l CT_Format cs = Some c" "conf_level c = l" "conf_type c = CT_Format"
      using settled_entry [OF cs l, of CT_Format] by auto
    show ?thesis
      using typed_lookup [OF wf _ c(1), of assign_LogFormat "\<lambda>c. the (make_LogFormat ident (conf_level c) (conf_value c))"]
        c(2,3) conf_get_Some [OF c(1)] by (auto simp: tc)
  qed
  show "map_of (m_logFormatMap tc) Level_Global \<noteq> None"
    using lookup [of Level_Global] by (auto simp: getConfigByRef_def split: option.splits)
  show "getConfigByRef l (m_logFormatMap tc) = Some (level_msg_format b l)"
    if "CHR ''%'' \<notin> set b" "\<forall>c \<in> set (conf_list cs). conf_type c = CT_Format \<longrightarrow> conf_value c = level_msg b" "l \<noteq> Level_Unknown"
    using lookup [OF that(3)] that(1,2) by (auto simp: make_level_msg_format)
qed

lemma quietly_configure:
  assumes dev: "device_works os ft co" and name: "find_from name kDateTimeFormatSpecifier 0 = None"
    and cs: "settled (good_entry ident name) (setFromBase confs (lg_configurations lg))"
    and opened: "\<And>tc l. lg_typedConfigurations lg = Some tc \<Longrightarrow> tc_fileStream l tc = Some (Some name)"
    and stream: "lg_stream lg = []"
  shows "quietly ft co name (configure os ident confs lg)
    (logger_settled ident name (setFromBase confs (lg_configurations lg)))"
proof -
  let ?cs = "setFromBase confs (lg_configurations lg)"
  obtain u where u: "initUnflushedCount (lg\<lparr>lg_isConfigured := False\<rparr>) = lg\<lparr>lg_isConfigured := False, lg_unflushedCount := u\<rparr>"
    "\<forall>l \<in> set valid_levels. map_of u l \<noteq> None"
    using initUnflushedCount_run [of "lg\<lparr>lg_isConfigured := False\<rparr>"] by auto
  let ?lg1 = "lg\<lparr>lg_isConfigured := False, lg_unflushedCount := u\<rparr>"
  let ?I = "\<lambda>lg'. \<exists>u. lg' = ?lg1\<lparr>lg_unflushedCount := u\<rparr> \<and> (\<forall>l \<in> set valid_levels. map_of u l \<noteq> None)"
  have start: "?I ?lg1" by (rule exI [of _ u]) (simp add: u(2))
  have flushed: "quietly ft co name
      (if lg_typedConfigurations ?lg1 \<noteq> None \<and> hasConfiguration_at Level_Global CT_Filename (lg_configurations ?lg1)
       then flush_all_levels os ?lg1 else ret ?lg1) ?I"
  proof (rule quietly_if)
    assume "lg_typedConfigurations ?lg1 \<noteq> None \<and> hasConfiguration_at Level_Global CT_Filename (lg_configurations ?lg1)"
    then obtain tc where tc: "lg_typedConfigurations lg = Some tc" by auto
    show "quietly ft co name (flush_all_levels os ?lg1) ?I"
      by (rule quietly_flush_all [OF dev, where tc = tc]) (use tc opened [OF tc] u(2) in simp_all)
  next
    show "quietly ft co name (ret ?lg1) ?I" by (rule quietly_ret) (rule start)
  qed
  have rest: "quietly ft co name
      (let confs' = setFromBase confs (lg_configurations lg2) in
       bindE (build os ident confs') (\<lambda>tc.
       bindE (defined (resolveLoggerFormatSpec (lg_id lg2) tc)) (\<lambda>tc'.
       ret (lg2\<lparr>lg_configurations := confs', lg_typedConfigurations := Some tc', lg_isConfigured := True\<rparr>))))
      (logger_settled ident name ?cs)" if I: "?I lg2" for lg2
  proof -
    have lg2: "lg_configurations lg2 = lg_configurations lg" "lg_stream lg2 = []"
      "\<forall>l \<in> set valid_levels. map_of (lg_unflushedCount lg2) l \<noteq> None"
      using I stream by auto
    have after: "quietly ft co name
        (bindE (defined (resolveLoggerFormatSpec (lg_id lg2) tc)) (\<lambda>tc'.
         ret (lg2\<lparr>lg_configurations := ?cs, lg_typedConfigurations := Some tc', lg_isConfigured := True\<rparr>)))
        (logger_settled ident name ?cs)" if tc: "typed_of ident name ?cs tc" for tc
    proof -
      have map_tc: "m_logFormatMap tc = typed_map assign_LogFormat
         (typed_entries (\<lambda>c. the (make_LogFormat ident (conf_level c) (conf_value c))) CT_Format (conf_list ?cs)) []"
        using tc by (simp add: typed_of_def)
      note formats = typed_formats [OF cs map_tc]
      obtain fm where fm: "resolve_all (lg_id lg2) valid_levels (Some (m_logFormatMap tc)) = Some fm"
        using resolve_all_defined [OF formats(1)] by blast
      have "fm = m_logFormatMap tc" "\<forall>l \<in> set valid_levels. tc_logFormat l tc = Some (level_msg_format b l)"
        if b: "CHR ''%'' \<notin> set b" "\<forall>c \<in> set (conf_list ?cs). conf_type c = CT_Format \<longrightarrow> conf_value c = level_msg b" for b
      proof -
        have "\<forall>l \<in> set valid_levels. getConfigByRef l (m_logFormatMap tc) = Some (level_msg_format b l) \<and>
            replaceFirstWithEscape (lf_format (level_msg_format b l)) kLoggerIdFormatSpecifier (lg_id lg2) =
              lf_format (level_msg_format b l)"
          using formats(2) [OF b] no_logger_specifier [OF b(1)] by (simp add: set_valid_levels)
        then show "fm = m_logFormatMap tc" "\<forall>l \<in> set valid_levels. tc_logFormat l tc = Some (level_msg_format b l)"
          using resolve_all_same [of valid_levels "m_logFormatMap tc" "lg_id lg2"] fm
          by (auto simp: tc_logFormat_def)
      qed
      then have "logger_settled ident name ?cs
          (lg2\<lparr>lg_configurations := ?cs, lg_typedConfigurations := Some (tc\<lparr>m_logFormatMap := fm\<rparr>), lg_isConfigured := True\<rparr>)"
        using tc lg2(2,3)
        by (simp add: logger_settled_def typed_of_def tc_enabled_def tc_toFile_def tc_toStandardOutput_def
            tc_fileStream_def tc_logFormat_def)
      then show ?thesis
        by (simp add: resolveLoggerFormatSpec_fold fm defined_def quietly_ret)
    qed
    show ?thesis
      unfolding Let_def lg2(1) by (rule quietly_bind [OF quietly_build [OF dev name cs]]) (rule after)
  qed
  show ?thesis
    unfolding configure_def Let_def u(1)
    by (rule quietly_bind [OF flushed]) (use rest in \<open>simp add: Let_def\<close>)
qed

section \<open>Configurations that stay good\<close>

lemma good_entry_level:
  "good_entry ident name \<lparr>conf_level = l, conf_type = t, conf_value = v\<rparr> \<Longrightarrow> level_covers l l' \<Longrightarrow>
     good_entry ident name \<lparr>conf_level = l', conf_type = t, conf_value = v\<rparr>"
  by (auto simp: good_entry_def level_covers_def)

lemma entries_ok_entry:
  assumes "entries_ok P cs" "P \<lparr>conf_level = l, conf_type = t, conf_value = v\<rparr>"
  shows "entries_ok P (unsafeSet_entry l t v cs)"
proof -
  have new: "P c" if "c \<in> set (set_first (conf_predicate l t) v list)" "\<forall>c \<in> set list. P c" for c list
    using that
  proof (induction list)
    case (Cons d list)
    have "conf_predicate l t d \<Longrightarrow> d\<lparr>conf_value := v\<rparr> = \<lparr>conf_level = l, conf_type = t, conf_value = v\<rparr>"
      by (cases d) (simp add: conf_predicate_def)
    then show ?case using Cons assms(2) by (auto split: if_splits)
  qed simp
  show ?thesis
    using assms new [of _ "conf_list cs"] by (auto simp: entries_ok_def unsafeSet_entry_def split: option.splits)
qed

lemma entries_ok_fold:
  "(\<And>x cs. x \<in> set xs \<Longrightarrow> entries_ok P cs \<Longrightarrow> entries_ok P (f x cs)) \<Longrightarrow> entries_ok P cs \<Longrightarrow> entries_ok P (fold f xs cs)"
  by (induction xs arbitrary: cs) auto

lemma entries_ok_conf_set:
  assumes "entries_ok P cs" and "\<And>l'. level_covers l l' \<Longrightarrow> P \<lparr>conf_level = l', conf_type = t, conf_value = v\<rparr>"
  shows "entries_ok P (conf_set l t v cs)"
proof -
  have covers: "level_covers l l'" if "l' \<in> set (l # (if l = Level_Global then valid_levels else []))" for l'
    using that by (auto simp: level_covers_def set_valid_levels split: if_splits)
  have "entries_ok P (unsafeSet l t v cs)"
    unfolding unsafeSet_fold
    by (rule entries_ok_fold, rule entries_ok_entry, assumption) (erule assms(2) [OF covers], rule assms(1))
  moreover have "entries_ok P (fold (\<lambda>l. unsafeSet_entry l t v) valid_levels cs')" if "entries_ok P cs'" "l = Level_Global" for cs'
    by (rule entries_ok_fold, rule entries_ok_entry, assumption)
      (rule assms(2), rule covers, simp add: that(2), rule that(1))
  ultimately show ?thesis
    by (cases "l = Level_Global") (simp_all add: conf_set_def Let_def unsafeSetGlobally_loop)
qed

lemma settled_conf_set:
  assumes "settled P cs" and "\<And>l'. level_covers l l' \<Longrightarrow> P \<lparr>conf_level = l', conf_type = t, conf_value = v\<rparr>"
  shows "settled P (conf_set l t v cs)"
  using assms by (simp add: settled_def wf_conf_set based_conf_set closed_conf_set entries_ok_conf_set)

lemma settled_setGlobally:
  assumes "settled P cs" and "\<And>l'. l' \<noteq> Level_Unknown \<Longrightarrow> P \<lparr>conf_level = l', conf_type = t, conf_value = v\<rparr>"
  shows "settled P (setGlobally t v incl cs)"
proof -
  have "settled P (fold (\<lambda>l. conf_set l t v) ls cs')" if "settled P cs'" "set ls \<subseteq> set valid_levels" for cs' ls
    using that
  proof (induction ls arbitrary: cs')
    case (Cons l ls)
    then have "settled P (conf_set l t v cs')"
      by (intro settled_conf_set assms(2)) (auto simp: level_covers_def set_valid_levels)
    then show ?case using Cons by simp
  qed simp
  moreover have "settled P (if incl then conf_set Level_Global t v cs else cs)"
    using assms by (auto simp: level_covers_def intro!: settled_conf_set)
  ultimately show ?thesis by (simp add: setGlobally_fold)
qed

lemma settled_setFromBase:
  assumes "settled (good_entry ident name) base"
  shows "settled (good_entry ident name) (setFromBase (Some base) new_Configurations)"
proof -
  let ?set = "\<lambda>conf. conf_set (conf_level conf) (conf_type conf) (conf_value conf)"
  let ?P = "good_entry ident name"
  have first: "cs_first t (fold ?set confs cs) = or_else (cs_first t cs) (first_level t confs)" for t confs cs
    by (induction confs arbitrary: cs) (auto simp: first_conf_set or_else_assoc first_level_def)
  have "cs_first t new_Configurations = None" for t
    by (simp add: cs_first_def first_level_def new_Configurations_def)
  then have "conf_based (fold ?set (conf_list base) new_Configurations)"
    using first [of _ "conf_list base" new_Configurations] assms by (simp add: settled_def conf_based_def cs_first_def)
  moreover have "entries_ok ?P (fold ?set (conf_list base) new_Configurations)"
  proof (rule entries_ok_fold)
    fix c cs assume c: "c \<in> set (conf_list base)" "entries_ok ?P cs"
    then have "?P c" using assms by (auto simp: settled_def entries_ok_def)
    then have "?P \<lparr>conf_level = conf_level c, conf_type = conf_type c, conf_value = conf_value c\<rparr>"
      by (cases c) simp
    then show "entries_ok ?P (?set c cs)" by (intro entries_ok_conf_set [OF c(2)]) (rule good_entry_level)
  qed (simp add: entries_ok_def new_Configurations_def)
  moreover have "conf_wf (fold ?set (conf_list base) new_Configurations)"
    by (rule wf_fold, erule wf_conf_set) (simp add: conf_wf_def new_Configurations_def)
  moreover have "conf_closed (fold ?set (conf_list base) new_Configurations)"
    by (rule closed_fold, erule closed_conf_set) (simp add: conf_closed_def)
  ultimately show ?thesis by (simp add: settled_def setFromBase_def)
qed

text \<open>The defaults are good, and setting one format for the global level leaves no other.\<close>

lemma default_formats [simp]:
  "\<exists>lf. make_LogFormat ident l ''%datetime %level [%logger] %msg'' = Some lf"
  "\<exists>lf. make_LogFormat ident l ''%datetime %level [%logger] [%user@%host] [%func] [%loc] %msg'' = Some lf"
  "\<exists>lf. make_LogFormat ident l ''%datetime %level-%vlevel [%logger] %msg'' = Some lf"
  "\<exists>lf. make_LogFormat ident l ''%datetime %level [%logger] [%func] [%loc] %msg'' = Some lf"
  "\<exists>lf. make_LogFormat ident l ''%datetime %level %msg'' = Some lf"
  by (rule make_LogFormat_defined [simplified not_None_eq], simp add: kFormatSpecifierChar_def)+

lemma settled_default: "settled (good_entry ident kDefaultLogFile) (setToDefault new_Configurations)"
proof -
  let ?P = "good_entry ident kDefaultLogFile"
  have "?P \<lparr>conf_level = l, conf_type = t, conf_value = v\<rparr>"
    if "l \<noteq> Level_Unknown" "(t, v) \<in> {(CT_Enabled, ''true''), (CT_Filename, kDefaultLogFile), (CT_ToFile, ''true''),
      (CT_ToStandardOutput, ''true''), (CT_MillisecondsWidth, ''3''), (CT_PerformanceTracking, ''true''),
      (CT_MaxLogFileSize, ''0''), (CT_LogFlushThreshold, ''0''), (CT_Format, ''%datetime %level [%logger] %msg''),
      (CT_Format, ''%datetime %level [%logger] [%user@%host] [%func] [%loc] %msg''),
      (CT_Format, ''%datetime %level-%vlevel [%logger] %msg''),
      (CT_Format, ''%datetime %level [%logger] [%func] [%loc] %msg'')}" for l t v
    using that by (auto simp: good_entry_def)
  note good = this
  have entries: "entries_ok ?P cs' \<Longrightarrow> entries_ok ?P (setGlobally t v True cs')"
    if "\<And>l. l \<noteq> Level_Unknown \<Longrightarrow> ?P \<lparr>conf_level = l, conf_type = t, conf_value = v\<rparr>" for t v cs'
    using that by (auto simp: setGlobally_fold set_valid_levels level_covers_def intro!: entries_ok_fold entries_ok_conf_set)
  have "entries_ok ?P (setToDefault new_Configurations)"
    unfolding setToDefault_def Let_def
    by (intro entries_ok_conf_set entries good) (auto simp: level_covers_def entries_ok_def new_Configurations_def)
  moreover have "conf_closed (setToDefault new_Configurations)"
    by (auto simp: conf_closed_def setToDefault_def conf_simps level_covers_def)
  ultimately show ?thesis by (simp add: settled_def default_wf default_based)
qed

lemma one_format:
  assumes "settled (good_entry ident name) cs" "CHR ''%'' \<notin> set b"
  shows "settled (good_entry ident name) (conf_set Level_Global CT_Format (level_msg b) cs)"
    and "\<forall>c \<in> set (conf_list (conf_set Level_Global CT_Format (level_msg b) cs)).
      conf_type c = CT_Format \<longrightarrow> conf_value c = level_msg b"
proof -
  let ?cs = "conf_set Level_Global CT_Format (level_msg b) cs"
  show set: "settled (good_entry ident name) ?cs"
    using assms by (intro settled_conf_set) (auto simp: good_entry_def level_covers_def make_level_msg_format)
  show "\<forall>c \<in> set (conf_list ?cs). conf_type c = CT_Format \<longrightarrow> conf_value c = level_msg b"
  proof (intro ballI impI)
    fix c assume c: "c \<in> set (conf_list ?cs)" "conf_type c = CT_Format"
    have first: "find (conf_predicate (conf_level c) (conf_type c)) list = Some c"
      if "distinct (map (\<lambda>c. (conf_level c, conf_type c)) list)" "c \<in> set list" for list
      using that by (induction list) (auto simp: conf_predicate_def image_iff)
    have "conf_level c \<noteq> Level_Unknown" "conf_wf ?cs"
      using set c by (auto simp: settled_def entries_ok_def good_entry_def)
    then have "conf_get (conf_level c) CT_Format ?cs = Some c"
      using first [of "conf_list ?cs"] c by (simp add: conf_get_def conf_wf_def)
    then show "conf_value c = level_msg b"
      using \<open>conf_level c \<noteq> Level_Unknown\<close> by (cases c) (auto simp: conf_simps level_covers_def)
  qed
qed

section \<open>The storage\<close>

lemma default_file_name: "find_from kDefaultLogFile kDateTimeFormatSpecifier 0 = None"
proof -
  have "\<not> occurs_at kDefaultLogFile kDateTimeFormatSpecifier j" for j
  proof
    assume "occurs_at kDefaultLogFile kDateTimeFormatSpecifier j"
    from occurs_at_hd [OF this] have "CHR ''%'' \<in> set kDefaultLogFile"
      by (auto simp: kDateTimeFormatSpecifier_def dest: nth_mem)
    then show False by (simp add: kDefaultLogFile_def)
  qed
  then show ?thesis by (simp add: find_from_None)
qed

text \<open>A quiet change of a logger in the registry.\<close>

lemma with_logger_quiet:
  assumes lg: "map_of (st_loggers s) lid = Some lg" and f: "quietly ft co name (f lg) Q" and refs: "refs_ok name s"
  obtains lg' e r where "with_logger lid f s = Some (Inr (), store lid lg' (s\<lparr>log_env := e, logStreamsReference := r\<rparr>))"
    "Q lg'" "shows_same ft co (log_env s) e" "refs_ok name (s\<lparr>log_env := e, logStreamsReference := r\<rparr>)"
proof -
  obtain lg' s' where run: "f lg s = Some (Inr lg', s')" "Q lg'" "quiet ft co s s'" "refs_ok name s'"
    by (rule quietlyE [OF f refs])
  obtain e r where s': "s' = s\<lparr>log_env := e, logStreamsReference := r\<rparr>" "shows_same ft co (log_env s) e"
    using run(3) by (auto simp: quiet_def)
  show ?thesis
    by (rule that [OF with_logger_run [where f = f and s = s, OF lg run(1), unfolded s'(1)] run(2) s'(2) run(4) [unfolded s'(1)]])
qed

text \<open>A logger that is registered is configured with the defaults.\<close>

lemma loggers_get_new:
  assumes dev: "device_works os ft co" and new: "map_of (st_loggers s) lid = None" "isValidId lid"
    and defaults: "settled (good_entry ident kDefaultLogFile) (st_defaultConfigurations s)"
    and refs: "refs_ok kDefaultLogFile s"
  obtains lg e r where "loggers_get os ident lid True s =
      Some (Inr (Some lid), s\<lparr>log_env := e, logStreamsReference := r, st_loggers := map_insert lid lg (st_loggers s)\<rparr>)"
    "logger_settled ident kDefaultLogFile (setFromBase (Some (st_defaultConfigurations s)) new_Configurations) lg"
    "shows_same ft co (log_env s) e" "refs_ok kDefaultLogFile (s\<lparr>log_env := e, logStreamsReference := r\<rparr>)"
proof -
  let ?cs = "setFromBase (Some (st_defaultConfigurations s)) new_Configurations"
  have bare: "lg_configurations (bare_Logger lid) = new_Configurations" "lg_stream (bare_Logger lid) = []"
    "lg_typedConfigurations (bare_Logger lid) = None"
    by (simp_all add: bare_Logger_def initUnflushedCount_def)
  have conf: "quietly ft co kDefaultLogFile (new_Logger os ident lid (st_defaultConfigurations s))
      (logger_settled ident kDefaultLogFile ?cs)"
    unfolding new_Logger_def bare(1) [symmetric]
    by (rule quietly_configure [OF dev default_file_name])
      (use settled_setFromBase [OF defaults] bare in simp_all)
  obtain lg s' where run: "new_Logger os ident lid (st_defaultConfigurations s) s = Some (Inr lg, s')"
    "logger_settled ident kDefaultLogFile ?cs lg" "quiet ft co s s'" "refs_ok kDefaultLogFile s'"
    by (rule quietlyE [OF conf refs])
  obtain e r where s': "s' = s\<lparr>log_env := e, logStreamsReference := r\<rparr>" "shows_same ft co (log_env s) e"
    using run(3) by (auto simp: quiet_def)
  have got: "loggers_get os ident lid True s =
      Some (Inr (Some lid), s\<lparr>log_env := e, logStreamsReference := r, st_loggers := map_insert lid lg (st_loggers s)\<rparr>)"
    using new run(1) by (simp add: loggers_get_def io_simps s'(1))
  show ?thesis by (rule that [OF got run(2) s'(2) run(4) [unfolded s'(1)]])
qed

lemma quietly_reconfigure:
  assumes dev: "device_works os ft co" and lg: "logger_settled ident kDefaultLogFile cs0 lg"
    and cs: "settled (good_entry ident kDefaultLogFile) cs"
  shows "quietly ft co kDefaultLogFile (reconfigure os ident (lg\<lparr>lg_configurations := cs\<rparr>))
    (logger_settled ident kDefaultLogFile cs)"
proof -
  have "quietly ft co kDefaultLogFile (configure os ident None (lg\<lparr>lg_configurations := cs\<rparr>))
    (logger_settled ident kDefaultLogFile (setFromBase None (lg_configurations (lg\<lparr>lg_configurations := cs\<rparr>))))"
    by (rule quietly_configure [OF dev default_file_name])
      (use lg cs in \<open>auto simp: logger_settled_def setFromBase_def\<close>)
  then show ?thesis by (simp add: reconfigure_def setFromBase_def)
qed

text \<open>The state after the constructor of the storage.\<close>

definition set_up :: "identity \<Rightarrow> ('e, 'z) storage_scheme \<Rightarrow> bool" where
  "set_up ident s \<longleftrightarrow>
     refs_ok kDefaultLogFile s \<and> default_flags (st_flags s) \<and>
     st_logDispatchCallbacks s = [(''DefaultLogDispatchCallback'', True)] \<and> st_customFormatSpecifiers s = [] \<and>
     (\<exists>lg1 lg2 cs1 cs2. st_loggers s = [(''default'', lg1), (''performance'', lg2)] \<and>
        logger_settled ident kDefaultLogFile cs1 lg1 \<and> settled (good_entry ident kDefaultLogFile) cs1 \<and>
        logger_settled ident kDefaultLogFile cs2 lg2 \<and> settled (good_entry ident kDefaultLogFile) cs2)"

lemma valid_ids: "isValidId ''default''" "isValidId ''performance''"
  by (simp_all add: isValidId_def contains_iff kValidLoggerIdSymbols_def)

lemma new_Storage_run:
  assumes dev: "device_works os ft co"
  obtains s where "new_Storage os ident (initial_storage e) = Some (Inr (), s)"
    "set_up ident s" "shows_same ft co e (log_env s)"
proof -
  let ?good = "good_entry ident kDefaultLogFile" and ?s0 = "initial_storage e"
  let ?defaults = "setToDefault new_Configurations"
  let ?cs = "setFromBase (Some ?defaults) new_Configurations"
  let ?cs' = "setGlobally CT_Format ''%datetime %level %msg'' False ?cs"
  have cs: "settled ?good ?cs" by (rule settled_setFromBase) (rule settled_default)
  have cs': "settled ?good ?cs'" by (rule settled_setGlobally [OF cs]) (simp add: good_entry_def)
  have s0: "st_loggers ?s0 = []" "st_defaultConfigurations ?s0 = ?defaults" "st_flags ?s0 = 0" "log_env ?s0 = e"
    "st_logDispatchCallbacks ?s0 = []" "st_customFormatSpecifiers ?s0 = []" "logStreamsReference ?s0 = []"
    by (simp_all add: initial_storage_def)
  obtain lg1 e1 r1 where 1: "loggers_get os ident ''default'' True ?s0 = Some (Inr (Some ''default''),
      ?s0\<lparr>log_env := e1, logStreamsReference := r1, st_loggers := [(''default'', lg1)]\<rparr>)"
    "logger_settled ident kDefaultLogFile ?cs lg1" "shows_same ft co e e1"
    "refs_ok kDefaultLogFile (?s0\<lparr>log_env := e1, logStreamsReference := r1\<rparr>)"
    by (rule loggers_get_new [OF dev, of ?s0 "''default''" ident])
      (use settled_default [of ident] valid_ids s0 in \<open>simp_all add: refs_ok_def\<close>)
  let ?s1 = "?s0\<lparr>log_env := e1, logStreamsReference := r1, st_loggers := [(''default'', lg1)]\<rparr>"
  obtain lg2 e2 r2 where 2: "loggers_get os ident ''performance'' True ?s1 = Some (Inr (Some ''performance''),
      ?s1\<lparr>log_env := e2, logStreamsReference := r2, st_loggers := [(''default'', lg1), (''performance'', lg2)]\<rparr>)"
    "logger_settled ident kDefaultLogFile ?cs lg2" "shows_same ft co e1 e2"
    "refs_ok kDefaultLogFile (?s1\<lparr>log_env := e2, logStreamsReference := r2\<rparr>)"
    by (rule loggers_get_new [OF dev, of ?s1 "''performance''" ident])
      (use settled_default [of ident] valid_ids s0 1(4) in \<open>simp_all add: refs_ok_def\<close>)
  let ?s2 = "?s1\<lparr>log_env := e2, logStreamsReference := r2, st_loggers := [(''default'', lg1), (''performance'', lg2)]\<rparr>"
  have lg2: "map_of (st_loggers ?s2) ''performance'' = Some lg2" by simp
  have refs2: "refs_ok kDefaultLogFile ?s2" using 2(4) by (simp add: refs_ok_def)
  let ?f = "\<lambda>lg. reconfigure os ident
      (lg\<lparr>lg_configurations := setGlobally CT_Format ''%datetime %level %msg'' False (lg_configurations lg)\<rparr>)"
  have f: "quietly ft co kDefaultLogFile (?f lg2) (logger_settled ident kDefaultLogFile ?cs')"
    using quietly_reconfigure [OF dev 2(2) cs'] 2(2) by (simp add: logger_settled_def)
  obtain lg3 e3 r3 where 3: "with_logger ''performance'' ?f ?s2 = Some (Inr (),
      store ''performance'' lg3 (?s2\<lparr>log_env := e3, logStreamsReference := r3\<rparr>))"
    "logger_settled ident kDefaultLogFile ?cs' lg3" "shows_same ft co e2 e3"
    "refs_ok kDefaultLogFile (?s2\<lparr>log_env := e3, logStreamsReference := r3\<rparr>)"
    by (rule with_logger_quiet [where f = ?f, OF lg2 f refs2]) simp
  let ?s3 = "store ''performance'' lg3 (?s2\<lparr>log_env := e3, logStreamsReference := r3\<rparr>)"
  let ?s4 = "?s3\<lparr>st_flags := addFlag (logging_flag AllowVerboseIfModuleNotSpecified) 0,
    st_logDispatchCallbacks := [(''DefaultLogDispatchCallback'', True)]\<rparr>"
  have "new_Storage os ident ?s0 = Some (Inr (), ?s4)"
    using 1(1) 2(1) 3(1) s0
    by (simp add: new_Storage_def kDefaultLoggerId_def kPerformanceLoggerId_def st_addFlag_def
        installLogDispatchCallback_def io_simps)
  moreover have "set_up ident ?s4"
    using 1(2) 3(2,4) cs cs' s0
    by (auto simp: set_up_def refs_ok_def default_flags_def hasFlag_add logging_flag_disjoint store_def)
  moreover have "shows_same ft co e (log_env ?s4)"
    using 1(3) 2(3) 3(3) by (simp add: shows_same_def)
  ultimately show ?thesis by (rule that)
qed

section \<open>The logging of the agent\<close>

text \<open>The formats that \<^verbatim>\<open>main.cpp\<close> configures for its two modes.\<close>

definition log_format :: "BarnConf \<Rightarrow> string" where
  "log_format conf =
     (if monitor_mode conf then ''%level : %msg''
      else ''%level ['' @ service_name conf @ '':'' @ category conf @ ''] : %msg'')"

definition configure_logging :: "'e log_os \<Rightarrow> identity \<Rightarrow> BarnConf \<Rightarrow> (unit, ('e, 'z) storage_scheme) io" where
  "configure_logging os ident conf = reconfigureAllLoggers_value os ident CT_Format (log_format conf)"

text \<open>Statements one after the other, each with its place in the source.\<close>

fun log_all :: "'e log_os \<Rightarrow> identity \<Rightarrow> bool \<Rightarrow> string \<Rightarrow> ((string \<times> nat \<times> string) \<times> (Level \<times> log_arg list)) list \<Rightarrow>
    (unit, ('e, 'z) storage_scheme) io" where
  "log_all os ident termColor lid [] = ret ()"
| "log_all os ident termColor lid ((place, st) # sts) =
     thenE (LOG os ident termColor lid place st) (log_all os ident termColor lid sts)"

definition logging_session ::
  "'e log_os \<Rightarrow> identity \<Rightarrow> bool \<Rightarrow> BarnConf \<Rightarrow> ((string \<times> nat \<times> string) \<times> (Level \<times> log_arg list)) list \<Rightarrow>
     (unit, ('e, 'z) storage_scheme) io" where
  "logging_session os ident termColor conf sts =
     thenE (new_Storage os ident)
       (thenE (configure_logging os ident conf) (log_all os ident termColor kDefaultLoggerId sts))"

text \<open>What stands between the level and the message.\<close>

definition log_prefix :: "BarnConf \<Rightarrow> string" where
  "log_prefix conf =
     (if monitor_mode conf then '' : '' else '' ['' @ service_name conf @ '':'' @ category conf @ ''] : '')"

lemma log_format_level_msg: "log_format conf = level_msg (log_prefix conf)"
  by (simp add: log_format_def log_prefix_def level_msg_def)

lemma settled_ready:
  assumes "logger_settled ident name cs lg" "CHR ''%'' \<notin> set b"
    and "\<forall>c \<in> set (conf_list cs). conf_type c = CT_Format \<longrightarrow> conf_value c = level_msg b"
  shows "lg_stream lg = [] \<and> logger_ready b name lg"
proof -
  have "l \<in> set valid_levels \<and> l \<noteq> Level_Unknown" if "dispatched l" for l
    using that by (auto simp: dispatched_def set_valid_levels)
  then show ?thesis
    using assms by (fastforce simp: logger_settled_def logger_ready_def typed_ready_def)
qed

lemma configure_logging_run:
  assumes dev: "device_works os ft co" and s: "set_up ident s" and b: "CHR ''%'' \<notin> set (log_prefix conf)"
  obtains s' where "configure_logging os ident conf s = Some (Inr (), s')"
    "ready (log_prefix conf) kDefaultLogFile ''default'' s'" "shows_same ft co (log_env s) (log_env s')"
proof -
  let ?b = "log_prefix conf"
  obtain lg1 lg2 cs1 cs2 where lgs: "st_loggers s = [(''default'', lg1), (''performance'', lg2)]"
    "logger_settled ident kDefaultLogFile cs1 lg1" "settled (good_entry ident kDefaultLogFile) cs1"
    "logger_settled ident kDefaultLogFile cs2 lg2" "settled (good_entry ident kDefaultLogFile) cs2"
    and rest: "refs_ok kDefaultLogFile s" "default_flags (st_flags s)" "st_customFormatSpecifiers s = []"
      "st_logDispatchCallbacks s = [(''DefaultLogDispatchCallback'', True)]"
    using s by (auto simp: set_up_def)
  let ?set = "conf_set Level_Global CT_Format (level_msg ?b)"
  let ?f = "\<lambda>lg. reconfigure os ident (lg\<lparr>lg_configurations := ?set (lg_configurations lg)\<rparr>)"
  have f: "quietly ft co kDefaultLogFile (?f lg) (logger_settled ident kDefaultLogFile (?set cs))"
    if lg: "logger_settled ident kDefaultLogFile cs lg" and cs: "settled (good_entry ident kDefaultLogFile) cs" for cs lg
  proof -
    have "lg_configurations lg = cs" using lg by (simp add: logger_settled_def)
    then show ?thesis using quietly_reconfigure [OF dev lg one_format(1) [OF cs b]] by simp
  qed
  have lg1: "map_of (st_loggers s) ''default'' = Some lg1" by (simp add: lgs(1))
  obtain lg1' e1 r1 where 1: "with_logger ''default'' ?f s = Some (Inr (),
      store ''default'' lg1' (s\<lparr>log_env := e1, logStreamsReference := r1\<rparr>))"
    "logger_settled ident kDefaultLogFile (?set cs1) lg1'" "shows_same ft co (log_env s) e1"
    "refs_ok kDefaultLogFile (s\<lparr>log_env := e1, logStreamsReference := r1\<rparr>)"
    by (rule with_logger_quiet [where f = ?f, OF lg1 f [OF lgs(2,3)] rest(1)])
  let ?s1 = "store ''default'' lg1' (s\<lparr>log_env := e1, logStreamsReference := r1\<rparr>)"
  have lg2: "map_of (st_loggers ?s1) ''performance'' = Some lg2" by (simp add: lgs(1))
  have refs1: "refs_ok kDefaultLogFile ?s1" using 1(4) by (simp add: refs_ok_def)
  obtain lg2' e2 r2 where 2: "with_logger ''performance'' ?f ?s1 = Some (Inr (),
      store ''performance'' lg2' (?s1\<lparr>log_env := e2, logStreamsReference := r2\<rparr>))"
    "shows_same ft co (log_env ?s1) e2"
    by (rule with_logger_quiet [where f = ?f, OF lg2 f [OF lgs(4,5)] refs1]) simp
  let ?s2 = "store ''performance'' lg2' (?s1\<lparr>log_env := e2, logStreamsReference := r2\<rparr>)"
  have "configure_logging os ident conf s = Some (Inr (), ?s2)"
    using 1(1) 2(1) lgs(1)
    by (simp add: configure_logging_def reconfigureAllLoggers_value_def reconfigureAllLoggers_at_def all_loggers_def
        log_format_level_msg io_simps)
  moreover have "ready ?b kDefaultLogFile ''default'' ?s2"
    using settled_ready [OF 1(2) b] one_format(2) [OF lgs(3) b] rest lgs(1) by (simp add: ready_def store_def)
  moreover have "shows_same ft co (log_env s) (log_env ?s2)"
    using 1(3) 2(2) by (simp add: shows_same_def)
  ultimately show ?thesis by (rule that)
qed

lemma shows_line_trans:
  "shows_line ft co f t e e' \<Longrightarrow> shows_line ft co f u e' e'' \<Longrightarrow> shows_line ft co f (t @ u) e e''"
  by (auto simp: shows_line_def)

lemma shows_same_line: "shows_same ft co e e' \<Longrightarrow> shows_line ft co f u e' e'' \<Longrightarrow> shows_line ft co f u e e''"
  by (auto simp: shows_line_def shows_same_def)

lemma log_all_run:
  assumes "device_works os ft co" "CHR ''%'' \<notin> set b" and "ready b f lid s" and "\<forall>st \<in> set sts. loggable (fst (snd st))"
  shows "\<exists>s'. log_all os ident termColor lid sts s = Some (Inr (), s') \<and>
    shows_line ft co f (concat (map (\<lambda>st. log_line b (snd st)) sts)) (log_env s) (log_env s')"
  using assms(3,4)
proof (induction sts arbitrary: s)
  case Nil
  then show ?case by (simp add: io_simps shows_line_def)
next
  case (Cons p sts)
  obtain place st where p: "p = (place, st)" by (cases p)
  then have "loggable (fst st)" using Cons.prems(2) by simp
  then obtain e lg where 1: "LOG os ident termColor lid place st s = Some (Inr (), store lid lg (s\<lparr>log_env := e\<rparr>))"
    "ready b f lid (store lid lg (s\<lparr>log_env := e\<rparr>))" "shows_line ft co f (log_line b st) (log_env s) e"
    by (rule LOG_run [OF assms(1) Cons.prems(1) assms(2), where termColor = termColor])
  obtain s' where "log_all os ident termColor lid sts (store lid lg (s\<lparr>log_env := e\<rparr>)) = Some (Inr (), s')"
    "shows_line ft co f (concat (map (\<lambda>st. log_line b (snd st)) sts)) e (log_env s')"
    using Cons.IH [OF 1(2)] Cons.prems(2) by auto
  then show ?case using 1(1) shows_line_trans [OF 1(3)] by (simp add: p io_simps)
qed

section \<open>Properties\<close>

text \<open>A system that keeps its files and its output in memory.\<close>

definition memory_os :: "((string \<Rightarrow> string) \<times> string) log_os" where
  "memory_os =
     \<lparr>lo_gettimeofday = (\<lambda>e. Some ((0, 0), e)), lo_localtime = (\<lambda>_ _. None),
      lo_stat = (\<lambda>_ e. Some (False, e)), lo_mkdir = (\<lambda>_ e. Some (True, e)),
      lo_open_append = (\<lambda>_ e. Some (True, e)),
      lo_write = (\<lambda>f t e. Some (True, ((fst e)(f := fst e f @ t), snd e))),
      lo_flush = (\<lambda>_ e. Some ((), e)), lo_size = (\<lambda>f e. Some (length (fst e f), e)),
      lo_truncate = (\<lambda>f e. Some ((), ((fst e)(f := []), snd e))),
      lo_stdout = (\<lambda>t e. Some ((), (fst e, snd e @ t)))\<rparr>"

lemma memory_os_works: "device_works memory_os fst snd"
  by (auto simp: device_works_def memory_os_def shows_same_def)

text \<open>
  C35: what the agent logs is what is in its log file and on its output. From the start of the library,
  with the format that \<^verbatim>\<open>main.cpp\<close> configures, every sequence of statements below fatal returns and
  appends to \<^verbatim>\<open>logs/myeasylog.log\<close> and to the standard output exactly one line each, in order: the
  level, the service and category, and the message, whatever characters the message has. Files and
  output take what is written, and the names of the service and category have no percent sign.
\<close>

theorem agent_log_lines:
  assumes "device_works os file_text console"
    and "CHR ''%'' \<notin> set (service_name conf) \<union> set (category conf)"
    and "\<forall>st \<in> set sts. loggable (fst (snd st))"
  shows "\<exists>s. logging_session os ident termColor conf sts (initial_storage e) = Some (Inr (), s) \<and>
    shows_line file_text console kDefaultLogFile (concat (map (\<lambda>st. log_line (log_prefix conf) (snd st)) sts)) e (log_env s)"
proof -
  have b: "CHR ''%'' \<notin> set (log_prefix conf)" using assms(2) by (simp add: log_prefix_def)
  obtain s1 where 1: "new_Storage os ident (initial_storage e) = Some (Inr (), s1)" "set_up ident s1"
    "shows_same file_text console e (log_env s1)"
    by (rule new_Storage_run [OF assms(1)])
  obtain s2 where 2: "configure_logging os ident conf s1 = Some (Inr (), s2)"
    "ready (log_prefix conf) kDefaultLogFile ''default'' s2" "shows_same file_text console (log_env s1) (log_env s2)"
    by (rule configure_logging_run [OF assms(1) 1(2) b])
  obtain s3 where 3: "log_all os ident termColor ''default'' sts s2 = Some (Inr (), s3)"
    "shows_line file_text console kDefaultLogFile (concat (map (\<lambda>st. log_line (log_prefix conf) (snd st)) sts)) (log_env s2) (log_env s3)"
    using log_all_run [OF assms(1) b 2(2) assms(3)] by blast
  show ?thesis
    using 1(1) 2(1) 3(1) shows_same_line [OF shows_same_trans [OF 1(3) 2(3)] 3(2)]
    by (simp add: logging_session_def kDefaultLoggerId_def io_simps)
qed

theorem agent_log_lines_witness:
  "\<exists>s. logging_session memory_os \<lparr>s_currentUser = ''barn'', s_currentHost = ''host''\<rparr> False
       (example_conf\<lparr>service_name := ''web'', category := ''access''\<rparr>)
       [((''barn-agent.cpp'', 42, ''main''), (Level_Error, [Simple ''100% lost: '', Std_String ''%msg'']))]
       (initial_storage (\<lambda>_. ''old'', [])) = Some (Inr (), s) \<and>
     fst (log_env s) kDefaultLogFile = ''oldERROR [web:access] : 100% lost: %msg'' @ [NEWLINE]"
  using agent_log_lines [OF memory_os_works,
      of "example_conf\<lparr>service_name := ''web'', category := ''access''\<rparr>"
        "[((''barn-agent.cpp'', 42, ''main''), (Level_Error, [Simple ''100% lost: '', Std_String ''%msg'']))]"
        "\<lparr>s_currentUser = ''barn'', s_currentHost = ''host''\<rparr>" False "(\<lambda>_. ''old'', [])"]
  by (auto simp: loggable_def example_conf_def shows_line_def log_line_def log_prefix_def c_str_def NUL_def)

text \<open>The state that the witnesses start from: the library as \<^verbatim>\<open>main.cpp\<close> sets it up, in memory.\<close>

lemma ready_state:
  "\<exists>s :: (((string \<Rightarrow> string) \<times> string), unit) storage_scheme. ready '' [web:access] : '' kDefaultLogFile ''default'' s"
proof -
  let ?conf = "example_conf\<lparr>service_name := ''web'', category := ''access''\<rparr>"
    and ?ident = "\<lparr>s_currentUser = ''barn'', s_currentHost = ''host''\<rparr>"
  have prefix: "log_prefix ?conf = '' [web:access] : ''" by (simp add: log_prefix_def example_conf_def)
  have plain: "CHR ''%'' \<notin> set (log_prefix ?conf)" unfolding prefix by simp
  obtain s1 :: "(((string \<Rightarrow> string) \<times> string), unit) storage_scheme"
    where 1: "new_Storage memory_os ?ident (initial_storage (\<lambda>_. [], [])) = Some (Inr (), s1)"
      "set_up ?ident s1" "shows_same fst snd (\<lambda>_. [], []) (log_env s1)"
    by (rule new_Storage_run [OF memory_os_works])
  obtain s2 where "configure_logging memory_os ?ident ?conf s1 = Some (Inr (), s2)"
    "ready (log_prefix ?conf) kDefaultLogFile ''default'' s2" "shows_same fst snd (log_env s1) (log_env s2)"
    by (rule configure_logging_run [OF memory_os_works 1(2) plain])
  then show ?thesis using prefix by auto
qed

end
