(* ===== verification/Elpp_Printf.thy ===== *)
theory Elpp_Printf
  imports Elpp_Log_Setup
begin

text \<open>
  The log functions of a \<open>Logger\<close> that take a format and values, and how \<open>MessageBuilder\<close> writes
  containers, in \<^verbatim>\<open>easylogging++.h\<close> (the latter is compiled in with
  \<^verbatim>\<open>_ELPP_STL_LOGGING\<close>). A container is the list of its elements in the order of its iterator.
\<close>

section \<open>Containers\<close>

definition kMaxLogPerContainer :: nat where "kMaxLogPerContainer = 100"

definition containerLogSeparator :: "EnumType \<Rightarrow> string" where
  "containerLogSeparator flags =
     (if hasFlag (logging_flag NewLineForContainer) flags then NEWLINE # ''    '' else '', '')"

text \<open>
  The loop of \<open>writeIterator\<close> over what is left of the container, at index \<open>i\<close>; \<open>size_ - 1\<close> is
  a \<open>size_t\<close>, which an empty container would wrap, but then the loop is not entered.
\<close>

fun write_elements :: "EnumType \<Rightarrow> nat \<Rightarrow> nat \<Rightarrow> log_arg list \<Rightarrow> string \<Rightarrow> string" where
  "write_elements flags sz i [] stream = stream"
| "write_elements flags sz i (x # xs) stream =
     (if i < kMaxLogPerContainer
      then write_elements flags sz (Suc i) xs
             (append_arg flags x stream @ (if i < sz - 1 then containerLogSeparator flags else []))
      else stream @ ''...'')"

definition writeIterator :: "EnumType \<Rightarrow> log_arg list \<Rightarrow> string \<Rightarrow> string" where
  "writeIterator flags xs stream = write_elements flags (length xs) 0 xs (stream @ ''['') @ '']''"

text \<open>
  Queues and stacks are copied first, from the front or top on, by a loop that counts before it
  compares: one element less than the maximum.
\<close>

fun iterable_copy :: "nat \<Rightarrow> log_arg list \<Rightarrow> log_arg list" where
  "iterable_copy cnt [] = []"
| "iterable_copy cnt (x # xs) =
     (if Suc cnt < kMaxLogPerContainer then x # iterable_copy (Suc cnt) xs else [])"

definition write_queue :: "EnumType \<Rightarrow> log_arg list \<Rightarrow> string \<Rightarrow> string" where
  "write_queue flags q stream = writeIterator flags (iterable_copy 0 q) stream"

definition write_pair :: "EnumType \<Rightarrow> log_arg \<times> log_arg \<Rightarrow> string \<Rightarrow> string" where
  "write_pair flags p stream =
     append_arg flags (snd p) (append_arg flags (fst p) (stream @ ''('') @ '', '') @ '')''"

text \<open>What comes out: the elements with separators between them.\<close>

fun separated :: "string \<Rightarrow> string list \<Rightarrow> string" where
  "separated sep [] = []"
| "separated sep [x] = x"
| "separated sep (x # y # xs) = x @ sep @ separated sep (y # xs)"

lemma append_arg_text:
  "\<not> hasFlag (logging_flag AutoSpacing) flags \<Longrightarrow> append_arg flags x stream = stream @ arg_text x"
  by (cases x) (simp_all add: append_arg_def)

lemma separated_Cons: "xs \<noteq> [] \<Longrightarrow> separated sep (x # xs) = x @ sep @ separated sep xs"
  by (cases xs) simp_all

lemma write_elements_all:
  assumes "\<not> hasFlag (logging_flag AutoSpacing) flags"
  shows "i + length xs \<le> kMaxLogPerContainer \<Longrightarrow> sz = i + length xs \<Longrightarrow>
    write_elements flags sz i xs stream =
      stream @ separated (containerLogSeparator flags) (map arg_text xs)"
proof (induction xs arbitrary: i stream)
  case (Cons x xs)
  show ?case
  proof (cases "xs = []")
    case True
    then show ?thesis using Cons.prems by (simp add: append_arg_text [OF assms])
  next
    case False
    then have "i < sz - 1" using Cons.prems by (cases xs) simp_all
    then show ?thesis
      using Cons.IH [of "Suc i" "append_arg flags x stream @ containerLogSeparator flags"] Cons.prems False
      by (simp add: append_arg_text [OF assms] separated_Cons)
  qed
qed simp

lemma write_elements_many:
  assumes "\<not> hasFlag (logging_flag AutoSpacing) flags"
  shows "i \<le> kMaxLogPerContainer \<Longrightarrow> kMaxLogPerContainer < i + length xs \<Longrightarrow> sz = i + length xs \<Longrightarrow>
    write_elements flags sz i xs stream =
      stream @ concat (map (\<lambda>x. arg_text x @ containerLogSeparator flags)
                        (take (kMaxLogPerContainer - i) xs)) @ ''...''"
proof (induction xs arbitrary: i stream)
  case (Cons x xs)
  show ?case
  proof (cases "i < kMaxLogPerContainer")
    case True
    then have "kMaxLogPerContainer - i = Suc (kMaxLogPerContainer - Suc i)" by simp
    moreover have "i < sz - 1" using Cons.prems True by (cases xs) simp_all
    ultimately show ?thesis
      using Cons.IH [of "Suc i" "append_arg flags x stream @ containerLogSeparator flags"] Cons.prems True
      by (simp add: append_arg_text [OF assms])
  next
    case False
    then show ?thesis using Cons.prems by simp
  qed
qed simp

lemma iterable_copy_take: "cnt < kMaxLogPerContainer \<Longrightarrow> iterable_copy cnt xs = take (kMaxLogPerContainer - 1 - cnt) xs"
proof (induction xs arbitrary: cnt)
  case (Cons x xs)
  show ?case
  proof (cases "Suc cnt < kMaxLogPerContainer")
    case True
    then have "kMaxLogPerContainer - 1 - cnt = Suc (kMaxLogPerContainer - 1 - Suc cnt)" by simp
    then show ?thesis using Cons.IH [of "Suc cnt"] True by simp
  next
    case False
    then have "kMaxLogPerContainer - 1 - cnt = 0" using Cons.prems by simp
    then show ?thesis using False by simp
  qed
qed simp

text \<open>
  What a container is logged as. Up to one hundred elements are all written, with separators
  between them; of more, the first hundred, each with a separator, and three dots. A queue or
  stack is cut to its first 99, and nothing shows that it was.
\<close>

lemma containers_written:
  assumes "\<not> hasFlag (logging_flag AutoSpacing) flags"
  shows "writeIterator flags xs stream =
      (if length xs \<le> 100
       then stream @ ''['' @ separated (containerLogSeparator flags) (map arg_text xs) @ '']''
       else stream @ ''['' @
         concat (map (\<lambda>x. arg_text x @ containerLogSeparator flags) (take 100 xs)) @ ''...]'') \<and>
    write_queue flags xs stream =
      stream @ ''['' @ separated (containerLogSeparator flags) (map arg_text (take 99 xs)) @ '']''"
proof -
  have a: "writeIterator flags xs stream =
      (if length xs \<le> 100
       then stream @ ''['' @ separated (containerLogSeparator flags) (map arg_text xs) @ '']''
       else stream @ ''['' @
         concat (map (\<lambda>x. arg_text x @ containerLogSeparator flags) (take 100 xs)) @ ''...]'')"
    for xs :: "log_arg list"
    using write_elements_all [OF assms, of 0 xs "length xs" "stream @ ''[''"]
      write_elements_many [OF assms, of 0 xs "length xs" "stream @ ''[''"]
    by (simp add: writeIterator_def kMaxLogPerContainer_def)
  then show ?thesis
    using iterable_copy_take [of 0 xs] by (simp add: write_queue_def a kMaxLogPerContainer_def)
qed

lemma containers_written_witness:
  "writeIterator 0 [Simple ''1'', Simple ''2''] ''x = '' = ''x = [1, 2]''"
  using containers_written [of 0 "[Simple ''1'', Simple ''2'']" "''x = ''"]
  by (simp add: containerLogSeparator_def)


section \<open>Formats with values\<close>

text \<open>
  The loop of \<open>log_\<close> over a format, up to the place of the first value: what is written, and
  the rest of the format behind the place, or \<open>None\<close> when the format ends before.
\<close>

definition kFormatSpecifierCharValue :: char where "kFormatSpecifierCharValue = CHR ''v''"

fun scan_format :: "string \<Rightarrow> log_arg \<Rightarrow> log_arg list \<times> string option" where
  "scan_format [] v = ([], None)"
| "scan_format [c] v = ([Simple [c]], None)"
| "scan_format (c # d # s) v =
     (if c = kFormatSpecifierChar \<and> d = kFormatSpecifierChar
      then (case scan_format s v of (out, rest) \<Rightarrow> (Simple [d] # out, rest))
      else if c = kFormatSpecifierChar \<and> d = kFormatSpecifierCharValue
      then ([v], Some s)
      else (case scan_format (d # s) v of (out, rest) \<Rightarrow> (Simple [c] # out, rest)))"

text \<open>A writer on a logger that is there: \<open>construct(this, false)\<close>.\<close>

definition write_on ::
  "'e log_os \<Rightarrow> identity \<Rightarrow> bool \<Rightarrow> string \<Rightarrow> Writer \<Rightarrow> log_arg \<Rightarrow> (unit, ('e, 'z) storage_scheme) io" where
  "write_on os ident termColor lid w0 arg =
     bindE (initializeLogger os ident termColor lid False (w0\<lparr>w_logger := Some lid\<rparr>)) (\<lambda>w.
     thenE (write_args w [arg]) (processDispatch os ident termColor w))"

text \<open>\<open>log_\<close> with one value. The file that verbose levels are looked up for is the header itself.\<close>

definition log_value ::
  "'e log_os \<Rightarrow> identity \<Rightarrow> bool \<Rightarrow> string \<Rightarrow> string \<Rightarrow> Level \<Rightarrow> int \<Rightarrow> log_arg \<Rightarrow>
   (unit, ('e, 'z) storage_scheme) io" where
  "log_value os ident termColor this_file lid level vlevel arg =
     (if level = Level_Verbose
      then bindE (getE (\<lambda>s. allowed (st_flags s) vlevel (Some this_file) (st_vRegistry s))) (\<lambda>ok.
             if ok
             then write_on os ident termColor lid
                    (new_Writer Level_Verbose ''FILE'' 0 ''FUNCTION'' DA_NormalLog vlevel) arg
             else set_stream lid (\<lambda>_. []))
      else write_on os ident termColor lid
             (new_Writer level ''FILE'' 0 ''FUNCTION'' DA_NormalLog 0) arg)"

definition put_args :: "string \<Rightarrow> log_arg list \<Rightarrow> (unit, ('e, 'z) storage_scheme) io" where
  "put_args lid args =
     bindE (getE st_flags) (\<lambda>flags. set_stream lid (fold (append_arg flags) args))"

fun log_with_format ::
  "'e log_os \<Rightarrow> identity \<Rightarrow> bool \<Rightarrow> string \<Rightarrow> string \<Rightarrow> Level \<Rightarrow> int \<Rightarrow> string \<Rightarrow> log_arg list \<Rightarrow>
   (unit, ('e, 'z) storage_scheme) io" where
  "log_with_format os ident termColor this_file lid level vlevel s [] =
     log_value os ident termColor this_file lid level vlevel (Simple s)"
| "log_with_format os ident termColor this_file lid level vlevel s (v # vs) =
     (case scan_format s v of (out, rest) \<Rightarrow>
        thenE (put_args lid out)
          (case rest of
             None \<Rightarrow> ret ()
           | Some s' \<Rightarrow> log_with_format os ident termColor this_file lid level vlevel s' vs))"

section \<open>What a format with values logs\<close>

text \<open>
  The specification: each value in the place of a \<open>%v\<close>, doubled percent signs made one as long
  as values remain, and what is behind the place of the last value as it is. Without places
  enough there is no text; \<open>expand_front\<close> is what comes before the format ends.
\<close>

fun expand :: "string \<Rightarrow> log_arg list \<Rightarrow> string option" where
  "expand s [] = Some s"
| "expand [] (v # vs) = None"
| "expand [c] (v # vs) = None"
| "expand (c # d # s) (v # vs) =
     (if c = CHR ''%'' \<and> d = CHR ''%'' then map_option ((#) CHR ''%'') (expand s (v # vs))
      else if c = CHR ''%'' \<and> d = CHR ''v'' then map_option ((@) (arg_text v)) (expand s vs)
      else map_option ((#) c) (expand (d # s) (v # vs)))"

fun expand_front :: "string \<Rightarrow> log_arg list \<Rightarrow> string" where
  "expand_front s [] = []"
| "expand_front [] (v # vs) = []"
| "expand_front [c] (v # vs) = [c]"
| "expand_front (c # d # s) (v # vs) =
     (if c = CHR ''%'' \<and> d = CHR ''%'' then CHR ''%'' # expand_front s (v # vs)
      else if c = CHR ''%'' \<and> d = CHR ''v'' then arg_text v @ expand_front s vs
      else c # expand_front (d # s) (v # vs))"

lemma map_option_Cons_append:
  "map_option ((#) c) (map_option ((@) ys) z) = map_option ((@) (c # ys)) z"
  "map_option (\<lambda>x. c # ys @ x) z = map_option ((@) (c # ys)) z"
  by (cases z; simp)+

lemma scan_format_expand:
  "scan_format s v = (out, rest) \<Longrightarrow>
   expand s (v # vs) = (case rest of None \<Rightarrow> None
     | Some s' \<Rightarrow> map_option ((@) (concat (map arg_text out))) (expand s' vs)) \<and>
   expand_front s (v # vs) = concat (map arg_text out) @
     (case rest of None \<Rightarrow> [] | Some s' \<Rightarrow> expand_front s' vs)"
proof (induction s v arbitrary: out rest rule: scan_format.induct)
  case (3 c d s v)
  then show ?case
    by (auto simp: kFormatSpecifierChar_def kFormatSpecifierCharValue_def map_option_Cons_append
        split: prod.splits if_splits option.splits)
qed auto

lemma put_args_run:
  assumes held: "holding pending b f lid s"
  obtains lg where "put_args lid args s = Some (Inr (), store lid lg s)"
    "holding (pending @ concat (map arg_text args)) b f lid (store lid lg s)"
proof -
  let ?w = "(new_Writer Level_Info [] 0 [] DA_NormalLog 0)\<lparr>w_logger := Some lid, w_proceed := True\<rparr>"
  have same: "write_args ?w args s = put_args lid args s"
    by (simp add: write_args_def put_args_def)
  show ?thesis
    by (rule write_args_run [OF held, of ?w args]) (use same that in simp_all)
qed

lemma log_value_run:
  assumes dev: "device_works os file_text console" and held: "holding pending b f lid s"
    and b: "CHR ''%'' \<notin> set b" and l: "loggable l" "l \<noteq> Level_Verbose"
  obtains e lg where "log_value os ident termColor this_file lid l vlevel arg s =
      Some (Inr (), store lid lg (s\<lparr>log_env := e\<rparr>))"
    "ready b f lid (store lid lg (s\<lparr>log_env := e\<rparr>))"
    "shows_line file_text console f (level_value l @ b @ pending @ arg_text arg @ [NEWLINE]) (log_env s) e"
proof -
  let ?start = "new_Writer l ''FILE'' 0 ''FUNCTION'' DA_NormalLog 0"
  let ?w = "?start\<lparr>w_logger := Some lid, w_proceed := True\<rparr>"
  have w: "loggable (w_level ?w)" "w_logger ?w = Some lid" "w_proceed ?w" "w_dispatchAction ?w = DA_NormalLog"
    "w_level ?w = l"
    using l by (simp_all add: new_Writer_def)
  have made: "initializeLogger os ident termColor lid False (?start\<lparr>w_logger := Some lid\<rparr>) s = Some (Inr ?w, s)"
    using holding_enabled [OF held loggable_dispatched [OF l(1)]] held
    by (auto simp: initializeLogger_def loggers_get_def new_Writer_def holding_def io_simps)
  obtain e lg where "thenE (write_args ?w [arg]) (processDispatch os ident termColor ?w) s =
      Some (Inr (), store lid lg (s\<lparr>log_env := e\<rparr>))"
    "ready b f lid (store lid lg (s\<lparr>log_env := e\<rparr>))"
    "shows_line file_text console f
       (level_value (w_level ?w) @ b @ pending @ concat (map arg_text [arg]) @ [NEWLINE]) (log_env s) e"
    by (rule statement_run [OF dev held b w(1-4)])
  then show ?thesis
    using that made w(5) l(2) by (simp add: log_value_def write_on_def bindE_value)
qed

text \<open>
  The whole of \<open>log_\<close>. With places for all values one line is written and the logger is ready
  again; without, nothing is written and what was scanned stays in the stream.
\<close>

lemma log_with_format_run:
  assumes dev: "device_works os file_text console" and held: "holding pending b f lid s"
    and b: "CHR ''%'' \<notin> set b" and l: "loggable l" "l \<noteq> Level_Verbose"
  shows "case expand fmt vs of
      Some t \<Rightarrow> \<exists>e lg. log_with_format os ident termColor this_file lid l vlevel fmt vs s =
          Some (Inr (), store lid lg (s\<lparr>log_env := e\<rparr>)) \<and>
        ready b f lid (store lid lg (s\<lparr>log_env := e\<rparr>)) \<and>
        shows_line file_text console f (level_value l @ b @ pending @ t @ [NEWLINE]) (log_env s) e
    | None \<Rightarrow> \<exists>lg. log_with_format os ident termColor this_file lid l vlevel fmt vs s =
          Some (Inr (), store lid lg s) \<and>
        holding (pending @ expand_front fmt vs) b f lid (store lid lg s)"
  using held
proof (induction vs arbitrary: fmt pending s)
  case Nil
  obtain e lg where "log_value os ident termColor this_file lid l vlevel (Simple fmt) s =
      Some (Inr (), store lid lg (s\<lparr>log_env := e\<rparr>))"
    "ready b f lid (store lid lg (s\<lparr>log_env := e\<rparr>))"
    "shows_line file_text console f (level_value l @ b @ pending @ arg_text (Simple fmt) @ [NEWLINE]) (log_env s) e"
    by (rule log_value_run [OF dev Nil b l])
  then show ?case by auto
next
  case (Cons v vs)
  obtain out rest where scan: "scan_format fmt v = (out, rest)" by (cases "scan_format fmt v")
  obtain lg1 where put: "put_args lid out s = Some (Inr (), store lid lg1 s)"
    "holding (pending @ concat (map arg_text out)) b f lid (store lid lg1 s)"
    by (rule put_args_run [OF Cons.prems])
  show ?case
  proof (cases rest)
    case None
    then show ?thesis
      using scan_format_expand [OF scan, of vs] scan put by (auto simp: io_simps)
  next
    case (Some fmt')
    have run: "log_with_format os ident termColor this_file lid l vlevel fmt (v # vs) s =
        log_with_format os ident termColor this_file lid l vlevel fmt' vs (store lid lg1 s)"
      using scan Some put(1) by (simp add: io_simps)
    show ?thesis
      using Cons.IH [OF put(2), of fmt'] scan_format_expand [OF scan, of vs] Some run
      by (cases "expand fmt' vs") auto
  qed
qed


text \<open>
  A format with as many values as places is logged as one line in which each value stands at
  its place, and the logger is as ready as before.
\<close>

lemma format_logged:
  assumes "device_works os file_text console" and "ready b f lid s" and "CHR ''%'' \<notin> set b"
    and "loggable l" "l \<noteq> Level_Verbose" and "expand fmt vals = Some t"
  shows "\<exists>s'. log_with_format os ident termColor this_file lid l vlevel fmt vals s = Some (Inr (), s') \<and>
    ready b f lid s' \<and>
    shows_line file_text console f (level_value l @ b @ t @ [NEWLINE]) (log_env s) (log_env s')"
  using log_with_format_run [OF assms(1) assms(2) [unfolded ready_holding] assms(3-5),
      where fmt = fmt and vs = vals and ident = ident and termColor = termColor
        and this_file = this_file and vlevel = vlevel]
    assms(6) by auto

lemma format_logged_witness:
  "\<exists>s s' :: (((string \<Rightarrow> string) \<times> string), unit) storage_scheme.
     log_with_format memory_os \<lparr>s_currentUser = ''barn'', s_currentHost = ''host''\<rparr> False ''easylogging++.h''
       ''default'' Level_Info 0 ''%v%% of %v%%'' [Simple ''5'', Simple ''9''] s = Some (Inr (), s') \<and>
     snd (log_env s') = snd (log_env s) @ ''INFO  [web:access] : 5% of 9%%'' @ [NEWLINE]"
proof -
  let ?ident = "\<lparr>s_currentUser = ''barn'', s_currentHost = ''host''\<rparr>"
  obtain s :: "(((string \<Rightarrow> string) \<times> string), unit) storage_scheme"
    where s: "ready '' [web:access] : '' kDefaultLogFile ''default'' s"
    using ready_state by blast
  have plain: "CHR ''%'' \<notin> set '' [web:access] : ''" by simp
  have level: "loggable Level_Info" "Level_Info \<noteq> Level_Verbose" by (simp_all add: loggable_def)
  have places: "expand ''%v%% of %v%%'' [Simple ''5'', Simple ''9''] = Some ''5% of 9%%''" by simp
  obtain s' where s': "log_with_format memory_os ?ident False ''easylogging++.h'' ''default'' Level_Info 0
      ''%v%% of %v%%'' [Simple ''5'', Simple ''9''] s = Some (Inr (), s')"
    "shows_line fst snd kDefaultLogFile (level_value Level_Info @ '' [web:access] : '' @ ''5% of 9%%'' @ [NEWLINE])
      (log_env s) (log_env s')"
    using format_logged [OF memory_os_works s plain level places] by blast
  have "snd (log_env s') = snd (log_env s) @ ''INFO  [web:access] : 5% of 9%%'' @ [NEWLINE]"
    using s'(2) by (simp add: shows_line_def)
  then show ?thesis by (intro exI conjI) (rule s'(1))
qed

text \<open>
  C40: values without a place lose the message and spoil the next one. With more values than places
  the call returns and writes nothing, and the text up to the end of the format stays in the
  logger's stream: the line of the next statement begins with it, and only after that statement
  is the logger ready again.
\<close>

theorem surplus_value_prefixes_next:
  assumes "device_works os file_text console" and "ready b f lid s" and "CHR ''%'' \<notin> set b"
    and "loggable l" "l \<noteq> Level_Verbose" and "expand fmt vals = None" and "loggable (fst st)"
  shows "\<exists>s1 s2. log_with_format os ident termColor this_file lid l vlevel fmt vals s = Some (Inr (), s1) \<and>
    log_env s1 = log_env s \<and>
    LOG os ident termColor lid place st s1 = Some (Inr (), s2) \<and> ready b f lid s2 \<and>
    shows_line file_text console f (log_line (b @ expand_front fmt vals) st) (log_env s) (log_env s2)"
proof -
  obtain lg where 1: "log_with_format os ident termColor this_file lid l vlevel fmt vals s = Some (Inr (), store lid lg s)"
    "holding (expand_front fmt vals) b f lid (store lid lg s)"
    using log_with_format_run [OF assms(1) assms(2) [unfolded ready_holding] assms(3-5),
      where fmt = fmt and vs = vals and ident = ident and termColor = termColor
        and this_file = this_file and vlevel = vlevel] assms(6) by auto
  obtain e lg2 where 2: "LOG os ident termColor lid place st (store lid lg s) =
      Some (Inr (), store lid lg2 ((store lid lg s)\<lparr>log_env := e\<rparr>))"
    "ready b f lid (store lid lg2 ((store lid lg s)\<lparr>log_env := e\<rparr>))"
    "shows_line file_text console f (log_line (b @ expand_front fmt vals) st) (log_env (store lid lg s)) e"
    by (rule LOG_run_holding [OF assms(1) 1(2) assms(3,7)])
  then show ?thesis using 1(1) by auto
qed

theorem surplus_value_prefixes_next_witness:
  "\<exists>s s1 s2 :: (((string \<Rightarrow> string) \<times> string), unit) storage_scheme.
     log_with_format memory_os \<lparr>s_currentUser = ''barn'', s_currentHost = ''host''\<rparr> False ''easylogging++.h''
       ''default'' Level_Info 0 ''lost %v'' [Simple ''5'', Simple ''9''] s = Some (Inr (), s1) \<and>
     snd (log_env s1) = snd (log_env s) \<and>
     LOG memory_os \<lparr>s_currentUser = ''barn'', s_currentHost = ''host''\<rparr> False ''default''
       (''barn-agent.cpp'', 42, ''main'') (Level_Info, [Simple ''idle'']) s1 = Some (Inr (), s2) \<and>
     snd (log_env s2) = snd (log_env s) @ ''INFO  [web:access] : lost 5idle'' @ [NEWLINE]"
proof -
  let ?ident = "\<lparr>s_currentUser = ''barn'', s_currentHost = ''host''\<rparr>"
  obtain s :: "(((string \<Rightarrow> string) \<times> string), unit) storage_scheme"
    where s: "ready '' [web:access] : '' kDefaultLogFile ''default'' s"
    using ready_state by blast
  have plain: "CHR ''%'' \<notin> set '' [web:access] : ''" by simp
  have level: "loggable Level_Info" "Level_Info \<noteq> Level_Verbose" "loggable (fst (Level_Info, [Simple ''idle'']))"
    by (simp_all add: loggable_def)
  have places: "expand ''lost %v'' [Simple ''5'', Simple ''9''] = None" by simp
  obtain s1 s2 where s': "log_with_format memory_os ?ident False ''easylogging++.h'' ''default'' Level_Info 0
      ''lost %v'' [Simple ''5'', Simple ''9''] s = Some (Inr (), s1)"
    "log_env s1 = log_env s"
    "LOG memory_os ?ident False ''default'' (''barn-agent.cpp'', 42, ''main'') (Level_Info, [Simple ''idle'']) s1 =
      Some (Inr (), s2)"
    "shows_line fst snd kDefaultLogFile
      (log_line ('' [web:access] : '' @ expand_front ''lost %v'' [Simple ''5'', Simple ''9''])
        (Level_Info, [Simple ''idle''])) (log_env s) (log_env s2)"
    using surplus_value_prefixes_next [OF memory_os_works s plain level(1,2) places level(3)] by blast
  have "snd (log_env s2) = snd (log_env s) @ ''INFO  [web:access] : lost 5idle'' @ [NEWLINE]"
    using s'(4) by (simp add: shows_line_def log_line_def)
  then show ?thesis using s'(2) by (intro exI conjI) (rule s'(1), simp, rule s'(3))
qed

end
