(* ===== verification/Elpp_Crash.thy ===== *)
theory Elpp_Crash
  imports Elpp_Log_Setup
begin

text \<open>
  Crash handling in \<^verbatim>\<open>easylogging++.h\<close>: the handler for signals of a crash that the library installs by
  default, or when a program asks for it, and what it logs before it ends the program. The agent
  turns the default off (\<^verbatim>\<open>params.h\<close>) and asks for none. The library is built without stack traces.
  Numbers of signals are those of Linux.
\<close>

section \<open>Reasons\<close>

record crash_signal =
  numb :: int
  cs_name :: string
  brief :: string
  detail :: string

definition kCrashSignals :: "crash_signal list" where
  "kCrashSignals =
     [\<lparr>numb = 6, cs_name = ''SIGABRT'', brief = ''Abnormal termination'',
       detail = ''Program was abnormally terminated.''\<rparr>,
      \<lparr>numb = 8, cs_name = ''SIGFPE'', brief = ''Erroneous arithmetic operation'',
       detail = ''Arithemetic operation issue such as division by zero or operation resulting in overflow.''\<rparr>,
      \<lparr>numb = 4, cs_name = ''SIGILL'', brief = ''Illegal instruction'',
       detail = ''Generally due to a corruption in the code or to an attempt to execute data.''\<rparr>,
      \<lparr>numb = 11, cs_name = ''SIGSEGV'', brief = ''Invalid access to memory'',
       detail = ''Program is trying to read an invalid (unallocated, deleted or corrupted) or inaccessible memory.''\<rparr>,
      \<lparr>numb = 2, cs_name = ''SIGINT'', brief = ''Interactive attention signal'',
       detail = ''Interruption generated (generally) by user or operating system.''\<rparr>]"

definition kCrashSignalsCount :: nat where
  "kCrashSignalsCount = length kCrashSignals"

text \<open>The loop of \<open>crashReason\<close>: what was written, and whether a reason was found.\<close>

fun crash_reasons :: "EnumType \<Rightarrow> int \<Rightarrow> crash_signal list \<Rightarrow> string \<times> bool \<Rightarrow> string \<times> bool" where
  "crash_reasons flags sig [] found = found"
| "crash_reasons flags sig (c # cs) (ss, foundReason) =
     (if numb c = sig
      then crash_reasons flags sig cs
             (ss @ ''Application has crashed due to ['' @ cs_name c @ ''] signal''
                @ (if hasFlag (logging_flag LogDetailedCrashReason) flags
                   then [NEWLINE] @ ''    '' @ brief c @ [NEWLINE] @ ''    '' @ detail c else []), True)
      else crash_reasons flags sig cs (ss, foundReason))"

definition crashReason :: "EnumType \<Rightarrow> int \<Rightarrow> string" where
  "crashReason flags sig =
     (case crash_reasons flags sig kCrashSignals ([], False) of
        (ss, foundReason) \<Rightarrow>
          if \<not> foundReason then ss @ ''Application has crashed due to unknown signal ['' @ show_int sig @ '']''
          else ss)"

section \<open>Logging and ending\<close>

definition logCrashReason ::
  "'e log_os \<Rightarrow> identity \<Rightarrow> bool \<Rightarrow> string \<times> nat \<times> string \<Rightarrow> int \<Rightarrow> Level \<Rightarrow> string \<Rightarrow>
     (unit, ('e, 'z) storage_scheme) io" where
  "logCrashReason os ident termColor place sig level logger =
     bindE (getE st_flags) (\<lambda>flags.
     LOG os ident termColor logger place (level, [Std_String (''CRASH HANDLED; '' @ crashReason flags sig)]))"

definition elpp_abort :: "string \<Rightarrow> (unit, 'w) io" where
  "elpp_abort reason = throw (Abort reason)"

definition crashAbort :: "int \<Rightarrow> (unit, 'w) io" where
  "crashAbort sig = elpp_abort []"

definition defaultCrashHandler ::
  "'e log_os \<Rightarrow> identity \<Rightarrow> bool \<Rightarrow> string \<times> nat \<times> string \<Rightarrow> int \<Rightarrow> (unit, ('e, 'z) storage_scheme) io" where
  "defaultCrashHandler os ident termColor place sig =
     thenE (logCrashReason os ident termColor place sig Level_Fatal kDefaultLoggerId) (crashAbort sig)"

text \<open>\<open>Helpers::crashAbort\<close>: a null file is \<open>None\<close>.\<close>

definition Helpers_crashAbort ::
  "int \<Rightarrow> string option \<Rightarrow> nat \<Rightarrow> (unit, ('e, 'z) storage_scheme) io" where
  "Helpers_crashAbort sig sourceFile line =
     bindE (getE st_flags) (\<lambda>flags.
     elpp_abort (c_str (crashReason flags sig) @ '' - [Called el::Helpers::crashAbort('' @ show_int sig @ '')]''
       @ (case sourceFile of
            None \<Rightarrow> []
          | Some f \<Rightarrow>
              if length f > 0
              then '' - Source: '' @ f @ (if line > 0 then '':'' @ show_nat line else '' (line number not specified)'')
              else [])))"

section \<open>Installing the handler\<close>

text \<open>
  The dispositions of signals, over any type of handlers; \<open>signal\<close> returns the old one. The library's
  object keeps one handler, \<open>m_handler\<close>. \<open>handle_SIGABRT\<close> is the macro of that name.
\<close>

record 'h crash_handler =
  m_handler :: 'h
  disposition :: "int \<Rightarrow> 'h"

definition signal :: "int \<Rightarrow> 'h \<Rightarrow> 'h crash_handler \<Rightarrow> 'h crash_handler" where
  "signal sig h s =
     s\<lparr>m_handler := disposition s sig, disposition := (disposition s)(sig := h)\<rparr>"

definition setHandler :: "bool \<Rightarrow> 'h \<Rightarrow> 'h crash_handler \<Rightarrow> 'h crash_handler" where
  "setHandler handle_SIGABRT cHandler s0 =
     (let s = s0\<lparr>m_handler := cHandler\<rparr>;
          i = (if handle_SIGABRT then 0 else 1)
      in fold (\<lambda>c. signal (numb c) cHandler) (drop i kCrashSignals) s)"

definition new_CrashHandler :: "bool \<Rightarrow> bool \<Rightarrow> 'h \<Rightarrow> 'h crash_handler \<Rightarrow> 'h crash_handler" where
  "new_CrashHandler handle_SIGABRT useDefault default_handler s =
     (if useDefault then setHandler handle_SIGABRT default_handler s else s)"

text \<open>
  The object that a program which includes the library gets (\<open>_ELPP_INIT_EASYLOGGINGPP\<close>), by
  whether the macro that disables the default is defined; the agent defines it.
\<close>

definition USE_DEF_CRASH_HANDLER :: "bool \<Rightarrow> bool" where
  "USE_DEF_CRASH_HANDLER disabled = (if disabled then False else True)"

definition DISABLE_DEFAULT_CRASH_HANDLING :: bool where
  "DISABLE_DEFAULT_CRASH_HANDLING = True"

definition elCrashHandler :: "bool \<Rightarrow> bool \<Rightarrow> 'h \<Rightarrow> 'h crash_handler \<Rightarrow> 'h crash_handler" where
  "elCrashHandler disabled handle_SIGABRT default_handler s =
     new_CrashHandler handle_SIGABRT (USE_DEF_CRASH_HANDLER disabled) default_handler s"

text \<open>\<open>Helpers::setCrashHandler\<close>.\<close>

definition setCrashHandler :: "bool \<Rightarrow> 'h \<Rightarrow> 'h crash_handler \<Rightarrow> 'h crash_handler" where
  "setCrashHandler handle_SIGABRT crashHandler s = setHandler handle_SIGABRT crashHandler s"

text \<open>
  Where a handler is set, by default or on request, the four signals but SIGABRT get it, and no
  other signal is touched: not SIGTERM, and not SIGABRT, so that the abort at the end of the
  default handler does end the program. What the object keeps in the end is the old handler of
  the last signal, and not the one that was set.
\<close>

lemma set_handler_signals:
  "disposition (setHandler False h s) = (\<lambda>sig. if sig \<in> {8, 4, 11, 2} then h else disposition s sig)"
  "m_handler (setHandler False h s) = disposition s 2"
  by (auto simp: setHandler_def signal_def kCrashSignals_def fun_eq_iff)

lemma handled_signals:
  "disposition (new_CrashHandler False True h s) =
     (\<lambda>sig. if sig \<in> {8, 4, 11, 2} then h else disposition s sig)"
  "m_handler (new_CrashHandler False True h s) = disposition s 2"
  by (simp_all add: new_CrashHandler_def set_handler_signals)


section \<open>What a crash leaves in the log\<close>

lemma log_default_run:
  assumes dev: "device_works os file_text console" and rdy: "ready b f kDefaultLoggerId s"
    and b: "CHR ''%'' \<notin> set b" and l: "dispatched level"
  obtains e lg where "log_default os termColor level wr args s =
      Some (Inr (), store kDefaultLoggerId lg (s\<lparr>log_env := e\<rparr>))"
    "ready b f kDefaultLoggerId (store kDefaultLoggerId lg (s\<lparr>log_env := e\<rparr>))"
    "shows_line file_text console f (log_line b (level, args)) (log_env s) e"
proof -
  let ?w = "(new_Writer level (w_file wr) (w_line wr) (w_func wr) DA_NormalLog 0)
    \<lparr>w_logger := Some kDefaultLoggerId, w_proceed := True\<rparr>"
  have w: "w_logger ?w = Some kDefaultLoggerId" "w_proceed ?w" "w_dispatchAction ?w = DA_NormalLog"
    "w_level ?w = level"
    by (simp_all add: new_Writer_def)
  have held: "holding [] b f kDefaultLoggerId s" using rdy by (simp add: ready_holding)
  obtain lg1 where args: "write_args ?w args s = Some (Inr (), store kDefaultLoggerId lg1 s)"
    "holding ([] @ concat (map arg_text args)) b f kDefaultLoggerId (store kDefaultLoggerId lg1 s)"
    by (rule write_args_run [OF held w(1,2)])
  have l': "dispatched (w_level ?w)" using l by (simp add: w(4))
  obtain e lg where sent: "\<And>m :: (Writer, _) io.
      thenE (dispatch_message os termColor ?w kDefaultLoggerId) (thenE (clear_stream ?w) m) (store kDefaultLoggerId lg1 s) =
      m (store kDefaultLoggerId lg ((store kDefaultLoggerId lg1 s)\<lparr>log_env := e\<rparr>))"
    "ready b f kDefaultLoggerId (store kDefaultLoggerId lg ((store kDefaultLoggerId lg1 s)\<lparr>log_env := e\<rparr>))"
    "shows_line file_text console f (level_value (w_level ?w) @ b @ ([] @ concat (map arg_text args)) @ [NEWLINE])
      (log_env (store kDefaultLoggerId lg1 s)) e"
    by (rule sent_and_cleared [OF dev args(2) b l' w(1-3), where termColor = termColor]) blast
  have clear: "clear_stream ?w = set_stream kDefaultLoggerId (\<lambda>_. [])"
    by (simp add: clear_stream_def)
  have "thenE (dispatch_message os termColor ?w kDefaultLoggerId) (set_stream kDefaultLoggerId (\<lambda>_. []))
      (store kDefaultLoggerId lg1 s) = Some (Inr (), store kDefaultLoggerId lg (s\<lparr>log_env := e\<rparr>))"
    using sent(1) [of "ret undefined"] unfolding clear
    by (auto simp: thenE_def bindE_def ret_def split: option.splits sum.splits)
  then have "log_default os termColor level wr args s =
      Some (Inr (), store kDefaultLoggerId lg (s\<lparr>log_env := e\<rparr>))"
    using holding_enabled(1) [OF held l] args(1) by (simp add: log_default_def Let_def io_simps)
  then show ?thesis using that [of lg e] sent(2,3) w(4) by (simp add: log_line_def)
qed

lemma fatal_run:
  assumes dev: "device_works os file_text console" and rdy: "ready b f kDefaultLoggerId s"
    and b: "CHR ''%'' \<notin> set b"
  obtains s' where "LOG os ident termColor kDefaultLoggerId place (Level_Fatal, args) s = Some (Inl (Abort ''Fatal log''), s')"
    "ready b f kDefaultLoggerId s'"
    "shows_line file_text console f
      (log_line b (Level_Fatal, args) @
       log_line b (Level_Warning, [Simple ''Aborting application. Reason: Fatal log at ['', Simple (fst place),
         Simple '':'', Simple (show_nat (fst (snd place))), Simple '']''])) (log_env s) (log_env s')"
proof -
  let ?start = "new_Writer Level_Fatal (fst place) (fst (snd place)) (snd (snd place)) DA_NormalLog 0"
  let ?w = "?start\<lparr>w_logger := Some kDefaultLoggerId, w_proceed := True\<rparr>"
  let ?aborting = "[Simple ''Aborting application. Reason: Fatal log at ['', Simple (fst place),
    Simple '':'', Simple (show_nat (fst (snd place))), Simple '']'']"
  have l: "dispatched Level_Fatal" "dispatched Level_Warning" by (simp_all add: dispatched_def)
  have w: "w_logger ?w = Some kDefaultLoggerId" "w_proceed ?w" "w_dispatchAction ?w = DA_NormalLog"
    "w_level ?w = Level_Fatal" "w_file ?w = fst place" "w_line ?w = fst (snd place)" "w_level ?start = Level_Fatal"
    by (simp_all add: new_Writer_def)
  have held: "holding [] b f kDefaultLoggerId s" using rdy by (simp add: ready_holding)
  have flags: "default_flags (st_flags s)" using rdy by (simp add: ready_def)
  have made: "construct os ident termColor [kDefaultLoggerId] ?start s = Some (Inr ?w, s)"
    using holding_enabled [OF held l(1)] flags w(7)
    by (auto simp: construct_def initializeLogger_def loggers_get_def io_simps)
  obtain lg1 where args: "write_args ?w args s = Some (Inr (), store kDefaultLoggerId lg1 s)"
    "holding ([] @ concat (map arg_text args)) b f kDefaultLoggerId (store kDefaultLoggerId lg1 s)"
    by (rule write_args_run [OF held w(1,2)])
  have l': "dispatched (w_level ?w)" using l(1) by (simp add: w(4))
  obtain e lg where sent: "\<And>m :: (Writer, _) io.
      thenE (dispatch_message os termColor ?w kDefaultLoggerId) (thenE (clear_stream ?w) m) (store kDefaultLoggerId lg1 s) =
      m (store kDefaultLoggerId lg ((store kDefaultLoggerId lg1 s)\<lparr>log_env := e\<rparr>))"
    "ready b f kDefaultLoggerId (store kDefaultLoggerId lg ((store kDefaultLoggerId lg1 s)\<lparr>log_env := e\<rparr>))"
    "shows_line file_text console f (level_value (w_level ?w) @ b @ ([] @ concat (map arg_text args)) @ [NEWLINE])
      (log_env (store kDefaultLoggerId lg1 s)) e"
    by (rule sent_and_cleared [OF dev args(2) b l' w(1-3), where termColor = termColor]) blast
  let ?s2 = "store kDefaultLoggerId lg ((store kDefaultLoggerId lg1 s)\<lparr>log_env := e\<rparr>)"
  obtain e2 lg2 where warned: "log_default os termColor Level_Warning ?w ?aborting ?s2 =
      Some (Inr (), store kDefaultLoggerId lg2 (?s2\<lparr>log_env := e2\<rparr>))"
    "ready b f kDefaultLoggerId (store kDefaultLoggerId lg2 (?s2\<lparr>log_env := e2\<rparr>))"
    "shows_line file_text console f (log_line b (Level_Warning, ?aborting)) (log_env ?s2) e2"
    by (rule log_default_run [OF dev sent(2) b l(2), where wr = ?w and args = ?aborting])
  have "triggerDispatch os termColor ?w (store kDefaultLoggerId lg1 s) =
      Some (Inl (Abort ''Fatal log''), store kDefaultLoggerId lg2 (?s2\<lparr>log_env := e2\<rparr>))"
    using w flags warned(1) by (simp add: triggerDispatch_def sent(1)) (simp add: io_simps)
  then have "LOG os ident termColor kDefaultLoggerId place (Level_Fatal, args) s =
      Some (Inl (Abort ''Fatal log''), store kDefaultLoggerId lg2 (?s2\<lparr>log_env := e2\<rparr>))"
    using made args(1) w(2) flags by (simp add: LOG_def log_statement_def processDispatch_def io_simps)
  moreover have "shows_line file_text console f
      (log_line b (Level_Fatal, args) @ log_line b (Level_Warning, ?aborting)) (log_env s) e2"
    using sent(3) warned(3) w(4) by (simp add: shows_line_def log_line_def)
  ultimately show ?thesis using that warned(2) by simp
qed


lemma log_no_detail: "default_flags flags \<Longrightarrow> \<not> hasFlag (logging_flag LogDetailedCrashReason) flags"
  by simp

lemma crash_reason_default:
  assumes "default_flags flags"
  shows "crashReason flags sig =
    (if sig = 6 then ''Application has crashed due to [SIGABRT] signal''
     else if sig = 8 then ''Application has crashed due to [SIGFPE] signal''
     else if sig = 4 then ''Application has crashed due to [SIGILL] signal''
     else if sig = 11 then ''Application has crashed due to [SIGSEGV] signal''
     else if sig = 2 then ''Application has crashed due to [SIGINT] signal''
     else ''Application has crashed due to unknown signal ['' @ show_int sig @ '']'')"
  using log_no_detail [OF assms] by (simp add: crashReason_def kCrashSignals_def)

text \<open>
  C23: who handles a crash, and what is in the log then. The agent disables the default of the
  library, so that the object the library makes leaves every disposition as it was: an interrupt
  from the terminal or a bad memory access ends the agent without a line in its log. A program
  that does not disable it, or that sets the default handler itself, has four signals handled, but
  SIGTERM and SIGABRT keep their dispositions; the handler appends two lines to the log file and
  the output, the signal at level fatal and the place of the statement as a warning, and aborts.
\<close>

theorem crash_logged:
  assumes "device_works os file_text console" and "ready b f kDefaultLoggerId s" and "CHR ''%'' \<notin> set b"
    and "sig \<in> {8, 4, 11, 2}"
    and "handler = defaultCrashHandler os ident termColor place"
  shows "elCrashHandler DISABLE_DEFAULT_CRASH_HANDLING False handler d = d \<and>
    disposition (elCrashHandler False False handler d) = disposition (setCrashHandler False handler d) \<and>
    disposition (setCrashHandler False handler d) sig = handler \<and>
    disposition (setCrashHandler False handler d) 6 = disposition d 6 \<and>
    disposition (setCrashHandler False handler d) 15 = disposition d 15 \<and>
    (\<exists>s'. handler sig s = Some (Inl (Abort ''Fatal log''), s') \<and>
      ready b f kDefaultLoggerId s' \<and>
      shows_line file_text console f
        (''FATAL'' @ b @ ''CRASH HANDLED; Application has crashed due to ['' @
          (if sig = 8 then ''SIGFPE'' else if sig = 4 then ''SIGILL'' else if sig = 11 then ''SIGSEGV'' else ''SIGINT'')
          @ ''] signal'' @ [NEWLINE] @
         ''WARN '' @ b @ ''Aborting application. Reason: Fatal log at ['' @ fst place @ '':'' @
          show_nat (fst (snd place)) @ '']'' @ [NEWLINE]) (log_env s) (log_env s'))"
proof -
  have flags: "default_flags (st_flags s)" using assms(2) by (simp add: ready_def)
  let ?reason = "''CRASH HANDLED; '' @ crashReason (st_flags s) sig"
  obtain s' where s': "LOG os ident termColor kDefaultLoggerId place (Level_Fatal, [Std_String ?reason]) s =
      Some (Inl (Abort ''Fatal log''), s')"
    "ready b f kDefaultLoggerId s'"
    "shows_line file_text console f
      (log_line b (Level_Fatal, [Std_String ?reason]) @
       log_line b (Level_Warning, [Simple ''Aborting application. Reason: Fatal log at ['', Simple (fst place),
         Simple '':'', Simple (show_nat (fst (snd place))), Simple '']''])) (log_env s) (log_env s')"
    by (rule fatal_run [OF assms(1-3)])
  have "defaultCrashHandler os ident termColor place sig s = Some (Inl (Abort ''Fatal log''), s')"
    using s'(1) by (simp add: defaultCrashHandler_def logCrashReason_def io_simps)
  moreover have "c_str ?reason = ''CRASH HANDLED; Application has crashed due to ['' @
      (if sig = 8 then ''SIGFPE'' else if sig = 4 then ''SIGILL'' else if sig = 11 then ''SIGSEGV'' else ''SIGINT'')
      @ ''] signal''"
    using assms(4) by (auto simp: crash_reason_default [OF flags] c_str_def)
  ultimately show ?thesis
    using s'(2,3) assms(4,5)
    by (simp add: set_handler_signals setCrashHandler_def elCrashHandler_def new_CrashHandler_def
        USE_DEF_CRASH_HANDLER_def DISABLE_DEFAULT_CRASH_HANDLING_def log_line_def)
qed


theorem crash_logged_witness:
  "\<exists>s s' :: (((string \<Rightarrow> string) \<times> string), unit) storage_scheme.
     defaultCrashHandler memory_os \<lparr>s_currentUser = ''barn'', s_currentHost = ''host''\<rparr> False
       (''easylogging++.h'', 5296, '''') 2 s = Some (Inl (Abort ''Fatal log''), s') \<and>
     snd (log_env s') = snd (log_env s)
       @ ''FATAL [web:access] : CRASH HANDLED; Application has crashed due to [SIGINT] signal'' @ [NEWLINE]
       @ ''WARN  [web:access] : Aborting application. Reason: Fatal log at [easylogging++.h:5296]'' @ [NEWLINE]"
proof -
  let ?ident = "\<lparr>s_currentUser = ''barn'', s_currentHost = ''host''\<rparr>"
    and ?place = "(''easylogging++.h'', 5296 :: nat, '''')"
  obtain s :: "(((string \<Rightarrow> string) \<times> string), unit) storage_scheme"
    where s: "ready '' [web:access] : '' kDefaultLogFile ''default'' s"
    using ready_state by blast
  then have rdy: "ready '' [web:access] : '' kDefaultLogFile kDefaultLoggerId s" by (simp add: kDefaultLoggerId_def)
  have plain: "CHR ''%'' \<notin> set '' [web:access] : ''" by simp
  have sig: "2 \<in> {8, 4, 11, 2 :: int}" by simp
  note crash = crash_logged [OF memory_os_works rdy plain sig refl, of ?ident False ?place,
      THEN conjunct2, THEN conjunct2, THEN conjunct2, THEN conjunct2, THEN conjunct2]
  have digits: "show_nat 5296 = ''5296''" by (simp add: show_nat.simps char_of_def bit_0)
  have "\<exists>s'. defaultCrashHandler memory_os ?ident False ?place 2 s = Some (Inl (Abort ''Fatal log''), s') \<and>
      snd (log_env s') = snd (log_env s)
       @ ''FATAL [web:access] : CRASH HANDLED; Application has crashed due to [SIGINT] signal'' @ [NEWLINE]
       @ ''WARN  [web:access] : Aborting application. Reason: Fatal log at [easylogging++.h:5296]'' @ [NEWLINE]"
    using crash by (elim ex_forward conjE conjI) (simp add: shows_line_def digits)
  then show ?thesis by (rule exI [of _ s])
qed

end
