(* ===== verification/Elpp_Registry.thy ===== *)
theory Elpp_Registry
  imports Elpp_Typed
begin

text \<open>
  The registries of \<^verbatim>\<open>easylogging++.h\<close> (\<open>Registry\<close>, \<open>RegistryWithPred\<close>), which own what they point to: an
  explicit store of objects, the operations with their deletes, keys that are passed by reference and
  may lie in an object that is deleted, and who owns what. Elsewhere in this
  development the library's loggers and configurations are kept in lists by value; here it is shown
  when a registry of pointers behaves as such a list, and when it does not.
\<close>

section \<open>The store\<close>

text \<open>
  A pointer is null or an address; addresses are not used again. To delete or to read what is not
  there has no result.
\<close>

type_synonym ptr = "nat option"

record 'a store =
  cells :: "nat \<Rightarrow> 'a option"
  next_cell :: nat

definition new_object :: "'a \<Rightarrow> (ptr, ('a, 'z) store_scheme) io" where
  "new_object v s =
     Some (Inr (Some (next_cell s)), s\<lparr>cells := (cells s)(next_cell s \<mapsto> v), next_cell := Suc (next_cell s)\<rparr>)"

definition deref :: "ptr \<Rightarrow> ('a, ('a, 'z) store_scheme) io" where
  "deref p = bindE (defined p) (\<lambda>a. bindE (getE (\<lambda>s. cells s a)) defined)"

text \<open>\<open>delete\<close>, and \<open>safeDelete\<close>, which returns the new value of the variable it is called with.\<close>

definition delete_object :: "nat \<Rightarrow> (unit, ('a, 'z) store_scheme) io" where
  "delete_object a =
     bindE (getE (\<lambda>s. cells s a)) (\<lambda>c.
     if c = None then stuck else modifyE (\<lambda>s. s\<lparr>cells := (cells s)(a := None)\<rparr>))"

definition safeDelete :: "ptr \<Rightarrow> (ptr, ('a, 'z) store_scheme) io" where
  "safeDelete p = (case p of None \<Rightarrow> ret None | Some a \<Rightarrow> thenE (delete_object a) (ret None))"

section \<open>Registry\<close>

type_synonym registry = "(string \<times> ptr) list"

definition get_ptr :: "string \<Rightarrow> registry \<Rightarrow> ptr" where
  "get_ptr uniqKey m = (case map_of m uniqKey of None \<Rightarrow> None | Some p \<Rightarrow> p)"

fun erase_key :: "string \<Rightarrow> registry \<Rightarrow> registry" where
  "erase_key k [] = []"
| "erase_key k ((k', p) # m) = (if k' = k then m else (k', p) # erase_key k m)"

text \<open>
  Keys are passed by reference, and read whenever they are used: a string of the caller's, or the
  field of an object, which \<open>id_of\<close> reads. The field of a deleted object has no value.
\<close>

datatype key_ref = Own_Key string | Field_Of nat

definition read_key :: "('a \<Rightarrow> string) \<Rightarrow> key_ref \<Rightarrow> (string, ('a, 'z) store_scheme) io" where
  "read_key id_of uniqKey =
     (case uniqKey of
        Own_Key k \<Rightarrow> ret k
      | Field_Of a \<Rightarrow> bindE (deref (Some a)) (\<lambda>v. ret (id_of v)))"

definition unregister_key ::
  "('a \<Rightarrow> string) \<Rightarrow> key_ref \<Rightarrow> registry \<Rightarrow> (registry, ('a, 'z) store_scheme) io" where
  "unregister_key id_of uniqKey m =
     bindE (bindE (read_key id_of uniqKey) (\<lambda>k. ret (get_ptr k m))) (\<lambda>existing.
     if existing \<noteq> None
     then bindE (safeDelete existing) (\<lambda>_.
          bindE (read_key id_of uniqKey) (\<lambda>k. ret (erase_key k m)))
     else ret m)"

definition registerNew ::
  "('a \<Rightarrow> string) \<Rightarrow> key_ref \<Rightarrow> ptr \<Rightarrow> registry \<Rightarrow> (registry, ('a, 'z) store_scheme) io" where
  "registerNew id_of uniqKey p m =
     bindE (unregister_key id_of uniqKey m) (\<lambda>m'.
     bindE (read_key id_of uniqKey) (\<lambda>k. ret (map_insert k p m')))"

text \<open>\<open>RegisteredLoggers::unregister\<close>: the key is the identifier in the object that is to go.\<close>

definition unregister_object ::
  "('a \<Rightarrow> string) \<Rightarrow> nat \<Rightarrow> registry \<Rightarrow> (registry, ('a, 'z) store_scheme) io" where
  "unregister_object id_of a m = unregister_key id_of (Field_Of a) m"

definition unregisterAll :: "registry \<Rightarrow> (registry, ('a, 'z) store_scheme) io" where
  "unregisterAll m =
     (if m \<noteq> [] then bindE (foldE (\<lambda>curr _. bindE (safeDelete (snd curr)) (\<lambda>_. ret ())) m ()) (\<lambda>_. ret []) else ret m)"

text \<open>The keys of \<open>deepCopy\<close> are those in the nodes of the other registry, which stay.\<close>

definition deepCopy ::
  "('a \<Rightarrow> string) \<Rightarrow> registry \<Rightarrow> registry \<Rightarrow> (registry, ('a, 'z) store_scheme) io" where
  "deepCopy id_of sr m =
     foldE (\<lambda>it m'. bindE (deref (snd it)) (\<lambda>v. bindE (new_object v) (\<lambda>p.
       registerNew id_of (Own_Key (fst it)) p m'))) sr m"

text \<open>\<open>operator=\<close>; an object that is assigned to itself is left alone.\<close>

definition assign_registry ::
  "('a \<Rightarrow> string) \<Rightarrow> registry option \<Rightarrow> registry \<Rightarrow> (registry, ('a, 'z) store_scheme) io" where
  "assign_registry id_of other m =
     (case other of None \<Rightarrow> ret m | Some sr \<Rightarrow> bindE (unregisterAll m) (deepCopy id_of sr))"

section \<open>RegistryWithPred\<close>

type_synonym pred_registry = "ptr list"

text \<open>
  \<open>unregister\<close>: the iterator is erased and then its target deleted. After the erasure the iterator refers
  to the element behind, and none is behind the last.
\<close>

definition unregister_ptr :: "ptr \<Rightarrow> pred_registry \<Rightarrow> (pred_registry, ('a, 'z) store_scheme) io" where
  "unregister_ptr p m =
     (if p \<noteq> None
      then let iter = length (takeWhile (\<lambda>x. x \<noteq> p) m) in
        if iter \<noteq> length m \<and> m ! iter \<noteq> None
        then let m' = take iter m @ drop (Suc iter) m in
          if iter < length m' then bindE (safeDelete (m' ! iter)) (\<lambda>q. ret (m'[iter := q])) else stuck
        else ret m
      else ret m)"

definition registerNew_pred :: "ptr \<Rightarrow> pred_registry \<Rightarrow> pred_registry" where
  "registerNew_pred p m = m @ [p]"

definition unregisterAll_pred :: "pred_registry \<Rightarrow> (pred_registry, ('a, 'z) store_scheme) io" where
  "unregisterAll_pred m =
     (if m \<noteq> [] then bindE (foldE (\<lambda>curr _. bindE (safeDelete curr) (\<lambda>_. ret ())) m ()) (\<lambda>_. ret []) else ret m)"

definition deepCopy_pred :: "pred_registry \<Rightarrow> pred_registry \<Rightarrow> (pred_registry, ('a, 'z) store_scheme) io" where
  "deepCopy_pred sr m =
     foldE (\<lambda>it m'. bindE (deref it) (\<lambda>v. bindE (new_object v) (\<lambda>p. ret (registerNew_pred p m')))) sr m"

text \<open>\<open>find_if\<close> with a predicate that is false of null and otherwise depends on the object.\<close>

definition pred_holds :: "('a \<Rightarrow> bool) \<Rightarrow> ptr \<Rightarrow> (bool, ('a, 'z) store_scheme) io" where
  "pred_holds pr p = (if p \<noteq> None then bindE (deref p) (\<lambda>v. ret (pr v)) else ret False)"

fun find_if :: "('a \<Rightarrow> bool) \<Rightarrow> pred_registry \<Rightarrow> (pred_registry, ('a, 'z) store_scheme) io" where
  "find_if pr [] = ret []"
| "find_if pr (p # m) = bindE (pred_holds pr p) (\<lambda>b. if b then ret (p # m) else find_if pr m)"

definition get_pred :: "('a \<Rightarrow> bool) \<Rightarrow> pred_registry \<Rightarrow> (ptr, ('a, 'z) store_scheme) io" where
  "get_pred pr m = bindE (find_if pr m) (\<lambda>rest.
     case rest of Some a # _ \<Rightarrow> ret (Some a) | _ \<Rightarrow> ret None)"

section \<open>Ownership\<close>

text \<open>
  A registry owns the addresses \<open>A\<close>: its pointers are distinct, not null and alive, and they are those
  of \<open>A\<close>. \<open>contents\<close> are the values by key.
\<close>

definition addresses :: "registry \<Rightarrow> nat set" where
  "addresses m = {a. Some a \<in> snd ` set m}"

definition live :: "('a, 'z) store_scheme \<Rightarrow> nat set" where
  "live s = dom (cells s)"

definition sound_store :: "('a, 'z) store_scheme \<Rightarrow> bool" where
  "sound_store s \<longleftrightarrow> (\<forall>a \<in> live s. a < next_cell s)"

definition owns :: "registry \<Rightarrow> ('a, 'z) store_scheme \<Rightarrow> bool" where
  "owns m s \<longleftrightarrow> sorted (map fst m) \<and> distinct (map fst m) \<and> distinct (map snd m) \<and>
     (\<forall>p \<in> set (map snd m). \<exists>a. p = Some a \<and> a \<in> live s)"

definition contents :: "('a, 'z) store_scheme \<Rightarrow> registry \<Rightarrow> string \<rightharpoonup> 'a" where
  "contents s m k = (case map_of m k of Some (Some a) \<Rightarrow> cells s a | _ \<Rightarrow> None)"


lemma ownsD:
  assumes "owns m s"
  shows "sorted (map fst m)" "distinct (map fst m)" "distinct (map snd m)"
    "(k, p) \<in> set m \<Longrightarrow> \<exists>a. p = Some a \<and> a \<in> live s"
    "(k, p) \<in> set m \<Longrightarrow> (k', p) \<in> set m \<Longrightarrow> k = k'"
proof -
  show "sorted (map fst m)" "distinct (map fst m)" and d: "distinct (map snd m)"
    using assms by (simp_all add: owns_def)
  show "(k, p) \<in> set m \<Longrightarrow> \<exists>a. p = Some a \<and> a \<in> live s" using assms by (force simp: owns_def)
  show "(k, p) \<in> set m \<Longrightarrow> (k', p) \<in> set m \<Longrightarrow> k = k'"
    using inj_onD [of snd "set m" "(k, p)" "(k', p)"] d by (simp add: distinct_map)
qed

lemma contents_entry:
  assumes "distinct (map fst m)"
  shows "contents s m k = Some v \<longleftrightarrow> (\<exists>a. (k, Some a) \<in> set m \<and> cells s a = Some v)"
  using assms by (auto simp: contents_def split: option.splits dest: eq_key_imp_eq_value)

lemma addresses_entry: "a \<in> addresses m \<longleftrightarrow> (\<exists>k. (k, Some a) \<in> set m)"
  by (force simp: addresses_def)

lemma addresses_Nil [simp]: "addresses [] = {}"
  by (simp add: addresses_def)

lemma contents_Nil [simp]: "contents s [] = Map.empty"
  by (simp add: contents_def fun_eq_iff)

lemma erase_key_filter: "distinct (map fst m) \<Longrightarrow> erase_key k m = filter (\<lambda>e. fst e \<noteq> k) m"
proof (induction k m rule: erase_key.induct)
  case (2 k k' p m)
  show ?case
  proof (cases "k' = k")
    case True
    then have "filter (\<lambda>e. fst e \<noteq> k) m = m" using "2.prems" by (force simp: filter_id_conv)
    then show ?thesis using True by simp
  next
    case False
    then show ?thesis using 2 by simp
  qed
qed simp

lemma mset_map_insert: "k \<notin> fst ` set m \<Longrightarrow> mset (map_insert k v m) = add_mset (k, v) (mset m)"
  by (induction k v m rule: map_insert.induct) auto

text \<open>
  The invariant of a registry in a store where also the objects of \<open>s0\<close> live, which are others'. Nothing
  leaks: besides those, what the registry points to is all that is alive.
\<close>

definition keeps_house :: "('a, 'z) store_scheme \<Rightarrow> registry \<Rightarrow> ('a, 'z) store_scheme \<Rightarrow> bool" where
  "keeps_house s0 m s \<longleftrightarrow> sound_store s \<and> owns m s \<and> live s = live s0 \<union> addresses m \<and>
     addresses m \<inter> live s0 = {} \<and> (\<forall>a \<in> live s0. cells s a = cells s0 a)"

lemma safeDelete_live: "a \<in> live s \<Longrightarrow> safeDelete (Some a) s = Some (Inr None, s\<lparr>cells := (cells s)(a := None)\<rparr>)"
  by (auto simp: safeDelete_def delete_object_def live_def io_simps bindE_def getE_def)

text \<open>
  A key that is not a field of the registry's own objects reads the same before and after a delete.
\<close>

definition key_of :: "('a \<Rightarrow> string) \<Rightarrow> ('a, 'z) store_scheme \<Rightarrow> key_ref \<Rightarrow> string" where
  "key_of id_of s0 uniqKey =
     (case uniqKey of Own_Key k \<Rightarrow> k | Field_Of a \<Rightarrow> id_of (the (cells s0 a)))"

definition outside_key :: "('a, 'z) store_scheme \<Rightarrow> key_ref \<Rightarrow> bool" where
  "outside_key s0 uniqKey \<longleftrightarrow> (case uniqKey of Own_Key _ \<Rightarrow> True | Field_Of a \<Rightarrow> a \<in> live s0)"

lemma read_outside_key:
  assumes "outside_key s0 r" and "\<forall>a \<in> live s0. cells s a = cells s0 a"
  shows "read_key id_of r s = Some (Inr (key_of id_of s0 r), s)"
proof (cases r)
  case (Own_Key k)
  then show ?thesis by (simp add: read_key_def key_of_def ret_run)
next
  case (Field_Of a)
  then obtain v where "cells s0 a = Some v" "cells s a = Some v"
    using assms by (auto simp: outside_key_def live_def)
  then show ?thesis using Field_Of by (simp add: read_key_def key_of_def deref_def defined_def io_simps)
qed

lemma unregister_key_house:
  assumes house: "keeps_house s0 m s" and outside: "outside_key s0 r" and k: "k = key_of id_of s0 r"
  obtains m' s' where "unregister_key id_of r m s = Some (Inr m', s')" "keeps_house s0 m' s'"
    "contents s' m' = (contents s m)(k := None)" "k \<notin> fst ` set m'"
proof -
  have own: "owns m s" using house by (simp add: keeps_house_def)
  have read: "read_key id_of r s = Some (Inr k, s)"
    using read_outside_key [OF outside] house unfolding k by (auto simp: keeps_house_def)
  note D = ownsD [OF own]
  show ?thesis
  proof (cases "map_of m k")
    case None
    then have "unregister_key id_of r m s = Some (Inr m, s)" "k \<notin> fst ` set m"
      using read by (simp_all add: unregister_key_def get_ptr_def io_simps map_of_eq_None_iff [symmetric])
    moreover have "contents s m = (contents s m)(k := None)" using None by (auto simp: contents_def fun_eq_iff)
    ultimately show ?thesis using that house by metis
  next
    case (Some p)
    then have kp: "(k, p) \<in> set m" by (rule map_of_SomeD)
    then obtain a where a: "p = Some a" "a \<in> live s" using D(4) by blast
    let ?m = "filter (\<lambda>e. fst e \<noteq> k) m" and ?s = "s\<lparr>cells := (cells s)(a := None)\<rparr>"
    have "a \<in> addresses m" using kp a(1) by (auto simp: addresses_entry)
    then have "a \<notin> live s0" using house by (auto simp: keeps_house_def)
    then have "\<forall>x \<in> live s0. cells ?s x = cells s0 x" using house by (auto simp: keeps_house_def)
    then have read': "read_key id_of r ?s = Some (Inr k, ?s)"
      using read_outside_key [OF outside] unfolding k by blast
    have run: "unregister_key id_of r m s = Some (Inr ?m, ?s)"
      using Some a erase_key_filter [OF D(2)] read read'
      by (simp add: unregister_key_def get_ptr_def safeDelete_live io_simps)
    have others: "b \<noteq> a" if "(k', Some b) \<in> set ?m" for k' b
      using that kp a(1) D(5) by auto
    have only_k: "k' = k" if "(k', Some a) \<in> set m" for k' using that kp a(1) D(5) by simp
    have only_a: "x = a" if "(k, Some x) \<in> set m" for x
      using eq_key_imp_eq_value [OF D(2) that kp] a(1) by simp
    have addr: "addresses ?m = addresses m - {a}"
    proof (rule set_eqI)
      fix x
      have "x \<in> addresses ?m \<longleftrightarrow> (\<exists>k'. (k', Some x) \<in> set m \<and> k' \<noteq> k)" by (simp add: addresses_entry)
      also have "\<dots> \<longleftrightarrow> (\<exists>k'. (k', Some x) \<in> set m) \<and> x \<noteq> a" using only_k only_a by metis
      finally show "x \<in> addresses ?m \<longleftrightarrow> x \<in> addresses m - {a}" by (simp add: addresses_entry)
    qed
    have alive: "live ?s = live s - {a}" by (auto simp: live_def)
    have "\<exists>b. q = Some b \<and> b \<in> live ?s" if "q \<in> set (map snd ?m)" for q
    proof -
      from that obtain k' where e: "(k', q) \<in> set ?m" by auto
      then obtain b where "q = Some b" "b \<in> live s" using D(4) [of k' q] by auto
      then show ?thesis using others [of k' b] e alive by simp
    qed
    then have "owns ?m ?s"
      using sorted_filter [OF D(1)] distinct_map_filter [OF D(2)] distinct_map_filter [OF D(3)]
      unfolding owns_def by blast
    moreover note alive
    moreover have "a \<in> addresses m" using kp a(1) by (auto simp: addresses_entry)
    ultimately have house': "keeps_house s0 ?m ?s"
      using house addr by (auto simp: keeps_house_def sound_store_def)
    have "contents ?s ?m k' = ((contents s m)(k := None)) k'" for k'
    proof (cases "k' = k")
      case True
      then have "k \<notin> fst ` set ?m" by auto
      then have "map_of ?m k = None" by (simp add: map_of_eq_None_iff)
      then show ?thesis using True by (simp add: contents_def)
    next
      case False
      then have same: "map_of ?m k' = map_of m k'" by (induction m) auto
      have "b \<noteq> a" if "map_of m k' = Some (Some b)" for b
        using others [of k' b] map_of_SomeD [OF that] False by simp
      then show ?thesis using False by (auto simp: contents_def same split: option.splits)
    qed
    then have "contents ?s ?m = (contents s m)(k := None)" by (rule ext)
    moreover have "k \<notin> fst ` set ?m" by auto
    ultimately show ?thesis using that [OF run house'] by simp
  qed
qed


lemma new_object_house:
  assumes "keeps_house s0 m s"
  shows "new_object v s = Some (Inr (Some (next_cell s)),
      s\<lparr>cells := (cells s)(next_cell s \<mapsto> v), next_cell := Suc (next_cell s)\<rparr>)"
    and "next_cell s \<notin> live s"
  using assms by (auto simp: new_object_def keeps_house_def sound_store_def)

text \<open>An object is made and registered: it is the value of its key from then on, and the one before is freed.\<close>

lemma register_house:
  assumes house: "keeps_house s0 m s" and outside: "outside_key s0 r" and k: "k = key_of id_of s0 r"
  obtains m' s' where "bindE (new_object v) (\<lambda>p. registerNew id_of r p m) s = Some (Inr m', s')"
    "keeps_house s0 m' s'" "contents s' m' = (contents s m)(k \<mapsto> v)"
proof -
  let ?a = "next_cell s"
  let ?s = "s\<lparr>cells := (cells s)(?a \<mapsto> v), next_cell := Suc ?a\<rparr>"
  let ?others = "s0\<lparr>cells := (cells s0)(?a \<mapsto> v)\<rparr>"
  note new = new_object_house(1) [OF house, of v] new_object_house(2) [OF house]
  have live_new: "live ?s = insert ?a (live s)" "live ?others = insert ?a (live s0)" by (auto simp: live_def)
  have old: "owns m s" "?a \<notin> addresses m" using house new(2) by (auto simp: keeps_house_def)
  have "owns m ?s" using old(1) live_new(1) by (force simp: owns_def)
  moreover have "\<forall>b \<in> live ?others. cells ?s b = cells ?others b"
    using house new(2) by (auto simp: keeps_house_def live_new)
  ultimately have house1: "keeps_house ?others m ?s"
    using house old(2) live_new by (auto simp: keeps_house_def sound_store_def less_Suc_eq)
  have same: "contents ?s m = contents s m"
    using old(2) by (auto simp: contents_def fun_eq_iff addresses_entry split: option.splits dest: map_of_SomeD)
  have outside': "outside_key ?others r" "k = key_of id_of ?others r"
    using outside k house new(2) live_new(2)
    by (auto simp: outside_key_def key_of_def keeps_house_def split: key_ref.splits)
  obtain m1 s1 where 1: "unregister_key id_of r m ?s = Some (Inr m1, s1)" "keeps_house ?others m1 s1"
    "contents s1 m1 = (contents ?s m)(k := None)" "k \<notin> fst ` set m1"
    by (rule unregister_key_house [OF house1 outside'])
  have read: "read_key id_of r s1 = Some (Inr k, s1)"
    using read_outside_key [OF outside'(1)] 1(2) unfolding outside'(2) by (auto simp: keeps_house_def)
  let ?m = "map_insert k (Some ?a) m1"
  have run: "bindE (new_object v) (\<lambda>p. registerNew id_of r p m) s = Some (Inr ?m, s1)"
    using new(1) 1(1) read by (simp add: registerNew_def io_simps)
  have at_a: "?a \<in> live ?others" "cells s1 ?a = Some v" "?a \<notin> addresses m1"
    using 1(2) live_new(2) by (auto simp: keeps_house_def)
  note entries = mset_map_insert [OF 1(4), of "Some ?a"]
  have set: "set ?m = insert (k, Some ?a) (set m1)" using entries by (metis set_mset_add_mset_insert set_mset_mset)
  have own1: "owns m1 s1" using 1(2) by (simp add: keeps_house_def)
  have keys: "mset (map fst ?m) = mset (k # map fst m1)"
    and ptrs: "mset (map snd ?m) = mset (Some ?a # map snd m1)"
    using entries by (simp_all add: mset_map)
  have distinct: "distinct (map fst ?m)" "distinct (map snd ?m)"
    using own1 1(4) at_a(3) mset_eq_imp_distinct_iff [OF keys] mset_eq_imp_distinct_iff [OF ptrs]
    by (auto simp: owns_def addresses_def)
  have "?a \<in> live s1" using at_a(2) by (auto simp: live_def)
  then have "owns ?m s1"
    using own1 distinct sorted_map_insert [of m1 k "Some ?a"] by (auto simp: owns_def set)
  moreover have "addresses ?m = insert ?a (addresses m1)" by (auto simp: addresses_def set)
  moreover have "?a \<notin> live s0" using house new(2) by (auto simp: keeps_house_def)
  ultimately have house2: "keeps_house s0 ?m s1"
    using 1(2) live_new(2) by (auto simp: keeps_house_def)
  have "contents s1 ?m k' = ((contents s m)(k \<mapsto> v)) k'" for k'
    using own1 1(3) 1(4) at_a(2) same
    by (auto simp: contents_def map_of_map_insert owns_def fun_eq_iff map_of_eq_None_iff)
  then show ?thesis using that [OF run house2] by blast
qed


lemma delete_each:
  assumes "distinct (map snd m)" and "\<forall>p \<in> set (map snd m). \<exists>a. p = Some a \<and> a \<in> live s"
  shows "foldE (\<lambda>curr _. bindE (safeDelete (snd curr)) (\<lambda>_. ret ())) m () s =
    Some (Inr (), s\<lparr>cells := (\<lambda>a. if a \<in> addresses m then None else cells s a)\<rparr>)"
  using assms
proof (induction m arbitrary: s)
  case Nil
  then show ?case by (simp add: ret_run addresses_def)
next
  case (Cons e m)
  then obtain a where a: "snd e = Some a" "a \<in> live s" by auto
  let ?s = "s\<lparr>cells := (cells s)(a := None)\<rparr>"
  have "\<exists>b. p = Some b \<and> b \<in> live ?s" if p: "p \<in> set (map snd m)" for p
  proof -
    obtain b where b: "p = Some b" "b \<in> live s" using Cons.prems(2) p by auto
    moreover have "b \<noteq> a" using Cons.prems(1) a(1) b(1) p by auto
    ultimately show ?thesis by (simp add: live_def)
  qed
  then have "foldE (\<lambda>curr _. bindE (safeDelete (snd curr)) (\<lambda>_. ret ())) m () ?s =
      Some (Inr (), ?s\<lparr>cells := (\<lambda>b. if b \<in> addresses m then None else cells ?s b)\<rparr>)"
    using Cons.IH [of ?s] Cons.prems(1) by simp
  moreover have "addresses (e # m) = insert a (addresses m)" using a(1) by (auto simp: addresses_def)
  then have "(\<lambda>b. if b \<in> addresses m then None else cells ?s b) =
      (\<lambda>b. if b \<in> addresses (e # m) then None else cells s b)" by auto
  moreover have "bindE (safeDelete (snd e)) (\<lambda>_. ret ()) s = Some (Inr (), ?s)"
    using a by (simp add: safeDelete_live io_simps)
  ultimately show ?case by (simp add: bindE_value)
qed

lemma unregisterAll_house:
  assumes house: "keeps_house s0 m s"
  obtains s' where "unregisterAll m s = Some (Inr [], s')" "keeps_house s0 [] s'"
proof -
  let ?s = "s\<lparr>cells := (\<lambda>a. if a \<in> addresses m then None else cells s a)\<rparr>"
  have "owns m s" using house by (simp add: keeps_house_def)
  then have "foldE (\<lambda>curr _. bindE (safeDelete (snd curr)) (\<lambda>_. ret ())) m () s = Some (Inr (), ?s)"
    by (intro delete_each) (auto simp: owns_def)
  then have run: "unregisterAll m s = Some (Inr [], ?s)"
    by (cases "m = []") (simp_all add: unregisterAll_def ret_run io_simps addresses_def)
  have "live ?s = live s - addresses m" by (auto simp: live_def split: if_splits)
  then have "keeps_house s0 [] ?s"
    using house by (auto simp: keeps_house_def owns_def sound_store_def)
  then show ?thesis using that run by blast
qed

lemma deepCopy_house:
  assumes "keeps_house s0 m s" and "distinct (map fst sr)"
    and "\<forall>p \<in> set (map snd sr). \<exists>a. p = Some a \<and> a \<in> live s0"
  obtains m' s' where "deepCopy id_of sr m s = Some (Inr m', s')" "keeps_house s0 m' s'"
    "contents s' m' = contents s m ++ contents s0 sr"
proof -
  have "\<exists>m' s'. deepCopy id_of sr m s = Some (Inr m', s') \<and> keeps_house s0 m' s' \<and>
      contents s' m' = contents s m ++ contents s0 sr"
    using assms
  proof (induction sr arbitrary: m s)
    case Nil
    have "contents s0 [] = Map.empty" by (simp add: contents_def fun_eq_iff)
    then show ?case using Nil.prems(1) by (simp add: deepCopy_def ret_run)
  next
    case (Cons e sr)
    obtain k a v where e: "e = (k, Some a)" "cells s0 a = Some v" "a \<in> live s0"
      using Cons.prems(3) by (cases e) (auto simp: live_def)
    have "cells s a = Some v" using Cons.prems(1) e(2,3) by (simp add: keeps_house_def)
    then have read: "deref (Some a) s = Some (Inr v, s)" by (simp add: deref_def defined_def io_simps)
    obtain m1 s1 where 1: "bindE (new_object v) (\<lambda>p. registerNew id_of (Own_Key k) p m) s = Some (Inr m1, s1)"
      "keeps_house s0 m1 s1" "contents s1 m1 = (contents s m)(k \<mapsto> v)"
      by (rule register_house [OF Cons.prems(1), of "Own_Key k"]) (simp_all add: outside_key_def key_of_def)
    obtain m' s' where 2: "deepCopy id_of sr m1 s1 = Some (Inr m', s')" "keeps_house s0 m' s'"
      "contents s' m' = contents s1 m1 ++ contents s0 sr"
      using Cons.IH [OF 1(2)] Cons.prems(2,3) by auto
    have "deepCopy id_of (e # sr) m s = Some (Inr m', s')"
      using read 1(1) 2(1) e(1) by (simp add: deepCopy_def bindE_value)
    moreover have "contents s0 sr k = None"
      using Cons.prems(2) e(1) map_of_eq_None_iff [of sr k] by (simp add: contents_def)
    then have "(contents s m)(k \<mapsto> v) ++ contents s0 sr = contents s m ++ contents s0 (e # sr)"
      using e by (auto simp: fun_eq_iff map_add_def contents_def split: option.splits)
    ultimately show ?case using 2(2,3) 1(3) by auto
  qed
  then show ?thesis using that by blast
qed

section \<open>Sequences of operations\<close>

datatype 'a registry_op =
    Register key_ref 'a
  | Unregister key_ref
  | Unregister_All
  | Assign registry
  | Assign_Self

fun run_op :: "('a \<Rightarrow> string) \<Rightarrow> 'a registry_op \<Rightarrow> registry \<Rightarrow> (registry, ('a, 'z) store_scheme) io" where
  "run_op id_of (Register r v) m = bindE (new_object v) (\<lambda>p. registerNew id_of r p m)"
| "run_op id_of (Unregister r) m = unregister_key id_of r m"
| "run_op id_of Unregister_All m = unregisterAll m"
| "run_op id_of (Assign sr) m = assign_registry id_of (Some sr) m"
| "run_op id_of Assign_Self m = assign_registry id_of None m"

text \<open>The specification: a map of values. What is assigned is the contents of another registry.\<close>

fun spec_op ::
  "('a \<Rightarrow> string) \<Rightarrow> ('a, 'z) store_scheme \<Rightarrow> 'a registry_op \<Rightarrow> (string \<rightharpoonup> 'a) \<Rightarrow> (string \<rightharpoonup> 'a)" where
  "spec_op id_of s0 (Register r v) c = c(key_of id_of s0 r \<mapsto> v)"
| "spec_op id_of s0 (Unregister r) c = c(key_of id_of s0 r := None)"
| "spec_op id_of s0 Unregister_All c = Map.empty"
| "spec_op id_of s0 (Assign sr) c = contents s0 sr"
| "spec_op id_of s0 Assign_Self c = c"

text \<open>Keys are outside the objects of the registry, and what is assigned is a registry of its own.\<close>

fun op_ok :: "('a, 'z) store_scheme \<Rightarrow> 'a registry_op \<Rightarrow> bool" where
  "op_ok s0 (Register r v) \<longleftrightarrow> outside_key s0 r"
| "op_ok s0 (Unregister r) \<longleftrightarrow> outside_key s0 r"
| "op_ok s0 (Assign sr) \<longleftrightarrow> owns sr s0"
| "op_ok s0 _ \<longleftrightarrow> True"

lemma run_op_house:
  assumes "keeps_house s0 m s" and "op_ok s0 oper"
  shows "\<exists>m' s'. run_op id_of oper m s = Some (Inr m', s') \<and> keeps_house s0 m' s' \<and>
    contents s' m' = spec_op id_of s0 oper (contents s m)"
proof (cases oper)
  case (Register r v)
  obtain m' s' where "bindE (new_object v) (\<lambda>p. registerNew id_of r p m) s = Some (Inr m', s')"
    "keeps_house s0 m' s'" "contents s' m' = (contents s m)(key_of id_of s0 r \<mapsto> v)"
    by (rule register_house [OF assms(1) _ refl]) (use assms(2) Register in auto)
  then show ?thesis using Register by simp
next
  case (Unregister r)
  obtain m' s' where "unregister_key id_of r m s = Some (Inr m', s')" "keeps_house s0 m' s'"
    "contents s' m' = (contents s m)(key_of id_of s0 r := None)"
    by (rule unregister_key_house [OF assms(1) _ refl]) (use assms(2) Unregister in auto)
  then show ?thesis using Unregister by simp
next
  case Unregister_All
  obtain s' where "unregisterAll m s = Some (Inr [], s')" "keeps_house s0 [] s'"
    by (rule unregisterAll_house [OF assms(1)])
  then show ?thesis using Unregister_All by simp
next
  case (Assign sr)
  obtain s1 where 1: "unregisterAll m s = Some (Inr [], s1)" "keeps_house s0 [] s1"
    by (rule unregisterAll_house [OF assms(1)])
  have sr: "owns sr s0" using assms(2) Assign by simp
  obtain m' s' where "deepCopy id_of sr [] s1 = Some (Inr m', s')" "keeps_house s0 m' s'"
    "contents s' m' = contents s1 [] ++ contents s0 sr"
    by (rule deepCopy_house [OF 1(2) ownsD(2) [OF sr]]) (use sr in \<open>auto simp: owns_def\<close>)
  then show ?thesis using 1(1) Assign by (simp add: assign_registry_def io_simps)
next
  case Assign_Self
  then show ?thesis using assms(1) by (simp add: assign_registry_def ret_run)
qed


lemma run_ops_house:
  assumes "keeps_house s0 m s" and "list_all (op_ok s0) ops"
  shows "\<exists>m' s'. foldE (run_op id_of) ops m s = Some (Inr m', s') \<and> keeps_house s0 m' s' \<and>
    contents s' m' = fold (spec_op id_of s0) ops (contents s m)"
  using assms
proof (induction ops arbitrary: m s)
  case Nil
  then show ?case by (simp add: ret_run)
next
  case (Cons oper ops)
  obtain m1 s1 where 1: "run_op id_of oper m s = Some (Inr m1, s1)" "keeps_house s0 m1 s1"
    "contents s1 m1 = spec_op id_of s0 oper (contents s m)"
    using run_op_house [OF Cons.prems(1), of oper id_of] Cons.prems(2) by auto
  then show ?case using Cons.IH [OF 1(2)] Cons.prems(2) by (simp add: bindE_value)
qed

lemma house_empty: "sound_store s0 \<Longrightarrow> keeps_house s0 [] s0"
  by (simp add: keeps_house_def owns_def)

text \<open>
  An object that is registered under its own identifier is deleted before its identifier is read again.
\<close>

lemma unregister_object_dangles:
  assumes "owns m s" and "(id_of v, Some a) \<in> set m" and "cells s a = Some v"
  shows "unregister_object id_of a m s = None"
proof -
  have "get_ptr (id_of v) m = Some a"
    using map_of_is_SomeI [OF ownsD(2) [OF assms(1)] assms(2)] by (simp add: get_ptr_def)
  moreover have "safeDelete (Some a) s = Some (Inr None, s\<lparr>cells := (cells s)(a := None)\<rparr>)"
    using safeDelete_live [of a s] assms(3) by (simp add: live_def domIff)
  ultimately show ?thesis using assms(3)
    by (simp add: unregister_object_def unregister_key_def read_key_def deref_def defined_def io_simps
        stuck_def bindE_def getE_def ret_def)
qed

text \<open>
  C38: when the registry of pointers is safe, and when it is not. Keys are passed by reference. Whatever
  sequence of registrations, unregistrations and assignments an empty \<open>Registry\<close> goes through, as long as
  the keys are not fields of its own objects, nothing is deleted twice or read after its deletion: the run
  ends, the values by key are those of a plain map that went through the same operations, and nothing
  leaks: what is alive is what was, unchanged, and what the registry points to, until its destructor
  leaves the store as it was before. But an object that is registered under its own identifier cannot be
  unregistered by it, as \<open>RegisteredLoggers::unregister\<close> does: the object is deleted and then its
  identifier is read.
\<close>

theorem registry_runs:
  assumes "sound_store s0" and "list_all (op_ok s0) ops"
  shows "\<exists>m s t. foldE (run_op id_of) ops [] s0 = Some (Inr m, s) \<and>
    contents s m = fold (spec_op id_of s0) ops Map.empty \<and>
    live s = live s0 \<union> addresses m \<and> addresses m \<inter> live s0 = {} \<and>
    unregisterAll m s = Some (Inr [], t) \<and> cells t = cells s0 \<and>
    (\<forall>k a v. (k, Some a) \<in> set m \<longrightarrow> cells s a = Some v \<longrightarrow> id_of v = k \<longrightarrow>
       unregister_object id_of a m s = None)"
proof -
  obtain m s where 1: "foldE (run_op id_of) ops [] s0 = Some (Inr m, s)" "keeps_house s0 m s"
    "contents s m = fold (spec_op id_of s0) ops (contents s0 [])"
    using run_ops_house [OF house_empty [OF assms(1)] assms(2)] by blast
  obtain t where 2: "unregisterAll m s = Some (Inr [], t)" "keeps_house s0 [] t"
    by (rule unregisterAll_house [OF 1(2)])
  have "cells t a = cells s0 a" for a
    using 2(2) by (cases "a \<in> live s0") (auto simp: keeps_house_def live_def domIff)
  then have "cells t = cells s0" by (rule ext)
  moreover have "owns m s" using 1(2) by (simp add: keeps_house_def)
  then have "\<forall>k a v. (k, Some a) \<in> set m \<longrightarrow> cells s a = Some v \<longrightarrow> id_of v = k \<longrightarrow>
      unregister_object id_of a m s = None"
    by (metis unregister_object_dangles)
  ultimately show ?thesis using 1 2(1) by (auto simp: keeps_house_def)
qed

theorem registry_runs_witness:
  "let s0 = \<lparr>cells = [0 \<mapsto> (''z'', 7 :: nat)], next_cell = 1\<rparr> in
   \<exists>m s t. foldE (run_op fst) [Register (Own_Key ''a'') (''a'', 1), Register (Own_Key ''a'') (''a'', 2),
       Assign [(''d'', Some 0)], Register (Own_Key ''b'') (''b'', 3), Register (Field_Of 0) (''x'', 4),
       Unregister (Own_Key ''d''), Unregister (Field_Of 0)] [] s0 = Some (Inr m, s) \<and>
     contents s m = [''b'' \<mapsto> (''b'', 3)] \<and> unregisterAll m s = Some (Inr [], t) \<and> cells t = cells s0 \<and>
     (\<exists>a. unregister_object fst a m s = None \<and> Some a \<in> snd ` set m)"
proof -
  let ?s = "\<lparr>cells = [0 \<mapsto> (''z'', 7 :: nat)], next_cell = 1\<rparr>"
  let ?ops = "[Register (Own_Key ''a'') (''a'', 1), Register (Own_Key ''a'') (''a'', 2),
       Assign [(''d'', Some 0)], Register (Own_Key ''b'') (''b'', 3), Register (Field_Of 0) (''x'', 4),
       Unregister (Own_Key ''d''), Unregister (Field_Of 0)]"
  have "sound_store ?s" by (simp add: sound_store_def live_def)
  moreover have "list_all (op_ok ?s) ?ops" by (simp add: owns_def live_def outside_key_def)
  moreover have final: "fold (spec_op fst ?s) ?ops Map.empty = [''b'' \<mapsto> (''b'', 3)]"
    by (simp add: contents_def fun_eq_iff key_of_def)
  ultimately obtain m s t where run: "foldE (run_op fst) ?ops [] ?s = Some (Inr m, s)"
    "contents s m = [''b'' \<mapsto> (''b'', 3)]" "unregisterAll m s = Some (Inr [], t)" "cells t = cells ?s"
    and dangles: "\<forall>k a v. (k, Some a) \<in> set m \<longrightarrow> cells s a = Some v \<longrightarrow> fst v = k \<longrightarrow>
       unregister_object fst a m s = None"
    using registry_runs [of ?s ?ops fst] unfolding final by blast
  have "contents s m ''b'' = Some (''b'', 3)" using run(2) by simp
  then obtain a where a: "(''b'', Some a) \<in> set m" "cells s a = Some (''b'', 3)"
    by (auto simp: contents_def split: option.splits dest: map_of_SomeD)
  have "Some a \<in> snd ` set m" using a(1) by force
  moreover have "unregister_object fst a m s = None" using dangles a by simp
  ultimately show ?thesis using run unfolding Let_def by blast
qed

section \<open>Unregistering by pointer\<close>

text \<open>
  What \<open>RegistryWithPred::unregister\<close> does to an element with another behind it: the other is freed and its
  place set to null, and the removed object, to which nothing points any more, stays alive.
\<close>

lemma unregister_ptr_next:
  assumes "Some a \<notin> set xs" and "b \<in> live s"
  shows "unregister_ptr (Some a) (xs @ Some a # Some b # ys) s =
    Some (Inr (xs @ None # ys), s\<lparr>cells := (cells s)(b := None)\<rparr>)"
proof -
  have "takeWhile (\<lambda>x. x \<noteq> Some a) (xs @ Some a # Some b # ys) = xs"
    using assms(1) by (induction xs) auto
  then show ?thesis
    using safeDelete_live [OF assms(2)]
    by (simp add: unregister_ptr_def Let_def nth_append bindE_value ret_run)
qed

text \<open>The last element: the iterator is dereferenced at the end of the vector.\<close>

lemma unregister_ptr_last:
  assumes "Some a \<notin> set xs"
  shows "unregister_ptr (Some a) (xs @ [Some a]) s = None"
proof -
  have "takeWhile (\<lambda>x. x \<noteq> Some a) (xs @ [Some a]) = xs"
    using assms by (induction xs) auto
  then show ?thesis by (simp add: unregister_ptr_def Let_def nth_append stuck_def)
qed

end
