(* ===== verification/Elpp_Macros.thy ===== *)
theory Elpp_Macros
  imports Elpp_Crash
begin

text \<open>
  The statements of \<^verbatim>\<open>easylogging++.h\<close> beside \<open>LOG\<close>: conditional, counted and verbose ones, those that add
  the error of the last system call, and checks. What a statement writes is that of \<open>log_statement\<close>;
  what is added here is when it is reached.
\<close>

section \<open>Writers\<close>

text \<open>
  The library as it is built and runs. \<open>lib_compiled\<close> tells which levels are compiled in, the macros
  \<open>_ELPP_INFO_LOG\<close> and so on. A place is a file, a line and a function.
\<close>

record 'e library =
  lib_os :: "'e log_os"
  lib_ident :: identity
  lib_color :: bool
  lib_compiled :: "Level \<Rightarrow> bool"

type_synonym place = "string \<times> nat \<times> string"

definition writer_at :: "Level \<Rightarrow> place \<Rightarrow> DispatchAction \<Rightarrow> int \<Rightarrow> Writer" where
  "writer_at level place action vlevel =
     new_Writer level (fst place) (fst (snd place)) (snd (snd place)) action vlevel"

definition write_log ::
  "'e library \<Rightarrow> Level \<Rightarrow> DispatchAction \<Rightarrow> place \<Rightarrow> string list \<Rightarrow> log_arg list \<Rightarrow>
     (unit, ('e, 'z) storage_scheme) io" where
  "write_log lib level action place ids args =
     log_statement (lib_os lib) (lib_ident lib) (lib_color lib) (writer_at level place action 0) ids args"

text \<open>\<open>if\<close> before a statement.\<close>

definition guarded :: "(bool, 'w) io \<Rightarrow> (unit, 'w) io \<Rightarrow> (unit, 'w) io" where
  "guarded condition m = bindE condition (\<lambda>b. if b then m else ret ())"

definition write_log_if ::
  "'e library \<Rightarrow> (bool, ('e, 'z) storage_scheme) io \<Rightarrow> Level \<Rightarrow> DispatchAction \<Rightarrow> place \<Rightarrow> string list \<Rightarrow>
     log_arg list \<Rightarrow> (unit, ('e, 'z) storage_scheme) io" where
  "write_log_if lib condition level action place ids args =
     guarded condition (write_log lib level action place ids args)"

text \<open>The storage's counters, for the place of a statement.\<close>

definition counted_at ::
  "(string \<Rightarrow> nat \<Rightarrow> nat \<Rightarrow> counters \<Rightarrow> bool \<times> counters) \<Rightarrow> place \<Rightarrow> nat \<Rightarrow>
     (bool, ('e, 'z) storage_scheme) io" where
  "counted_at validate place n =
     bindE (getE st_hitCounters) (\<lambda>cs.
     let (r, cs') = validate (fst place) (fst (snd place)) n cs in
     thenE (modifyE (\<lambda>s. s\<lparr>st_hitCounters := cs'\<rparr>)) (ret r))"

definition validateEveryNCounter :: "place \<Rightarrow> nat \<Rightarrow> (bool, ('e, 'z) storage_scheme) io" where
  "validateEveryNCounter place occasion = counted_at validateEveryN place occasion"

definition validateAfterNCounter :: "place \<Rightarrow> nat \<Rightarrow> (bool, ('e, 'z) storage_scheme) io" where
  "validateAfterNCounter place n = counted_at validateAfterN place n"

definition validateNTimesCounter :: "place \<Rightarrow> nat \<Rightarrow> (bool, ('e, 'z) storage_scheme) io" where
  "validateNTimesCounter place n = counted_at validateNTimes place n"

definition write_log_every_n ::
  "'e library \<Rightarrow> nat \<Rightarrow> Level \<Rightarrow> DispatchAction \<Rightarrow> place \<Rightarrow> string list \<Rightarrow> log_arg list \<Rightarrow>
     (unit, ('e, 'z) storage_scheme) io" where
  "write_log_every_n lib occasion level action place ids args =
     guarded (validateEveryNCounter place occasion) (write_log lib level action place ids args)"

definition write_log_after_n ::
  "'e library \<Rightarrow> nat \<Rightarrow> Level \<Rightarrow> DispatchAction \<Rightarrow> place \<Rightarrow> string list \<Rightarrow> log_arg list \<Rightarrow>
     (unit, ('e, 'z) storage_scheme) io" where
  "write_log_after_n lib n level action place ids args =
     guarded (validateAfterNCounter place n) (write_log lib level action place ids args)"

definition write_log_n_times ::
  "'e library \<Rightarrow> nat \<Rightarrow> Level \<Rightarrow> DispatchAction \<Rightarrow> place \<Rightarrow> string list \<Rightarrow> log_arg list \<Rightarrow>
     (unit, ('e, 'z) storage_scheme) io" where
  "write_log_n_times lib n level action place ids args =
     guarded (validateNTimesCounter place n) (write_log lib level action place ids args)"

section \<open>Statements of a level\<close>

text \<open>
  \<open>CINFO\<close>, \<open>CWARNING\<close> and so on, which differ in their level only. What is not compiled in neither writes
  nor counts.
\<close>

definition if_compiled :: "'e library \<Rightarrow> Level \<Rightarrow> (unit, 'w) io \<Rightarrow> (unit, 'w) io" where
  "if_compiled lib level m = (if lib_compiled lib level then m else ret ())"

definition CLEVEL ::
  "'e library \<Rightarrow> Level \<Rightarrow> DispatchAction \<Rightarrow> place \<Rightarrow> string list \<Rightarrow> log_arg list \<Rightarrow>
     (unit, ('e, 'z) storage_scheme) io" where
  "CLEVEL lib level action place ids args =
     if_compiled lib level (write_log lib level action place ids args)"

definition CLEVEL_IF ::
  "'e library \<Rightarrow> Level \<Rightarrow> (bool, ('e, 'z) storage_scheme) io \<Rightarrow> DispatchAction \<Rightarrow> place \<Rightarrow> string list \<Rightarrow>
     log_arg list \<Rightarrow> (unit, ('e, 'z) storage_scheme) io" where
  "CLEVEL_IF lib level condition action place ids args =
     if_compiled lib level (write_log_if lib condition level action place ids args)"

definition CLEVEL_EVERY_N ::
  "'e library \<Rightarrow> Level \<Rightarrow> nat \<Rightarrow> DispatchAction \<Rightarrow> place \<Rightarrow> string list \<Rightarrow> log_arg list \<Rightarrow>
     (unit, ('e, 'z) storage_scheme) io" where
  "CLEVEL_EVERY_N lib level occasion action place ids args =
     if_compiled lib level (write_log_every_n lib occasion level action place ids args)"

definition CLEVEL_AFTER_N ::
  "'e library \<Rightarrow> Level \<Rightarrow> nat \<Rightarrow> DispatchAction \<Rightarrow> place \<Rightarrow> string list \<Rightarrow> log_arg list \<Rightarrow>
     (unit, ('e, 'z) storage_scheme) io" where
  "CLEVEL_AFTER_N lib level n action place ids args =
     if_compiled lib level (write_log_after_n lib n level action place ids args)"

definition CLEVEL_N_TIMES ::
  "'e library \<Rightarrow> Level \<Rightarrow> nat \<Rightarrow> DispatchAction \<Rightarrow> place \<Rightarrow> string list \<Rightarrow> log_arg list \<Rightarrow>
     (unit, ('e, 'z) storage_scheme) io" where
  "CLEVEL_N_TIMES lib level n action place ids args =
     if_compiled lib level (write_log_n_times lib n level action place ids args)"

text \<open>Verbose statements. The level is tested first, so that a statement that is off is not counted.\<close>

definition VLOG_IS_ON :: "int \<Rightarrow> place \<Rightarrow> (bool, ('e, 'z) storage_scheme) io" where
  "VLOG_IS_ON verboseLevel place =
     getE (\<lambda>s. allowed (st_flags s) verboseLevel (Some (fst place)) (st_vRegistry s))"

definition CVERBOSE_IF ::
  "'e library \<Rightarrow> (bool, ('e, 'z) storage_scheme) io \<Rightarrow> int \<Rightarrow> DispatchAction \<Rightarrow> place \<Rightarrow> string list \<Rightarrow>
     log_arg list \<Rightarrow> (unit, ('e, 'z) storage_scheme) io" where
  "CVERBOSE_IF lib condition vlevel action place ids args =
     if_compiled lib Level_Verbose
       (guarded (VLOG_IS_ON vlevel place) (guarded condition
         (log_statement (lib_os lib) (lib_ident lib) (lib_color lib)
            (writer_at Level_Verbose place action vlevel) ids args)))"

definition CVERBOSE ::
  "'e library \<Rightarrow> int \<Rightarrow> DispatchAction \<Rightarrow> place \<Rightarrow> string list \<Rightarrow> log_arg list \<Rightarrow>
     (unit, ('e, 'z) storage_scheme) io" where
  "CVERBOSE lib vlevel action place ids args =
     if_compiled lib Level_Verbose
       (guarded (VLOG_IS_ON vlevel place)
         (log_statement (lib_os lib) (lib_ident lib) (lib_color lib)
            (writer_at Level_Verbose place action vlevel) ids args))"

definition CVERBOSE_EVERY_N ::
  "'e library \<Rightarrow> nat \<Rightarrow> int \<Rightarrow> DispatchAction \<Rightarrow> place \<Rightarrow> string list \<Rightarrow> log_arg list \<Rightarrow>
     (unit, ('e, 'z) storage_scheme) io" where
  "CVERBOSE_EVERY_N lib occasion vlevel action place ids args =
     CVERBOSE_IF lib (validateEveryNCounter place occasion) vlevel action place ids args"

definition CVERBOSE_AFTER_N ::
  "'e library \<Rightarrow> nat \<Rightarrow> int \<Rightarrow> DispatchAction \<Rightarrow> place \<Rightarrow> string list \<Rightarrow> log_arg list \<Rightarrow>
     (unit, ('e, 'z) storage_scheme) io" where
  "CVERBOSE_AFTER_N lib n vlevel action place ids args =
     CVERBOSE_IF lib (validateAfterNCounter place n) vlevel action place ids args"

definition CVERBOSE_N_TIMES ::
  "'e library \<Rightarrow> nat \<Rightarrow> int \<Rightarrow> DispatchAction \<Rightarrow> place \<Rightarrow> string list \<Rightarrow> log_arg list \<Rightarrow>
     (unit, ('e, 'z) storage_scheme) io" where
  "CVERBOSE_N_TIMES lib n vlevel action place ids args =
     CVERBOSE_IF lib (validateNTimesCounter place n) vlevel action place ids args"


section \<open>Statements of a program\<close>

text \<open>To any loggers.\<close>

definition CLOG :: "'e library \<Rightarrow> Level \<Rightarrow> place \<Rightarrow> string list \<Rightarrow> log_arg list \<Rightarrow> (unit, ('e, 'z) storage_scheme) io" where
  "CLOG lib level = CLEVEL lib level DA_NormalLog"

definition CVLOG :: "'e library \<Rightarrow> int \<Rightarrow> place \<Rightarrow> string list \<Rightarrow> log_arg list \<Rightarrow> (unit, ('e, 'z) storage_scheme) io" where
  "CVLOG lib vlevel = CVERBOSE lib vlevel DA_NormalLog"

definition CLOG_IF ::
  "'e library \<Rightarrow> (bool, ('e, 'z) storage_scheme) io \<Rightarrow> Level \<Rightarrow> place \<Rightarrow> string list \<Rightarrow> log_arg list \<Rightarrow>
     (unit, ('e, 'z) storage_scheme) io" where
  "CLOG_IF lib condition level = CLEVEL_IF lib level condition DA_NormalLog"

definition CVLOG_IF ::
  "'e library \<Rightarrow> (bool, ('e, 'z) storage_scheme) io \<Rightarrow> int \<Rightarrow> place \<Rightarrow> string list \<Rightarrow> log_arg list \<Rightarrow>
     (unit, ('e, 'z) storage_scheme) io" where
  "CVLOG_IF lib condition vlevel = CVERBOSE_IF lib condition vlevel DA_NormalLog"

text \<open>Those that count, by what they do with the count.\<close>

datatype counting = Every_N | After_N | N_Times

fun CLOG_counted ::
  "'e library \<Rightarrow> counting \<Rightarrow> nat \<Rightarrow> Level \<Rightarrow> place \<Rightarrow> string list \<Rightarrow> log_arg list \<Rightarrow>
     (unit, ('e, 'z) storage_scheme) io" where
  "CLOG_counted lib Every_N n level = CLEVEL_EVERY_N lib level n DA_NormalLog"
| "CLOG_counted lib After_N n level = CLEVEL_AFTER_N lib level n DA_NormalLog"
| "CLOG_counted lib N_Times n level = CLEVEL_N_TIMES lib level n DA_NormalLog"

fun CVLOG_counted ::
  "'e library \<Rightarrow> counting \<Rightarrow> nat \<Rightarrow> int \<Rightarrow> place \<Rightarrow> string list \<Rightarrow> log_arg list \<Rightarrow>
     (unit, ('e, 'z) storage_scheme) io" where
  "CVLOG_counted lib Every_N n vlevel = CVERBOSE_EVERY_N lib n vlevel DA_NormalLog"
| "CVLOG_counted lib After_N n vlevel = CVERBOSE_AFTER_N lib n vlevel DA_NormalLog"
| "CVLOG_counted lib N_Times n vlevel = CVERBOSE_N_TIMES lib n vlevel DA_NormalLog"

text \<open>To the default logger.\<close>

definition LOG_IF ::
  "'e library \<Rightarrow> (bool, ('e, 'z) storage_scheme) io \<Rightarrow> Level \<Rightarrow> place \<Rightarrow> log_arg list \<Rightarrow>
     (unit, ('e, 'z) storage_scheme) io" where
  "LOG_IF lib condition level place args = CLOG_IF lib condition level place [kDefaultLoggerId] args"

definition LOG_counted ::
  "'e library \<Rightarrow> counting \<Rightarrow> nat \<Rightarrow> Level \<Rightarrow> place \<Rightarrow> log_arg list \<Rightarrow> (unit, ('e, 'z) storage_scheme) io" where
  "LOG_counted lib kind n level place args = CLOG_counted lib kind n level place [kDefaultLoggerId] args"

definition VLOG ::
  "'e library \<Rightarrow> int \<Rightarrow> place \<Rightarrow> log_arg list \<Rightarrow> (unit, ('e, 'z) storage_scheme) io" where
  "VLOG lib vlevel place args = CVLOG lib vlevel place [kDefaultLoggerId] args"

definition VLOG_IF ::
  "'e library \<Rightarrow> (bool, ('e, 'z) storage_scheme) io \<Rightarrow> int \<Rightarrow> place \<Rightarrow> log_arg list \<Rightarrow>
     (unit, ('e, 'z) storage_scheme) io" where
  "VLOG_IF lib condition vlevel place args = CVLOG_IF lib condition vlevel place [kDefaultLoggerId] args"

definition VLOG_counted ::
  "'e library \<Rightarrow> counting \<Rightarrow> nat \<Rightarrow> int \<Rightarrow> place \<Rightarrow> log_arg list \<Rightarrow> (unit, ('e, 'z) storage_scheme) io" where
  "VLOG_counted lib kind n vlevel place args = CVLOG_counted lib kind n vlevel place [kDefaultLoggerId] args"

text \<open>In debug builds only: the prefix of the statements whose names begin with D.\<close>

definition debug_only :: "'e library \<Rightarrow> (unit, 'w) io \<Rightarrow> (unit, 'w) io" where
  "debug_only lib m = (if lib_compiled lib Level_Debug then m else ret ())"

text \<open>
  With the error of the last system call: the destructor of \<open>PErrorWriter\<close> adds it to the stream of the
  writer's logger. \<open>errno\<close> and what \<open>strerror\<close> says of it are arguments.
\<close>

definition perror_statement ::
  "'e library \<Rightarrow> (int \<Rightarrow> string) \<Rightarrow> int \<Rightarrow> Writer \<Rightarrow> string list \<Rightarrow> log_arg list \<Rightarrow>
     (unit, ('e, 'z) storage_scheme) io" where
  "perror_statement lib strerror errno w0 ids args =
     bindE (construct (lib_os lib) (lib_ident lib) (lib_color lib) ids w0) (\<lambda>w.
     thenE (write_args w args)
     (thenE (if w_proceed w
             then set_stream (the (w_logger w))
                    (\<lambda>t. t @ '': '' @ strerror errno @ '' ['' @ show_int errno @ '']'')
             else ret ())
        (processDispatch (lib_os lib) (lib_ident lib) (lib_color lib) w)))"

definition CPLOG ::
  "'e library \<Rightarrow> (int \<Rightarrow> string) \<Rightarrow> int \<Rightarrow> Level \<Rightarrow> place \<Rightarrow> string list \<Rightarrow> log_arg list \<Rightarrow>
     (unit, ('e, 'z) storage_scheme) io" where
  "CPLOG lib strerror errno level place ids args =
     if_compiled lib level (perror_statement lib strerror errno (writer_at level place DA_NormalLog 0) ids args)"

definition CPLOG_IF ::
  "'e library \<Rightarrow> (int \<Rightarrow> string) \<Rightarrow> int \<Rightarrow> (bool, ('e, 'z) storage_scheme) io \<Rightarrow> Level \<Rightarrow> place \<Rightarrow> string list \<Rightarrow>
     log_arg list \<Rightarrow> (unit, ('e, 'z) storage_scheme) io" where
  "CPLOG_IF lib strerror errno condition level place ids args =
     if_compiled lib level (guarded condition
       (perror_statement lib strerror errno (writer_at level place DA_NormalLog 0) ids args))"

definition PLOG ::
  "'e library \<Rightarrow> (int \<Rightarrow> string) \<Rightarrow> int \<Rightarrow> Level \<Rightarrow> place \<Rightarrow> log_arg list \<Rightarrow> (unit, ('e, 'z) storage_scheme) io" where
  "PLOG lib strerror errno level place args = CPLOG lib strerror errno level place [kDefaultLoggerId] args"

section \<open>Checks\<close>

text \<open>\<open>text\<close> is the source text of the condition.\<close>

definition check_failed :: "string \<Rightarrow> log_arg list" where
  "check_failed source = [Simple ''Check failed: ['', Simple source, Simple ''] '']"

definition negated :: "(bool, 'w) io \<Rightarrow> (bool, 'w) io" where
  "negated condition = bindE condition (\<lambda>b. ret (\<not> b))"

definition CCHECK ::
  "'e library \<Rightarrow> (bool, ('e, 'z) storage_scheme) io \<Rightarrow> string \<Rightarrow> place \<Rightarrow> string list \<Rightarrow> log_arg list \<Rightarrow>
     (unit, ('e, 'z) storage_scheme) io" where
  "CCHECK lib condition source place ids args =
     CLOG_IF lib (negated condition) Level_Fatal place ids (check_failed source @ args)"

definition CPCHECK ::
  "'e library \<Rightarrow> (int \<Rightarrow> string) \<Rightarrow> int \<Rightarrow> (bool, ('e, 'z) storage_scheme) io \<Rightarrow> string \<Rightarrow> place \<Rightarrow> string list \<Rightarrow>
     log_arg list \<Rightarrow> (unit, ('e, 'z) storage_scheme) io" where
  "CPCHECK lib strerror errno condition source place ids args =
     CPLOG_IF lib strerror errno (negated condition) Level_Fatal place ids (check_failed source @ args)"

definition CHECK ::
  "'e library \<Rightarrow> (bool, ('e, 'z) storage_scheme) io \<Rightarrow> string \<Rightarrow> place \<Rightarrow> log_arg list \<Rightarrow>
     (unit, ('e, 'z) storage_scheme) io" where
  "CHECK lib condition source place args = CCHECK lib condition source place [kDefaultLoggerId] args"

text \<open>Comparisons, of values that were read and their source texts.\<close>

datatype comparison = EQ | NE | LT | GT | LE | GE

fun comparison_text :: "comparison \<Rightarrow> string" where
  "comparison_text EQ = '' == ''"
| "comparison_text NE = '' != ''"
| "comparison_text LT = '' < ''"
| "comparison_text GT = '' > ''"
| "comparison_text LE = '' <= ''"
| "comparison_text GE = '' >= ''"

fun compares :: "comparison \<Rightarrow> 'a::linorder \<Rightarrow> 'a \<Rightarrow> bool" where
  "compares EQ a b \<longleftrightarrow> a = b"
| "compares NE a b \<longleftrightarrow> a \<noteq> b"
| "compares LT a b \<longleftrightarrow> a < b"
| "compares GT a b \<longleftrightarrow> a > b"
| "compares LE a b \<longleftrightarrow> a \<le> b"
| "compares GE a b \<longleftrightarrow> a \<ge> b"

definition CCHECK_compare ::
  "'e library \<Rightarrow> comparison \<Rightarrow> ('a::linorder) \<times> string \<Rightarrow> 'a \<times> string \<Rightarrow> place \<Rightarrow> string list \<Rightarrow> log_arg list \<Rightarrow>
     (unit, ('e, 'z) storage_scheme) io" where
  "CCHECK_compare lib c a b place ids args =
     CCHECK lib (ret (compares c (fst a) (fst b))) (snd a @ comparison_text c @ snd b) place ids args"

text \<open>
  \<open>checkNotNull\<close> logs to the first of the loggers that it is given, at its own place in the library.
\<close>

definition checkNotNull ::
  "'e library \<Rightarrow> place \<Rightarrow> 'p option \<Rightarrow> string \<Rightarrow> string list \<Rightarrow> ('p option, ('e, 'z) storage_scheme) io" where
  "checkNotNull lib place p name loggers =
     thenE (CLOG_IF lib (ret (p = None)) Level_Fatal place [hd loggers]
              [Simple ''Check failed: ['', Simple name, Simple '' != nullptr]''])
       (ret p)"

definition CCHECK_STREQ ::
  "'e library \<Rightarrow> string option \<times> string \<Rightarrow> string option \<times> string \<Rightarrow> place \<Rightarrow> string list \<Rightarrow> log_arg list \<Rightarrow>
     (unit, ('e, 'z) storage_scheme) io" where
  "CCHECK_STREQ lib a b place ids args =
     CLOG_IF lib (ret (\<not> cStringEq (fst a) (fst b))) Level_Fatal place ids
       (check_failed (snd a @ '' == '' @ snd b) @ args)"

definition CCHECK_STRNE ::
  "'e library \<Rightarrow> string option \<times> string \<Rightarrow> string option \<times> string \<Rightarrow> place \<Rightarrow> string list \<Rightarrow> log_arg list \<Rightarrow>
     (unit, ('e, 'z) storage_scheme) io" where
  "CCHECK_STRNE lib a b place ids args =
     CLOG_IF lib (ret (cStringEq (fst a) (fst b))) Level_Fatal place ids
       (check_failed (snd a @ '' != '' @ snd b) @ args)"

section \<open>What the statements write\<close>

lemma store_hitCounters [simp]: "st_hitCounters (store lid lg s) = st_hitCounters s"
  by (simp add: store_def)

lemma ready_hitCounters [simp]: "ready b f lid (s\<lparr>st_hitCounters := cs\<rparr>) = ready b f lid s"
  by (simp add: ready_def)

lemma guarded_run:
  "condition s = Some (Inr r, s') \<Longrightarrow> guarded condition m s = (if r then m s' else Some (Inr (), s'))"
  by (simp add: guarded_def io_simps)

text \<open>A statement to the default logger that is compiled in is \<open>LOG\<close>, if it is reached.\<close>

lemma write_log_LOG:
  "write_log lib level DA_NormalLog place [lid] args =
     LOG (lib_os lib) (lib_ident lib) (lib_color lib) lid place (level, args)"
  by (simp add: write_log_def LOG_def writer_at_def)

definition location_of :: "place \<Rightarrow> location" where
  "location_of place = (fst place, fst (snd place))"

fun count_call :: "counting \<Rightarrow> (location \<Rightarrow> nat) \<Rightarrow> location \<Rightarrow> counters \<Rightarrow> bool \<times> counters" where
  "count_call Every_N N = every_call N"
| "count_call After_N N = after_call N"
| "count_call N_Times N = times_call N"

lemma counted_at_run:
  "counted_at validate place n s =
     Some (Inr (fst (validate (fst place) (fst (snd place)) n (st_hitCounters s))),
       s\<lparr>st_hitCounters := snd (validate (fst place) (fst (snd place)) n (st_hitCounters s))\<rparr>)"
  by (simp add: counted_at_def io_simps case_prod_unfold Let_def)

lemma LOG_counted_run:
  assumes "lib_compiled lib level"
  shows "LOG_counted lib kind (N (location_of place)) level place args s =
    (let rc = count_call kind N (location_of place) (st_hitCounters s); s' = s\<lparr>st_hitCounters := snd rc\<rparr> in
     if fst rc then LOG (lib_os lib) (lib_ident lib) (lib_color lib) kDefaultLoggerId place (level, args) s'
     else Some (Inr (), s'))"
  using assms
  by (cases kind)
    (simp_all add: LOG_counted_def CLEVEL_EVERY_N_def CLEVEL_AFTER_N_def CLEVEL_N_TIMES_def if_compiled_def
      write_log_every_n_def write_log_after_n_def write_log_n_times_def write_log_LOG
      validateEveryNCounter_def validateAfterNCounter_def validateNTimesCounter_def guarded_run [OF counted_at_run]
      every_call_def after_call_def times_call_def location_of_def Let_def)

text \<open>A run of counted statements, each place with its own number.\<close>

fun run_counted ::
  "'e library \<Rightarrow> counting \<Rightarrow> (location \<Rightarrow> nat) \<Rightarrow> (place \<times> (Level \<times> log_arg list)) list \<Rightarrow>
     (unit, ('e, 'z) storage_scheme) io" where
  "run_counted lib kind N [] = ret ()"
| "run_counted lib kind N ((place, st) # sts) =
     thenE (LOG_counted lib kind (N (location_of place)) (fst st) place (snd st)) (run_counted lib kind N sts)"

definition said :: "string \<Rightarrow> (place \<times> (Level \<times> log_arg list)) \<Rightarrow> bool \<Rightarrow> string" where
  "said b st r = (if r then log_line b (snd st) else [])"

lemma run_counted_run:
  assumes dev: "device_works (lib_os lib) file_text console" and b: "CHR ''%'' \<notin> set b"
    and "ready b f kDefaultLoggerId s"
    and "\<forall>(place, st) \<in> set sts. loggable (fst st) \<and> lib_compiled lib (fst st)"
  shows "\<exists>s'. run_counted lib kind N sts s = Some (Inr (), s') \<and> ready b f kDefaultLoggerId s' \<and>
    shows_line file_text console f
      (concat (map2 (said b) sts
        (fst (run_calls (count_call kind N) (map (location_of \<circ> fst) sts) (st_hitCounters s)))))
      (log_env s) (log_env s')"
  using assms(3,4)
proof (induction sts arbitrary: s)
  case Nil
  then show ?case by (simp add: ret_run shows_line_def)
next
  case (Cons e sts)
  obtain place level args where e: "e = (place, (level, args))" by (metis prod.exhaust)
  have l: "loggable (fst (level, args))" "lib_compiled lib level" using Cons.prems(2) e by auto
  let ?rc = "count_call kind N (location_of place) (st_hitCounters s)"
  let ?s1 = "s\<lparr>st_hitCounters := snd ?rc\<rparr>"
  have "\<exists>s2. LOG_counted lib kind (N (location_of place)) level place args s = Some (Inr (), s2) \<and>
      ready b f kDefaultLoggerId s2 \<and> st_hitCounters s2 = snd ?rc \<and>
      shows_line file_text console f (said b e (fst ?rc)) (log_env s) (log_env s2)"
  proof (cases "fst ?rc")
    case True
    have rdy: "ready b f kDefaultLoggerId ?s1" using Cons.prems(1) by simp
    obtain ev lg where "LOG (lib_os lib) (lib_ident lib) (lib_color lib) kDefaultLoggerId place (level, args) ?s1 =
        Some (Inr (), store kDefaultLoggerId lg (?s1\<lparr>log_env := ev\<rparr>))"
      "ready b f kDefaultLoggerId (store kDefaultLoggerId lg (?s1\<lparr>log_env := ev\<rparr>))"
      "shows_line file_text console f (log_line b (level, args)) (log_env ?s1) ev"
      by (rule LOG_run [OF dev rdy b l(1)])
    then show ?thesis using True e by (simp add: LOG_counted_run [OF l(2)] Let_def said_def)
  next
    case False
    then show ?thesis
      using Cons.prems(1) by (simp add: LOG_counted_run [OF l(2)] Let_def said_def shows_line_def)
  qed
  then obtain s2 where s2: "LOG_counted lib kind (N (location_of place)) level place args s = Some (Inr (), s2)"
    "ready b f kDefaultLoggerId s2" "st_hitCounters s2 = snd ?rc"
    "shows_line file_text console f (said b e (fst ?rc)) (log_env s) (log_env s2)" by blast
  have rest: "\<forall>(place, st) \<in> set sts. loggable (fst st) \<and> lib_compiled lib (fst st)"
    using Cons.prems(2) by simp
  obtain s' where s': "run_counted lib kind N sts s2 = Some (Inr (), s')" "ready b f kDefaultLoggerId s'"
    "shows_line file_text console f
      (concat (map2 (said b) sts
        (fst (run_calls (count_call kind N) (map (location_of \<circ> fst) sts) (st_hitCounters s2)))))
      (log_env s2) (log_env s')"
    using Cons.IH [OF s2(2) rest] by blast
  have "run_counted lib kind N (e # sts) s = Some (Inr (), s')"
    using s2(1) s'(1) e by (simp add: io_simps)
  then show ?case
    using s'(2) shows_line_trans [OF s2(4) s'(3)] s2(3) e by (simp add: case_prod_unfold Let_def comp_def)
qed


text \<open>Whether the k-th call at a place is due.\<close>

fun due :: "counting \<Rightarrow> nat \<Rightarrow> nat \<Rightarrow> bool" where
  "due Every_N n k \<longleftrightarrow> n dvd k"
| "due After_N n k \<longleftrightarrow> n < k"
| "due N_Times n k \<longleftrightarrow> k \<le> n"

lemma counted_answers:
  assumes "\<forall>loc. 1 \<le> N loc \<and> N loc \<le> kMaxLogPerCounter" and "length calls < 2 ^ 64" and "i < length calls"
  shows "fst (run_calls (count_call kind N) calls []) ! i \<longleftrightarrow>
    due kind (N (calls ! i)) (count_list (take (Suc i) calls) (calls ! i))"
proof (cases kind)
  case Every_N
  moreover have "1 \<le> N (calls ! i) \<and> N (calls ! i) \<le> kMaxLogPerCounter" using assms(1) by blast
  ultimately show ?thesis using every_n.run_answers [OF assms(3), of N] by simp
next
  case After_N
  have "N (calls ! i) \<le> kMaxLogPerCounter" using assms(1) by blast
  then have "N (calls ! i) < 2 ^ 64" by (simp add: kMaxLogPerCounter_def)
  then show ?thesis using After_N after_n.run_answers [OF assms(3), of N] by simp
next
  case N_Times
  have "count_list (take (Suc i) calls) (calls ! i) \<le> length (take (Suc i) calls)" by (rule count_le_length)
  then have "count_list (take (Suc i) calls) (calls ! i) < 2 ^ 64" using assms(2) by simp
  then show ?thesis using N_Times n_times.run_answers [OF assms(3), of N] by simp
qed

lemma length_run_calls: "length (fst (run_calls validate calls cs)) = length calls"
  by (induction calls arbitrary: cs) (simp_all add: case_prod_unfold Let_def)

text \<open>
  C39: what counted statements leave in the log. From a library whose counters are unused, each place with
  a number from 1 to the bound of the counters, a run of LOG_EVERY_N statements returns and writes, in
  order, exactly the lines of those that are reached for a multiple of the number's time at their place;
  one of LOG_AFTER_N those reached more often than the number, and one of LOG_N_TIMES those reached at
  most that often.
\<close>

theorem counted_lines:
  assumes "device_works (lib_os lib) file_text console" and "CHR ''%'' \<notin> set b"
    and "ready b f kDefaultLoggerId s" and "st_hitCounters s = []"
    and "\<forall>(place, st) \<in> set sts. loggable (fst st) \<and> lib_compiled lib (fst st)"
    and "\<forall>loc. 1 \<le> N loc \<and> N loc \<le> kMaxLogPerCounter" and "length sts < 2 ^ 64"
  shows "\<exists>s'. run_counted lib kind N sts s = Some (Inr (), s') \<and> ready b f kDefaultLoggerId s' \<and>
    shows_line file_text console f
      (concat (map (\<lambda>i. said b (sts ! i)
         (let locs = map (location_of \<circ> fst) sts
          in due kind (N (locs ! i)) (count_list (take (Suc i) locs) (locs ! i)))) [0..<length sts]))
      (log_env s) (log_env s')"
proof -
  let ?locs = "map (location_of \<circ> fst) sts"
  let ?rs = "fst (run_calls (count_call kind N) ?locs [])"
  have "map2 (said b) sts ?rs = map (\<lambda>i. said b (sts ! i)
      (let locs = ?locs in due kind (N (locs ! i)) (count_list (take (Suc i) locs) (locs ! i)))) [0..<length sts]"
    using counted_answers [OF assms(6), of ?locs _ kind] assms(7)
    by (intro nth_equalityI) (simp_all add: length_run_calls)
  then show ?thesis using run_counted_run [OF assms(1,2,3,5), where kind = kind and N = N] assms(4) by simp
qed

theorem counted_lines_witness:
  "let lib = \<lparr>lib_os = memory_os, lib_ident = \<lparr>s_currentUser = ''barn'', s_currentHost = ''host''\<rparr>,
       lib_color = False, lib_compiled = \<lambda>_. True\<rparr>;
     stmt = \<lambda>line t. ((''a.cpp'', line, ''''), (Level_Info, [Simple t])) in
   \<exists>s s' :: (((string \<Rightarrow> string) \<times> string), unit) storage_scheme.
     run_counted lib Every_N (\<lambda>_. 2)
       [stmt 1 ''one'', stmt 2 ''other'', stmt 1 ''two'', stmt 1 ''three'', stmt 1 ''four''] s = Some (Inr (), s') \<and>
     snd (log_env s') = snd (log_env s) @ ''INFO  [web:access] : two'' @ [NEWLINE] @ ''INFO  [web:access] : four'' @ [NEWLINE]"
proof -
  let ?lib = "\<lparr>lib_os = memory_os, lib_ident = \<lparr>s_currentUser = ''barn'', s_currentHost = ''host''\<rparr>,
    lib_color = False, lib_compiled = \<lambda>_. True\<rparr>"
  let ?sts = "[((''a.cpp'', 1 :: nat, ''''), (Level_Info, [Simple ''one''])),
    ((''a.cpp'', 2, ''''), (Level_Info, [Simple ''other''])), ((''a.cpp'', 1, ''''), (Level_Info, [Simple ''two''])),
    ((''a.cpp'', 1, ''''), (Level_Info, [Simple ''three''])), ((''a.cpp'', 1, ''''), (Level_Info, [Simple ''four'']))]"
  obtain s :: "(((string \<Rightarrow> string) \<times> string), unit) storage_scheme"
    where s: "ready '' [web:access] : '' kDefaultLogFile ''default'' s"
    using ready_state by blast
  let ?s = "s\<lparr>st_hitCounters := []\<rparr>"
  have dev: "device_works (lib_os ?lib) fst snd" by (simp add: memory_os_works)
  have rdy: "ready '' [web:access] : '' kDefaultLogFile kDefaultLoggerId ?s" using s by (simp add: kDefaultLoggerId_def)
  have plain: "CHR ''%'' \<notin> set '' [web:access] : ''" by simp
  have counters: "st_hitCounters ?s = []" by simp
  have levels: "\<forall>(place, st) \<in> set ?sts. loggable (fst st) \<and> lib_compiled ?lib (fst st)"
    by (simp add: loggable_def)
  have bounds: "\<forall>loc :: location. 1 \<le> (\<lambda>_. 2 :: nat) loc \<and> (\<lambda>_. 2) loc \<le> kMaxLogPerCounter"
    by (simp add: kMaxLogPerCounter_def)
  have len: "length ?sts < 2 ^ 64" by simp
  have written: "concat (map (\<lambda>i. said '' [web:access] : '' (?sts ! i)
      (let locs = map (location_of \<circ> fst) ?sts
       in due Every_N 2 (count_list (take (Suc i) locs) (locs ! i)))) [0..<length ?sts]) =
    ''INFO  [web:access] : two'' @ [NEWLINE] @ ''INFO  [web:access] : four'' @ [NEWLINE]"
    by (simp add: upt_rec location_of_def said_def log_line_def)
  obtain s' where "run_counted ?lib Every_N (\<lambda>_. 2) ?sts ?s = Some (Inr (), s')"
    "shows_line fst snd kDefaultLogFile
      (''INFO  [web:access] : two'' @ [NEWLINE] @ ''INFO  [web:access] : four'' @ [NEWLINE]) (log_env ?s) (log_env s')"
    using counted_lines [OF dev plain rdy counters levels bounds len, where kind = Every_N] unfolding written by blast
  then have "run_counted ?lib Every_N (\<lambda>_. 2) ?sts ?s = Some (Inr (), s') \<and>
      snd (log_env s') = snd (log_env ?s) @ ''INFO  [web:access] : two'' @ [NEWLINE] @ ''INFO  [web:access] : four'' @ [NEWLINE]"
    by (simp add: shows_line_def)
  then show ?thesis unfolding Let_def by (intro exI [of _ ?s] exI [of _ s'])
qed


text \<open>A conditional statement to the default logger, whose condition changes nothing.\<close>

lemma LOG_IF_run:
  assumes "lib_compiled lib level" and "condition s = Some (Inr r, s)"
  shows "LOG_IF lib condition level place args s =
    (if r then LOG (lib_os lib) (lib_ident lib) (lib_color lib) kDefaultLoggerId place (level, args) s
     else Some (Inr (), s))"
  using assms
  by (simp add: LOG_IF_def CLOG_IF_def CLEVEL_IF_def if_compiled_def write_log_if_def write_log_LOG guarded_run)

lemma CHECK_LOG_IF:
  "CHECK lib condition source place args =
     LOG_IF lib (negated condition) Level_Fatal place (check_failed source @ args)"
  by (simp add: CHECK_def CCHECK_def LOG_IF_def)

text \<open>
  A check that holds does nothing. One that fails writes its source text and what follows at level
  fatal, then the warning that names its place, and ends the program; unless fatal statements are not
  compiled in, when no check does anything, its condition not even being evaluated.
\<close>

lemma failed_check_aborts:
  assumes "device_works (lib_os lib) file_text console" and "ready b f kDefaultLoggerId s"
    and "CHR ''%'' \<notin> set b" and "condition s = Some (Inr r, s)"
  shows "if \<not> lib_compiled lib Level_Fatal \<or> r then CHECK lib condition source place args s = Some (Inr (), s)
    else \<exists>s'. CHECK lib condition source place args s = Some (Inl (Abort ''Fatal log''), s') \<and>
      ready b f kDefaultLoggerId s' \<and>
      shows_line file_text console f
        (''FATAL'' @ b @ ''Check failed: ['' @ source @ ''] '' @ concat (map arg_text args) @ [NEWLINE] @
         ''WARN '' @ b @ ''Aborting application. Reason: Fatal log at ['' @ fst place @ '':'' @
          show_nat (fst (snd place)) @ '']'' @ [NEWLINE]) (log_env s) (log_env s')"
proof (cases "lib_compiled lib Level_Fatal")
  case True
  have neg: "negated condition s = Some (Inr (\<not> r), s)" using assms(4) by (simp add: negated_def io_simps)
  note run = LOG_IF_run [where condition = "negated condition" and s = s and r = "\<not> r" and place = place
      and args = "check_failed source @ args", OF True neg, folded CHECK_LOG_IF]
  obtain s' where "LOG (lib_os lib) (lib_ident lib) (lib_color lib) kDefaultLoggerId place
      (Level_Fatal, check_failed source @ args) s = Some (Inl (Abort ''Fatal log''), s')"
    "ready b f kDefaultLoggerId s'"
    "shows_line file_text console f
      (log_line b (Level_Fatal, check_failed source @ args) @
       log_line b (Level_Warning, [Simple ''Aborting application. Reason: Fatal log at ['', Simple (fst place),
         Simple '':'', Simple (show_nat (fst (snd place))), Simple '']''])) (log_env s) (log_env s')"
    by (rule fatal_run [OF assms(1-3)])
  then show ?thesis using run True by (simp add: log_line_def check_failed_def)
next
  case False
  then show ?thesis
    by (simp add: CHECK_LOG_IF LOG_IF_def CLOG_IF_def CLEVEL_IF_def if_compiled_def ret_run)
qed

lemma failed_check_aborts_witness:
  "let lib = \<lparr>lib_os = memory_os, lib_ident = \<lparr>s_currentUser = ''barn'', s_currentHost = ''host''\<rparr>,
       lib_color = False, lib_compiled = \<lambda>_. True\<rparr> in
   \<exists>s s' :: (((string \<Rightarrow> string) \<times> string), unit) storage_scheme.
     CHECK lib (ret False) ''n < 3'' (''a.cpp'', 7, '''') [Simple ''n = 4''] s = Some (Inl (Abort ''Fatal log''), s') \<and>
     snd (log_env s') = snd (log_env s)
       @ ''FATAL [web:access] : Check failed: [n < 3] n = 4'' @ [NEWLINE]
       @ ''WARN  [web:access] : Aborting application. Reason: Fatal log at [a.cpp:7]'' @ [NEWLINE]"
proof -
  let ?lib = "\<lparr>lib_os = memory_os, lib_ident = \<lparr>s_currentUser = ''barn'', s_currentHost = ''host''\<rparr>,
    lib_color = False, lib_compiled = \<lambda>_. True\<rparr>"
  obtain s :: "(((string \<Rightarrow> string) \<times> string), unit) storage_scheme"
    where s: "ready '' [web:access] : '' kDefaultLogFile ''default'' s"
    using ready_state by blast
  have dev: "device_works (lib_os ?lib) fst snd" by (simp add: memory_os_works)
  have rdy: "ready '' [web:access] : '' kDefaultLogFile kDefaultLoggerId s" using s by (simp add: kDefaultLoggerId_def)
  have plain: "CHR ''%'' \<notin> set '' [web:access] : ''" by simp
  have cond: "ret False s = Some (Inr False, s)" by (simp add: ret_run)
  have digits: "show_nat 7 = ''7''" by (simp add: show_nat.simps char_of_def bit_0)
  have "\<exists>s'. CHECK ?lib (ret False) ''n < 3'' (''a.cpp'', 7, '''') [Simple ''n = 4''] s =
      Some (Inl (Abort ''Fatal log''), s') \<and>
     snd (log_env s') = snd (log_env s)
       @ ''FATAL [web:access] : Check failed: [n < 3] n = 4'' @ [NEWLINE]
       @ ''WARN  [web:access] : Aborting application. Reason: Fatal log at [a.cpp:7]'' @ [NEWLINE]"
    using failed_check_aborts [where condition = "ret False" and s = s and r = False and source = "''n < 3''"
        and place = "(''a.cpp'', 7, '''')" and args = "[Simple ''n = 4'']", OF dev rdy plain cond]
    by (auto simp: shows_line_def digits)
  then show ?thesis unfolding Let_def by (rule exI [of _ s])
qed

text \<open>A statement with the error of the last system call.\<close>

lemma PLOG_run:
  assumes dev: "device_works (lib_os lib) file_text console" and rdy: "ready b f kDefaultLoggerId s"
    and b: "CHR ''%'' \<notin> set b" and l: "loggable level" and on: "lib_compiled lib level"
  obtains s' where "PLOG lib strerror errno level place args s = Some (Inr (), s')"
    "ready b f kDefaultLoggerId s'"
    "shows_line file_text console f
      (log_line b (level, args @ [Simple ('': '' @ strerror errno @ '' ['' @ show_int errno @ '']'')])) (log_env s) (log_env s')"
proof -
  let ?start = "writer_at level place DA_NormalLog 0"
  let ?w = "?start\<lparr>w_logger := Some kDefaultLoggerId, w_proceed := True\<rparr>"
  let ?errtext = "'': '' @ strerror errno @ '' ['' @ show_int errno @ '']''"
  have held: "holding [] b f kDefaultLoggerId s" using rdy by (simp add: ready_holding)
  have flags: "default_flags (st_flags s)" using rdy by (simp add: ready_def)
  have level: "w_level ?start = level" by (simp add: writer_at_def new_Writer_def)
  have made: "construct (lib_os lib) (lib_ident lib) (lib_color lib) [kDefaultLoggerId] ?start s = Some (Inr ?w, s)"
    using holding_enabled [OF held loggable_dispatched [OF l]] flags level
    by (auto simp: construct_def initializeLogger_def loggers_get_def io_simps)
  have w: "loggable (w_level ?w)" "w_logger ?w = Some kDefaultLoggerId" "w_proceed ?w" "w_dispatchAction ?w = DA_NormalLog"
    using l by (simp_all add: writer_at_def new_Writer_def)
  obtain lg1 where args: "write_args ?w args s = Some (Inr (), store kDefaultLoggerId lg1 s)"
    "holding ([] @ concat (map arg_text args)) b f kDefaultLoggerId (store kDefaultLoggerId lg1 s)"
    by (rule write_args_run [OF held w(2,3)])
  let ?s1 = "store kDefaultLoggerId lg1 s"
  let ?lg2 = "lg1\<lparr>lg_stream := lg_stream lg1 @ ?errtext\<rparr>"
  have lg1: "map_of (st_loggers ?s1) kDefaultLoggerId = Some lg1" "lg_stream lg1 = concat (map arg_text args)"
    using args(2) held by (auto simp: holding_def split: if_splits)
  have noted: "set_stream kDefaultLoggerId (\<lambda>t. t @ ?errtext) ?s1 = Some (Inr (), store kDefaultLoggerId ?lg2 ?s1)"
    using with_logger_run [OF lg1(1), of "\<lambda>lg. ret (lg\<lparr>lg_stream := lg_stream lg @ ?errtext\<rparr>)"]
    by (simp add: set_stream_def io_simps)
  have held2: "holding (concat (map arg_text args) @ ?errtext) b f kDefaultLoggerId (store kDefaultLoggerId ?lg2 ?s1)"
    using args(2) lg1 by (auto simp: holding_def logger_ready_def split: if_splits)
  obtain e lg where sent: "processDispatch (lib_os lib) (lib_ident lib) (lib_color lib) ?w (store kDefaultLoggerId ?lg2 ?s1) =
      Some (Inr (), store kDefaultLoggerId lg ((store kDefaultLoggerId ?lg2 ?s1)\<lparr>log_env := e\<rparr>))"
    "ready b f kDefaultLoggerId (store kDefaultLoggerId lg ((store kDefaultLoggerId ?lg2 ?s1)\<lparr>log_env := e\<rparr>))"
    "shows_line file_text console f
      (level_value (w_level ?w) @ b @ (concat (map arg_text args) @ ?errtext) @ [NEWLINE])
      (log_env (store kDefaultLoggerId ?lg2 ?s1)) e"
    by (rule processDispatch_run [OF dev held2 b w])
  have "PLOG lib strerror errno level place args s =
      Some (Inr (), store kDefaultLoggerId lg ((store kDefaultLoggerId ?lg2 ?s1)\<lparr>log_env := e\<rparr>))"
    using on made args(1) noted sent(1) w(2,3)
    by (simp add: PLOG_def CPLOG_def if_compiled_def perror_statement_def io_simps)
  then show ?thesis
    using that sent(2,3) level by (simp add: log_line_def)
qed

text \<open>
  A statement that is verbose and off neither writes nor counts, nor is its condition evaluated; one
  for debug builds does nothing in others.
\<close>

lemma verbose_off:
  assumes "\<not> allowed (st_flags s) vlevel (Some (fst place)) (st_vRegistry s)"
  shows "VLOG_counted lib kind n vlevel place args s = Some (Inr (), s)"
    and "VLOG_IF lib condition vlevel place args s = Some (Inr (), s)"
    and "VLOG lib vlevel place args s = Some (Inr (), s)"
proof -
  have off: "VLOG_IS_ON vlevel place s = Some (Inr False, s)" using assms by (simp add: VLOG_IS_ON_def io_simps)
  have guarded_off: "guarded (VLOG_IS_ON vlevel place) m s = Some (Inr (), s)" for m
    by (simp add: guarded_def bindE_value [where m = "VLOG_IS_ON vlevel place" and w = s and a = False and w' = s] off ret_run)
  have cond: "CVERBOSE_IF lib c vlevel action place ids args s = Some (Inr (), s)" for c action ids
    by (simp add: CVERBOSE_IF_def if_compiled_def guarded_off ret_run)
  show "VLOG_counted lib kind n vlevel place args s = Some (Inr (), s)"
    by (cases kind) (simp_all add: VLOG_counted_def CVERBOSE_EVERY_N_def CVERBOSE_AFTER_N_def CVERBOSE_N_TIMES_def cond)
  show "VLOG_IF lib condition vlevel place args s = Some (Inr (), s)" by (simp add: VLOG_IF_def CVLOG_IF_def cond)
  show "VLOG lib vlevel place args s = Some (Inr (), s)"
    by (simp add: VLOG_def CVLOG_def CVERBOSE_def if_compiled_def guarded_off ret_run)
qed

end
