(* ===== verification/Elpp_Performance.thy ===== *)
theory Elpp_Performance
  imports Elpp_Macros
begin

text \<open>
  Performance tracking of \<^verbatim>\<open>easylogging++.h\<close>: a tracker notes the time when it is made, logs at
  checkpoints, and logs what its block took when it goes out of scope. The operations on \<open>double\<close> are
  parameters.
\<close>

section \<open>Times\<close>

text \<open>A \<open>timeval\<close>, seconds and microseconds. The unit's number is its place in \<open>kTimeFormats\<close>.\<close>

type_synonym timeval = "int \<times> nat"

datatype TimestampUnit = Microsecond | Millisecond | Second | Minute | Hour | Day

fun unit_number :: "TimestampUnit \<Rightarrow> nat" where
  "unit_number Microsecond = 0"
| "unit_number Millisecond = 1"
| "unit_number Second = 2"
| "unit_number Minute = 3"
| "unit_number Hour = 4"
| "unit_number Day = 5"

definition kTimeFormats :: "(nat \<times> string) list" where
  "kTimeFormats = [(1000, ''mis''), (1000, ''ms''), (60, ''seconds''), (60, ''minutes''), (24, ''hours''), (7, ''days'')]"

record 'd doubles =
  d_of :: "nat \<Rightarrow> 'd"
  d_le :: "'d \<Rightarrow> 'd \<Rightarrow> bool"
  d_div :: "'d \<Rightarrow> 'd \<Rightarrow> 'd"
  d_show :: "'d \<Rightarrow> string"

text \<open>The loop of \<open>formatTime\<close>, over the formats from the current one; the last has no successor.\<close>

fun scale_time :: "'d doubles \<Rightarrow> (nat \<times> string) list \<Rightarrow> 'd \<Rightarrow> 'd \<times> string" where
  "scale_time fp ((v, u) # f # fs) result =
     (if d_le fp result (d_of fp v) then (result, u)
      else scale_time fp (f # fs) (d_div fp result (d_of fp v)))"
| "scale_time fp [(v, u)] result = (result, u)"
| "scale_time fp [] result = (result, [])"

definition formatTime :: "'d doubles \<Rightarrow> nat \<Rightarrow> TimestampUnit \<Rightarrow> string" where
  "formatTime fp time timestampUnit =
     (let (result, u) = scale_time fp (drop (unit_number timestampUnit) kTimeFormats) (d_of fp time)
      in d_show fp result @ '' '' @ u)"

text \<open>The difference is an \<open>unsigned long long\<close>; the division by 1000 is of signed numbers, towards zero.\<close>

definition getTimeDifference :: "timeval \<Rightarrow> timeval \<Rightarrow> TimestampUnit \<Rightarrow> nat" where
  "getTimeDifference endTime startTime timestampUnit =
     (if timestampUnit = Microsecond
      then nat ((1000000 * fst endTime + int (snd endTime) - (1000000 * fst startTime + int (snd startTime))) mod 2 ^ 64)
      else let d = (fst endTime - fst startTime) * 1000000 + (int (snd endTime) - int (snd startTime))
           in nat ((sgn d * (\<bar>d\<bar> div 1000)) mod 2 ^ 64))"

section \<open>Trackers\<close>

text \<open>The storage with its callbacks for trackers, by name, and whether they are enabled.\<close>

record 'e tracking_storage = "'e storage" +
  st_performanceTrackingCallbacks :: "(string \<times> bool) list"

record PerformanceTracker =
  pt_blockName :: string
  pt_timestampUnit :: TimestampUnit
  pt_loggerId :: string
  pt_scopedLog :: bool
  pt_level :: Level
  pt_hasChecked :: bool
  pt_lastCheckpointId :: string
  pt_enabled :: bool
  pt_startTime :: "timeval option"
  pt_endTime :: "timeval option"
  pt_lastCheckpointTime :: "timeval option"

record PerformanceTrackingData =
  pd_complete :: bool
  pd_checkpointId :: string
  pd_place :: place
  pd_formattedTimeTaken :: string

definition installPerformanceTrackingCallback :: "string \<Rightarrow> (bool, ('e, 'z) tracking_storage_scheme) io" where
  "installPerformanceTrackingCallback cid =
     bindE (getE st_performanceTrackingCallbacks) (\<lambda>cbs.
     if map_of cbs cid = None
     then thenE (modifyE (\<lambda>s. s\<lparr>st_performanceTrackingCallbacks := map_insert cid True cbs\<rparr>)) (ret True)
     else ret False)"

definition uninstallPerformanceTrackingCallback :: "string \<Rightarrow> (unit, ('e, 'z) tracking_storage_scheme) io" where
  "uninstallPerformanceTrackingCallback cid =
     modifyE (\<lambda>s. s\<lparr>st_performanceTrackingCallbacks :=
       filter (\<lambda>p. fst p \<noteq> cid) (st_performanceTrackingCallbacks s)\<rparr>)"

definition new_PerformanceTracker ::
  "'e library \<Rightarrow> string \<Rightarrow> TimestampUnit \<Rightarrow> string \<Rightarrow> bool \<Rightarrow> Level \<Rightarrow>
     (PerformanceTracker, ('e, 'z) storage_scheme) io" where
  "new_PerformanceTracker lib blockName timestampUnit loggerId scopedLog level =
     bindE (loggers_get (lib_os lib) (lib_ident lib) loggerId False) (\<lambda>l.
     bindE (case l of
              None \<Rightarrow> ret False
            | Some lid \<Rightarrow> bindE (bindE (find_logger lid) defined) (\<lambda>lg.
                bindE (defined (lg_typedConfigurations lg)) (\<lambda>tc. ret (tc_performanceTracking level tc)))) (\<lambda>enabled.
     bindE (if enabled then bindE (log_call (lo_gettimeofday (lib_os lib))) (\<lambda>tv. ret (Some tv)) else ret None)
       (\<lambda>startTime.
     ret \<lparr>pt_blockName = blockName, pt_timestampUnit = timestampUnit, pt_loggerId = loggerId,
          pt_scopedLog = scopedLog, pt_level = level, pt_hasChecked = False, pt_lastCheckpointId = [],
          pt_enabled = enabled, pt_startTime = startTime, pt_endTime = None, pt_lastCheckpointTime = None\<rparr>)))"

definition getFormattedTimeTaken :: "'d doubles \<Rightarrow> PerformanceTracker \<Rightarrow> string option" where
  "getFormattedTimeTaken fp t =
     (case (pt_endTime t, pt_startTime t) of
        (Some e, Some s) \<Rightarrow> Some (formatTime fp (getTimeDifference e s (pt_timestampUnit t)) (pt_timestampUnit t))
      | _ \<Rightarrow> None)"

section \<open>The default callback\<close>

text \<open>The message, with the time since the start as \<open>taken\<close>.\<close>

definition tracking_message :: "EnumType \<Rightarrow> PerformanceTracker \<Rightarrow> PerformanceTrackingData \<Rightarrow> string \<Rightarrow> string" where
  "tracking_message flags t data taken =
     (if pd_complete data
      then ''Executed ['' @ c_str (pt_blockName t) @ ''] in ['' @ pd_formattedTimeTaken data @ '']''
      else ''Performance checkpoint''
        @ (if pd_checkpointId data \<noteq> [] then '' ['' @ c_str (pd_checkpointId data) @ '']'' else [])
        @ '' for block ['' @ c_str (pt_blockName t) @ ''] : ['' @ taken
        @ (if \<not> hasFlag (logging_flag DisablePerformanceTrackingCheckpointComparison) flags \<and> pt_hasChecked t
           then '' (['' @ pd_formattedTimeTaken data @ ''] from ''
             @ (if pt_lastCheckpointId t = [] then ''last checkpoint''
                else ''checkpoint '' @ [CHR 0x27] @ c_str (pt_lastCheckpointId t) @ [CHR 0x27])
             @ '')]''
           else '']''))"

definition handle_tracking ::
  "'e library \<Rightarrow> 'd doubles \<Rightarrow> PerformanceTracker \<Rightarrow> PerformanceTrackingData \<Rightarrow>
     (unit, ('e, 'z) storage_scheme) io" where
  "handle_tracking lib fp t data =
     bindE (getE st_flags) (\<lambda>flags.
     bindE (if pd_complete data then ret [] else defined (getFormattedTimeTaken fp t)) (\<lambda>taken.
     log_statement (lib_os lib) (lib_ident lib) (lib_color lib)
       (writer_at (pt_level t) (pd_place data) DA_NormalLog 0) [c_str (pt_loggerId t)]
       [Std_String (tracking_message flags t data taken)]))"

text \<open>Every enabled callback is called (\<open>run_callbacks\<close>); all are the default one.\<close>

section \<open>Checkpoints and the end of a block\<close>

definition checkpoint ::
  "'e library \<Rightarrow> 'd doubles \<Rightarrow> string \<Rightarrow> place \<Rightarrow> PerformanceTracker \<Rightarrow>
     (PerformanceTracker, ('e, 'z) tracking_storage_scheme) io" where
  "checkpoint lib fp cid place t0 =
     (if pt_enabled t0
      then
        bindE (log_call (lo_gettimeofday (lib_os lib))) (\<lambda>now.
        let t = t0\<lparr>pt_endTime := Some now\<rparr> in
        bindE (if pt_hasChecked t
               then bindE (defined (pt_lastCheckpointTime t)) (\<lambda>last.
                 ret (formatTime fp (getTimeDifference now last (pt_timestampUnit t)) (pt_timestampUnit t)))
               else ret []) (\<lambda>formattedTime.
        bindE (getE st_performanceTrackingCallbacks) (\<lambda>callbacks.
        thenE (run_callbacks (handle_tracking lib fp t
          \<lparr>pd_complete = False, pd_checkpointId = cid, pd_place = place, pd_formattedTimeTaken = formattedTime\<rparr>) callbacks)
        (bindE (log_call (lo_gettimeofday (lib_os lib))) (\<lambda>after.
         ret (t\<lparr>pt_lastCheckpointTime := Some after, pt_hasChecked := True, pt_lastCheckpointId := cid\<rparr>))))))
      else ret t0)"

definition destroy_PerformanceTracker ::
  "'e library \<Rightarrow> 'd doubles \<Rightarrow> PerformanceTracker \<Rightarrow> (unit, ('e, 'z) tracking_storage_scheme) io" where
  "destroy_PerformanceTracker lib fp t0 =
     (if pt_enabled t0 \<and> pt_scopedLog t0
      then
        bindE (log_call (lo_gettimeofday (lib_os lib))) (\<lambda>now.
        let t = t0\<lparr>pt_endTime := Some now\<rparr> in
        bindE (defined (getFormattedTimeTaken fp t)) (\<lambda>formattedTime.
        bindE (getE st_performanceTrackingCallbacks) (\<lambda>callbacks.
        run_callbacks (handle_tracking lib fp t
          \<lparr>pd_complete = True, pd_checkpointId = [], pd_place = ([], 0, []), pd_formattedTimeTaken = formattedTime\<rparr>)
          callbacks)))
      else ret ())"

text \<open>\<open>TIMED_SCOPE\<close> around a body, with the performance logger.\<close>

definition TIMED_SCOPE ::
  "'e library \<Rightarrow> 'd doubles \<Rightarrow> bool \<Rightarrow> string \<Rightarrow>
     (PerformanceTracker \<Rightarrow> (PerformanceTracker, ('e, 'z) tracking_storage_scheme) io) \<Rightarrow>
     (unit, ('e, 'z) tracking_storage_scheme) io" where
  "TIMED_SCOPE lib fp microseconds blockname body =
     bindE (new_PerformanceTracker lib blockname (if microseconds then Microsecond else Millisecond)
              kPerformanceLoggerId True Level_Info) (\<lambda>t.
     bindE (body t) (destroy_PerformanceTracker lib fp))"

section \<open>Times that are said\<close>

text \<open>For times in order, in seconds and microseconds, the difference is the one in the unit, rounded down.\<close>

lemma getTimeDifference_ordered:
  assumes "0 \<le> d" and "d < 2 ^ 63" and "d = (fst e - fst s) * 1000000 + (int (snd e) - int (snd s))"
  shows "getTimeDifference e s u = (if u = Microsecond then nat d else nat (d div 1000))"
proof -
  have micro: "1000000 * fst e + int (snd e) - (1000000 * fst s + int (snd s)) = d"
    using assms(3) by (simp add: algebra_simps)
  have same: "d mod 2 ^ 64 = d" using assms(1,2) by simp
  have "d div 1000 \<le> d div 1" using assms(1) by (intro zdiv_mono2) simp_all
  then have thousandth: "(d div 1000) mod 2 ^ 64 = d div 1000"
    using assms(1,2) by (intro mod_pos_pos_trivial) (simp_all add: pos_imp_zdiv_nonneg_iff)
  have signed: "sgn d * (\<bar>d\<bar> div 1000) = d div 1000" using assms(1) by (cases "d = 0") simp_all
  show ?thesis
    unfolding getTimeDifference_def Let_def assms(3) [symmetric] micro same signed thousandth ..
qed

text \<open>A clock that was set back between two readings makes the difference a huge number.\<close>

lemma getTimeDifference_set_back:
  "getTimeDifference (9, 0) (10, 0) Microsecond = 2 ^ 64 - 1000000"
  "getTimeDifference (9, 0) (10, 0) Millisecond = 2 ^ 64 - 1000"
  by (simp_all add: getTimeDifference_def)

text \<open>
  What is said is in the unit of the tracker up to its bound, where doubles compare small numbers as
  they are. A tracker whose unit is seconds or longer counts milliseconds all the same: what took five
  milliseconds is said to have taken five seconds.
\<close>

definition exact_order :: "'d doubles \<Rightarrow> bool" where
  "exact_order fp \<longleftrightarrow> (\<forall>a b. a \<le> 2 ^ 53 \<and> b \<le> 2 ^ 53 \<longrightarrow> (d_le fp (d_of fp a) (d_of fp b) \<longleftrightarrow> a \<le> b))"

lemma formatTime_within:
  assumes "exact_order fp"
  shows "n \<le> 1000 \<Longrightarrow> formatTime fp n Microsecond = d_show fp (d_of fp n) @ '' mis''"
    and "n \<le> 1000 \<Longrightarrow> formatTime fp n Millisecond = d_show fp (d_of fp n) @ '' ms''"
    and "n \<le> 60 \<Longrightarrow> formatTime fp n Second = d_show fp (d_of fp n) @ '' seconds''"
  using assms by (simp_all add: exact_order_def formatTime_def kTimeFormats_def Let_def)

lemma seconds_are_milliseconds:
  assumes "exact_order fp"
  shows "formatTime fp (getTimeDifference (10, 5000) (10, 0) Second) Second = d_show fp (d_of fp 5) @ '' seconds''"
  using formatTime_within(3) [OF assms, of 5] by (simp add: getTimeDifference_def)

section \<open>What a timed block logs\<close>

definition clock_works ::
  "'e log_os \<Rightarrow> ('e \<Rightarrow> string \<Rightarrow> string) \<Rightarrow> ('e \<Rightarrow> string) \<Rightarrow> bool" where
  "clock_works os file_text console \<longleftrightarrow>
     (\<forall>e. \<exists>tv e'. lo_gettimeofday os e = Some (tv, e') \<and> shows_same file_text console e e')"

definition tracking_ready :: "string \<Rightarrow> string \<Rightarrow> string \<Rightarrow> ('e, 'z) tracking_storage_scheme \<Rightarrow> bool" where
  "tracking_ready b f lid s \<longleftrightarrow> ready b f lid s \<and>
     st_performanceTrackingCallbacks s = [(''DefaultPerformanceTrackingCallback'', True)]"

text \<open>A tracker that is enabled: what it has noted is what its operations read.\<close>

definition tracking :: "string \<Rightarrow> PerformanceTracker \<Rightarrow> bool" where
  "tracking lid t \<longleftrightarrow> pt_enabled t \<and> loggable (pt_level t) \<and> c_str (pt_loggerId t) = lid \<and>
     pt_startTime t \<noteq> None \<and> (pt_hasChecked t \<longrightarrow> pt_lastCheckpointTime t \<noteq> None)"

definition same_block :: "PerformanceTracker \<Rightarrow> PerformanceTracker \<Rightarrow> bool" where
  "same_block t t' \<longleftrightarrow> pt_blockName t' = pt_blockName t \<and> pt_level t' = pt_level t \<and> pt_scopedLog t' = pt_scopedLog t"

lemma clock_reading:
  assumes "clock_works os file_text console" and "tracking_ready b f lid s"
  obtains tv e where "log_call (lo_gettimeofday os) s = Some (Inr tv, s\<lparr>log_env := e\<rparr>)"
    "tracking_ready b f lid (s\<lparr>log_env := e\<rparr>)" "shows_same file_text console (log_env s) e"
proof -
  obtain tv e where "lo_gettimeofday os (log_env s) = Some (tv, e)" "shows_same file_text console (log_env s) e"
    using assms(1) unfolding clock_works_def by blast
  then show ?thesis using that assms(2) by (simp add: log_call_def tracking_ready_def ready_def)
qed

lemma handle_tracking_run:
  assumes dev: "device_works (lib_os lib) file_text console" and b: "CHR ''%'' \<notin> set b"
    and rdy: "tracking_ready b f lid s" and t: "tracking lid t" "pt_endTime t \<noteq> None"
  obtains taken s' where
    "run_callbacks (handle_tracking lib fp t data) (st_performanceTrackingCallbacks s) s = Some (Inr (), s')"
    "tracking_ready b f lid s'"
    "shows_line file_text console f
      (log_line b (pt_level t, [Std_String (tracking_message (st_flags s) t data taken)])) (log_env s) (log_env s')"
proof -
  define taken where "taken = (if pd_complete data then [] else the (getFormattedTimeTaken fp t))"
  have said: "(if pd_complete data then ret [] else defined (getFormattedTimeTaken fp t)) s = Some (Inr taken, s)"
    using t by (auto simp: taken_def getFormattedTimeTaken_def tracking_def defined_def ret_run)
  let ?msg = "tracking_message (st_flags s) t data taken"
  have l: "loggable (fst (pt_level t, [Std_String ?msg]))" using t(1) by (simp add: tracking_def)
  have rdy': "ready b f lid s" using rdy by (simp add: tracking_ready_def)
  obtain e lg where run: "LOG (lib_os lib) (lib_ident lib) (lib_color lib) lid (pd_place data) (pt_level t, [Std_String ?msg]) s =
      Some (Inr (), store lid lg (s\<lparr>log_env := e\<rparr>))"
    "ready b f lid (store lid lg (s\<lparr>log_env := e\<rparr>))"
    "shows_line file_text console f (log_line b (pt_level t, [Std_String ?msg])) (log_env s) e"
    by (rule LOG_run [OF dev rdy' b l])
  have "handle_tracking lib fp t data s = Some (Inr (), store lid lg (s\<lparr>log_env := e\<rparr>))"
    using run(1) t(1) said by (simp add: handle_tracking_def LOG_def writer_at_def tracking_def io_simps)
  then have "run_callbacks (handle_tracking lib fp t data) (st_performanceTrackingCallbacks s) s =
      Some (Inr (), store lid lg (s\<lparr>log_env := e\<rparr>))"
    using rdy by (simp add: tracking_ready_def io_simps)
  moreover have "tracking_ready b f lid (store lid lg (s\<lparr>log_env := e\<rparr>))"
    using run(2) rdy by (simp add: tracking_ready_def store_def)
  ultimately show ?thesis using that run(3) by simp
qed


lemma checkpoint_run:
  assumes dev: "device_works (lib_os lib) file_text console" and clock: "clock_works (lib_os lib) file_text console"
    and b: "CHR ''%'' \<notin> set b" and rdy: "tracking_ready b f lid s" and t: "tracking lid t"
  obtains msg t' s' where "checkpoint lib fp cid place t s = Some (Inr t', s')" "tracking_ready b f lid s'"
    "tracking lid t'" "same_block t t'"
    "shows_line file_text console f (log_line b (pt_level t, [Std_String msg])) (log_env s) (log_env s')"
proof -
  obtain now e1 where 1: "log_call (lo_gettimeofday (lib_os lib)) s = Some (Inr now, s\<lparr>log_env := e1\<rparr>)"
    "tracking_ready b f lid (s\<lparr>log_env := e1\<rparr>)" "shows_same file_text console (log_env s) e1"
    by (rule clock_reading [OF clock rdy])
  let ?t = "t\<lparr>pt_endTime := Some now\<rparr>"
  define since where "since = (if pt_hasChecked t
    then formatTime fp (getTimeDifference now (the (pt_lastCheckpointTime t)) (pt_timestampUnit t)) (pt_timestampUnit t)
    else [])"
  let ?data = "\<lparr>pd_complete = False, pd_checkpointId = cid, pd_place = place, pd_formattedTimeTaken = since\<rparr>"
  have t1: "tracking lid ?t" "pt_endTime ?t \<noteq> None" using t by (simp_all add: tracking_def)
  obtain taken s2 where 2: "run_callbacks (handle_tracking lib fp ?t ?data)
      (st_performanceTrackingCallbacks (s\<lparr>log_env := e1\<rparr>)) (s\<lparr>log_env := e1\<rparr>) = Some (Inr (), s2)"
    "tracking_ready b f lid s2"
    "shows_line file_text console f (log_line b (pt_level ?t,
      [Std_String (tracking_message (st_flags (s\<lparr>log_env := e1\<rparr>)) ?t ?data taken)])) (log_env (s\<lparr>log_env := e1\<rparr>)) (log_env s2)"
    by (rule handle_tracking_run [OF dev b 1(2) t1])
  obtain after e3 where 3: "log_call (lo_gettimeofday (lib_os lib)) s2 = Some (Inr after, s2\<lparr>log_env := e3\<rparr>)"
    "tracking_ready b f lid (s2\<lparr>log_env := e3\<rparr>)" "shows_same file_text console (log_env s2) e3"
    by (rule clock_reading [OF clock 2(2)])
  let ?t' = "?t\<lparr>pt_lastCheckpointTime := Some after, pt_hasChecked := True, pt_lastCheckpointId := cid\<rparr>"
  have "checkpoint lib fp cid place t s = Some (Inr ?t', s2\<lparr>log_env := e3\<rparr>)"
    using t 1(1) 2(1) 3(1)
    by (cases "pt_hasChecked t") (auto simp: checkpoint_def tracking_def since_def defined_def Let_def io_simps)
  moreover have "tracking lid ?t'" "same_block t ?t'" using t by (simp_all add: tracking_def same_block_def)
  ultimately show ?thesis
    using that [of ?t' _ _] 1(3) 2(3) 3(2,3) by (auto simp: shows_line_def shows_same_def)
qed

text \<open>
  A block that is tracked, from after its tracker is made: each checkpoint writes a line, and the end one
  that names the block.
\<close>

lemma destroy_run:
  assumes dev: "device_works (lib_os lib) file_text console" and clock: "clock_works (lib_os lib) file_text console"
    and b: "CHR ''%'' \<notin> set b" and rdy: "tracking_ready b f lid s" and t: "tracking lid t" "pt_scopedLog t"
  obtains taken s' where "destroy_PerformanceTracker lib fp t s = Some (Inr (), s')" "tracking_ready b f lid s'"
    "shows_line file_text console f
      (log_line b (pt_level t, [Std_String (''Executed ['' @ c_str (pt_blockName t) @ ''] in ['' @ taken @ '']'')]))
      (log_env s) (log_env s')"
proof -
  obtain now e1 where 1: "log_call (lo_gettimeofday (lib_os lib)) s = Some (Inr now, s\<lparr>log_env := e1\<rparr>)"
    "tracking_ready b f lid (s\<lparr>log_env := e1\<rparr>)" "shows_same file_text console (log_env s) e1"
    by (rule clock_reading [OF clock rdy])
  let ?t = "t\<lparr>pt_endTime := Some now\<rparr>"
  obtain taken where taken: "getFormattedTimeTaken fp ?t = Some taken"
    using t by (auto simp: getFormattedTimeTaken_def tracking_def)
  let ?data = "\<lparr>pd_complete = True, pd_checkpointId = [], pd_place = ([], 0, []), pd_formattedTimeTaken = taken\<rparr>"
  have t1: "tracking lid ?t" "pt_endTime ?t \<noteq> None" using t by (simp_all add: tracking_def)
  obtain x s2 where 2: "run_callbacks (handle_tracking lib fp ?t ?data)
      (st_performanceTrackingCallbacks (s\<lparr>log_env := e1\<rparr>)) (s\<lparr>log_env := e1\<rparr>) = Some (Inr (), s2)"
    "tracking_ready b f lid s2"
    "shows_line file_text console f (log_line b (pt_level ?t,
      [Std_String (tracking_message (st_flags (s\<lparr>log_env := e1\<rparr>)) ?t ?data x)])) (log_env (s\<lparr>log_env := e1\<rparr>)) (log_env s2)"
    by (rule handle_tracking_run [OF dev b 1(2) t1])
  have "destroy_PerformanceTracker lib fp t s = Some (Inr (), s2)"
    using t 1(1) 2(1) taken by (simp add: destroy_PerformanceTracker_def tracking_def defined_def io_simps)
  then show ?thesis
    using that [of s2 taken] 1(3) 2(2,3) by (auto simp: tracking_message_def shows_line_def shows_same_def)
qed

lemma tracked_block:
  assumes dev: "device_works (lib_os lib) file_text console" and clock: "clock_works (lib_os lib) file_text console"
    and b: "CHR ''%'' \<notin> set b" and "tracking_ready b f lid s" and "tracking lid t" "pt_scopedLog t"
  shows "\<exists>msgs taken s'. length msgs = length cps \<and>
    bindE (foldE (\<lambda>cp. checkpoint lib fp (fst cp) (snd cp)) cps t) (destroy_PerformanceTracker lib fp) s = Some (Inr (), s') \<and>
    shows_line file_text console f
      (concat (map (\<lambda>m. log_line b (pt_level t, [Std_String m]))
        (msgs @ [''Executed ['' @ c_str (pt_blockName t) @ ''] in ['' @ taken @ '']'']))) (log_env s) (log_env s')"
  using assms(4-)
proof (induction cps arbitrary: s t)
  case Nil
  obtain taken s' where "destroy_PerformanceTracker lib fp t s = Some (Inr (), s')"
    "shows_line file_text console f
      (log_line b (pt_level t, [Std_String (''Executed ['' @ c_str (pt_blockName t) @ ''] in ['' @ taken @ '']'')]))
      (log_env s) (log_env s')"
    by (rule destroy_run [OF dev clock b Nil])
  then show ?case by (intro exI [of _ "[]"] exI [of _ taken] exI [of _ s']) (simp add: bindE_value ret_run)
next
  case (Cons cp cps)
  obtain msg t1 s1 where 1: "checkpoint lib fp (fst cp) (snd cp) t s = Some (Inr t1, s1)" "tracking_ready b f lid s1"
    "tracking lid t1" "same_block t t1"
    "shows_line file_text console f (log_line b (pt_level t, [Std_String msg])) (log_env s) (log_env s1)"
    by (rule checkpoint_run [OF dev clock b Cons.prems(1,2)])
  have scoped: "pt_scopedLog t1" using 1(4) Cons.prems(3) by (simp add: same_block_def)
  obtain msgs taken s' where 2: "length msgs = length cps"
    "bindE (foldE (\<lambda>cp. checkpoint lib fp (fst cp) (snd cp)) cps t1) (destroy_PerformanceTracker lib fp) s1 = Some (Inr (), s')"
    "shows_line file_text console f
      (concat (map (\<lambda>m. log_line b (pt_level t1, [Std_String m]))
        (msgs @ [''Executed ['' @ c_str (pt_blockName t1) @ ''] in ['' @ taken @ '']'']))) (log_env s1) (log_env s')"
    using Cons.IH [OF 1(2,3) scoped] by blast
  have "bindE (foldE (\<lambda>cp. checkpoint lib fp (fst cp) (snd cp)) (cp # cps) t) (destroy_PerformanceTracker lib fp) s =
      Some (Inr (), s')"
    using 1(1) 2(2) by (simp add: bindE_def)
  then show ?case
    using 2(1) shows_line_trans [OF 1(5) 2(3)] 1(4)
    by (intro exI [of _ "msg # msgs"] exI [of _ taken] exI [of _ s']) (simp add: same_block_def)
qed

end
