(* ===== verification/Elpp_Debug.thy ===== *)
theory Elpp_Debug
  imports Elpp_Crash
begin

text \<open>
  What \<^verbatim>\<open>easylogging++.h\<close> asks the system about the program: the stack at a crash (\<open>StackTrace\<close>, which is
  compiled in with \<open>_ELPP_STACKTRACE_ON_CRASH\<close> only), the output of a command, and the names of the user and
  the host (\<open>OS\<close>).
\<close>

section \<open>Entries of a stack trace\<close>

record StackTraceEntry =
  se_index :: nat
  se_location :: string
  se_demangled :: string
  se_hex :: string
  se_addr :: string

text \<open>The scan keeps the last place of each of three characters.\<close>

fun last_place :: "char \<Rightarrow> nat \<Rightarrow> nat option \<Rightarrow> string \<Rightarrow> nat option" where
  "last_place x i found [] = found"
| "last_place x i found (c # cs) = last_place x (Suc i) (if c = x then Some i else found) cs"

text \<open>
  One string of \<open>backtrace_symbols\<close>. Zeroes are written over the three characters, and what is read are the
  strings that begin behind them; \<open>demangle\<close> is \<open>__cxa_demangle\<close>, \<open>None\<close> if its status is not 0.
\<close>

definition trace_entry :: "(string \<Rightarrow> string option) \<Rightarrow> nat \<Rightarrow> string \<Rightarrow> StackTraceEntry" where
  "trace_entry demangle i s =
     (case (last_place (CHR ''('') 0 None s, last_place (CHR ''+'') 0 None s, last_place (CHR '')'') 0 None s) of
        (Some mangName, Some hex, Some addr) \<Rightarrow>
          if mangName < hex
          then let buf = s[mangName := NUL, hex := NUL, addr := NUL];
                   mangled = c_str (drop (Suc mangName) buf)
               in \<lparr>se_index = i - 1, se_location = c_str buf,
                   se_demangled = (case demangle mangled of Some d \<Rightarrow> d | None \<Rightarrow> mangled),
                   se_hex = c_str (drop (Suc hex) buf), se_addr = c_str (drop (Suc addr) buf)\<rparr>
          else \<lparr>se_index = i - 1, se_location = s, se_demangled = [], se_hex = [], se_addr = []\<rparr>
      | _ \<Rightarrow> \<lparr>se_index = i - 1, se_location = s, se_demangled = [], se_hex = [], se_addr = []\<rparr>)"

definition kStackStart :: nat where "kStackStart = 2"

text \<open>
  \<open>generateNew\<close>, from the strings of the stack, of which the first two are the library's own. They are an
  array that may be null, when memory is short; it is then read all the same.
\<close>

definition generateNew :: "(string \<Rightarrow> string option) \<Rightarrow> nat \<Rightarrow> string list option \<Rightarrow> StackTraceEntry list option" where
  "generateNew demangle n strings =
     (if n > kStackStart
      then map_option (\<lambda>ss. map (\<lambda>i. trace_entry demangle i (ss ! i)) [kStackStart..<n]) strings
      else Some [])"

definition show_entry :: "StackTraceEntry \<Rightarrow> string" where
  "show_entry si =
     ''['' @ show_nat (se_index si) @ ''] '' @ se_location si
       @ (if se_demangled si = [] then [] else '':'') @ se_demangled si
       @ (if se_hex si = [] then [] else ''+'') @ se_hex si @ se_addr si"

definition show_trace :: "StackTraceEntry list \<Rightarrow> string" where
  "show_trace st = concat (map (\<lambda>e. ''    '' @ show_entry e @ [NEWLINE]) st)"

text \<open>The text of a crash with the stack (\<open>logCrashReason\<close>, when stack traces are compiled in).\<close>

definition crash_text :: "EnumType \<Rightarrow> int \<Rightarrow> StackTraceEntry list \<Rightarrow> string" where
  "crash_text flags sig st =
     ''CRASH HANDLED; '' @ crashReason flags sig @ [NEWLINE] @ ''    ======= Backtrace: ========='' @ [NEWLINE] @ show_trace st"

section \<open>Names of the system\<close>

text \<open>
  \<open>getBashOutput\<close>: the first line of a command's output, by \<open>fgets\<close> into 4096 bytes. \<open>run\<close> is \<open>popen\<close>: \<open>None\<close> if it
  fails, or all the output. A line that begins with a zero byte is an empty string, and the byte before the
  buffer is looked at.
\<close>

definition fgets_line :: "nat \<Rightarrow> string \<Rightarrow> string" where
  "fgets_line n out =
     (let l = takeWhile (\<lambda>c. c \<noteq> NEWLINE) out
      in take (n - 1) (if length l < length out then l @ [NEWLINE] else l))"

definition getBashOutput :: "(string \<Rightarrow> string option) \<Rightarrow> string option \<Rightarrow> string option" where
  "getBashOutput run command =
     (case command of
        None \<Rightarrow> Some []
      | Some c \<Rightarrow>
          (case run c of
             None \<Rightarrow> Some []
           | Some out \<Rightarrow>
               if out = [] then Some []
               else let hBuff = c_str (fgets_line 4096 out)
                    in if hBuff = [] then None
                       else Some (if last hBuff = NEWLINE then butlast hBuff else hBuff)))"

definition getEnvironmentVariable :: "(string \<Rightarrow> string option) \<Rightarrow> string \<Rightarrow> string \<Rightarrow> string" where
  "getEnvironmentVariable getenv variableName defaultVal =
     (case getenv variableName of
        None \<Rightarrow> defaultVal
      | Some val \<Rightarrow> if val = [] then defaultVal else val)"

definition kUnknownUser :: string where "kUnknownUser = ''user''"

definition kUnknownHost :: string where "kUnknownHost = ''unknown-host''"

definition currentUser :: "(string \<Rightarrow> string option) \<Rightarrow> string" where
  "currentUser getenv = getEnvironmentVariable getenv ''USER'' kUnknownUser"

definition currentHost :: "(string \<Rightarrow> string option) \<Rightarrow> string" where
  "currentHost getenv = getEnvironmentVariable getenv ''HOSTNAME'' kUnknownHost"

section \<open>What is found in a symbol\<close>

lemma last_place_append: "last_place x i found (s @ t) = last_place x (i + length s) (last_place x i found s) t"
  by (induction s arbitrary: i found) simp_all

lemma last_place_none: "x \<notin> set s \<Longrightarrow> last_place x i found s = found"
  by (induction s arbitrary: i found) auto

lemma last_place_at: "x \<notin> set t \<Longrightarrow> last_place x 0 None (s @ x # t) = Some (length s)"
  by (simp add: last_place_append last_place_none)

lemma c_str_append_NUL: "NUL \<notin> set s \<Longrightarrow> c_str (s @ NUL # t) = s"
  by (simp add: c_str_def NUL_def takeWhile_append)

text \<open>
  A symbol as the C library writes it, a file with a function and an offset in parentheses and an address behind,
  is taken apart into these, whatever else the file's name has in it.
\<close>

lemma trace_entry_symbol:
  assumes "NUL \<notin> set (path @ name @ offset @ address)"
    and "CHR ''('' \<notin> set (name @ offset @ address)" and "CHR ''+'' \<notin> set (offset @ address)" "CHR '')'' \<notin> set address"
  shows "trace_entry demangle i (path @ ''('' @ name @ ''+'' @ offset @ '')'' @ address) =
    \<lparr>se_index = i - 1, se_location = path,
     se_demangled = (case demangle name of Some d \<Rightarrow> d | None \<Rightarrow> name), se_hex = offset, se_addr = address\<rparr>"
proof -
  let ?s = "path @ ''('' @ name @ ''+'' @ offset @ '')'' @ address"
  let ?h = "length path + 1 + length name" and ?a = "length path + 1 + length name + 1 + length offset"
  have m: "last_place (CHR ''('') 0 None ?s = Some (length path)"
    using last_place_at [of "CHR ''(''" "name @ ''+'' @ offset @ '')'' @ address" path] assms(2) by simp
  have h: "last_place (CHR ''+'') 0 None ?s = Some ?h"
    using last_place_at [of "CHR ''+''" "offset @ '')'' @ address" "path @ ''('' @ name"] assms(3) by simp
  have a: "last_place (CHR '')'') 0 None ?s = Some ?a"
    using last_place_at [of "CHR '')''" address "path @ ''('' @ name @ ''+'' @ offset"] assms(4) by simp
  have buf: "?s[length path := NUL, ?h := NUL, ?a := NUL] = path @ NUL # name @ NUL # offset @ NUL # address"
    by (simp add: list_update_append)
  have parts: "drop (Suc (length path)) (path @ NUL # name @ NUL # offset @ NUL # address) = name @ NUL # offset @ NUL # address"
    "drop (Suc ?h) (path @ NUL # name @ NUL # offset @ NUL # address) = offset @ NUL # address"
    "drop (Suc ?a) (path @ NUL # name @ NUL # offset @ NUL # address) = address"
    by (simp_all add: numeral_3_eq_3)
  have "c_str address = address" using assms(1) by (simp add: c_str_def NUL_def takeWhile_eq_all_conv) blast
  then show ?thesis
    using assms(1) unfolding trace_entry_def m h a by (simp add: buf [simplified] parts [simplified] c_str_append_NUL)
qed

text \<open>A trace begins with the caller of the library, as number 1.\<close>

lemma generateNew_entries:
  assumes "n > kStackStart"
  shows "generateNew demangle n (Some strings) =
    Some (map (\<lambda>i. trace_entry demangle (i + kStackStart) (strings ! (i + kStackStart))) [0..<n - kStackStart])"
  using assms by (auto simp: generateNew_def kStackStart_def intro!: nth_equalityI)

text \<open>The first line of a command's output; one that begins with a zero byte has no result.\<close>

lemma getBashOutput_line:
  assumes "run cmd = Some (l @ NEWLINE # rest)" and "NEWLINE \<notin> set l" "NUL \<notin> set l" "length l < 4095" "l \<noteq> []"
  shows "getBashOutput run (Some cmd) = Some l"
  using assms by (simp add: getBashOutput_def fgets_line_def c_str_def NUL_def NEWLINE_def takeWhile_append takeWhile_eq_all_conv Let_def)

lemma getBashOutput_zero: "run cmd = Some (NUL # rest) \<Longrightarrow> getBashOutput run (Some cmd) = None"
  by (simp add: getBashOutput_def fgets_line_def c_str_def NUL_def NEWLINE_def Let_def)

end
