(* ===== verification/Loggen.thy ===== *)
theory Loggen
  imports Barn_Prelude
begin

text \<open>
  The load generator, \<^verbatim>\<open>src/testing/loggen/loggen.cpp\<close>: lines of random characters, with sequence numbers, up
  to an amount in every second. \<open>rand\<close> and the pause are parameters; the amount, which the program gets
  from its argument by floating-point arithmetic, is given as an \<open>int\<close>.
\<close>

section \<open>Random lines\<close>

type_synonym 'r rand = "'r \<Rightarrow> nat \<times> 'r"

definition alphanum :: string where
  "alphanum = ''0123456789ABCDEFGHIJKLMNOPQRSTUVWXYZabcdefghijklmnopqrstuvwxyz''"

text \<open>The characters that \<open>gen_random\<close> puts before the terminating zero.\<close>

fun gen_random :: "'r rand \<Rightarrow> nat \<Rightarrow> 'r \<Rightarrow> string \<times> 'r" where
  "gen_random rand 0 r = ([], r)"
| "gen_random rand (Suc len) r =
     (let (x, r1) = rand r; (s, r2) = gen_random rand len r1 in (alphanum ! (x mod length alphanum) # s, r2))"

definition max_len :: nat where "max_len = 500"

text \<open>\<open>printf("%10lu ", n)\<close>; sequence numbers are \<open>unsigned long\<close>.\<close>

definition print_seq :: "nat \<Rightarrow> string" where
  "print_seq n = replicate (10 - length (show_nat n)) (CHR '' '') @ show_nat n @ '' ''"

section \<open>The lines of a second\<close>

text \<open>
  The inner loop: what is written, and the numbers after it. It ends because every line counts for at
  least twelve bytes.
\<close>

function (sequential) write_lines ::
  "'r rand \<Rightarrow> int \<Rightarrow> int \<Rightarrow> nat \<Rightarrow> 'r \<Rightarrow> string list \<times> nat \<times> 'r" where
  "write_lines rand max_bytes made_bytes seq_num r =
     (if made_bytes \<le> max_bytes
      then let (x, r1) = rand r;
               len = x mod (max_len - 1);
               (buffer, r2) = gen_random rand len r1;
               (ls, seq', r3) = write_lines rand max_bytes (made_bytes + int len + 12) ((seq_num + 1) mod 2 ^ 64) r2
           in ((print_seq seq_num @ buffer @ [CHR 0x0A]) # ls, seq', r3)
      else ([], seq_num, r))"
  by pat_completeness auto
termination
  by (relation "measure (\<lambda>(rand, max_bytes, made_bytes, seq_num, r). nat (max_bytes - made_bytes + 1))") auto

declare write_lines.simps [simp del]

text \<open>
  The main loop, for a number of seconds: after the lines of each it pauses. The pause does not change
  what is written.
\<close>

fun generate :: "'r rand \<Rightarrow> int \<Rightarrow> nat \<Rightarrow> nat \<Rightarrow> 'r \<Rightarrow> string list \<times> nat \<times> 'r" where
  "generate rand max_bytes 0 seq_num r = ([], seq_num, r)"
| "generate rand max_bytes (Suc n) seq_num r =
     (let (ls, seq', r') = write_lines rand max_bytes 0 seq_num r;
          (ls', seq'', r'') = generate rand max_bytes n seq' r'
      in (ls @ ls', seq'', r''))"

text \<open>
  \<open>sleep_fraction\<close>: the nanoseconds it asks for, of which there is one less than the milliseconds have; for no
  milliseconds the number is negative, which \<open>nanosleep\<close> refuses, and so does not sleep.
\<close>

definition sleep_nanoseconds :: "nat \<Rightarrow> int" where
  "sleep_nanoseconds milisec = int milisec * 1000000 - 1"

lemma sleep_nanoseconds_valid:
  "milisec \<le> 1000 \<Longrightarrow> sleep_nanoseconds milisec < 1000000000"
  "sleep_nanoseconds milisec < 0 \<longleftrightarrow> milisec = 0"
  by (auto simp: sleep_nanoseconds_def)

section \<open>How much is written\<close>

lemma length_alphanum: "length alphanum = 62"
  by (simp add: alphanum_def)

lemma gen_random_fits:
  "length (fst (gen_random rand len r)) = len" "set (fst (gen_random rand len r)) \<subseteq> set alphanum"
proof (induction len arbitrary: r)
  case (Suc len)
  {
    case 1
    then show ?case using Suc(1) by (simp add: case_prod_unfold Let_def)
  next
    case 2
    have "alphanum ! (n mod length alphanum) \<in> set alphanum" for n by (simp add: length_alphanum)
    then show ?case using Suc(2) by (auto simp: case_prod_unfold Let_def)
  }
qed simp_all

text \<open>The buffer of five hundred characters holds every line with its terminating zero.\<close>

lemma line_fits: "x mod (max_len - 1) + 1 \<le> max_len - 1"
proof -
  have "x mod (max_len - 1) < max_len - 1" by (simp add: max_len_def)
  then show ?thesis by simp
qed


lemma length_show_nat: "n < 10 ^ Suc k \<Longrightarrow> length (show_nat n) \<le> Suc k"
proof (induction k arbitrary: n)
  case (Suc k)
  show ?case
  proof (cases "n < 10")
    case False
    have "n div 10 < 10 ^ Suc k" using Suc.prems by (simp add: div_less_iff_less_mult)
    then show ?thesis using Suc.IH [of "n div 10"] False by (simp add: show_nat.simps [of n])
  qed (simp add: show_nat.simps [of n])
qed (simp add: show_nat.simps)

lemma length_print_seq: "n < 10 ^ 10 \<Longrightarrow> length (print_seq n) = 11"
  using length_show_nat [of n 9] by (simp add: print_seq_def)

definition random_line :: "nat \<Rightarrow> string \<Rightarrow> bool" where
  "random_line n l \<longleftrightarrow> (\<exists>s. l = print_seq n @ s @ [CHR 0x0A] \<and> set s \<subseteq> set alphanum \<and> length s < max_len - 1)"

lemma write_lines_run:
  assumes "write_lines rand max_bytes made seq r = (ls, seq', r')" and "made \<le> max_bytes + 510"
    and "int seq + (max_bytes + 510 - made) < 10 ^ 10"
  shows "max_bytes < made + int (length (concat ls)) \<and> made + int (length (concat ls)) \<le> max_bytes + 510 \<and>
    seq' = seq + length ls \<and> 12 * length ls \<le> length (concat ls) \<and>
    (\<forall>i < length ls. random_line (seq + i) (ls ! i))"
  using assms
proof (induction rand max_bytes made seq r arbitrary: ls seq' r' rule: write_lines.induct)
  case (1 rand max_bytes made seq r)
  show ?case
  proof (cases "made \<le> max_bytes")
    case False
    then show ?thesis using "1.prems" by (simp add: write_lines.simps [of rand max_bytes made])
  next
    case True
    obtain x r1 where x: "rand r = (x, r1)" by fastforce
    let ?len = "x mod (max_len - 1)"
    obtain buffer r2 where buffer: "gen_random rand ?len r1 = (buffer, r2)" by fastforce
    obtain rest where rest: "write_lines rand max_bytes (made + int ?len + 12) ((seq + 1) mod 2 ^ 64) r2 = (rest, seq', r')"
      and ls: "ls = (print_seq seq @ buffer @ [CHR 0x0A]) # rest"
      using "1.prems"(1) True x buffer
      by (auto simp: write_lines.simps [of rand max_bytes made] Let_def split: prod.splits)
    have len: "?len \<le> 498" using line_fits [of x] by (simp add: max_len_def)
    have seq: "seq < 10 ^ 10" "(seq + 1) mod 2 ^ 64 = seq + 1" using "1.prems"(2,3) True by simp_all
    have fits: "length buffer = ?len" "set buffer \<subseteq> set alphanum"
      using gen_random_fits [where rand = rand and len = ?len and r = r1] buffer by simp_all
    have line: "length (print_seq seq @ buffer @ [CHR 0x0A]) = ?len + 12"
      using length_print_seq [OF seq(1)] fits(1) by simp
    have "max_bytes < (made + int ?len + 12) + int (length (concat rest)) \<and>
        (made + int ?len + 12) + int (length (concat rest)) \<le> max_bytes + 510 \<and>
        seq' = Suc seq + length rest \<and> 12 * length rest \<le> length (concat rest) \<and>
        (\<forall>i < length rest. random_line (Suc seq + i) (rest ! i))"
      using "1.IH" [OF True x [symmetric] refl refl buffer [symmetric] refl, of rest seq' r'] rest len True "1.prems"(3) seq(2) by simp
    moreover have "random_line seq (print_seq seq @ buffer @ [CHR 0x0A])"
      using fits line_fits [of x] by (auto simp: random_line_def max_len_def)
    ultimately show ?thesis
      using ls line by (auto simp: nth_Cons split: nat.splits)
  qed
qed

text \<open>
  In every second the generator writes more than the amount and at most 510 bytes beyond it, in numbered
  lines, while the numbers have at most ten digits.
\<close>

lemma second_amount:
  assumes "write_lines rand max_bytes 0 seq r = (ls, seq', r')" and "0 \<le> max_bytes"
    and "int seq + max_bytes + 510 < 10 ^ 10"
  shows "max_bytes < int (length (concat ls))" and "int (length (concat ls)) \<le> max_bytes + 510"
    and "seq' = seq + length ls" and "i < length ls \<Longrightarrow> random_line (seq + i) (ls ! i)"
  using write_lines_run [OF assms(1)] assms(2,3) by (auto simp: algebra_simps)

lemma generate_amount:
  assumes "generate rand max_bytes n seq r = (ls, seq', r')" and "0 \<le> max_bytes"
    and "int seq + int n * (max_bytes + 510) + 510 < 10 ^ 10"
  shows "int n * max_bytes \<le> int (length (concat ls)) \<and> int (length (concat ls)) \<le> int n * (max_bytes + 510) \<and>
    seq' = seq + length ls \<and> 12 * length ls \<le> length (concat ls) \<and> (\<forall>i < length ls. random_line (seq + i) (ls ! i))"
  using assms
proof (induction n arbitrary: seq r ls)
  case (Suc n)
  obtain l1 s1 r1 where 1: "write_lines rand max_bytes 0 seq r = (l1, s1, r1)" by (metis prod.exhaust)
  obtain l2 where 2: "generate rand max_bytes n s1 r1 = (l2, seq', r')" and ls: "ls = l1 @ l2"
    using Suc.prems(1) 1 by (auto split: prod.splits)
  have room: "int seq + (max_bytes + 510 - 0) < 10 ^ 10"
  proof -
    have "0 \<le> int n * (max_bytes + 510)" using Suc.prems(2) by simp
    then show ?thesis using Suc.prems(3) by (simp add: algebra_simps)
  qed
  have first: "max_bytes < int (length (concat l1))" "int (length (concat l1)) \<le> max_bytes + 510"
    "s1 = seq + length l1" "12 * length l1 \<le> length (concat l1)" "\<forall>i < length l1. random_line (seq + i) (l1 ! i)"
    using write_lines_run [OF 1 _ room] Suc.prems(2) by simp_all
  have "int s1 + int n * (max_bytes + 510) + 510 < 10 ^ 10"
    using first(2,3,4) Suc.prems(3) by (simp add: algebra_simps)
  then have second: "int n * max_bytes \<le> int (length (concat l2)) \<and> int (length (concat l2)) \<le> int n * (max_bytes + 510) \<and>
    seq' = s1 + length l2 \<and> 12 * length l2 \<le> length (concat l2) \<and> (\<forall>i < length l2. random_line (s1 + i) (l2 ! i))"
    using Suc.IH [OF 2] Suc.prems(2) by simp
  moreover have "random_line (seq + i) ((l1 @ l2) ! i)" if "i < length (l1 @ l2)" for i
  proof (cases "i < length l1")
    case False
    then obtain j where j: "i = length l1 + j" using le_Suc_ex by (metis not_less)
    then have "random_line (s1 + j) (l2 ! j)" using second that by simp
    then show ?thesis using j first(3) by (simp add: nth_append add.assoc)
  qed (use first(5) in \<open>simp add: nth_append\<close>)
  ultimately show ?case
    using first(1-4) unfolding ls by (simp add: algebra_simps)
qed simp

end
