(* ===== verification/Agent_Logging.thy ===== *)
theory Agent_Logging
  imports Elpp_Log_Setup
begin

text \<open>
  The rounds of the agent with their log statements (\<^verbatim>\<open>barn-agent.cpp\<close>). The state is a pair, the agent's
  and the logging library's, so that neither part can see the other. The statements are an argument,
  \<open>say\<close>: doing nothing gives the rounds of Barn\_Agent, collecting gives what a round says, and the
  library's \<open>LOG\<close> gives the round as it runs. The file operations may log too; those of the
  agent are in Round\_Logging.
\<close>

type_synonym statement = "Level \<times> log_arg list"

text \<open>The place in the source, file and line, is an argument of \<open>say\<close>, as it is one of the macro.\<close>

type_synonym place = "string \<times> nat"

type_synonym 'l say = "place \<Rightarrow> statement \<Rightarrow> (unit, 'l) io"

section \<open>Computations on one of the two parts\<close>

definition agent :: "('a, 'w) io \<Rightarrow> ('a, 'w \<times> 'l) io" where
  "agent m wl =
     (case m (fst wl) of None \<Rightarrow> None | Some (r, w') \<Rightarrow> Some (r, (w', snd wl)))"

definition says :: "'l say \<Rightarrow> place \<Rightarrow> Level \<Rightarrow> log_arg list \<Rightarrow> (unit, 'w \<times> 'l) io" where
  "says say line level args wl =
     (case say line (level, args) (snd wl) of None \<Rightarrow> None | Some (r, l') \<Rightarrow> Some (r, (fst wl, l')))"

text \<open>File operations that do not log.\<close>

definition quiet_ops :: "'w FileOps \<Rightarrow> ('w \<times> 'l) FileOps" where
  "quiet_ops fo =
     \<lparr>wait_for_new_file_in_directory = (\<lambda>d n. agent (wait_for_new_file_in_directory fo d n)),
      file_exists = (\<lambda>p. agent (file_exists fo p)),
      list_log_directory = (\<lambda>d. agent (list_log_directory fo d)),
      log_files_not_on_target = (\<lambda>d fs t. agent (log_files_not_on_target fo d fs t)),
      ship_file = (\<lambda>p t. agent (ship_file fo p t))\<rparr>"

lemma quiet_ops_simps [simp]:
  "wait_for_new_file_in_directory (quiet_ops fo) d n = agent (wait_for_new_file_in_directory fo d n)"
  "file_exists (quiet_ops fo) p = agent (file_exists fo p)"
  "list_log_directory (quiet_ops fo) d = agent (list_log_directory fo d)"
  "log_files_not_on_target (quiet_ops fo) d fs t = agent (log_files_not_on_target fo d fs t)"
  "ship_file (quiet_ops fo) p t = agent (ship_file fo p t)"
  by (simp_all add: quiet_ops_def)

section \<open>Picking a channel\<close>

text \<open>The statements in the branches of \<open>FailoverChannelSelector::pick_channel\<close>.\<close>

definition fcs_pick_says :: "'l say \<Rightarrow> int \<Rightarrow> 't failover \<Rightarrow> (unit, 'w \<times> 'l) io" where
  "fcs_pick_says say now s =
     (let time_since_heartbeat = now - last_heartbeat_time s in
      if primary_ok s \<and> time_since_heartbeat < fcs_seconds_before_failover s then ret ()
      else if primary_ok s
      then says say (''channel_selector.h'', 90) Level_Error
             [Simple ''!!Channel: error primary down for too long, failing to backup'']
      else if time_since_heartbeat < fcs_seconds_before_failover s then ret ()
      else says say (''channel_selector.h'', 98) Level_Warning
             [Simple ''!!Channel: trying to fail back to primary from backup''])"

definition pick_channel_logged ::
  "'l say \<Rightarrow> 'e OS \<Rightarrow> ('t, ('t, 'e, 'z) agent_world_scheme \<times> 'l) io" where
  "pick_channel_logged say os =
     bindE (agent (getE channel_selector)) (\<lambda>sel.
       case sel of
         SingleChannelSelector c \<Rightarrow>
           (case scs_pick_channel c of
              (picked, c') \<Rightarrow> thenE (agent (set_selector (SingleChannelSelector c'))) (ret picked))
       | FailoverChannelSelector f \<Rightarrow>
           bindE (agent (now_in_seconds os)) (\<lambda>now.
           thenE (fcs_pick_says say now f)
             (case fcs_pick_channel now f of
                (c, f') \<Rightarrow> thenE (agent (set_selector (FailoverChannelSelector f'))) (ret c))))"

section \<open>The round\<close>

definition query_candidates_logged ::
  "'l say \<Rightarrow> ('w \<times> 'l) FileOps \<Rightarrow> AgentChannel \<Rightarrow> 'w Metrics \<Rightarrow> (FileNameList Validation, 'w \<times> 'l) io" where
  "query_candidates_logged say fileops channel metrics =
     bindE (list_log_directory fileops (channel_source_dir channel)) (\<lambda>existing_files.
     bindE (log_files_not_on_target fileops (channel_source_dir channel) existing_files
              (rsync_target channel)) (\<lambda>files_not_on_server.
       case files_not_on_server of
         Inl err \<Rightarrow> thenE (agent (send_metric metrics FailedToGetSyncList 1)) (ret (Inl err))
       | Inr _ \<Rightarrow>
           if length existing_files = 0 then ret (Inr [])
           else bindE (get files_not_on_server) (\<lambda>missing.
             let logs_to_ship = tail_intersection existing_files missing in
             thenE (agent (send_metric metrics FilesToShip (int (length logs_to_ship))))
            (thenE (says say (''barn-agent.cpp'', 139) Level_Info
                     [Simple ''Querying '', Std_String (channel_source_dir channel), Simple '' with '',
                      Simple (show_nat (length existing_files)), Simple '' log files: '',
                      Simple (show_nat (length logs_to_ship)), Simple '' log files to ship''])
            (thenE (if length logs_to_ship = length existing_files
                    then thenE (says say (''barn-agent.cpp'', 143) Level_Warning
                           [Simple ''Warning about to ship all log files from '',
                            Std_String (channel_source_dir channel)])
                         (agent (send_metric metrics FullDirectoryShip 1))
                    else ret ())
            (ret (Inr logs_to_ship)))))))"

fun ship_loop_logged ::
  "'l say \<Rightarrow> ('w \<times> 'l) FileOps \<Rightarrow> AgentChannel \<Rightarrow> string list \<Rightarrow> int \<Rightarrow> int \<Rightarrow> (int \<times> int, 'w \<times> 'l) io" where
  "ship_loop_logged say fileops channel [] lost shipped = ret (lost, shipped)"
| "ship_loop_logged say fileops channel (el # els) lost shipped =
     (let file_path = join_path (channel_source_dir channel) el in
      thenE (says say (''barn-agent.cpp'', 170) Level_Info
               [Simple ''Rsyncing '', Std_String file_path, Simple '' to '', Std_String (rsync_target channel)])
     (bindE (ship_file fileops file_path (rsync_target channel)) (\<lambda>ok.
        if \<not> ok
        then thenE (says say (''barn-agent.cpp'', 173) Level_Warning
                      [Simple ''Rsync failed to transfer log file '', Std_String file_path])
            (bindE (file_exists fileops file_path) (\<lambda>present.
               if \<not> present
               then thenE (says say (''barn-agent.cpp'', 176) Level_Error
                      [Simple ''Lost data! Couldn't ship log since it got rotated in the meantime''])
                    (ship_loop_logged say fileops channel els (lost + 1) shipped)
               else ret (lost, shipped)))
        else ship_loop_logged say fileops channel els lost (shipped + 1))))"

definition ship_candidates_logged ::
  "'l say \<Rightarrow> ('w \<times> 'l) FileOps \<Rightarrow> AgentChannel \<Rightarrow> 'w Metrics \<Rightarrow> string list \<Rightarrow> (int Validation, 'w \<times> 'l) io" where
  "ship_candidates_logged say fileops channel metrics candidates0 =
     (if length candidates0 = 0 then ret (Inr 0)
      else let candidates_size = int (length candidates0); candidates = sort candidates0 in
        thenE (says say (''barn-agent.cpp'', 162) Level_Info
                 [Simple ''Shipping : '', Simple (show_int candidates_size), Simple '' files''])
       (bindE (ship_loop_logged say fileops channel candidates 0 0) (\<lambda>(num_lost_during_ship, num_shipped).
        thenE (if num_shipped < candidates_size
               then says say (''barn-agent.cpp'', 187) Level_Warning
                      [Simple ''failed to ship '', Simple (show_int (candidates_size - num_shipped)),
                       Simple '' files'']
               else ret ())
       (thenE (if num_shipped > 0
               then says say (''barn-agent.cpp'', 190) Level_Info
                      [Simple ''successfully shipped '', Simple (show_int num_shipped), Simple '' files'']
               else ret ())
       (thenE (agent (send_metric metrics NumFilesShipped num_shipped))
       (thenE (agent (send_metric metrics LostDuringShip num_lost_during_ship))
       (bindE (list_log_directory fileops (channel_source_dir channel)) (\<lambda>current_logs.
          let num_rotated_during_ship = count_missing candidates current_logs in
          thenE (if num_rotated_during_ship \<noteq> 0
                 then thenE (says say (''barn-agent.cpp'', 200) Level_Warning
                        [Simple ''We're producing logs faster than shipping ('',
                         Simple (show_int num_rotated_during_ship), Simple '').''])
                      (agent (send_metric metrics RotatedDuringShip num_rotated_during_ship))
                 else ret ())
         (if num_shipped = 0 then ret (Inl ''Failed to ship any logs'')
          else ret (Inr num_shipped))))))))))"

definition sleep_it_logged ::
  "'l say \<Rightarrow> 'e OS \<Rightarrow> BarnConf \<Rightarrow> (unit, ('e, 'z) world_scheme \<times> 'l) io" where
  "sleep_it_logged say os barn_conf =
     (if sleep_seconds barn_conf > 0
      then bindE (agent (syscall (sys_rand os))) (\<lambda>r.
             let secs = to_int32 (sleep_seconds barn_conf div 2 + r mod sleep_seconds barn_conf) in
             thenE (says say (''barn-agent.cpp'', 218) Level_Info
                      [Simple ''Sleeping for '', Simple (show_int secs), Simple '' seconds...''])
               (agent (syscall (sys_sleep os (unsigned32 secs)))))
      else ret ())"

definition dispatch_new_logs_logged ::
  "'l say \<Rightarrow> 'e OS \<Rightarrow> BarnConf \<Rightarrow> ((AgentChannel, 'e, 'z) agent_world_scheme \<times> 'l) FileOps \<Rightarrow>
   (AgentChannel, 'e, 'z) agent_world_scheme Metrics \<Rightarrow>
   (unit, (AgentChannel, 'e, 'z) agent_world_scheme \<times> 'l) io" where
  "dispatch_new_logs_logged say os barn_conf fileops metrics =
     bindE (pick_channel_logged say os) (\<lambda>channel.
     bindE (query_candidates_logged say fileops channel metrics) (\<lambda>logs_to_ship.
       if isFailure logs_to_ship
       then bindE (error logs_to_ship) (\<lambda>err.
              thenE (says say (''barn-agent.cpp'', 66) Level_Error
                       [Simple ''Syncing Error to '', Std_String (rsync_target channel), Simple '':'',
                        Std_String err])
                (sleep_it_logged say os barn_conf))
       else
         bindE (get logs_to_ship) (\<lambda>candidates.
         bindE (ship_candidates_logged say fileops channel metrics candidates) (\<lambda>num_shipped.
           if isFailure num_shipped
           then thenE (says say (''barn-agent.cpp'', 75) Level_Error
                         [Simple ''ERROR: Shipment failure to '', Std_String (rsync_target channel)])
                  (sleep_it_logged say os barn_conf)
           else
             bindE (get num_shipped) (\<lambda>n.
             thenE (if n > 0 then sleep_it_logged say os barn_conf
                    else thenE (says say (''barn-agent.cpp'', 89) Level_Info [Simple ''Waiting for directory change...''])
                        (bindE (wait_for_new_file_in_directory fileops
                                  (channel_source_dir channel) (sleep_seconds barn_conf))
                           (\<lambda>_. ret ())))
             (agent (heartbeat os)))))))"

section \<open>Saying nothing\<close>

definition silence :: "'l say" where
  "silence line st = ret ()"

text \<open>\<open>M\<close> does what \<open>m\<close> does to the agent, and leaves the other part alone.\<close>

definition erases :: "('a, 'w) io \<Rightarrow> ('a, 'w \<times> 'l) io \<Rightarrow> bool" where
  "erases m M \<longleftrightarrow> M = agent m"

named_theorems erases_intros "what a computation does to the agent alone"

lemma erases_agent [erases_intros]: "erases m (agent m)"
  by (simp add: erases_def)

lemma erases_ret [erases_intros]: "erases (ret a) (ret a)"
  by (rule iffD2 [OF erases_def], rule ext) (simp add: agent_def ret_def)

lemma erases_throw [erases_intros]: "erases (throw e) (throw e)"
  by (rule iffD2 [OF erases_def], rule ext) (simp add: agent_def throw_def)

lemma erases_bindE [erases_intros]:
  assumes "erases m M" and "\<And>a. erases (f a) (F a)"
  shows "erases (bindE m f) (bindE M F)"
proof -
  have same: "M = agent m" "F = (\<lambda>a. agent (f a))" using assms by (auto simp: erases_def)
  show ?thesis unfolding erases_def same
    by (rule ext) (auto simp: agent_def bindE_def split: option.splits sum.splits)
qed

lemma erases_thenE [erases_intros]: "erases m M \<Longrightarrow> erases n N \<Longrightarrow> erases (thenE m n) (thenE M N)"
  unfolding thenE_def by (rule erases_bindE)

lemma erases_if [erases_intros]:
  "(b \<Longrightarrow> erases m M) \<Longrightarrow> (\<not> b \<Longrightarrow> erases n N) \<Longrightarrow> erases (if b then m else n) (if b then M else N)"
  by simp

lemma erases_sum [erases_intros]:
  "(\<And>e. erases (f e) (F e)) \<Longrightarrow> (\<And>a. erases (g a) (G a)) \<Longrightarrow>
   erases (case v of Inl e \<Rightarrow> f e | Inr a \<Rightarrow> g a) (case v of Inl e \<Rightarrow> F e | Inr a \<Rightarrow> G a)"
  by (cases v) simp_all

lemma erases_prod [erases_intros]:
  "(\<And>a b. erases (f a b) (F a b)) \<Longrightarrow> erases (case p of (a, b) \<Rightarrow> f a b) (case p of (a, b) \<Rightarrow> F a b)"
  by (cases p) simp

lemma erases_validation [erases_intros]: "erases (get v) (get v)" "erases (error v) (error v)"
  by (cases v; simp add: get_def error_def erases_intros)+

lemma erases_silence [erases_intros]: "erases m M \<Longrightarrow> erases m (thenE (says silence line level args) M)"
  by (simp add: erases_def says_def silence_def thenE_def bindE_def ret_def fun_eq_iff)

lemma erases_silence_last [erases_intros]: "erases (ret ()) (says silence line level args)"
  by (rule iffD2 [OF erases_def], rule ext) (simp add: says_def silence_def agent_def ret_def)

lemma erases_silence_if [erases_intros]:
  "erases m M \<Longrightarrow> erases m (thenE (if b then says silence line level args else ret ()) M)"
  by (simp add: erases_def says_def silence_def thenE_def bindE_def ret_def fun_eq_iff)

lemma erases_selector [erases_intros]:
  "(\<And>c. erases (f c) (F c)) \<Longrightarrow> (\<And>a. erases (g a) (G a)) \<Longrightarrow>
   erases (case sel of SingleChannelSelector c \<Rightarrow> f c | FailoverChannelSelector a \<Rightarrow> g a)
     (case sel of SingleChannelSelector c \<Rightarrow> F c | FailoverChannelSelector a \<Rightarrow> G a)"
  by (cases sel) simp_all

lemma erases_try_catch [erases_intros]:
  assumes "erases m M" and "\<And>e. erases (h e) (H e)"
  shows "erases (try_catch m p h) (try_catch M p H)"
proof -
  have same: "M = agent m" "H = (\<lambda>e. agent (h e))" using assms by (auto simp: erases_def)
  show ?thesis unfolding erases_def same
    by (rule ext) (auto simp: agent_def try_catch_def split: option.splits sum.splits)
qed

lemma erases_fcs_pick_says [erases_intros]:
  "erases m M \<Longrightarrow> erases m (thenE (fcs_pick_says silence now s) M)"
  by (simp add: erases_def fcs_pick_says_def Let_def says_def silence_def thenE_def bindE_def ret_def fun_eq_iff)

text \<open>Operations that do to the agent what those without a log do.\<close>

definition erases_ops :: "'w FileOps \<Rightarrow> ('w \<times> 'l) FileOps \<Rightarrow> bool" where
  "erases_ops fo F \<longleftrightarrow>
     (\<forall>d n. erases (wait_for_new_file_in_directory fo d n) (wait_for_new_file_in_directory F d n)) \<and>
     (\<forall>p. erases (file_exists fo p) (file_exists F p)) \<and>
     (\<forall>d. erases (list_log_directory fo d) (list_log_directory F d)) \<and>
     (\<forall>d fs t. erases (log_files_not_on_target fo d fs t) (log_files_not_on_target F d fs t)) \<and>
     (\<forall>p t. erases (ship_file fo p t) (ship_file F p t))"

lemma erases_opsD:
  assumes "erases_ops fo F"
  shows "erases (wait_for_new_file_in_directory fo d n) (wait_for_new_file_in_directory F d n)"
    "erases (file_exists fo p) (file_exists F p)"
    "erases (list_log_directory fo d) (list_log_directory F d)"
    "erases (log_files_not_on_target fo d fs t) (log_files_not_on_target F d fs t)"
    "erases (ship_file fo p t) (ship_file F p t)"
  using assms by (simp_all add: erases_ops_def)

lemma quiet_ops_erased: "erases_ops fo (quiet_ops fo)"
  by (simp add: erases_ops_def erases_agent)

lemma pick_channel_erased: "erases (pick_channel os) (pick_channel_logged silence os)"
  unfolding pick_channel_def pick_channel_logged_def by (intro erases_intros)

lemma query_candidates_erased:
  "erases_ops fo F \<Longrightarrow> erases (query_candidates fo ch m) (query_candidates_logged silence F ch m)"
  unfolding query_candidates_def query_candidates_logged_def Let_def by (intro erases_intros erases_opsD)

lemma ship_loop_erased:
  assumes "erases_ops fo F"
  shows "erases (ship_loop fo ch els lost shipped) (ship_loop_logged silence F ch els lost shipped)"
proof (induction els arbitrary: lost shipped)
  case Nil
  then show ?case by (simp add: erases_intros)
next
  case (Cons el els)
  show ?case unfolding ship_loop.simps ship_loop_logged.simps Let_def
    by (intro erases_intros erases_opsD [OF assms] Cons.IH)
qed

lemma ship_candidates_erased:
  "erases_ops fo F \<Longrightarrow> erases (ship_candidates fo ch m cands) (ship_candidates_logged silence F ch m cands)"
  unfolding ship_candidates_def ship_candidates_logged_def Let_def
  by (intro erases_intros ship_loop_erased erases_opsD)

lemma sleep_it_erased: "erases (sleep_it os conf) (sleep_it_logged silence os conf)"
  unfolding sleep_it_def sleep_it_logged_def Let_def by (intro erases_intros)

lemma dispatch_new_logs_erased:
  "erases_ops fo F \<Longrightarrow>
   erases (dispatch_new_logs os conf fo m) (dispatch_new_logs_logged silence os conf F m)"
  unfolding dispatch_new_logs_def dispatch_new_logs_logged_def
  by (intro erases_intros pick_channel_erased query_candidates_erased ship_candidates_erased
      sleep_it_erased erases_opsD)


section \<open>Two ways of saying the same\<close>

text \<open>
  \<open>alike R M N\<close>: from parts of the log that are related by \<open>R\<close>, the two computations do the same to the
  agent, and end in related parts. \<open>speaks R\<close>: two ways of saying a statement always return and keep
  \<open>R\<close>; a round says only what is below fatal.
\<close>

definition alike :: "('l \<Rightarrow> 'k \<Rightarrow> bool) \<Rightarrow> ('a, 'w \<times> 'l) io \<Rightarrow> ('a, 'w \<times> 'k) io \<Rightarrow> bool" where
  "alike R M N \<longleftrightarrow>
     (\<forall>w l k. R l k \<longrightarrow>
        (case M (w, l) of
           None \<Rightarrow> N (w, k) = None
         | Some (r, wl) \<Rightarrow> \<exists>k'. N (w, k) = Some (r, (fst wl, k')) \<and> R (snd wl) k'))"

definition speaks :: "('l \<Rightarrow> 'k \<Rightarrow> bool) \<Rightarrow> 'l say \<Rightarrow> 'k say \<Rightarrow> bool" where
  "speaks R say1 say2 \<longleftrightarrow>
     (\<forall>line st l k. R l k \<longrightarrow> fst st \<in> {Level_Info, Level_Warning, Level_Error} \<longrightarrow>
        (\<exists>l' k'. say1 line st l = Some (Inr (), l') \<and> say2 line st k = Some (Inr (), k') \<and> R l' k'))"

named_theorems alike_intros "computations that differ in what they log only"

lemma alike_agent [alike_intros]: "alike R (agent m) (agent m)"
  by (auto simp: alike_def agent_def split: option.splits)

lemma alike_pure [alike_intros]:
  "alike R (ret a) (ret a)" "alike R (throw e) (throw e)"
  by (auto simp: alike_def ret_def throw_def)

lemma alike_bindE [alike_intros]:
  assumes "alike R M N" and "\<And>a. alike R (F a) (G a)"
  shows "alike R (bindE M F) (bindE N G)"
  unfolding alike_def
proof (intro allI impI)
  fix w l k
  assume rel: "R l k"
  show "case bindE M F (w, l) of
      None \<Rightarrow> bindE N G (w, k) = None
    | Some (r, wl) \<Rightarrow> \<exists>k'. bindE N G (w, k) = Some (r, (fst wl, k')) \<and> R (snd wl) k'"
  proof (cases "M (w, l)")
    case None
    have "N (w, k) = None" using assms(1) [unfolded alike_def, rule_format, OF rel, of w] None by simp
    then show ?thesis using None by (simp add: bindE_def)
  next
    case (Some a)
    obtain r w' l' where a: "a = (r, w', l')" by (cases a)
    obtain k' where k': "N (w, k) = Some (r, (w', k'))" "R l' k'"
      using assms(1) [unfolded alike_def, rule_format, OF rel, of w] Some a by auto
    show ?thesis
    proof (cases r)
      case (Inl e)
      then show ?thesis using Some a k' by (simp add: bindE_def)
    next
      case (Inr x)
      then have "bindE M F (w, l) = F x (w', l')" "bindE N G (w, k) = G x (w', k')"
        using Some a k'(1) by (simp_all add: bindE_def)
      then show ?thesis
        using assms(2) [unfolded alike_def, rule_format, OF k'(2), of x w'] by (cases "F x (w', l')") auto
    qed
  qed
qed

lemma alike_thenE [alike_intros]: "alike R M N \<Longrightarrow> alike R M' N' \<Longrightarrow> alike R (thenE M M') (thenE N N')"
  unfolding thenE_def by (rule alike_bindE)

lemma alike_if [alike_intros]:
  "(b \<Longrightarrow> alike R M N) \<Longrightarrow> (\<not> b \<Longrightarrow> alike R M' N') \<Longrightarrow> alike R (if b then M else M') (if b then N else N')"
  by simp

lemma alike_sum [alike_intros]:
  "(\<And>e. alike R (f e) (F e)) \<Longrightarrow> (\<And>a. alike R (g a) (G a)) \<Longrightarrow>
   alike R (case v of Inl e \<Rightarrow> f e | Inr a \<Rightarrow> g a) (case v of Inl e \<Rightarrow> F e | Inr a \<Rightarrow> G a)"
  by (cases v) simp_all

lemma alike_prod [alike_intros]:
  "(\<And>a b. alike R (f a b) (F a b)) \<Longrightarrow> alike R (case p of (a, b) \<Rightarrow> f a b) (case p of (a, b) \<Rightarrow> F a b)"
  by (cases p) simp

lemma alike_validation [alike_intros]: "alike R (get v) (get v)" "alike R (error v) (error v)"
  by (cases v; simp add: get_def error_def alike_intros)+

lemma alike_says:
  assumes "speaks R say1 say2" and "level \<in> {Level_Info, Level_Warning, Level_Error}"
  shows "alike R (says say1 line level args) (says say2 line level args)"
  unfolding alike_def says_def
proof (intro allI impI)
  fix w :: 'w and l k
  assume "R l k"
  then obtain l' k' where "say1 line (level, args) l = Some (Inr (), l')"
    "say2 line (level, args) k = Some (Inr (), k')" "R l' k'"
    using assms unfolding speaks_def by (metis fst_conv)
  then show "case case say1 line (level, args) (snd (w, l)) of None \<Rightarrow> None
        | Some (r, l') \<Rightarrow> Some (r, fst (w, l), l') of
      None \<Rightarrow> (case say2 line (level, args) (snd (w, k)) of None \<Rightarrow> None
        | Some (r, l') \<Rightarrow> Some (r, fst (w, k), l')) = None
    | Some (r, wl) \<Rightarrow> \<exists>k'. (case say2 line (level, args) (snd (w, k)) of None \<Rightarrow> None
        | Some (r, l') \<Rightarrow> Some (r, fst (w, k), l')) = Some (r, (fst wl, k')) \<and> R (snd wl) k'"
    by simp
qed

lemma alike_levels [alike_intros]:
  assumes "speaks R say1 say2"
  shows "alike R (says say1 line Level_Info args) (says say2 line Level_Info args)"
    "alike R (says say1 line Level_Warning args) (says say2 line Level_Warning args)"
    "alike R (says say1 line Level_Error args) (says say2 line Level_Error args)"
  by (rule alike_says [OF assms], simp)+

lemma alike_selector [alike_intros]:
  "(\<And>c. alike R (f c) (F c)) \<Longrightarrow> (\<And>a. alike R (g a) (G a)) \<Longrightarrow>
   alike R (case sel of SingleChannelSelector c \<Rightarrow> f c | FailoverChannelSelector a \<Rightarrow> g a)
     (case sel of SingleChannelSelector c \<Rightarrow> F c | FailoverChannelSelector a \<Rightarrow> G a)"
  by (cases sel) simp_all

lemma alike_try_catch [alike_intros]:
  assumes "alike R M N" and "\<And>e. alike R (H e) (K e)"
  shows "alike R (try_catch M p H) (try_catch N p K)"
  unfolding alike_def
proof (intro allI impI)
  fix w l k
  assume rel: "R l k"
  show "case try_catch M p H (w, l) of
      None \<Rightarrow> try_catch N p K (w, k) = None
    | Some (r, wl) \<Rightarrow> \<exists>k'. try_catch N p K (w, k) = Some (r, (fst wl, k')) \<and> R (snd wl) k'"
  proof (cases "M (w, l)")
    case None
    then show ?thesis using assms(1) [unfolded alike_def, rule_format, OF rel, of w]
      by (simp add: try_catch_def)
  next
    case (Some a)
    obtain r w' l' where a: "a = (r, w', l')" by (cases a)
    obtain k' where k': "N (w, k) = Some (r, (w', k'))" "R l' k'"
      using assms(1) [unfolded alike_def, rule_format, OF rel, of w] Some a by auto
    have handled: "case H e (w', l') of
        None \<Rightarrow> K e (w', k') = None
      | Some (r, wl) \<Rightarrow> \<exists>k'a. K e (w', k') = Some (r, (fst wl, k'a)) \<and> R (snd wl) k'a" for e
      using assms(2) [unfolded alike_def, rule_format, OF k'(2), of e w'] .
    show ?thesis
    proof (cases r)
      case (Inl e)
      have "try_catch M p H (w, l) = (if catchable e \<and> p e then H e (w', l') else Some (r, (w', l')))"
        "try_catch N p K (w, k) = (if catchable e \<and> p e then K e (w', k') else Some (r, (w', k')))"
        using Some a k'(1) Inl by (simp_all add: try_catch_def)
      then show ?thesis using handled [of e] k'(2)
        by (cases "catchable e"; cases "p e"; cases "H e (w', l')") auto
    next
      case (Inr x)
      then show ?thesis using Some a k' by (simp add: try_catch_def)
    qed
  qed
qed

lemma alike_fcs_pick_says [alike_intros]:
  "speaks R say1 say2 \<Longrightarrow> alike R (fcs_pick_says say1 now s) (fcs_pick_says say2 now s)"
  unfolding fcs_pick_says_def Let_def by (intro alike_intros)

definition alike_ops :: "('l \<Rightarrow> 'k \<Rightarrow> bool) \<Rightarrow> ('w \<times> 'l) FileOps \<Rightarrow> ('w \<times> 'k) FileOps \<Rightarrow> bool" where
  "alike_ops R F G \<longleftrightarrow>
     (\<forall>d n. alike R (wait_for_new_file_in_directory F d n) (wait_for_new_file_in_directory G d n)) \<and>
     (\<forall>p. alike R (file_exists F p) (file_exists G p)) \<and>
     (\<forall>d. alike R (list_log_directory F d) (list_log_directory G d)) \<and>
     (\<forall>d fs t. alike R (log_files_not_on_target F d fs t) (log_files_not_on_target G d fs t)) \<and>
     (\<forall>p t. alike R (ship_file F p t) (ship_file G p t))"

lemma alike_opsD:
  assumes "alike_ops R F G"
  shows "alike R (wait_for_new_file_in_directory F d n) (wait_for_new_file_in_directory G d n)"
    "alike R (file_exists F p) (file_exists G p)"
    "alike R (list_log_directory F d) (list_log_directory G d)"
    "alike R (log_files_not_on_target F d fs t) (log_files_not_on_target G d fs t)"
    "alike R (ship_file F p t) (ship_file G p t)"
  using assms by (simp_all add: alike_ops_def)

lemma quiet_ops_alike: "alike_ops R (quiet_ops fo) (quiet_ops fo)"
  by (simp add: alike_ops_def alike_agent)

lemma pick_channel_alike:
  "speaks R say1 say2 \<Longrightarrow> alike R (pick_channel_logged say1 os) (pick_channel_logged say2 os)"
  unfolding pick_channel_logged_def by (intro alike_intros)

lemma ship_loop_alike:
  assumes "speaks R say1 say2" and "alike_ops R F G"
  shows "alike R (ship_loop_logged say1 F ch els lost shipped) (ship_loop_logged say2 G ch els lost shipped)"
proof (induction els arbitrary: lost shipped)
  case Nil
  then show ?case by (simp add: alike_intros)
next
  case (Cons el els)
  show ?case unfolding ship_loop_logged.simps Let_def
    by (intro alike_intros assms(1) alike_opsD [OF assms(2)] Cons.IH)
qed

lemma dispatch_new_logs_alike:
  assumes "speaks R say1 say2" and "alike_ops R F G"
  shows "alike R (dispatch_new_logs_logged say1 os conf F m) (dispatch_new_logs_logged say2 os conf G m)"
  unfolding dispatch_new_logs_logged_def query_candidates_logged_def ship_candidates_logged_def
    sleep_it_logged_def Let_def
  by (intro alike_intros assms pick_channel_alike ship_loop_alike alike_opsD [OF assms(2)])

section \<open>What a round says, and what the log gets\<close>

definition collect :: "statement list say" where
  "collect line st said = Some (Inr (), said @ [st])"

definition library :: "'e log_os \<Rightarrow> identity \<Rightarrow> bool \<Rightarrow> (place \<Rightarrow> string \<times> nat \<times> string) \<Rightarrow> ('e, 'z) storage_scheme say" where
  "library os ident termColor locate line st = LOG os ident termColor ''default'' (locate line) st"

lemma collect_speaks: "speaks (\<lambda>said said'. said' = said0 @ said) collect collect"
  by (simp add: speaks_def collect_def)

lemma silence_speaks: "speaks (\<lambda>said l'. l' = l) collect silence"
  by (simp add: speaks_def collect_def silence_def ret_def)

definition logged_so_far ::
  "('e \<Rightarrow> string \<Rightarrow> string) \<Rightarrow> ('e \<Rightarrow> string) \<Rightarrow> string \<Rightarrow> string \<Rightarrow> 'e \<Rightarrow>
   statement list \<Rightarrow> ('e, 'z) storage_scheme \<Rightarrow> bool" where
  "logged_so_far file_text console b f e said s \<longleftrightarrow>
     ready b f ''default'' s \<and> shows_line file_text console f (concat (map (log_line b) said)) e (log_env s)"

lemma library_speaks:
  assumes dev: "device_works os file_text console" and b: "CHR ''%'' \<notin> set b"
  shows "speaks (logged_so_far file_text console b f e) collect (library os ident termColor locate)"
  unfolding speaks_def
proof (intro allI impI)
  fix line and st :: statement and said and s :: "('a, 'b) storage_scheme"
  assume rel: "logged_so_far file_text console b f e said s"
    and "fst st \<in> {Level_Info, Level_Warning, Level_Error}"
  then have l: "loggable (fst st)" and rdy: "ready b f ''default'' s" by (auto simp: loggable_def logged_so_far_def)
  obtain e' lg where 1: "LOG os ident termColor ''default'' (locate line) st s =
      Some (Inr (), store ''default'' lg (s\<lparr>log_env := e'\<rparr>))"
    "ready b f ''default'' (store ''default'' lg (s\<lparr>log_env := e'\<rparr>))"
    "shows_line file_text console f (log_line b st) (log_env s) e'"
    by (rule LOG_run [OF dev rdy b l])
  have "logged_so_far file_text console b f e (said @ [st]) (store ''default'' lg (s\<lparr>log_env := e'\<rparr>))"
    using rel 1(2,3) by (auto simp: logged_so_far_def shows_line_def)
  then show "\<exists>l' k'. collect line st said = Some (Inr (), l') \<and>
      library os ident termColor locate line st s = Some (Inr (), k') \<and> logged_so_far file_text console b f e l' k'"
    using 1(1) by (auto simp: collect_def library_def)
qed


lemma says_collect: "says collect line level args (w, said) = Some (Inr (), (w, said @ [(level, args)]))"
  by (simp add: says_def collect_def)

lemma agent_Some: "agent m (w, l) = Some (r, wl) \<longleftrightarrow> m w = Some (r, fst wl) \<and> snd wl = l"
  by (cases wl) (auto simp: agent_def split: option.splits)

text \<open>
  What a computation says does not depend on what has been said before it.
\<close>

definition appends :: "('a, 'w \<times> statement list) io \<Rightarrow> bool" where
  "appends M \<longleftrightarrow> (\<forall>said. alike (\<lambda>l k. k = said @ l) M M)"

definition op_says ::
  "('a, 'w \<times> statement list) io \<Rightarrow> 'w \<Rightarrow> exn + 'a \<Rightarrow> 'w \<Rightarrow> statement list \<Rightarrow> bool" where
  "op_says M w r w' st \<longleftrightarrow> M (w, []) = Some (r, (w', st))"

lemma appendsD:
  assumes "appends M" and "M (w, said) = Some (r, (w', said'))"
  obtains st where "op_says M w r w' st" "said' = said @ st"
proof -
  have "case M (w, []) of None \<Rightarrow> M (w, said) = None
      | Some (r, wl) \<Rightarrow> \<exists>k'. M (w, said) = Some (r, (fst wl, k')) \<and> k' = said @ snd wl"
    using assms(1) [unfolded appends_def alike_def, THEN spec, of said, THEN spec, of w,
        THEN spec, of "[]", THEN spec, of said] by simp
  then show thesis
    using assms(2) that by (cases "M (w, [])") (auto simp: op_says_def)
qed

text \<open>What is said of an attempt, and of a run over the candidates.\<close>

definition lost_statement :: statement where
  "lost_statement = (Level_Error, [Simple ''Lost data! Couldn't ship log since it got rotated in the meantime''])"

definition rsyncing_statement :: "AgentChannel \<Rightarrow> string \<Rightarrow> statement" where
  "rsyncing_statement ch f =
     (Level_Info, [Simple ''Rsyncing '', Std_String (join_path (channel_source_dir ch) f),
                   Simple '' to '', Std_String (rsync_target ch)])"

definition failed_statement :: "AgentChannel \<Rightarrow> string \<Rightarrow> statement" where
  "failed_statement ch f =
     (Level_Warning, [Simple ''Rsync failed to transfer log file '', Std_String (join_path (channel_source_dir ch) f)])"

definition attempt_said :: "AgentChannel \<Rightarrow> string \<times> outcome \<Rightarrow> statement list" where
  "attempt_said ch a =
     rsyncing_statement ch (fst a)
     # (case snd a of
          Shipped \<Rightarrow> []
        | Lost \<Rightarrow> [failed_statement ch (fst a), lost_statement]
        | Retry \<Rightarrow> [failed_statement ch (fst a)])"

lemmas attempt_said_simps = attempt_said_def [of _ "(f, r)" for f r, simplified]

text \<open>
  Attempts with what they say. \<open>ship p w ok w1 st\<close>: shipping the file \<open>p\<close> says \<open>st\<close>, which comes
  between the announcement and the verdict; \<open>there p w b w1\<close>: looking for it says nothing.
\<close>

inductive attempts_said ::
  "(string \<Rightarrow> 'w \<Rightarrow> bool \<Rightarrow> 'w \<Rightarrow> statement list \<Rightarrow> bool) \<Rightarrow> (string \<Rightarrow> 'w \<Rightarrow> bool \<Rightarrow> 'w \<Rightarrow> bool) \<Rightarrow>
   AgentChannel \<Rightarrow> 'w \<Rightarrow> (string \<times> outcome) list \<Rightarrow> statement list \<Rightarrow> 'w \<Rightarrow> bool"
  for ship there ch where
  said_done: "attempts_said ship there ch w [] [] w"
| said_shipped: "ship (join_path (channel_source_dir ch) f) w True w1 st \<Longrightarrow>
    attempts_said ship there ch w1 as said w' \<Longrightarrow>
    attempts_said ship there ch w ((f, Shipped) # as) (rsyncing_statement ch f # st @ said) w'"
| said_lost: "ship (join_path (channel_source_dir ch) f) w False w1 st \<Longrightarrow>
    there (join_path (channel_source_dir ch) f) w1 False w2 \<Longrightarrow>
    attempts_said ship there ch w2 as said w' \<Longrightarrow>
    attempts_said ship there ch w ((f, Lost) # as)
      (rsyncing_statement ch f # st @ [failed_statement ch f, lost_statement] @ said) w'"
| said_retry: "ship (join_path (channel_source_dir ch) f) w False w1 st \<Longrightarrow>
    there (join_path (channel_source_dir ch) f) w1 True w2 \<Longrightarrow>
    attempts_said ship there ch w [(f, Retry)]
      (rsyncing_statement ch f # st @ [failed_statement ch f]) w2"

lemma attempts_said_mono:
  assumes "attempts_said ship there ch w as said w'"
    and "\<And>p w ok w1 st. ship p w ok w1 st \<Longrightarrow> ship' p w ok w1 st"
    and "\<And>p w b w1. there p w b w1 \<Longrightarrow> there' p w b w1"
  shows "attempts_said ship' there' ch w as said w'"
  using assms(1)
  by induction (blast intro: attempts_said.intros assms(2,3))+

text \<open>Over operations that do not log, these are the attempts of Barn\_Agent.\<close>

lemma attempts_said_quiet:
  assumes "attempts_said (\<lambda>p w ok. op_says (ship_file (quiet_ops fo) p (rsync_target ch)) w (Inr ok))
      (\<lambda>p w b w1. file_exists fo p w = Some (Inr b, w1)) ch w as said w'"
  shows "attempts fo ch w as w' \<and> said = concat (map (attempt_said ch) as)"
  using assms
  by induction
     (auto simp: op_says_def agent_def attempt_said_simps split: option.splits intro: attempts.intros)

lemma ship_loop_said:
  assumes "\<And>p. appends (ship_file F p (rsync_target ch))" and "\<And>p. file_exists F p = agent (ex p)"
    and "ship_loop_logged collect F ch els lost shipped (w, said) = Some (Inr (l, n), (w', said'))"
  shows "\<exists>as st. attempts_said (\<lambda>p w ok. op_says (ship_file F p (rsync_target ch)) w (Inr ok))
      (\<lambda>p w b w1. ex p w = Some (Inr b, w1)) ch w as st w' \<and> covers els as \<and>
    l = lost + how_many Lost as \<and> n = shipped + how_many Shipped as \<and> said' = said @ st"
  using assms(3)
proof (induction els arbitrary: lost shipped w said)
  case Nil
  then show ?case by (intro exI [of _ "[]"]) (auto simp: ret_run intro: attempts_said.said_done)
next
  case (Cons el els)
  let ?attempts = "attempts_said (\<lambda>p w ok. op_says (ship_file F p (rsync_target ch)) w (Inr ok))
      (\<lambda>p w b w1. ex p w = Some (Inr b, w1)) ch"
  let ?p = "join_path (channel_source_dir ch) el"
  from Cons.prems obtain ok w1 said1 where
    ship: "ship_file F ?p (rsync_target ch) (w, said @ [rsyncing_statement ch el]) = Some (Inr ok, (w1, said1))" and
    rest: "(if \<not> ok
        then thenE (says collect (''barn-agent.cpp'', 173) Level_Warning [Simple ''Rsync failed to transfer log file '', Std_String ?p])
            (bindE (file_exists F ?p) (\<lambda>present.
               if \<not> present
               then thenE (says collect (''barn-agent.cpp'', 176) Level_Error
                      [Simple ''Lost data! Couldn't ship log since it got rotated in the meantime''])
                    (ship_loop_logged collect F ch els (lost + 1) shipped)
               else ret (lost, shipped)))
        else ship_loop_logged collect F ch els lost (shipped + 1)) (w1, said1)
      = Some (Inr (l, n), (w', said'))"
    by (auto simp: Let_def thenE_run says_collect io_simps bindE_Inr rsyncing_statement_def)
  obtain st where st: "op_says (ship_file F ?p (rsync_target ch)) w (Inr ok) w1 st"
    "said1 = said @ [rsyncing_statement ch el] @ st"
    by (rule appendsD [OF assms(1) ship]) simp
  show ?case
  proof (cases ok)
    case True
    with rest Cons.IH obtain as sts where as: "?attempts w1 as sts w'" "covers els as"
      "l = lost + how_many Lost as" "n = shipped + 1 + how_many Shipped as" "said' = said1 @ sts" by force
    have "?attempts w ((el, Shipped) # as) (rsyncing_statement ch el # st @ sts) w'"
      by (rule said_shipped) (use st(1) True as(1) in simp_all)
    moreover have "covers (el # els) ((el, Shipped) # as)"
      by (rule covers_ConsI [OF as(2) covers_stuck [OF as(2)]])
    ultimately show ?thesis using as(3-5) st(2)
      by (intro exI [of _ "(el, Shipped) # as"] exI [of _ "rsyncing_statement ch el # st @ sts"]) simp
  next
    case False
    with rest obtain present w2 where
      present: "ex ?p w1 = Some (Inr present, w2)" and
      rest2: "(if \<not> present
        then thenE (says collect (''barn-agent.cpp'', 176) Level_Error
               [Simple ''Lost data! Couldn't ship log since it got rotated in the meantime''])
             (ship_loop_logged collect F ch els (lost + 1) shipped)
        else ret (lost, shipped)) (w2, said1 @ [failed_statement ch el]) = Some (Inr (l, n), (w', said'))"
      by (auto simp: thenE_run says_collect io_simps bindE_Inr agent_Some assms(2) failed_statement_def)
    show ?thesis
    proof (cases present)
      case True
      then have same: "l = lost" "n = shipped" "w' = w2" "said' = said1 @ [failed_statement ch el]"
        using rest2 by (auto simp: ret_run)
      have "?attempts w [(el, Retry)] (rsyncing_statement ch el # st @ [failed_statement ch el]) w2"
        by (rule said_retry) (use st(1) present False True in simp_all)
      then show ?thesis
        using covers_retry same st(2)
        by (intro exI [of _ "[(el, Retry)]"] exI [of _ "rsyncing_statement ch el # st @ [failed_statement ch el]"])
           simp
    next
      case not_present: False
      with rest2 have "ship_loop_logged collect F ch els (lost + 1) shipped
          (w2, said1 @ [failed_statement ch el, lost_statement]) = Some (Inr (l, n), (w', said'))"
        by (simp add: thenE_run says_collect io_simps lost_statement_def)
      from Cons.IH [OF this] obtain as sts where as: "?attempts w2 as sts w'" "covers els as"
        "l = lost + 1 + how_many Lost as" "n = shipped + how_many Shipped as"
        "said' = (said1 @ [failed_statement ch el, lost_statement]) @ sts" by auto
      have "?attempts w ((el, Lost) # as)
          (rsyncing_statement ch el # st @ [failed_statement ch el, lost_statement] @ sts) w'"
        by (rule said_lost) (use st(1) False present not_present as(1) in simp_all)
      moreover have "covers (el # els) ((el, Lost) # as)"
        by (rule covers_ConsI [OF as(2) covers_stuck [OF as(2)]])
      ultimately show ?thesis using as(3-5) st(2)
        by (intro exI [of _ "(el, Lost) # as"]
            exI [of _ "rsyncing_statement ch el # st @ [failed_statement ch el, lost_statement] @ sts"]) simp
    qed
  qed
qed

definition summary_said :: "int \<Rightarrow> int \<Rightarrow> statement list" where
  "summary_said candidates_size num_shipped =
     (if num_shipped < candidates_size
      then [(Level_Warning,
             [Simple ''failed to ship '', Simple (show_int (candidates_size - num_shipped)), Simple '' files''])]
      else [])
     @ (if num_shipped > 0
        then [(Level_Info, [Simple ''successfully shipped '', Simple (show_int num_shipped), Simple '' files''])]
        else [])"

definition rotated_said :: "int \<Rightarrow> statement list" where
  "rotated_said rotated =
     (if rotated \<noteq> 0
      then [(Level_Warning, [Simple ''We're producing logs faster than shipping ('', Simple (show_int rotated),
             Simple '').''])]
      else [])"

lemma says_if_collect:
  "(if b then says collect line level args else ret ()) (w, said) =
     Some (Inr (), (w, said @ (if b then [(level, args)] else [])))"
  by (simp add: says_collect ret_run)

lemma rotated_collect:
  "(if b then thenE (says collect line level args) (agent m) else ret ()) (w, said) = Some (Inr (), (w', said')) \<Longrightarrow>
     said' = said @ (if b then [(level, args)] else [])"
  by (auto simp: thenE_run says_collect io_simps agent_Some ret_run split: if_splits)

definition shipping_statement :: "string list \<Rightarrow> statement" where
  "shipping_statement cands =
     (Level_Info, [Simple ''Shipping : '', Simple (show_int (int (length cands))), Simple '' files''])"

text \<open>
  A run over candidates, the second listing of the directory included: \<open>st\<close> is what that says.
\<close>

lemma ship_candidates_said:
  assumes "\<And>p. appends (ship_file F p (rsync_target ch))" and "\<And>p. file_exists F p = agent (ex p)"
    and "\<And>d. appends (list_log_directory F d)"
    and "ship_candidates_logged collect F ch m cands (w, said) = Some (Inr r, (w', said'))"
    and "cands \<noteq> []"
  shows "\<exists>as w1 sts logs w2 w3 st.
    attempts_said (\<lambda>p w ok. op_says (ship_file F p (rsync_target ch)) w (Inr ok))
      (\<lambda>p w b w1. ex p w = Some (Inr b, w1)) ch w as sts w1 \<and> covers (sort cands) as \<and>
    op_says (list_log_directory F (channel_source_dir ch)) w2 (Inr logs) w3 st \<and>
    r = (if how_many Shipped as = 0 then Inl ''Failed to ship any logs'' else Inr (how_many Shipped as)) \<and>
    said' = said @ shipping_statement cands # sts @ summary_said (int (length cands)) (how_many Shipped as)
      @ st @ rotated_said (count_missing (sort cands) logs)"
proof -
  from assms(4,5) obtain l n w1 said1 where loop:
    "ship_loop_logged collect F ch (sort cands) 0 0 (w, said @ [shipping_statement cands]) = Some (Inr (l, n), (w1, said1))"
    and rest: "thenE (if n < int (length cands)
               then says collect (''barn-agent.cpp'', 187) Level_Warning
                      [Simple ''failed to ship '', Simple (show_int (int (length cands) - n)), Simple '' files'']
               else ret ())
       (thenE (if n > 0
               then says collect (''barn-agent.cpp'', 190) Level_Info
                      [Simple ''successfully shipped '', Simple (show_int n), Simple '' files'']
               else ret ())
       (thenE (agent (send_metric m NumFilesShipped n))
       (thenE (agent (send_metric m LostDuringShip l))
       (bindE (list_log_directory F (channel_source_dir ch)) (\<lambda>current_logs.
          thenE (if count_missing (sort cands) current_logs \<noteq> 0
                 then thenE (says collect (''barn-agent.cpp'', 200) Level_Warning
                        [Simple ''We're producing logs faster than shipping ('',
                         Simple (show_int (count_missing (sort cands) current_logs)), Simple '').''])
                      (agent (send_metric m RotatedDuringShip (count_missing (sort cands) current_logs)))
                 else ret ())
         (if n = 0 then ret (Inl ''Failed to ship any logs'') else ret (Inr n))))))) (w1, said1) =
        Some (Inr r, (w', said'))"
    unfolding ship_candidates_logged_def Let_def shipping_statement_def
    by (auto simp: thenE_run says_collect io_simps bindE_Inr)
  obtain as sts where as: "attempts_said (\<lambda>p w ok. op_says (ship_file F p (rsync_target ch)) w (Inr ok))
      (\<lambda>p w b w1. ex p w = Some (Inr b, w1)) ch w as sts w1" "covers (sort cands) as" "n = how_many Shipped as"
    "said1 = said @ [shipping_statement cands] @ sts"
    using ship_loop_said [OF assms(1,2) loop] by auto
  from rest obtain logs w2 w3 said3 w4 said4 where
    list: "list_log_directory F (channel_source_dir ch) (w2, said1 @ summary_said (int (length cands)) n) =
      Some (Inr logs, (w3, said3))" and
    rot: "(if count_missing (sort cands) logs \<noteq> 0
      then thenE (says collect (''barn-agent.cpp'', 200) Level_Warning
             [Simple ''We're producing logs faster than shipping ('',
              Simple (show_int (count_missing (sort cands) logs)), Simple '').''])
           (agent (send_metric m RotatedDuringShip (count_missing (sort cands) logs)))
      else ret ()) (w3, said3) = Some (Inr (), (w4, said4))"
    and last: "(if n = 0 then ret (Inl ''Failed to ship any logs'') else ret (Inr n)) (w4, said4) =
      Some (Inr r, (w', said'))"
    by (auto simp: thenE_def bindE_Inr says_if_collect agent_Some summary_said_def split del: if_split)
  obtain st where st: "op_says (list_log_directory F (channel_source_dir ch)) w2 (Inr logs) w3 st"
    "said3 = said1 @ summary_said (int (length cands)) n @ st"
    by (rule appendsD [OF assms(3) list]) simp
  have "said' = said4" and r: "r = (if n = 0 then Inl ''Failed to ship any logs'' else Inr n)"
    using last by (auto simp: ret_run split: if_splits)
  with rotated_collect [OF rot] st(2) have
    "said' = said1 @ summary_said (int (length cands)) n @ st @ rotated_said (count_missing (sort cands) logs)"
    by (simp add: rotated_said_def)
  then show ?thesis using as st(1) r
    by (intro exI [of _ as] exI [of _ w1] exI [of _ sts] exI [of _ logs] exI [of _ w2] exI [of _ w3]
        exI [of _ st] conjI) (simp_all only: append_assoc append_Cons append_Nil)
qed


section \<open>Properties\<close>

lemma lost_not: "rsyncing_statement ch f \<noteq> lost_statement" "failed_statement ch f \<noteq> lost_statement"
  by (simp_all add: rsyncing_statement_def failed_statement_def lost_statement_def)

lemma lost_in_attempt: "filter (\<lambda>st. st = lost_statement) (attempt_said ch a) =
    (if snd a = Lost then [lost_statement] else [])"
  by (cases a; cases "snd a") (simp_all add: attempt_said_simps lost_not)

lemma lost_in_attempts:
  "int (length (filter (\<lambda>st. st = lost_statement) (concat (map (attempt_said ch) as)))) = how_many Lost as"
  by (induction as) (simp_all add: lost_in_attempt)

text \<open>
  C22: what a run over candidates says. There are attempts as in Barn\_Agent, made by the calls in
  sequence, and the statements are one before them, those of each attempt in order, then how many
  files failed and how many were shipped, where there are such, and how many were rotated.
  For each lost file, and for no other, there is the statement about lost data.
\<close>

theorem shipping_said:
  assumes "ship_candidates_logged collect (quiet_ops fo) ch m cands (w, []) = Some (Inr r, (w', said))"
    and "cands \<noteq> []"
  shows "\<exists>as w1 rotated. attempts fo ch w as w1 \<and> covers (sort cands) as \<and>
    said = (Level_Info, [Simple ''Shipping : '', Simple (show_int (int (length cands))), Simple '' files''])
      # concat (map (attempt_said ch) as) @ summary_said (int (length cands)) (how_many Shipped as)
      @ rotated_said rotated \<and>
    int (length (filter (\<lambda>st. st = lost_statement) said)) = how_many Lost as"
proof -
  have quiet: "appends (ship_file (quiet_ops fo) p (rsync_target ch))"
    "file_exists (quiet_ops fo) p = agent (file_exists fo p)"
    "appends (list_log_directory (quiet_ops fo) d)" for p d
    by (simp_all add: appends_def alike_agent)
  obtain as w1 sts logs w2 w3 st where *:
    "attempts_said (\<lambda>p w ok. op_says (ship_file (quiet_ops fo) p (rsync_target ch)) w (Inr ok))
      (\<lambda>p w b w1. file_exists fo p w = Some (Inr b, w1)) ch w as sts w1" "covers (sort cands) as"
    "op_says (list_log_directory (quiet_ops fo) (channel_source_dir ch)) w2 (Inr logs) w3 st"
    "said = shipping_statement cands # sts @ summary_said (int (length cands)) (how_many Shipped as)
      @ st @ rotated_said (count_missing (sort cands) logs)"
    using ship_candidates_said [OF quiet assms] by auto
  note as = attempts_said_quiet [OF *(1)]
  have "st = []" using *(3) by (auto simp: op_says_def agent_def split: option.splits)
  then have said: "said = (Level_Info, [Simple ''Shipping : '', Simple (show_int (int (length cands))), Simple '' files''])
      # concat (map (attempt_said ch) as) @ summary_said (int (length cands)) (how_many Shipped as)
      @ rotated_said (count_missing (sort cands) logs)"
    using *(4) as by (simp add: shipping_statement_def)
  have "filter (\<lambda>st. st = lost_statement) (summary_said n k @ rotated_said i) = []" for n k i
    by (simp add: summary_said_def rotated_said_def lost_statement_def)
  then have "int (length (filter (\<lambda>st. st = lost_statement) said)) = how_many Lost as"
    using said lost_in_attempts [of ch as] by (simp add: lost_statement_def)
  with said as *(2) show ?thesis by blast
qed

theorem shipping_said_witness:
  "\<exists>as w1 w' said. ship_candidates_logged collect (quiet_ops FakeFileOps) PRIMARY NoOpMetrics [''@3'', ''@1'']
       (example_world, []) = Some (Inr (Inr 2), (w', said)) \<and>
     length said = 4 \<and> attempts FakeFileOps PRIMARY example_world as w1 \<and> covers [''@1'', ''@3''] as \<and>
     int (length (filter (\<lambda>st. st = lost_statement) said)) = how_many Lost as"
proof -
  have "map_option (\<lambda>(r, wl). (r, length (snd wl)))
      (ship_candidates_logged collect (quiet_ops FakeFileOps) PRIMARY NoOpMetrics [''@3'', ''@1''] (example_world, [])) =
      Some (Inr (Inr 2), 4)" by code_simp
  then obtain w' said where run: "ship_candidates_logged collect (quiet_ops FakeFileOps) PRIMARY NoOpMetrics [''@3'', ''@1'']
      (example_world, []) = Some (Inr (Inr 2), (w', said))" "length said = 4" by auto
  have "sort [''@3'', ''@1''] = [''@1'', ''@3'']" by code_simp
  moreover have "[''@3'', ''@1''] \<noteq> []" by simp
  ultimately obtain as w1 where "attempts FakeFileOps PRIMARY example_world as w1" "covers [''@1'', ''@3''] as"
    "int (length (filter (\<lambda>st. st = lost_statement) said)) = how_many Lost as"
    using shipping_said [OF run(1)] by metis
  with run show ?thesis by blast
qed

end
