(* ===== verification/Round_Logging.thy ===== *)
theory Round_Logging
  imports Agent_Logging Files
begin

text \<open>
  The file operations of the agent with their log statements (\<^verbatim>\<open>files.cpp\<close>, \<^verbatim>\<open>rsync.cpp\<close>), and what a
  whole round of the real agent says, and where it is logged. The statements of each operation
  are given by a relation to what the operation did; the relations are put together for a round.
\<close>

section \<open>The operations with their statements\<close>

fun exn_what :: "exn \<Rightarrow> string" where
  "exn_what (Abort s) = s"
| "exn_what (Filesystem_Error s) = s"
| "exn_what (System_Error s) = s"
| "exn_what (Thrown_Literal s) = s"

fun svlogd_files_loop_logged ::
  "'l say \<Rightarrow> string list \<Rightarrow> FileNameList \<Rightarrow> (FileNameList, 'w \<times> 'l) io" where
  "svlogd_files_loop_logged say [] svlogd_files = ret svlogd_files"
| "svlogd_files_loop_logged say (it # rest) svlogd_files =
     (let svlogd_files' = (if is_svlogd_filename it then svlogd_files @ [it] else svlogd_files)
      in if it = EMERGENCY_STOP_FILENAME
         then thenE (says say (''files.cpp'', 80) Level_Warning
                       [Simple ''file STOP_SHIPPING found, disabling log shipping''])
                (ret [])
         else svlogd_files_loop_logged say rest svlogd_files')"

definition files_list_log_directory_logged ::
  "'l say \<Rightarrow> 'e OS \<Rightarrow> string \<Rightarrow> (FileNameList, ('e, 'z) world_scheme \<times> 'l) io" where
  "files_list_log_directory_logged say os directory_path =
     bindE (agent (list_file_names os directory_path)) (\<lambda>file_names.
       svlogd_files_loop_logged say file_names [])"

definition files_wait_for_new_file_logged ::
  "'l say \<Rightarrow> 'e OS \<Rightarrow> string \<Rightarrow> int \<Rightarrow> (bool, ('e, 'z) world_scheme \<times> 'l) io" where
  "files_wait_for_new_file_logged say os directory secs =
     try_catch
      (bindE (agent (run_command os ''inotifywait'' (inotifywait_args directory))) (\<lambda>r. ret (fst r = 0)))
      is_filesystem_error
      (\<lambda>ex. thenE (says say (''files.cpp'', 60) Level_Info
                     [Simple ''You appear not having inotifywait, sleeping instead.'', Simple (exn_what ex)])
             (thenE (agent (syscall (sys_sleep os (unsigned32 secs)))) (ret True)))"

function do_rsync_loop_logged ::
  "'l say \<Rightarrow> 'e OS \<Rightarrow> string list \<Rightarrow> nat \<Rightarrow> int \<times> string \<Rightarrow>
   (int \<times> string, ('e, 'z) world_scheme \<times> 'l) io" where
  "do_rsync_loop_logged say os args tri rsync_output =
     (if tri \<le> RSYNC_NUM_RETRIES
      then bindE (agent (run_command os ''rsync'' args)) (\<lambda>rsync_output'.
             if fst rsync_output' \<noteq> CLIENT_SERVER_PROTOCOL then ret rsync_output'
             else thenE (if tri \<le> RSYNC_NUM_RETRIES
                         then says say (''rsync.cpp'', 66) Level_Warning
                                [Simple ''rsync protocol failure, retrying...'']
                         else ret ())
                    (do_rsync_loop_logged say os args (tri + 1) rsync_output'))
      else ret rsync_output)"
  by pat_completeness auto
termination
  by (relation "measure (\<lambda>(say, os, args, tri, out). Suc RSYNC_NUM_RETRIES - tri)") auto

declare do_rsync_loop_logged.simps [simp del]

definition do_rsync_logged ::
  "'l say \<Rightarrow> 'e OS \<Rightarrow> string list \<Rightarrow> (int \<times> string, ('e, 'z) world_scheme \<times> 'l) io" where
  "do_rsync_logged say os args = do_rsync_loop_logged say os args 0 (0, '''')"

definition rsync_log_files_not_on_target_logged ::
  "'l say \<Rightarrow> 'e OS \<Rightarrow> splitter \<Rightarrow> string \<Rightarrow> FileNameList \<Rightarrow> string \<Rightarrow>
   (FileNameList Validation, ('e, 'z) world_scheme \<times> 'l) io" where
  "rsync_log_files_not_on_target_logged say os boost_split log_directory files target =
     (if length files = 0 then ret (Inr [])
      else bindE (do_rsync_logged say os (rsync_dry_run log_directory files target)) (\<lambda>rsync_output.
        if fst rsync_output \<noteq> 0 \<and> fst rsync_output \<noteq> PARTIAL_TRANSFER \<and>
           fst rsync_output \<noteq> PARTIAL_TRANSFER_DUE_VANISHED_SOURCE
        then ret (Inl (''Failed to retrieve sync list: '' @ snd rsync_output))
        else ret (Inr (sort (get_rsync_candidates boost_split (snd rsync_output))))))"

definition rsync_ship_file_logged ::
  "'l say \<Rightarrow> 'e OS \<Rightarrow> string \<Rightarrow> string \<Rightarrow> (bool, ('e, 'z) world_scheme \<times> 'l) io" where
  "rsync_ship_file_logged say os file_path target =
     bindE (do_rsync_logged say os (rsync_wet_run file_path target)) (\<lambda>out. ret (fst out = 0))"

definition file_ops_logged :: "'l say \<Rightarrow> 'e OS \<Rightarrow> splitter \<Rightarrow> (('e, 'z) world_scheme \<times> 'l) FileOps" where
  "file_ops_logged say os boost_split =
     \<lparr>wait_for_new_file_in_directory = files_wait_for_new_file_logged say os,
      file_exists = (\<lambda>p. agent (files_file_exists os p)),
      list_log_directory = files_list_log_directory_logged say os,
      log_files_not_on_target = rsync_log_files_not_on_target_logged say os boost_split,
      ship_file = rsync_ship_file_logged say os\<rparr>"

lemma file_ops_logged_simps [simp]:
  "wait_for_new_file_in_directory (file_ops_logged say os bs) = files_wait_for_new_file_logged say os"
  "file_exists (file_ops_logged say os bs) p = agent (files_file_exists os p)"
  "list_log_directory (file_ops_logged say os bs) = files_list_log_directory_logged say os"
  "log_files_not_on_target (file_ops_logged say os bs) = rsync_log_files_not_on_target_logged say os bs"
  "ship_file (file_ops_logged say os bs) = rsync_ship_file_logged say os"
  by (simp_all add: file_ops_logged_def)

section \<open>Without their statements they are the operations of Files\<close>

lemma svlogd_loop_erased: "erases (ret (svlogd_files_loop names fs)) (svlogd_files_loop_logged silence names fs)"
  by (induction names arbitrary: fs) (simp_all add: Let_def erases_intros)

lemma do_rsync_loop_erased:
  "erases (do_rsync_loop os args tri out) (do_rsync_loop_logged silence os args tri out)"
proof (induction os args tri out rule: do_rsync_loop.induct)
  case (1 os args tri out)
  show ?case
    unfolding do_rsync_loop.simps [of os args tri] do_rsync_loop_logged.simps [of silence os args tri]
    by (intro erases_intros 1)
qed

lemma file_ops_erased: "erases_ops (file_ops os bs) (file_ops_logged silence os bs)"
  unfolding erases_ops_def file_ops_simps file_ops_logged_simps
    files_wait_for_new_file_def files_wait_for_new_file_logged_def
    files_list_log_directory_def files_list_log_directory_logged_def
    rsync_log_files_not_on_target_def rsync_log_files_not_on_target_logged_def
    rsync_ship_file_def rsync_ship_file_logged_def do_rsync_def do_rsync_logged_def
  by (intro conjI allI erases_intros svlogd_loop_erased do_rsync_loop_erased)

lemma svlogd_loop_alike:
  assumes "speaks R say1 say2"
  shows "alike R (svlogd_files_loop_logged say1 names fs) (svlogd_files_loop_logged say2 names fs)"
proof (induction names arbitrary: fs)
  case Nil
  then show ?case by (simp add: alike_intros)
next
  case (Cons it names)
  show ?case unfolding svlogd_files_loop_logged.simps Let_def by (intro alike_intros assms Cons.IH)
qed

lemma do_rsync_loop_alike:
  assumes "speaks R say1 say2"
  shows "alike R (do_rsync_loop_logged say1 os args tri out) (do_rsync_loop_logged say2 os args tri out)"
proof (induction os args tri out rule: do_rsync_loop.induct)
  case (1 os args tri out)
  show ?case
    unfolding do_rsync_loop_logged.simps [of say1 os args tri] do_rsync_loop_logged.simps [of say2 os args tri]
    by (intro alike_intros assms 1)
qed

lemma file_ops_alike:
  assumes "speaks R say1 say2"
  shows "alike_ops R (file_ops_logged say1 os bs) (file_ops_logged say2 os bs)"
  unfolding alike_ops_def file_ops_logged_simps files_wait_for_new_file_logged_def
    files_list_log_directory_logged_def rsync_log_files_not_on_target_logged_def
    rsync_ship_file_logged_def do_rsync_logged_def
  by (intro conjI allI alike_intros assms svlogd_loop_alike [OF assms] do_rsync_loop_alike [OF assms])

lemma file_ops_append:
  "appends (wait_for_new_file_in_directory (file_ops_logged collect os bs) d n)"
  "appends (list_log_directory (file_ops_logged collect os bs) d)"
  "appends (log_files_not_on_target (file_ops_logged collect os bs) d fs t)"
  "appends (ship_file (file_ops_logged collect os bs) p t)"
  unfolding appends_def by (intro allI alike_opsD [OF file_ops_alike [OF collect_speaks]])+


section \<open>What each operation says\<close>

lemma op_says_bind:
  "op_says (bindE m f) w (Inr b) w' st \<longleftrightarrow>
     (\<exists>a w1 st1. op_says m w (Inr a) w1 st1 \<and> f a (w1, st1) = Some (Inr b, (w', st)))"
  by (auto simp: op_says_def bindE_Inr)

lemma op_says_agent [simp]: "op_says (agent m) w r w' st \<longleftrightarrow> m w = Some (r, w') \<and> st = []"
  by (auto simp: op_says_def agent_Some)

text \<open>A listing: that it found the emergency stop.\<close>

definition listing_said :: "string list \<Rightarrow> statement list" where
  "listing_said names =
     (if EMERGENCY_STOP_FILENAME \<in> set names
      then [(Level_Warning, [Simple ''file STOP_SHIPPING found, disabling log shipping''])] else [])"

lemma svlogd_loop_said:
  "svlogd_files_loop_logged collect names fs (w, said) =
     Some (Inr (svlogd_files_loop names fs), (w, said @ listing_said names))"
  by (induction names arbitrary: fs)
     (auto simp: Let_def listing_said_def ret_run thenE_run says_collect io_simps)

lemma list_said:
  assumes "op_says (files_list_log_directory_logged collect os d) w (Inr logs) w' st"
  shows "\<exists>names e. sys_list_directory os d (env w) = Some (Some names, e) \<and> w' = w\<lparr>env := e\<rparr> \<and>
    logs = log_files_in names \<and> st = listing_said names"
proof -
  obtain names where names: "list_file_names os d w = Some (Inr names, w')"
    "logs = svlogd_files_loop names []" "st = listing_said names"
    using assms by (auto simp: files_list_log_directory_logged_def op_says_bind svlogd_loop_said)
  then obtain listed e where "sys_list_directory os d (env w) = Some (Some listed, e)"
    "names = sort listed" "w' = w\<lparr>env := e\<rparr>"
    by (auto simp: list_file_names_def bindE_Inr syscall_Some ret_run throw_run split: option.splits)
  then show ?thesis using names(2,3)
    by (intro exI [of _ listed] exI [of _ e])
       (simp add: svlogd_files_loop_filter log_files_in_def filter_sort listing_said_def)
qed

text \<open>A call of rsync: one warning for each run that ended with a protocol error.\<close>

definition retry_statement :: statement where
  "retry_statement = (Level_Warning, [Simple ''rsync protocol failure, retrying...''])"

definition rsync_says ::
  "'e OS \<Rightarrow> string list \<Rightarrow> ('e, 'z) world_scheme \<Rightarrow> int \<times> string \<Rightarrow> ('e, 'z) world_scheme \<Rightarrow>
   statement list \<Rightarrow> bool" where
  "rsync_says os args w out w' st \<longleftrightarrow>
     (\<exists>rs. command_runs os args w rs w' \<and> rs \<noteq> [] \<and> last rs = out \<and>
        st = replicate (length (filter (\<lambda>r. fst r = CLIENT_SERVER_PROTOCOL) rs)) retry_statement)"

lemma do_rsync_loop_said:
  assumes "do_rsync_loop_logged collect os args tri out0 (w, said) = Some (Inr out, (w', said'))"
    and "tri \<le> RSYNC_NUM_RETRIES"
  shows "\<exists>rs. command_runs os args w rs w' \<and> rs \<noteq> [] \<and> last rs = out \<and>
    said' = said @ replicate (length (filter (\<lambda>r. fst r = CLIENT_SERVER_PROTOCOL) rs)) retry_statement"
  using assms
proof (induction os args tri out0 arbitrary: w said rule: do_rsync_loop.induct)
  case (1 os args tri out0)
  from 1(2,3) obtain r w1 where r: "run_command os ''rsync'' args w = Some (Inr r, w1)"
    and rest: "(if fst r \<noteq> CLIENT_SERVER_PROTOCOL then ret r
      else thenE (if tri \<le> RSYNC_NUM_RETRIES
                  then says collect (''rsync.cpp'', 66) Level_Warning [Simple ''rsync protocol failure, retrying...'']
                  else ret ())
             (do_rsync_loop_logged collect os args (tri + 1) r)) (w1, said) = Some (Inr out, (w', said'))"
    unfolding do_rsync_loop_logged.simps [of collect os args tri]
    by (auto simp: bindE_Inr agent_Some split del: if_split)
  show ?case
  proof (cases "fst r \<noteq> CLIENT_SERVER_PROTOCOL")
    case True
    then show ?thesis using r rest by (intro exI [of _ "[r]"]) (auto simp: ret_run)
  next
    case False
    then have loop: "do_rsync_loop_logged collect os args (tri + 1) r (w1, said @ [retry_statement]) =
        Some (Inr out, (w', said'))"
      using rest 1(3) by (simp add: thenE_run says_collect io_simps retry_statement_def)
    show ?thesis
    proof (cases "tri + 1 \<le> RSYNC_NUM_RETRIES")
      case True
      from 1(1) [OF 1(3) False [unfolded not_not, THEN not_not [THEN iffD2]] loop True]
      obtain rs where "command_runs os args w1 rs w'" "rs \<noteq> []" "last rs = out"
        "said' = (said @ [retry_statement]) @
           replicate (length (filter (\<lambda>r. fst r = CLIENT_SERVER_PROTOCOL) rs)) retry_statement" by blast
      then show ?thesis using r False by (intro exI [of _ "r # rs"]) auto
    next
      case last: False
      then have "r = out" "w1 = w'" "said' = said @ [retry_statement]"
        using loop unfolding do_rsync_loop_logged.simps [of collect os args "tri + 1" r]
        by (auto simp: ret_run)
      then show ?thesis using r False by (intro exI [of _ "[r]"]) auto
    qed
  qed
qed

lemma do_rsync_said:
  "op_says (do_rsync_logged collect os args) w (Inr out) w' st \<Longrightarrow> rsync_says os args w out w' st"
  unfolding op_says_def do_rsync_logged_def rsync_says_def
  by (drule do_rsync_loop_said) (simp_all add: rsync_constants)

lemma ship_file_said:
  "op_says (rsync_ship_file_logged collect os p t) w (Inr ok) w' st \<Longrightarrow>
   \<exists>out. rsync_says os (rsync_wet_run p t) w out w' st \<and> ok = (fst out = 0)"
  unfolding rsync_ship_file_logged_def op_says_bind ret_run by (fastforce dest: do_rsync_said)

text \<open>Asking for the missing files.\<close>

lemma missing_said:
  assumes "op_says (rsync_log_files_not_on_target_logged collect os bs d fs t) w (Inr v) w' st"
  shows "if fs = [] then v = Inr [] \<and> w' = w \<and> st = []
    else \<exists>out. rsync_says os (rsync_dry_run d fs t) w out w' st \<and>
      v = (if fst out \<in> {0, 23, 24} then Inr (sort (get_rsync_candidates bs (snd out)))
           else Inl (''Failed to retrieve sync list: '' @ snd out))"
proof (cases "fs = []")
  case True
  then show ?thesis using assms
    by (simp add: rsync_log_files_not_on_target_logged_def op_says_def ret_run)
next
  case False
  then obtain out where "op_says (do_rsync_logged collect os (rsync_dry_run d fs t)) w (Inr out) w' st"
    "v = (if fst out \<in> {0, 23, 24} then Inr (sort (get_rsync_candidates bs (snd out)))
           else Inl (''Failed to retrieve sync list: '' @ snd out))"
    using assms
    by (auto simp: rsync_log_files_not_on_target_logged_def op_says_bind ret_run rsync_constants
        split: if_splits)
  with do_rsync_said have "rsync_says os (rsync_dry_run d fs t) w out w' st \<and>
      v = (if fst out \<in> {0, 23, 24} then Inr (sort (get_rsync_candidates bs (snd out)))
           else Inl (''Failed to retrieve sync list: '' @ snd out))" by blast
  then show ?thesis unfolding if_not_P [OF False] by (rule exI)
qed

text \<open>Picking a channel: that the selector changed sides.\<close>

definition pick_said :: "'t selector \<Rightarrow> 't selector \<Rightarrow> statement list" where
  "pick_said sel sel' =
     (case (sel, sel') of
        (FailoverChannelSelector f, FailoverChannelSelector g) \<Rightarrow>
          if primary_ok f \<and> \<not> primary_ok g
          then [(Level_Error, [Simple ''!!Channel: error primary down for too long, failing to backup''])]
          else if \<not> primary_ok f \<and> primary_ok g
          then [(Level_Warning, [Simple ''!!Channel: trying to fail back to primary from backup''])]
          else []
      | _ \<Rightarrow> [])"

lemma fcs_pick_collect:
  "fcs_pick_says collect now f (w, said) = Some (Inr (),
     (w, said @ pick_said (FailoverChannelSelector f) (FailoverChannelSelector (snd (fcs_pick_channel now f)))))"
  by (simp add: fcs_pick_says_def Let_def pick_said_def fcs_pick_snd says_collect ret_run)

lemma pick_channel_said:
  assumes "op_says (pick_channel_logged collect os) w (Inr ch) w' st"
  shows "pick_channel os w = Some (Inr ch, w') \<and>
    st = pick_said (channel_selector w) (channel_selector w')"
proof (cases "channel_selector w")
  case (SingleChannelSelector c)
  have sel: "agent (getE channel_selector) (w, l) = Some (Inr (SingleChannelSelector c), (w, l))"
    for l :: "statement list"
    using SingleChannelSelector by (simp add: agent_def getE_run)
  have set: "agent (set_selector (SingleChannelSelector c)) (w, l) =
      Some (Inr (), (w\<lparr>channel_selector := SingleChannelSelector c\<rparr>, l))" for l :: "statement list"
    by (simp add: agent_def set_selector_def modifyE_run)
  have "ch = c" "w' = w\<lparr>channel_selector := SingleChannelSelector c\<rparr>" "st = []"
    using assms by (auto simp: pick_channel_logged_def op_says_def scs_pick_channel_def
        thenE_def ret_run
        bindE_value [where m = "agent (getE channel_selector)", OF sel]
        bindE_value [where m = "agent (set_selector (SingleChannelSelector c))", OF set])
  then show ?thesis using SingleChannelSelector
    by (simp add: pick_channel_def io_simps scs_pick_channel_def set_selector_def pick_said_def)
next
  case (FailoverChannelSelector f)
  then obtain now w1 where now: "now_in_seconds os w = Some (Inr now, w1)"
    and rest: "thenE (fcs_pick_says collect now f)
        (case fcs_pick_channel now f of
           (c, f') \<Rightarrow> thenE (agent (set_selector (FailoverChannelSelector f'))) (ret c)) (w1, []) =
      Some (Inr ch, (w', st))"
    using assms by (auto simp: pick_channel_logged_def op_says_def bindE_Inr agent_Some getE_run)
  obtain c f' where p: "fcs_pick_channel now f = (c, f')" by fastforce
  have "ch = c" "w' = w1\<lparr>channel_selector := FailoverChannelSelector f'\<rparr>"
    "st = pick_said (FailoverChannelSelector f) (FailoverChannelSelector f')"
    using rest p
    by (auto simp: thenE_run bindE_Inr fcs_pick_collect agent_Some set_selector_def modifyE_run ret_run thenE_def)
  then show ?thesis using FailoverChannelSelector now p
    by (simp add: pick_channel_def io_simps set_selector_def)
qed

text \<open>Sleeping, and waiting for a new file: that \<open>inotifywait\<close> could not be found.\<close>

definition sleeping_says :: "'e OS \<Rightarrow> BarnConf \<Rightarrow> ('e, 'z) world_scheme \<Rightarrow> statement list \<Rightarrow> bool" where
  "sleeping_says os conf w st \<longleftrightarrow>
     (if sleep_seconds conf > 0
      then \<exists>r e. sys_rand os (env w) = Some (r, e) \<and>
        st = [(Level_Info, [Simple ''Sleeping for '',
          Simple (show_int (to_int32 (sleep_seconds conf div 2 + r mod sleep_seconds conf))),
          Simple '' seconds...''])]
      else st = [])"

lemma sleep_said:
  assumes "sleep_it_logged collect os conf (w, said) = Some (Inr u, (w', said'))"
  shows "\<exists>st. sleeping_says os conf w st \<and> said' = said @ st"
  using assms
  by (auto simp: sleep_it_logged_def sleeping_says_def bindE_Inr thenE_def agent_Some syscall_Some
      says_collect Let_def ret_run split: if_splits)

definition waiting_says :: "'e OS \<Rightarrow> string \<Rightarrow> ('e, 'z) world_scheme \<Rightarrow> statement list \<Rightarrow> bool" where
  "waiting_says os d w st \<longleftrightarrow>
     (\<exists>r w1. run_command os ''inotifywait'' (inotifywait_args d) w = Some (r, w1) \<and>
        st = (case r of
                Inl (Filesystem_Error what) \<Rightarrow>
                  [(Level_Info, [Simple ''You appear not having inotifywait, sleeping instead.'', Simple what])]
              | _ \<Rightarrow> []))"

lemma wait_said:
  assumes "op_says (files_wait_for_new_file_logged collect os d n) w (Inr b) w' st"
  shows "waiting_says os d w st"
proof -
  obtain r w1 where r: "run_command os ''inotifywait'' (inotifywait_args d) w = Some (r, w1)"
    using assms by (cases "run_command os ''inotifywait'' (inotifywait_args d) w")
      (auto simp: op_says_def files_wait_for_new_file_logged_def try_catch_def bindE_def agent_def)
  show ?thesis
  proof (cases r)
    case (Inr p)
    then have "st = []" using assms r
      by (simp add: op_says_def files_wait_for_new_file_logged_def try_catch_def bindE_def agent_def ret_def)
    then show ?thesis using r Inr by (auto simp: waiting_says_def)
  next
    case (Inl e)
    have "st = (if is_filesystem_error e
        then [(Level_Info, [Simple ''You appear not having inotifywait, sleeping instead.'', Simple (exn_what e)])]
        else [])"
      using assms r Inl
      by (auto simp: op_says_def files_wait_for_new_file_logged_def try_catch_def bindE_def agent_def ret_def
          thenE_def says_collect split: if_splits option.splits sum.splits)
    then show ?thesis using r Inl by (cases e) (auto simp: waiting_says_def)
  qed
qed

section \<open>What a round says\<close>

definition querying_said :: "AgentChannel \<Rightarrow> FileNameList \<Rightarrow> FileNameList \<Rightarrow> statement list" where
  "querying_said ch existing logs_to_ship =
     (Level_Info, [Simple ''Querying '', Std_String (channel_source_dir ch), Simple '' with '',
        Simple (show_nat (length existing)), Simple '' log files: '',
        Simple (show_nat (length logs_to_ship)), Simple '' log files to ship''])
     # (if length logs_to_ship = length existing
        then [(Level_Warning, [Simple ''Warning about to ship all log files from '',
               Std_String (channel_source_dir ch)])]
        else [])"

text \<open>
  The query, with its result: nothing more if there are no log files; else the run of rsync that
  asks for the missing files, and, if that succeeds, what there is to ship.
\<close>

definition query_says ::
  "'e OS \<Rightarrow> splitter \<Rightarrow> AgentChannel \<Rightarrow> ('e, 'z) world_scheme \<Rightarrow> FileNameList Validation \<Rightarrow>
   statement list \<Rightarrow> bool" where
  "query_says os bs ch w v st \<longleftrightarrow>
     (\<exists>names e. sys_list_directory os (channel_source_dir ch) (env w) = Some (Some names, e) \<and>
        (if log_files_in names = [] then v = Inr [] \<and> st = listing_said names
         else \<exists>out w1 st1.
           rsync_says os (rsync_dry_run (channel_source_dir ch) (log_files_in names) (rsync_target ch))
             (w\<lparr>env := e\<rparr>) out w1 st1 \<and>
           (if fst out \<in> {0, 23, 24}
            then let cands = tail_intersection (log_files_in names) (sort (get_rsync_candidates bs (snd out)))
                 in v = Inr cands \<and> st = listing_said names @ st1 @ querying_said ch (log_files_in names) cands
            else v = Inl (''Failed to retrieve sync list: '' @ snd out) \<and> st = listing_said names @ st1)))"

lemma query_saysI:
  assumes "sys_list_directory os (channel_source_dir ch) (env w) = Some (Some names, e)"
    and "log_files_in names \<noteq> []"
    and "rsync_says os (rsync_dry_run (channel_source_dir ch) (log_files_in names) (rsync_target ch))
      (w\<lparr>env := e\<rparr>) out w1 st1"
    and "if fst out \<in> {0, 23, 24}
      then let cands = tail_intersection (log_files_in names) (sort (get_rsync_candidates bs (snd out)))
           in v = Inr cands \<and> st = listing_said names @ st1 @ querying_said ch (log_files_in names) cands
      else v = Inl (''Failed to retrieve sync list: '' @ snd out) \<and> st = listing_said names @ st1"
  shows "query_says os bs ch w v st"
  unfolding query_says_def
proof (rule exI [of _ names], rule exI [of _ e], rule conjI [OF assms(1)])
  show "if log_files_in names = [] then v = Inr [] \<and> st = listing_said names
    else \<exists>out w1 st1.
      rsync_says os (rsync_dry_run (channel_source_dir ch) (log_files_in names) (rsync_target ch))
        (w\<lparr>env := e\<rparr>) out w1 st1 \<and>
      (if fst out \<in> {0, 23, 24}
       then let cands = tail_intersection (log_files_in names) (sort (get_rsync_candidates bs (snd out)))
            in v = Inr cands \<and> st = listing_said names @ st1 @ querying_said ch (log_files_in names) cands
       else v = Inl (''Failed to retrieve sync list: '' @ snd out) \<and> st = listing_said names @ st1)"
    unfolding if_not_P [OF assms(2)]
    by (rule exI [of _ out], rule exI [of _ w1], rule exI [of _ st1], rule conjI [OF assms(3,4)])
qed

lemma query_said:
  assumes "query_candidates_logged collect (file_ops_logged collect os bs) ch m (w, said) =
    Some (Inr v, (w', said'))"
  shows "\<exists>st. query_says os bs ch w v st \<and> said' = said @ st"
proof -
  let ?dir = "channel_source_dir ch"
  let ?F = "file_ops_logged collect os bs"
  obtain existing w1 said1 asked w2 said2 where
    list: "list_log_directory ?F ?dir (w, said) = Some (Inr existing, (w1, said1))" and
    miss: "log_files_not_on_target ?F ?dir existing (rsync_target ch) (w1, said1) = Some (Inr asked, (w2, said2))" and
    rest: "(case asked of
         Inl err \<Rightarrow> thenE (agent (send_metric m FailedToGetSyncList 1)) (ret (Inl err))
       | Inr _ \<Rightarrow>
           if length existing = 0 then ret (Inr [])
           else bindE (get asked) (\<lambda>missing.
             let logs_to_ship = tail_intersection existing missing in
             thenE (agent (send_metric m FilesToShip (int (length logs_to_ship))))
            (thenE (says collect (''barn-agent.cpp'', 139) Level_Info
                     [Simple ''Querying '', Std_String ?dir, Simple '' with '',
                      Simple (show_nat (length existing)), Simple '' log files: '',
                      Simple (show_nat (length logs_to_ship)), Simple '' log files to ship''])
            (thenE (if length logs_to_ship = length existing
                    then thenE (says collect (''barn-agent.cpp'', 143) Level_Warning
                           [Simple ''Warning about to ship all log files from '', Std_String ?dir])
                         (agent (send_metric m FullDirectoryShip 1))
                    else ret ())
            (ret (Inr logs_to_ship)))))) (w2, said2) = Some (Inr v, (w', said'))"
    using assms unfolding query_candidates_logged_def by (auto simp: bindE_Inr)
  obtain st1 where st1: "op_says (list_log_directory ?F ?dir) w (Inr existing) w1 st1" "said1 = said @ st1"
    by (rule appendsD [OF file_ops_append(2) list])
  obtain st2 where st2: "op_says (log_files_not_on_target ?F ?dir existing (rsync_target ch)) w1 (Inr asked) w2 st2"
    "said2 = said1 @ st2"
    by (rule appendsD [OF file_ops_append(3) miss])
  obtain names e where names: "sys_list_directory os ?dir (env w) = Some (Some names, e)"
    "w1 = w\<lparr>env := e\<rparr>" "existing = log_files_in names" "st1 = listing_said names"
    using list_said st1(1) unfolding file_ops_logged_simps by metis
  note missing = missing_said [OF st2(1) [unfolded file_ops_logged_simps]]
  show ?thesis
  proof (cases "existing = []")
    case True
    then show ?thesis using missing rest names st1(2) st2(2)
      by (intro exI [of _ st1]) (auto simp: query_says_def ret_run)
  next
    case False
    then obtain out where out: "rsync_says os (rsync_dry_run ?dir existing (rsync_target ch)) w1 out w2 st2"
      "asked = (if fst out \<in> {0, 23, 24} then Inr (sort (get_rsync_candidates bs (snd out)))
           else Inl (''Failed to retrieve sync list: '' @ snd out))"
      using missing by auto
    show ?thesis
    proof (cases "fst out \<in> {0, 23, 24}")
      case True
      let ?cands = "tail_intersection existing (sort (get_rsync_candidates bs (snd out)))"
      have "v = Inr ?cands \<and> said' = said2 @ querying_said ch existing ?cands"
        using rest out(2) True False
        by (auto simp: querying_said_def get_def bindE_Inr thenE_def agent_Some says_collect ret_run Let_def
            split: if_splits)
      moreover have "query_says os bs ch w (Inr ?cands) (st1 @ st2 @ querying_said ch existing ?cands)"
        using query_saysI [OF names(1)] out(1) True False names(2-4) by (simp add: Let_def)
      ultimately show ?thesis using st1(2) st2(2) by auto
    next
      case bad: False
      have "v = Inl (''Failed to retrieve sync list: '' @ snd out) \<and> said' = said2"
        using rest out(2) bad by (auto simp: bindE_Inr thenE_def agent_Some ret_run)
      moreover have "query_says os bs ch w (Inl (''Failed to retrieve sync list: '' @ snd out)) (st1 @ st2)"
        using query_saysI [OF names(1)] out(1) bad False names(2-4) by simp
      ultimately show ?thesis using st1(2) st2(2) by auto
    qed
  qed
qed

text \<open>
  A run over candidates, with its result: the attempts, each with the warnings of its calls of
  rsync; how many files failed and were shipped; the second listing of the directory, and how
  many candidates it misses.
\<close>

definition shipping_says ::
  "'e OS \<Rightarrow> AgentChannel \<Rightarrow> string list \<Rightarrow> int Validation \<Rightarrow> statement list \<Rightarrow> bool" where
  "shipping_says os ch cands res st \<longleftrightarrow>
     (\<exists>as (w :: (AgentChannel, 'e) agent_world) sts w1 names e e1.
        attempts_said (\<lambda>p w ok w1 st. \<exists>out. rsync_says os (rsync_wet_run p (rsync_target ch)) w out w1 st \<and>
            ok = (fst out = 0))
          (\<lambda>p w b w1. files_file_exists os p w = Some (Inr b, w1)) ch w as sts w1 \<and>
        covers (sort cands) as \<and>
        sys_list_directory os (channel_source_dir ch) e = Some (Some names, e1) \<and>
        res = (if how_many Shipped as = 0 then Inl ''Failed to ship any logs'' else Inr (how_many Shipped as)) \<and>
        st = shipping_statement cands # sts @ summary_said (int (length cands)) (how_many Shipped as)
          @ listing_said names @ rotated_said (count_missing (sort cands) (log_files_in names)))"

lemma shipping_run_said:
  fixes w :: "(AgentChannel, 'e) agent_world"
  assumes "ship_candidates_logged collect (file_ops_logged collect os bs) ch m cands (w, said) =
      Some (Inr res, (w', said'))"
    and "cands \<noteq> []"
  shows "\<exists>st. shipping_says os ch cands res st \<and> said' = said @ st"
proof -
  let ?F = "file_ops_logged collect os bs :: ((AgentChannel, 'e) agent_world \<times> statement list) FileOps"
  obtain as w1 sts logs w2 w3 st where *:
    "attempts_said (\<lambda>p w ok. op_says (ship_file ?F p (rsync_target ch)) w (Inr ok))
      (\<lambda>p w b w1. files_file_exists os p w = Some (Inr b, w1)) ch w as sts w1" "covers (sort cands) as"
    "op_says (list_log_directory ?F (channel_source_dir ch)) w2 (Inr logs) w3 st"
    "res = (if how_many Shipped as = 0 then Inl ''Failed to ship any logs'' else Inr (how_many Shipped as))"
    "said' = said @ shipping_statement cands # sts @ summary_said (int (length cands)) (how_many Shipped as)
      @ st @ rotated_said (count_missing (sort cands) logs)"
    using ship_candidates_said [OF file_ops_append(4) file_ops_logged_simps(2) file_ops_append(2) assms] by blast
  have tries: "attempts_said (\<lambda>p w ok w1 st. \<exists>out. rsync_says os (rsync_wet_run p (rsync_target ch)) w out w1 st \<and>
      ok = (fst out = 0)) (\<lambda>p w b w1. files_file_exists os p w = Some (Inr b, w1)) ch w as sts w1"
    using *(1) unfolding file_ops_logged_simps
    by (rule attempts_said_mono) (rule ship_file_said, assumption+)
  obtain names e where names: "sys_list_directory os (channel_source_dir ch) (env w2) = Some (Some names, e)"
    "logs = log_files_in names" "st = listing_said names"
    using list_said *(3) unfolding file_ops_logged_simps by metis
  have "shipping_says os ch cands res (shipping_statement cands # sts @
      summary_said (int (length cands)) (how_many Shipped as) @ st @ rotated_said (count_missing (sort cands) logs))"
    unfolding shipping_says_def names(2,3)
    by (rule exI [of _ as], rule exI [of _ w], rule exI [of _ sts], rule exI [of _ w1], rule exI [of _ names],
        rule exI [of _ "env w2"], rule exI [of _ e], intro conjI) (fact tries *(2,4) names(1) refl)+
  then show ?thesis using *(5) by blast
qed

definition sync_error_statement :: "AgentChannel \<Rightarrow> string \<Rightarrow> statement" where
  "sync_error_statement ch err =
     (Level_Error, [Simple ''Syncing Error to '', Std_String (rsync_target ch), Simple '':'', Std_String err])"

definition shipment_failure_statement :: "AgentChannel \<Rightarrow> statement" where
  "shipment_failure_statement ch =
     (Level_Error, [Simple ''ERROR: Shipment failure to '', Std_String (rsync_target ch)])"

definition waiting_statement :: statement where
  "waiting_statement = (Level_Info, [Simple ''Waiting for directory change...''])"

lemma after_shipment_said:
  fixes w :: "(AgentChannel, 'e) agent_world"
  assumes "(if isFailure res
     then thenE (says collect (''barn-agent.cpp'', 75) Level_Error
                   [Simple ''ERROR: Shipment failure to '', Std_String (rsync_target ch)])
            (sleep_it_logged collect os conf)
     else
       bindE (get res) (\<lambda>n.
       thenE (if n > 0 then sleep_it_logged collect os conf else waiting)
       (agent (heartbeat os)))) (w, said) = Some (Inr u, (w', said'))"
    and "\<And>n. res = Inr n \<Longrightarrow> 0 < n"
  shows "\<exists>w1 st. sleeping_says os conf (w1 :: (AgentChannel, 'e) agent_world) st \<and>
    said' = said @ (case res of Inl _ \<Rightarrow> [shipment_failure_statement ch] | Inr _ \<Rightarrow> []) @ st"
proof (cases res)
  case (Inl e)
  then have "sleep_it_logged collect os conf (w, said @ [shipment_failure_statement ch]) = Some (Inr u, (w', said'))"
    using assms(1) by (simp add: thenE_run says_collect io_simps shipment_failure_statement_def)
  from sleep_said [OF this] show ?thesis using Inl by auto
next
  case (Inr n)
  then obtain w1 where "sleep_it_logged collect os conf (w, said) = Some (Inr (), (w1, said'))"
    using assms(1) assms(2) [OF Inr] by (auto simp: thenE_def bindE_Inr ret_run agent_Some)
  from sleep_said [OF this] show ?thesis using Inr by auto
qed

lemma shipped_some: "shipping_says os ch cands (Inr n) st \<Longrightarrow> 0 < n"
  using how_many_nonneg [of Shipped] by (auto simp: shipping_says_def order_le_less split: if_splits)

text \<open>A whole round, from the state \<open>w\<close>: what comes after the query depends on its result.\<close>

definition round_says ::
  "'e OS \<Rightarrow> splitter \<Rightarrow> BarnConf \<Rightarrow> (AgentChannel, 'e) agent_world \<Rightarrow> statement list \<Rightarrow> bool" where
  "round_says os bs conf w said \<longleftrightarrow>
     (\<exists>ch w1 v asked told.
        pick_channel os w = Some (Inr ch, w1) \<and> query_says os bs ch w1 v asked \<and>
        said = pick_said (channel_selector w) (channel_selector w1) @ asked @ told \<and>
        (case v of
           Inl err \<Rightarrow> \<exists>w2 st. sleeping_says os conf (w2 :: (AgentChannel, 'e) agent_world) st \<and>
             told = sync_error_statement ch err # st
         | Inr cands \<Rightarrow>
             if cands = []
             then \<exists>w2 st. waiting_says os (channel_source_dir ch) (w2 :: (AgentChannel, 'e) agent_world) st \<and>
               told = waiting_statement # st
             else \<exists>res st w2 st2. shipping_says os ch cands res st \<and>
               sleeping_says os conf (w2 :: (AgentChannel, 'e) agent_world) st2 \<and>
               told = st @ (case res of Inl _ \<Rightarrow> [shipment_failure_statement ch] | Inr _ \<Rightarrow> []) @ st2))"

lemma round_said:
  fixes w :: "(AgentChannel, 'e) agent_world"
  assumes "dispatch_new_logs_logged collect os conf (file_ops_logged collect os bs) m (w, []) =
    Some (Inr u, (w', said))"
  shows "round_says os bs conf w said"
proof -
  let ?F = "file_ops_logged collect os bs :: ((AgentChannel, 'e) agent_world \<times> statement list) FileOps"
  obtain ch w1 st0 v w2 said2 where
    pick: "op_says (pick_channel_logged collect os) w (Inr ch) w1 st0" and
    query: "query_candidates_logged collect ?F ch m (w1, st0) = Some (Inr v, (w2, said2))" and
    rest: "(if isFailure v
       then bindE (error v) (\<lambda>err.
              thenE (says collect (''barn-agent.cpp'', 66) Level_Error
                       [Simple ''Syncing Error to '', Std_String (rsync_target ch), Simple '':'', Std_String err])
                (sleep_it_logged collect os conf))
       else
         bindE (get v) (\<lambda>candidates.
         bindE (ship_candidates_logged collect ?F ch m candidates) (\<lambda>num_shipped.
           if isFailure num_shipped
           then thenE (says collect (''barn-agent.cpp'', 75) Level_Error
                         [Simple ''ERROR: Shipment failure to '', Std_String (rsync_target ch)])
                  (sleep_it_logged collect os conf)
           else
             bindE (get num_shipped) (\<lambda>n.
             thenE (if n > 0 then sleep_it_logged collect os conf
                    else thenE (says collect (''barn-agent.cpp'', 89) Level_Info [Simple ''Waiting for directory change...''])
                        (bindE (wait_for_new_file_in_directory ?F (channel_source_dir ch) (sleep_seconds conf))
                           (\<lambda>_. ret ())))
             (agent (heartbeat os)))))) (w2, said2) = Some (Inr u, (w', said))"
    using assms unfolding dispatch_new_logs_logged_def by (auto simp: bindE_Inr op_says_def)
  have picked: "pick_channel os w = Some (Inr ch, w1)" "st0 = pick_said (channel_selector w) (channel_selector w1)"
    using pick_channel_said [OF pick] by auto
  obtain asked where asked: "query_says os bs ch w1 v asked" "said2 = st0 @ asked"
    using query_said [OF query] by auto
  note sayI = exI [of _ ch, OF exI [of _ w1, OF exI [of _ v, OF exI [of _ asked, OF exI]]]]
  show ?thesis
  proof (cases v)
    case (Inl err)
    then have "sleep_it_logged collect os conf (w2, said2 @ [sync_error_statement ch err]) = Some (Inr u, (w', said))"
      using rest by (simp add: error_def thenE_run says_collect io_simps sync_error_statement_def)
    then obtain st where "sleeping_says os conf w2 st" "said = said2 @ sync_error_statement ch err # st"
      using sleep_said by fastforce
    then show ?thesis using picked asked Inl
      unfolding round_says_def by (intro sayI [of _ "sync_error_statement ch err # st"]) auto
  next
    case (Inr cands)
    show ?thesis
    proof (cases "cands = []")
      case True
      obtain b w3 where
        wait: "wait_for_new_file_in_directory ?F (channel_source_dir ch) (sleep_seconds conf)
          (w2, said2 @ [waiting_statement]) = Some (Inr b, (w3, said))"
        using rest Inr True
        by (auto simp: ship_candidates_logged_def thenE_def bindE_Inr ret_run says_collect agent_Some
            waiting_statement_def)
      obtain st where "waiting_says os (channel_source_dir ch) w2 st" "said = (said2 @ [waiting_statement]) @ st"
        using appendsD [OF file_ops_append(1) wait] wait_said unfolding file_ops_logged_simps by metis
      then show ?thesis using picked asked Inr True
        unfolding round_says_def by (intro sayI [of _ "waiting_statement # st"]) auto
    next
      case False
      obtain res w3 said3 where
        ship: "ship_candidates_logged collect ?F ch m cands (w2, said2) = Some (Inr res, (w3, said3))" and
        rest2: "(if isFailure res
           then thenE (says collect (''barn-agent.cpp'', 75) Level_Error
                         [Simple ''ERROR: Shipment failure to '', Std_String (rsync_target ch)])
                  (sleep_it_logged collect os conf)
           else
             bindE (get res) (\<lambda>n.
             thenE (if n > 0 then sleep_it_logged collect os conf
                    else thenE (says collect (''barn-agent.cpp'', 89) Level_Info [Simple ''Waiting for directory change...''])
                        (bindE (wait_for_new_file_in_directory ?F (channel_source_dir ch) (sleep_seconds conf))
                           (\<lambda>_. ret ())))
             (agent (heartbeat os)))) (w3, said3) = Some (Inr u, (w', said))"
        using rest Inr by (auto simp: bindE_Inr ret_run)
      obtain st where st: "shipping_says os ch cands res st" "said3 = said2 @ st"
        using shipping_run_said [OF ship False] by auto
      obtain w4 st2 where st2: "sleeping_says os conf (w4 :: (AgentChannel, 'e) agent_world) st2"
        "said = said3 @ (case res of Inl _ \<Rightarrow> [shipment_failure_statement ch] | Inr _ \<Rightarrow> []) @ st2"
        using after_shipment_said [OF rest2] shipped_some st(1) by blast
      have "\<exists>res st w2 st2. shipping_says os ch cands res st \<and>
          sleeping_says os conf (w2 :: (AgentChannel, 'e) agent_world) st2 \<and>
          said = (st0 @ asked) @ st @ (case res of Inl _ \<Rightarrow> [shipment_failure_statement ch] | Inr _ \<Rightarrow> []) @ st2"
        using st st2 asked(2)
        by (intro exI [of _ res] exI [of _ st] exI [of _ w4] exI [of _ st2]) auto
      then show ?thesis using picked asked Inr False
        unfolding round_says_def by (elim exE conjE) (rule sayI, auto)
    qed
  qed
qed

section \<open>A round over the library\<close>

text \<open>
  C21: what a round of the agent leaves in its log. Over a device that works and a library that is
  ready, the round with all its log statements, those of the selector and of the file operations
  among them, ends if and only if the round without them does, with the same result and the same
  state of the agent. The log file and the output have grown by exactly one line for each
  statement, in order. If the round returns, the statements are those of \<open>round_says\<close>: that the
  selector changed sides, that shipping is stopped, one warning for each run of rsync that ended
  in a protocol error, and then either the error of the query and how long the agent sleeps, or
  what there is to ship and that the agent waits (and that it cannot find inotifywait), or what
  there is to ship, each attempt, the totals, whether all failed, and how long the agent sleeps.
\<close>

theorem round_in_log:
  assumes "device_works device file_text console" and "ready b f ''default'' s" and "CHR ''%'' \<notin> set b"
  shows "case dispatch_new_logs os conf (file_ops os bs) m w of
      None \<Rightarrow> dispatch_new_logs_logged (library device ident termColor locate) os conf
        (file_ops_logged (library device ident termColor locate) os bs) m (w, s) = None
    | Some (r, w') \<Rightarrow> \<exists>said s'.
        dispatch_new_logs_logged (library device ident termColor locate) os conf
          (file_ops_logged (library device ident termColor locate) os bs) m (w, s) = Some (r, (w', s')) \<and>
        ready b f ''default'' s' \<and>
        shows_line file_text console f (concat (map (log_line b) said)) (log_env s) (log_env s') \<and>
        dispatch_new_logs_logged collect os conf (file_ops_logged collect os bs) m (w, []) = Some (r, (w', said)) \<and>
        (r = Inr () \<longrightarrow> round_says os bs conf w said)"
proof -
  let ?library = "library device ident termColor locate"
  let ?collecting = "dispatch_new_logs_logged collect os conf (file_ops_logged collect os bs) m"
  have silent: "dispatch_new_logs_logged silence os conf (file_ops_logged silence os bs) m (w, [] :: statement list) =
      (case dispatch_new_logs os conf (file_ops os bs) m w of None \<Rightarrow> None | Some (r, w') \<Rightarrow> Some (r, (w', [])))"
    by (cases "dispatch_new_logs os conf (file_ops os bs) m w")
      (auto simp: dispatch_new_logs_erased [OF file_ops_erased, unfolded erases_def] agent_def)
  have start: "logged_so_far file_text console b f (log_env s) [] s"
    using assms(2) by (simp add: logged_so_far_def shows_line_def)
  note quiet = dispatch_new_logs_alike [OF silence_speaks file_ops_alike [OF silence_speaks],
      unfolded alike_def, rule_format, OF refl, of os conf os bs m w "[] :: statement list"]
  note speaks = library_speaks [OF assms(1,3), where ident = ident and termColor = termColor and locate = locate]
  note loud = dispatch_new_logs_alike [OF speaks file_ops_alike [OF speaks], unfolded alike_def,
      rule_format, OF start, of os conf os bs m w]
  show ?thesis
  proof (cases "?collecting (w, [])")
    case None
    then show ?thesis using quiet [of "[]"] loud silent
      by (cases "dispatch_new_logs os conf (file_ops os bs) m w") auto
  next
    case (Some a)
    obtain r w' said where a: "a = (r, w', said)" by (cases a)
    have "dispatch_new_logs os conf (file_ops os bs) m w = Some (r, w')"
      using quiet [of "[]"] silent Some a by (cases "dispatch_new_logs os conf (file_ops os bs) m w") auto
    moreover have "round_says os bs conf w said" if "r = Inr ()"
      by (rule round_said [OF Some [unfolded a that]])
    ultimately show ?thesis using loud Some a by (auto simp: logged_so_far_def)
  qed
qed

definition unlucky_world :: "(AgentChannel, script) agent_world" where
  "unlucky_world = world.extend (script_world [([], 5), ([], 5), ([], 5)])
     (agent_world.fields (SingleChannelSelector
        \<lparr>channel_source_dir = ''/log'', rsync_target = ''rsync://a/''\<rparr>))"

theorem round_in_log_witness:
  "\<exists>s s' :: (((string \<Rightarrow> string) \<times> string), unit) storage_scheme. \<exists>w' said.
     dispatch_new_logs_logged (library memory_os \<lparr>s_currentUser = ''barn'', s_currentHost = ''host''\<rparr> False
         (\<lambda>(file, line). (file, line, ''''))) script_os stop_conf
       (file_ops_logged (library memory_os \<lparr>s_currentUser = ''barn'', s_currentHost = ''host''\<rparr> False
         (\<lambda>(file, line). (file, line, ''''))) script_os reference_split) NoOpMetrics (unlucky_world, s) =
       Some (Inr (), (w', s')) \<and>
     round_says script_os reference_split stop_conf unlucky_world said \<and>
     snd (log_env s') = snd (log_env s)
       @ ''WARN  [web:access] : rsync protocol failure, retrying...'' @ [NEWLINE]
       @ ''WARN  [web:access] : rsync protocol failure, retrying...'' @ [NEWLINE]
       @ ''WARN  [web:access] : rsync protocol failure, retrying...'' @ [NEWLINE]
       @ ''ERROR [web:access] : Syncing Error to rsync://a/:Failed to retrieve sync list: '' @ [NEWLINE]
       @ ''INFO  [web:access] : Sleeping for 2 seconds...'' @ [NEWLINE]"
proof -
  let ?b = "'' [web:access] : ''"
  let ?ident = "\<lparr>s_currentUser = ''barn'', s_currentHost = ''host''\<rparr>"
  let ?locate = "\<lambda>(file, line). (file, line, '''') :: string \<times> nat \<times> string"
  let ?library = "library memory_os ?ident False ?locate"
  let ?lines = "''WARN  [web:access] : rsync protocol failure, retrying...'' @ [NEWLINE]
       @ ''WARN  [web:access] : rsync protocol failure, retrying...'' @ [NEWLINE]
       @ ''WARN  [web:access] : rsync protocol failure, retrying...'' @ [NEWLINE]
       @ ''ERROR [web:access] : Syncing Error to rsync://a/:Failed to retrieve sync list: '' @ [NEWLINE]
       @ ''INFO  [web:access] : Sleeping for 2 seconds...'' @ [NEWLINE]"
  obtain s :: "(((string \<Rightarrow> string) \<times> string), unit) storage_scheme"
    where s: "ready ?b kDefaultLogFile ''default'' s"
    using ready_state by blast
  have plain: "CHR ''%'' \<notin> set ?b" by simp
  have "map_option (\<lambda>(r, w'). r) (dispatch_new_logs script_os stop_conf (file_ops script_os reference_split)
      NoOpMetrics unlucky_world) = Some (Inr ())" by code_simp
  then obtain w' where run: "dispatch_new_logs script_os stop_conf (file_ops script_os reference_split)
      NoOpMetrics unlucky_world = Some (Inr (), w')" by auto
  have text_said: "map_option (\<lambda>(r, wl). concat (map (log_line ?b) (snd wl)))
      (dispatch_new_logs_logged collect script_os stop_conf (file_ops_logged collect script_os reference_split)
        NoOpMetrics (unlucky_world, [])) = Some ?lines" by code_simp
  obtain said s' where *:
    "dispatch_new_logs_logged ?library script_os stop_conf (file_ops_logged ?library script_os reference_split)
      NoOpMetrics (unlucky_world, s) = Some (Inr (), (w', s'))"
    "shows_line fst snd kDefaultLogFile (concat (map (log_line ?b) said)) (log_env s) (log_env s')"
    "dispatch_new_logs_logged collect script_os stop_conf (file_ops_logged collect script_os reference_split)
      NoOpMetrics (unlucky_world, []) = Some (Inr (), (w', said))"
    "round_says script_os reference_split stop_conf unlucky_world said"
    using round_in_log [OF memory_os_works s plain, where os = script_os and conf = stop_conf and
        bs = reference_split and m = NoOpMetrics and w = unlucky_world and
        ident = ?ident and termColor = False and locate = ?locate]
    unfolding run option.case prod.case by blast
  have "concat (map (log_line ?b) said) = ?lines" using text_said unfolding *(3) by simp
  then have "snd (log_env s') = snd (log_env s) @ ?lines" using *(2) unfolding shows_line_def by simp
  with *(1,4) show ?thesis by blast
qed

end
