(* ===== verification/Test_Suite.thy ===== *)
theory Test_Suite
  imports Agent_Properties
begin

text \<open>
  The test cases of the repository: \<^verbatim>\<open>helpers_test.cpp\<close>, \<^verbatim>\<open>channel_selector_test.cpp\<close> and, over
  the fakes of Test\_Doubles, \<^verbatim>\<open>barn-agent-test.cpp\<close>. Each is a truth value; all of them hold of
  the model, as they do of the program. An \<open>EXPECT\<close> in the middle of a test is a step that goes on
  only if it holds.
\<close>

section \<open>helpers\_test.cpp\<close>

definition TailIntersectionTest_ShipAll :: bool where
  "TailIntersectionTest_ShipAll \<longleftrightarrow>
     tail_intersection [''1'', ''2'', ''3'', ''4'', ''5'', ''6'', ''7'', ''8'']
       [''1'', ''2'', ''3'', ''4'', ''5'', ''6'', ''7'', ''8''] =
     [''1'', ''2'', ''3'', ''4'', ''5'', ''6'', ''7'', ''8'']"

definition TailIntersectionTest_ShipNone :: bool where
  "TailIntersectionTest_ShipNone \<longleftrightarrow>
     tail_intersection [''1'', ''2'', ''3'', ''4'', ''5'', ''6'', ''7'', ''8'']
       [] =
     []"

definition TailIntersectionTest_ShipOne :: bool where
  "TailIntersectionTest_ShipOne \<longleftrightarrow>
     tail_intersection [''1'', ''2'', ''3'', ''4'', ''5'', ''6'', ''7'', ''8'']
       [''8''] =
     [''8'']"

definition TailIntersectionTest_WeirdGap_ShipNone :: bool where
  "TailIntersectionTest_WeirdGap_ShipNone \<longleftrightarrow>
     tail_intersection [''1'', ''2'', ''3'', ''4'', ''5'', ''6'', ''7'', ''8'']
       [''7''] =
     []"

definition TailIntersectionTest_ShipMany :: bool where
  "TailIntersectionTest_ShipMany \<longleftrightarrow>
     tail_intersection [''1'', ''2'', ''3'', ''4'', ''5'', ''6'', ''7'', ''8'']
       [''5'', ''6'', ''7'', ''8''] =
     [''5'', ''6'', ''7'', ''8'']"

definition TailIntersectionTest_CanonicalExample :: bool where
  "TailIntersectionTest_CanonicalExample \<longleftrightarrow>
     tail_intersection [''1'', ''2'', ''3'', ''4'', ''5'', ''6'', ''7'', ''8'']
       [''1'', ''2'', ''5'', ''7'', ''8''] =
     [''7'', ''8'']"

definition CountMissingTest_Empty :: bool where
  "CountMissingTest_Empty \<longleftrightarrow>
     count_missing [] [] = 0"

definition CountMissingTest_BigEmpty :: bool where
  "CountMissingTest_BigEmpty \<longleftrightarrow>
     count_missing [''A'', ''B'', ''C''] [] = 3"

definition CountMissingTest_SmallEmpty :: bool where
  "CountMissingTest_SmallEmpty \<longleftrightarrow>
     count_missing [] [''A'', ''B'', ''C''] = 0"

definition CountMissingTest_Normal :: bool where
  "CountMissingTest_Normal \<longleftrightarrow>
     count_missing [''C'', ''D''] [''A'', ''B'', ''D'', ''E'', ''F''] = 1"

definition CountMissingTest_Ends :: bool where
  "CountMissingTest_Ends \<longleftrightarrow>
     count_missing [''B'', ''C''] [''A'', ''B'', ''C''] = 0 \<and>
     count_missing [''A'', ''B''] [''A'', ''B'', ''C''] = 0 \<and>
     count_missing [''B'', ''C''] [''A'', ''B''] = 1 \<and>
     count_missing [''A'', ''B''] [''B'', ''C''] = 1"

definition CountMissingTest_Full :: bool where
  "CountMissingTest_Full \<longleftrightarrow>
     count_missing [''1'', ''2''] [''A'', ''B'', ''C'', ''D'', ''E''] = 2"

definition CountMissingTest_BarnCase :: bool where
  "CountMissingTest_BarnCase \<longleftrightarrow>
     count_missing [''@40001'', ''@40002'', ''@40003'', ''@40004''] [''@40003'', ''@40004'', ''@40005''] = 2"

lemma helpers_tests_pass:
  "TailIntersectionTest_ShipAll"
  "TailIntersectionTest_ShipNone"
  "TailIntersectionTest_ShipOne"
  "TailIntersectionTest_WeirdGap_ShipNone"
  "TailIntersectionTest_ShipMany"
  "TailIntersectionTest_CanonicalExample"
  "CountMissingTest_Empty"
  "CountMissingTest_BigEmpty"
  "CountMissingTest_SmallEmpty"
  "CountMissingTest_Normal"
  "CountMissingTest_Ends"
  "CountMissingTest_Full"
  "CountMissingTest_BarnCase"
  by code_simp+


section \<open>channel\_selector\_test.cpp\<close>

definition FAILOVER_INTERVAL :: int where "FAILOVER_INTERVAL = 30"

text \<open>
  \<open>MockChannelSelector\<close>: a selector between 1 and 2 whose clock is a variable that the tests set; it is
  an argument of each step. A step of which an expectation fails has no result.
\<close>

definition MockChannelSelector :: "int failover option" where
  "MockChannelSelector =
     map_option (\<lambda>s. s\<lparr>last_heartbeat_time := 0\<rparr>) (new_failover 1 2 FAILOVER_INTERVAL 0)"

definition picks_channel :: "int \<Rightarrow> int \<Rightarrow> int failover \<Rightarrow> int failover option" where
  "picks_channel now c s =
     (case fcs_pick_channel now s of (picked, s') \<Rightarrow> if picked = c then Some s' else None)"

definition has_current :: "int \<Rightarrow> int failover \<Rightarrow> int failover option" where
  "has_current c s = (if fcs_current s = c then Some s else None)"

definition then_picks :: "int \<Rightarrow> int failover \<Rightarrow> int failover option" where
  "then_picks now s = Some (snd (fcs_pick_channel now s))"

definition then_beats :: "int \<Rightarrow> int failover \<Rightarrow> int failover option" where
  "then_beats now s = Some (fcs_heartbeat now s)"

fun passes :: "('s \<Rightarrow> 's option) list \<Rightarrow> 's option \<Rightarrow> bool" where
  "passes steps None = False"
| "passes [] (Some s) = True"
| "passes (step # steps) (Some s) = passes steps (step s)"

definition ChannelSelectorTest_PrimaryByDefault :: bool where
  "ChannelSelectorTest_PrimaryByDefault \<longleftrightarrow>
     passes [then_picks 0, has_current 1, then_picks (FAILOVER_INTERVAL div 2), has_current 1]
       MockChannelSelector"

definition ChannelSelectorTest_DoNotFailoverWithHeartbeat :: bool where
  "ChannelSelectorTest_DoNotFailoverWithHeartbeat \<longleftrightarrow>
     passes [has_current 1, then_beats (FAILOVER_INTERVAL div 2), then_picks (FAILOVER_INTERVAL + 1),
         has_current 1]
       MockChannelSelector"

definition ChannelSelectorTest_FailoverForNoHeartbeat :: bool where
  "ChannelSelectorTest_FailoverForNoHeartbeat \<longleftrightarrow>
     passes [has_current 1, then_picks (FAILOVER_INTERVAL + 1), has_current 2] MockChannelSelector"

definition ChannelSelectorTest_FailbackAfterFailure :: bool where
  "ChannelSelectorTest_FailbackAfterFailure \<longleftrightarrow>
     passes [has_current 1, then_picks (FAILOVER_INTERVAL + 1), has_current 2,
         then_picks (2 * FAILOVER_INTERVAL + 1), has_current 1]
       MockChannelSelector"

text \<open>
  Fractions of the interval, in hundredths. The conversion of the double to \<open>time_t\<close> cuts it off; none of
  the products that is not exact is near an integer.
\<close>

definition T :: "int \<Rightarrow> int" where "T hundredths = hundredths * FAILOVER_INTERVAL div 100"

definition ChannelSelectorTest_FullStory :: bool where
  "ChannelSelectorTest_FullStory \<longleftrightarrow>
     passes
       [has_current 1, then_beats (T 0),
        picks_channel (T 50) 1, then_beats (T 50),
        picks_channel (T 100) 1, then_beats (T 100),
        picks_channel (T 150) 1, then_beats (T 150),
        picks_channel (T 200) 1,
        picks_channel (T 249) 1,
        picks_channel (T 251) 2, then_beats (T 251),
        picks_channel (T 339) 2, then_beats (T 339),
        picks_channel (T 352) 1, then_beats (T 352),
        picks_channel (T 401) 1, then_beats (T 401),
        picks_channel (T 450) 1, then_beats (T 450),
        picks_channel (T 500) 1, then_beats (T 500),
        picks_channel (T 550) 1, then_beats (T 550),
        picks_channel (T 600) 1]
       MockChannelSelector"

lemma selector_tests_pass:
  "ChannelSelectorTest_PrimaryByDefault"
  "ChannelSelectorTest_DoNotFailoverWithHeartbeat"
  "ChannelSelectorTest_FailoverForNoHeartbeat"
  "ChannelSelectorTest_FailbackAfterFailure"
  "ChannelSelectorTest_FullStory"
  by code_simp+

section \<open>barn-agent-test.cpp, with the fakes\<close>

definition TEST_LOG_FILE :: string where "TEST_LOG_FILE = ''test-file''"
definition LOG_FILE_T0 :: string where "LOG_FILE_T0 = ''test-file-1''"
definition LOG_FILE_T1 :: string where "LOG_FILE_T1 = ''test-file-2''"
definition LOG_FILE_T2 :: string where "LOG_FILE_T2 = ''test-file-3''"

definition log_dir :: "string \<Rightarrow> string" where
  "log_dir log_file_name = join_path SOURCE_DIRECTORY log_file_name"

text \<open>
  The fixture: empty directories, shipping works, the single channel. \<open>sleep_seconds\<close> is 0, what else
  the configuration holds does not matter. Nothing is asked of the system, so any will do.
\<close>

definition fresh_fixture :: "(AgentChannel, nat) test_world" where
  "fresh_fixture =
     \<lparr>child_pid_global = -1, host_name_static = None, fds = (\<lambda>_. None), next_pipe = 0,
      env = 0, channel_selector = SingleChannelSelector PRIMARY,
      local_log_files = [], remote_log_files = [], shipping_ok = True, sent = (\<lambda>_. 0)\<rparr>"

definition dispatches ::
  "(AgentChannel, nat, 'z) test_world_scheme FileOps \<Rightarrow> (AgentChannel, nat, 'z) test_world_scheme Metrics \<Rightarrow>
   (AgentChannel, nat, 'z) test_world_scheme \<Rightarrow> (AgentChannel, nat, 'z) test_world_scheme option" where
  "dispatches fileops metrics w =
     (case dispatch_new_logs no_os example_conf fileops metrics w of
        Some (Inr (), w') \<Rightarrow> Some w'
      | _ \<Rightarrow> None)"

definition adds_local :: "string list \<Rightarrow> (AgentChannel, nat) test_world \<Rightarrow> (AgentChannel, nat) test_world option" where
  "adds_local names w = Some (w\<lparr>local_log_files := local_log_files w @ names\<rparr>)"

definition has_remote :: "string list \<Rightarrow> (AgentChannel, nat) test_world \<Rightarrow> (AgentChannel, nat) test_world option" where
  "has_remote names w = (if remote_log_files w = names then Some w else None)"

definition has_remote_count :: "nat \<Rightarrow> (AgentChannel, nat) test_world \<Rightarrow> (AgentChannel, nat) test_world option" where
  "has_remote_count n w = (if length (remote_log_files w) = n then Some w else None)"

definition BarnAgentTest_TestNoOp :: bool where
  "BarnAgentTest_TestNoOp \<longleftrightarrow>
     passes [dispatches FakeFileOps NoOpMetrics, has_remote_count 0] (Some fresh_fixture)"

definition BarnAgentTest_ShipSingleFile :: bool where
  "BarnAgentTest_ShipSingleFile \<longleftrightarrow>
     passes [adds_local [TEST_LOG_FILE], dispatches FakeFileOps NoOpMetrics, has_remote [TEST_LOG_FILE]]
       (Some fresh_fixture)"

definition BarnAgentTest_ShipsAllFiles :: bool where
  "BarnAgentTest_ShipsAllFiles \<longleftrightarrow>
     passes [adds_local [LOG_FILE_T0, LOG_FILE_T1, LOG_FILE_T2], dispatches FakeFileOps NoOpMetrics,
         has_remote [LOG_FILE_T0, LOG_FILE_T1, LOG_FILE_T2]]
       (Some fresh_fixture)"

definition BarnAgentTest_DoesNotShipTwice :: bool where
  "BarnAgentTest_DoesNotShipTwice \<longleftrightarrow>
     passes [adds_local [TEST_LOG_FILE], dispatches FakeFileOps NoOpMetrics, has_remote_count 1,
         dispatches FakeFileOps NoOpMetrics, has_remote_count 1]
       (Some fresh_fixture)"

definition BarnAgentTest_ShipsNewFiles :: bool where
  "BarnAgentTest_ShipsNewFiles \<longleftrightarrow>
     passes [adds_local [LOG_FILE_T0], dispatches FakeFileOps NoOpMetrics, has_remote [LOG_FILE_T0],
         adds_local [LOG_FILE_T1], dispatches FakeFileOps NoOpMetrics, has_remote [LOG_FILE_T0, LOG_FILE_T1]]
       (Some fresh_fixture)"

definition BarnAgentTest_ShipsLatestFilesOnly :: bool where
  "BarnAgentTest_ShipsLatestFilesOnly \<longleftrightarrow>
     passes [adds_local [LOG_FILE_T0, LOG_FILE_T1, LOG_FILE_T2],
         \<lambda>w. Some (w\<lparr>remote_log_files := remote_log_files w @ [LOG_FILE_T1]\<rparr>),
         dispatches FakeFileOps NoOpMetrics, has_remote [LOG_FILE_T1, LOG_FILE_T2]]
       (Some fresh_fixture)"

definition BarnAgentTest_ShipFailure :: bool where
  "BarnAgentTest_ShipFailure \<longleftrightarrow>
     passes [adds_local [TEST_LOG_FILE], \<lambda>w. Some (w\<lparr>shipping_ok := False\<rparr>),
         dispatches FakeFileOps NoOpMetrics, has_remote_count 0]
       (Some fresh_fixture)"

lemma agent_tests_pass:
  "BarnAgentTest_TestNoOp"
  "BarnAgentTest_ShipSingleFile"
  "BarnAgentTest_ShipsAllFiles"
  "BarnAgentTest_DoesNotShipTwice"
  "BarnAgentTest_ShipsNewFiles"
  "BarnAgentTest_ShipsLatestFilesOnly"
  "BarnAgentTest_ShipFailure"
  by code_simp+


section \<open>barn-agent-test.cpp, with mocks\<close>

text \<open>
  A mocked method, as gmock documents it: the expectations, the newest first, each with the arguments
  it matches and the results it still is to give; and the result by default, which is given while
  nothing is expected. A call that matches no expectation, or one whose results are used up, is an error;
  in the end every result must have been used.
\<close>

record ('a, 'r) expectation =
  matches :: "'a \<Rightarrow> bool"
  will_once :: "'r list"

record ('a, 'r) mock_method =
  expectations :: "('a, 'r) expectation list"
  by_default :: 'r
  violated :: bool

definition on_call :: "'r \<Rightarrow> ('a, 'r) mock_method" where
  "on_call r = \<lparr>expectations = [], by_default = r, violated = False\<rparr>"

definition expect_call :: "('a \<Rightarrow> bool) \<Rightarrow> 'r list \<Rightarrow> ('a, 'r) mock_method \<Rightarrow> ('a, 'r) mock_method" where
  "expect_call p rs m = m\<lparr>expectations := \<lparr>matches = p, will_once = rs\<rparr> # expectations m\<rparr>"

fun answer :: "('a, 'r) expectation list \<Rightarrow> 'a \<Rightarrow> ('r \<times> ('a, 'r) expectation list) option" where
  "answer [] a = None"
| "answer (e # es) a =
     (if matches e a
      then (case will_once e of [] \<Rightarrow> None | r # rs \<Rightarrow> Some (r, e\<lparr>will_once := rs\<rparr> # es))
      else map_option (\<lambda>(r, es'). (r, e # es')) (answer es a))"

definition mock_call :: "'a \<Rightarrow> ('a, 'r) mock_method \<Rightarrow> 'r \<times> ('a, 'r) mock_method" where
  "mock_call a m =
     (if expectations m = [] then (by_default m, m)
      else case answer (expectations m) a of
             None \<Rightarrow> (by_default m, m\<lparr>violated := True\<rparr>)
           | Some (r, es) \<Rightarrow> (r, m\<lparr>expectations := es\<rparr>))"

definition satisfied :: "('a, 'r) mock_method \<Rightarrow> bool" where
  "satisfied m \<longleftrightarrow> \<not> violated m \<and> (\<forall>e \<in> set (expectations m). will_once e = [])"

record ('t, 'e) mock_world = "('t, 'e) test_world" +
  m_wait :: "(string \<times> int, bool) mock_method"
  m_exists :: "(string, bool) mock_method"
  m_ship :: "(string \<times> string, bool) mock_method"
  m_list :: "(string, FileNameList) mock_method"
  m_missing :: "(string \<times> FileNameList \<times> string, FileNameList Validation) mock_method"

definition mocked ::
  "('w \<Rightarrow> ('a, 'r) mock_method) \<Rightarrow> (('a, 'r) mock_method \<Rightarrow> 'w \<Rightarrow> 'w) \<Rightarrow> 'a \<Rightarrow> ('r, 'w) io" where
  "mocked field put a =
     bindE (getE (\<lambda>w. mock_call a (field w))) (\<lambda>(r, m). thenE (modifyE (put m)) (ret r))"

definition MockFileOps :: "('t, 'e, 'z) mock_world_scheme FileOps" where
  "MockFileOps =
     \<lparr>wait_for_new_file_in_directory = (\<lambda>directory secs. mocked m_wait (\<lambda>m w. w\<lparr>m_wait := m\<rparr>) (directory, secs)),
      file_exists = (\<lambda>file_path. mocked m_exists (\<lambda>m w. w\<lparr>m_exists := m\<rparr>) file_path),
      list_log_directory = (\<lambda>directory_path. mocked m_list (\<lambda>m w. w\<lparr>m_list := m\<rparr>) directory_path),
      log_files_not_on_target = (\<lambda>dir files target.
        mocked m_missing (\<lambda>m w. w\<lparr>m_missing := m\<rparr>) (dir, files, target)),
      ship_file = (\<lambda>file_path target. mocked m_ship (\<lambda>m w. w\<lparr>m_ship := m\<rparr>) (file_path, target))\<rparr>"

definition two_log_files :: "string list" where
  "two_log_files = [LOG_FILE_T0, LOG_FILE_T1]"

definition MetricsSendingTest_SetUp :: "(AgentChannel, nat) mock_world" where
  "MetricsSendingTest_SetUp =
     test_world.extend fresh_fixture
       \<lparr>m_wait = on_call True, m_exists = on_call True, m_ship = on_call True,
        m_list = on_call two_log_files, m_missing = on_call (Inr two_log_files)\<rparr>"

definition has_sent :: "(string \<times> int) list \<Rightarrow> (AgentChannel, nat) mock_world \<Rightarrow> (AgentChannel, nat) mock_world option" where
  "has_sent expected w = (if \<forall>(key, n) \<in> set expected. sent w key = n then Some w else None)"

definition mocks_satisfied :: "(AgentChannel, nat) mock_world \<Rightarrow> (AgentChannel, nat) mock_world option" where
  "mocks_satisfied w =
     (if satisfied (m_wait w) \<and> satisfied (m_exists w) \<and> satisfied (m_ship w) \<and> satisfied (m_list w) \<and>
         satisfied (m_missing w)
      then Some w else None)"

definition any :: "'a \<Rightarrow> bool" where "any = (\<lambda>_. True)"

definition MetricsSendingTest_TestNoOp :: bool where
  "MetricsSendingTest_TestNoOp \<longleftrightarrow>
     passes
       [\<lambda>w. Some (w\<lparr>m_list := expect_call any [[]] (m_list w)\<rparr>),
        dispatches MockFileOps FakeMetrics,
        has_sent [(FailedToGetSyncList, 0), (FilesToShip, 0), (FullDirectoryShip, 0), (LostDuringShip, 0),
          (NumFilesShipped, 0), (RotatedDuringShip, 0)],
        mocks_satisfied]
       (Some MetricsSendingTest_SetUp)"

definition MetricsSendingTest_TestSuccesfulShip :: bool where
  "MetricsSendingTest_TestSuccesfulShip \<longleftrightarrow>
     passes
       [dispatches MockFileOps FakeMetrics,
        has_sent [(FilesToShip, 2), (NumFilesShipped, 2), (FullDirectoryShip, 1)],
        mocks_satisfied]
       (Some MetricsSendingTest_SetUp)"

definition MetricsSendingTest_TestFailedShip :: bool where
  "MetricsSendingTest_TestFailedShip \<longleftrightarrow>
     passes
       [\<lambda>w. Some (w\<lparr>m_ship := (m_ship w)\<lparr>by_default := False\<rparr>\<rparr>),
        dispatches MockFileOps FakeMetrics,
        has_sent [(FilesToShip, 2), (NumFilesShipped, 0)],
        mocks_satisfied]
       (Some MetricsSendingTest_SetUp)"

definition MetricsSendingTest_TestPartialShip :: bool where
  "MetricsSendingTest_TestPartialShip \<longleftrightarrow>
     passes
       [\<lambda>w. Some (w\<lparr>m_ship := expect_call (\<lambda>a. fst a = log_dir LOG_FILE_T1) [False]
          (expect_call (\<lambda>a. fst a = log_dir LOG_FILE_T0) [True] (m_ship w))\<rparr>),
        dispatches MockFileOps FakeMetrics,
        has_sent [(FilesToShip, 2), (NumFilesShipped, 1)],
        mocks_satisfied]
       (Some MetricsSendingTest_SetUp)"

definition MetricsSendingTest_TestFailedToGetSyncList :: bool where
  "MetricsSendingTest_TestFailedToGetSyncList \<longleftrightarrow>
     passes
       [\<lambda>w. Some (w\<lparr>m_missing := expect_call any [Inl ''Failed to sync''] (m_missing w)\<rparr>),
        dispatches MockFileOps FakeMetrics,
        has_sent [(FailedToGetSyncList, 1)],
        mocks_satisfied]
       (Some MetricsSendingTest_SetUp)"

definition MetricsSendingTest_TestLostDuringShip :: bool where
  "MetricsSendingTest_TestLostDuringShip \<longleftrightarrow>
     passes
       [\<lambda>w. Some (w\<lparr>m_ship := expect_call (\<lambda>a. fst a = log_dir LOG_FILE_T1) [True]
            (expect_call (\<lambda>a. fst a = log_dir LOG_FILE_T0) [False] (m_ship w)),
          m_exists := expect_call (\<lambda>a. a = log_dir LOG_FILE_T0) [False] (m_exists w)\<rparr>),
        dispatches MockFileOps FakeMetrics,
        has_sent [(LostDuringShip, 1), (RotatedDuringShip, 0)],
        mocks_satisfied]
       (Some MetricsSendingTest_SetUp)"

definition MetricsSendingTest_TestRotatedDuringShip :: bool where
  "MetricsSendingTest_TestRotatedDuringShip \<longleftrightarrow>
     passes
       [\<lambda>w. Some (w\<lparr>m_list := expect_call (\<lambda>a. a = SOURCE_DIRECTORY) [two_log_files, [LOG_FILE_T1]] (m_list w)\<rparr>),
        dispatches MockFileOps FakeMetrics,
        has_sent [(LostDuringShip, 0), (RotatedDuringShip, 1)],
        mocks_satisfied]
       (Some MetricsSendingTest_SetUp)"

definition MetricsSendingTest_TestFullDirectoryShip :: bool where
  "MetricsSendingTest_TestFullDirectoryShip \<longleftrightarrow>
     passes
       [\<lambda>w. Some (w\<lparr>m_missing := expect_call any [Inr [LOG_FILE_T1]] (m_missing w)\<rparr>),
        dispatches MockFileOps FakeMetrics,
        has_sent [(FullDirectoryShip, 0)],
        \<lambda>w. Some (w\<lparr>m_missing := expect_call any [Inr two_log_files] (m_missing w)\<rparr>),
        dispatches MockFileOps FakeMetrics,
        has_sent [(FullDirectoryShip, 1)],
        mocks_satisfied]
       (Some MetricsSendingTest_SetUp)"

lemma metrics_tests_pass:
  "MetricsSendingTest_TestNoOp"
  "MetricsSendingTest_TestSuccesfulShip"
  "MetricsSendingTest_TestFailedShip"
  "MetricsSendingTest_TestPartialShip"
  "MetricsSendingTest_TestFailedToGetSyncList"
  "MetricsSendingTest_TestLostDuringShip"
  "MetricsSendingTest_TestRotatedDuringShip"
  "MetricsSendingTest_TestFullDirectoryShip"
  by code_simp+

end
