(* ===== verification/Boost_Pipeline.thy ===== *)
theory Boost_Pipeline
  imports Process
begin

text \<open>
  Launching children with the portable interface of Boost.Process: the contexts of
  \<^verbatim>\<open>context.hpp\<close>, and \<open>launch\<close>, \<open>launch_shell\<close>, \<open>launch_pipeline\<close> and \<open>wait_children\<close> of
  \<^verbatim>\<open>operations.hpp\<close>, on POSIX. The agent itself uses \<open>posix_launch\<close>; these share its steps.
\<close>

section \<open>Contexts\<close>

record exec_context =
  cx_work_directory :: string
  cx_environment :: "(string \<times> string) list"
  stdin_behavior :: stream_behavior
  stdout_behavior :: stream_behavior
  stderr_behavior :: stream_behavior

text \<open>The three behaviours start as \<open>close\<close>, the default of \<open>stream_behavior\<close>.\<close>

definition new_context :: "'e OS \<Rightarrow> (exec_context, ('e, 'z) world_scheme) io" where
  "new_context os =
     bindE (new_work_directory_context os) (\<lambda>dir.
       ret \<lparr>cx_work_directory = dir, cx_environment = [], stdin_behavior = Close,
            stdout_behavior = Close, stderr_behavior = Close\<rparr>)"

record pipeline_entry =
  pe_executable :: string
  pe_arguments :: "string list"
  pe_context :: exec_context

section \<open>Children\<close>

text \<open>The constructor of \<open>child\<close>: a stream over each handle that is valid.\<close>

definition new_child ::
  "int \<Rightarrow> file_handle \<Rightarrow> file_handle \<Rightarrow> file_handle \<Rightarrow> (child, ('e, 'z) world_scheme) io" where
  "new_child pid fhstdin fhstdout fhstderr =
     bindE (stream_of_handle fhstdin) (\<lambda>s0.
     bindE (stream_of_handle fhstdout) (\<lambda>s1.
     bindE (stream_of_handle fhstderr) (\<lambda>s2.
       ret \<lparr>child_id = pid, child_stdin = s0, child_stdout = s1, child_stderr = s2\<rparr>)))"

definition destroy_child :: "'c child_scheme \<Rightarrow> ('e, 'z) world_scheme \<Rightarrow> ('e, 'z) world_scheme" where
  "destroy_child c w = fold destroy_handle (stream_handles c) w"

text \<open>
  A new \<open>posix_setup\<close> has the ids of the caller and no root directory. \<open>start_child\<close> is what
  the launches share from there: the fork, and on an exception the end of the two maps.
\<close>

definition new_posix_setup :: "'e OS \<Rightarrow> string \<Rightarrow> (posix_setup, ('e, 'z) world_scheme) io" where
  "new_posix_setup os dir =
     bindE (syscall (sys_getids os)) (\<lambda>i.
       ret \<lparr>work_directory = dir, chroot = '''', setup_ids = i\<rparr>)"

definition start_child ::
  "'e OS \<Rightarrow> string \<Rightarrow> string list \<Rightarrow> exec_context \<Rightarrow> info_map \<Rightarrow> info_map \<Rightarrow>
   (int \<times> info_map \<times> info_map, ('e, 'z) world_scheme) io" where
  "start_child os exe args ctx infoin infoout =
     on_throw
       (bindE (new_posix_setup os (cx_work_directory ctx)) (\<lambda>s.
          posix_start os exe args (cx_environment ctx) infoin infoout s))
       (destroy_info_map infoin \<circ> destroy_info_map infoout)"

text \<open>The parent's end of a stream that is captured, taken out of its map; else no handle.\<close>

definition captured_end ::
  "stream_behavior \<Rightarrow> info_map \<Rightarrow> int \<Rightarrow> bool \<Rightarrow>
   (file_handle \<times> info_map, ('e, 'z) world_scheme) io" where
  "captured_end sb info desc out =
     (if sb = Capture
      then bindE (posix_info_locate_pipe info desc out) (\<lambda>(fh, info').
             thenE (assertE (valid fh) ''valid()'') (ret (fh, info')))
      else ret (invalid_value, info))"

section \<open>launch and launch\_shell\<close>

definition launch ::
  "'e OS \<Rightarrow> string \<Rightarrow> string list \<Rightarrow> exec_context \<Rightarrow> (child, ('e, 'z) world_scheme) io" where
  "launch os exe args ctx =
     thenE (assertE (args \<noteq> []) ''!args.empty()'')
    (thenE (assertE (cx_work_directory ctx \<noteq> []) ''!ctx.work_directory.empty()'')
    (bindE (new_info_map os False [(STDIN_FILENO, stdin_behavior ctx)]) (\<lambda>infoin.
     bindE (on_throw (new_info_map os True [(STDOUT_FILENO, stdout_behavior ctx),
                                             (STDERR_FILENO, stderr_behavior ctx)])
              (destroy_info_map infoin)) (\<lambda>infoout.
     bindE (start_child os exe args ctx infoin infoout) (\<lambda>(pid, infoin1, infoout1).
     bindE (captured_end (stdin_behavior ctx) infoin1 STDIN_FILENO False) (\<lambda>(fhstdin, infoin2).
     bindE (captured_end (stdout_behavior ctx) infoout1 STDOUT_FILENO True) (\<lambda>(fhstdout, infoout2).
     bindE (captured_end (stderr_behavior ctx) infoout2 STDERR_FILENO True) (\<lambda>(fhstderr, infoout3).
     bindE (new_child pid fhstdin fhstdout fhstderr) (\<lambda>c.
     thenE (modifyE (destroy_info_map infoin2 \<circ> destroy_info_map infoout3)) (ret c))))))))))"

definition launch_shell :: "'e OS \<Rightarrow> string \<Rightarrow> exec_context \<Rightarrow> (child, ('e, 'z) world_scheme) io" where
  "launch_shell os command ctx = launch os ''/bin/sh'' [''sh'', ''-c'', command] ctx"

section \<open>launch\_pipeline\<close>

text \<open>
  The array of pipes. When one cannot be made, those made before it are destroyed, and so they
  are on an exception later; what was released from them then belongs to someone else.
\<close>

type_synonym pipe_ends = "file_handle \<times> file_handle"

definition destroy_pipe :: "pipe_ends \<Rightarrow> ('e, 'z) world_scheme \<Rightarrow> ('e, 'z) world_scheme" where
  "destroy_pipe p w = destroy_handle (fst p) (destroy_handle (snd p) w)"

definition destroy_pipes :: "pipe_ends list \<Rightarrow> ('e, 'z) world_scheme \<Rightarrow> ('e, 'z) world_scheme" where
  "destroy_pipes ps w = fold destroy_pipe (rev ps) w"

fun new_pipes :: "'e OS \<Rightarrow> nat \<Rightarrow> (pipe_ends list, ('e, 'z) world_scheme) io" where
  "new_pipes os 0 = ret []"
| "new_pipes os (Suc n) =
     bindE (new_pipe os) (\<lambda>p.
     bindE (on_throw (new_pipes os n) (destroy_pipe p)) (\<lambda>ps. ret (p # ps)))"

text \<open>\<open>release\<close>: the handle leaves its owner. Then the ends of the pipe of index \<open>i\<close>.\<close>

definition release :: "file_handle \<Rightarrow> (file_handle \<times> file_handle, 'w) io" where
  "release h = thenE (assertE (valid h) ''valid()'') (ret (h, invalid_value))"

definition release_rend :: "nat \<Rightarrow> pipe_ends list \<Rightarrow> (file_handle \<times> pipe_ends list, 'w) io" where
  "release_rend i ps =
     bindE (release (fst (ps ! i))) (\<lambda>(h, h'). ret (h, ps[i := (h', snd (ps ! i))]))"

definition release_wend :: "nat \<Rightarrow> pipe_ends list \<Rightarrow> (file_handle \<times> pipe_ends list, 'w) io" where
  "release_wend i ps =
     bindE (release (snd (ps ! i))) (\<lambda>(h, h'). ret (h, ps[i := (fst (ps ! i), h')]))"

text \<open>A stream that uses a given handle.\<close>

definition handle_info :: "file_handle \<Rightarrow> stream_info" where
  "handle_info h = blank_stream_info\<lparr>si_type := Type_Use_Handle, si_handle := h\<rparr>"

text \<open>The first child, one in the middle, and the last one.\<close>

definition launch_first ::
  "'e OS \<Rightarrow> pipeline_entry \<Rightarrow> nat \<Rightarrow> pipe_ends list \<Rightarrow>
   (child \<times> pipe_ends list, ('e, 'z) world_scheme) io" where
  "launch_first os e i pipes =
    (let ctx = pe_context e in
     bindE (on_throw (new_info_map os False [(STDIN_FILENO, stdin_behavior ctx)])
              (destroy_pipes pipes)) (\<lambda>infoin.
     thenE (assertE (stdout_behavior ctx = Close) ''ctx.stdout_behavior is close'')
    (bindE (release_wend i pipes) (\<lambda>(wr, pipes1).
     bindE (on_throw (new_info_map os True [(STDERR_FILENO, stderr_behavior ctx)])
              (destroy_pipes pipes1 \<circ> destroy_info_map infoin
               \<circ> destroy_info_map [(STDOUT_FILENO, handle_info wr)])) (\<lambda>errs.
     bindE (on_throw (start_child os (pe_executable e) (pe_arguments e) ctx infoin
                        ((STDOUT_FILENO, handle_info wr) # errs))
              (destroy_pipes pipes1)) (\<lambda>(pid, infoin1, infoout1).
     bindE (captured_end (stdin_behavior ctx) infoin1 STDIN_FILENO False) (\<lambda>(fhstdin, infoin2).
     bindE (new_child pid fhstdin invalid_value invalid_value) (\<lambda>c.
     thenE (modifyE (destroy_info_map infoin2 \<circ> destroy_info_map infoout1))
           (ret (c, pipes1))))))))))"

definition launch_middle ::
  "'e OS \<Rightarrow> pipeline_entry \<Rightarrow> nat \<Rightarrow> pipe_ends list \<Rightarrow>
   (child \<times> pipe_ends list, ('e, 'z) world_scheme) io" where
  "launch_middle os e i pipes =
    (let ctx = pe_context e in
     thenE (assertE (stdin_behavior ctx = Close) ''ctx.stdin_behavior is close'')
    (bindE (release_rend (i - 1) pipes) (\<lambda>(r, pipes1).
     let infoin = [(STDIN_FILENO, handle_info r)] in
     thenE (assertE (stdout_behavior ctx = Close) ''ctx.stdout_behavior is close'')
    (bindE (release_wend i pipes1) (\<lambda>(wr, pipes2).
     bindE (on_throw (new_info_map os True [(STDERR_FILENO, stderr_behavior ctx)])
              (destroy_pipes pipes2 \<circ> destroy_info_map infoin
               \<circ> destroy_info_map [(STDOUT_FILENO, handle_info wr)])) (\<lambda>errs.
     bindE (on_throw (start_child os (pe_executable e) (pe_arguments e) ctx infoin
                        ((STDOUT_FILENO, handle_info wr) # errs))
              (destroy_pipes pipes2)) (\<lambda>(pid, infoin1, infoout1).
     bindE (new_child pid invalid_value invalid_value invalid_value) (\<lambda>c.
     thenE (modifyE (destroy_info_map infoin1 \<circ> destroy_info_map infoout1))
           (ret (c, pipes2))))))))))"

definition launch_last ::
  "'e OS \<Rightarrow> pipeline_entry \<Rightarrow> nat \<Rightarrow> pipe_ends list \<Rightarrow>
   (child \<times> pipe_ends list, ('e, 'z) world_scheme) io" where
  "launch_last os e i pipes =
    (let ctx = pe_context e in
     thenE (assertE (stdin_behavior ctx = Close) ''ctx.stdin_behavior is close'')
    (bindE (release_rend (i - 1) pipes) (\<lambda>(r, pipes1).
     let infoin = [(STDIN_FILENO, handle_info r)] in
     bindE (on_throw (new_info_map os True [(STDOUT_FILENO, stdout_behavior ctx),
                                             (STDERR_FILENO, stderr_behavior ctx)])
              (destroy_pipes pipes1 \<circ> destroy_info_map infoin)) (\<lambda>infoout.
     bindE (on_throw (start_child os (pe_executable e) (pe_arguments e) ctx infoin infoout)
              (destroy_pipes pipes1)) (\<lambda>(pid, infoin1, infoout1).
     bindE (captured_end (stdout_behavior ctx) infoout1 STDOUT_FILENO True) (\<lambda>(fhstdout, infoout2).
     bindE (captured_end (stderr_behavior ctx) infoout2 STDERR_FILENO True) (\<lambda>(fhstderr, infoout3).
     bindE (new_child pid invalid_value fhstdout fhstderr) (\<lambda>c.
     thenE (modifyE (destroy_info_map infoin1 \<circ> destroy_info_map infoout3))
           (ret (c, pipes1))))))))))"

text \<open>The loop over the children in the middle, from index \<open>i\<close> on.\<close>

fun launch_middles ::
  "'e OS \<Rightarrow> pipeline_entry list \<Rightarrow> nat \<Rightarrow> pipe_ends list \<Rightarrow>
   (child list \<times> pipe_ends list, ('e, 'z) world_scheme) io" where
  "launch_middles os [] i pipes = ret ([], pipes)"
| "launch_middles os (e # es) i pipes =
     bindE (launch_middle os e i pipes) (\<lambda>(c, pipes1).
     bindE (on_throw (launch_middles os es (Suc i) pipes1) (destroy_child c)) (\<lambda>(cs, pipes2).
       ret (c # cs, pipes2)))"

definition destroy_children :: "child list \<Rightarrow> ('e, 'z) world_scheme \<Rightarrow> ('e, 'z) world_scheme" where
  "destroy_children cs w = fold destroy_child cs w"

definition launch_pipeline ::
  "'e OS \<Rightarrow> pipeline_entry list \<Rightarrow> (child list, ('e, 'z) world_scheme) io" where
  "launch_pipeline os entries =
     thenE (assertE (2 \<le> length entries) ''entries.size() >= 2'')
    (bindE (new_pipes os (length entries - 1)) (\<lambda>pipes.
     bindE (launch_first os (hd entries) 0 pipes) (\<lambda>(c, pipes1).
     bindE (on_throw (launch_middles os (butlast (tl entries)) 1 pipes1)
              (destroy_child c)) (\<lambda>(cs, pipes2).
     bindE (on_throw (launch_last os (last entries) (length entries - 1) pipes2)
              (destroy_children (c # cs))) (\<lambda>(d, pipes3).
     thenE (modifyE (destroy_pipes pipes3)) (ret (c # cs @ [d])))))))"

section \<open>wait\_children\<close>

definition EXIT_SUCCESS :: int where "EXIT_SUCCESS = 0"

definition failed_status :: "status \<Rightarrow> (bool, ('e, 'z) world_scheme) io" where
  "failed_status s =
     (if \<not> exited s then ret True
      else bindE (exit_status s) (\<lambda>code. ret (code \<noteq> EXIT_SUCCESS)))"

fun wait_rest :: "'e OS \<Rightarrow> child list \<Rightarrow> (unit, ('e, 'z) world_scheme) io" where
  "wait_rest os [] = ret ()"
| "wait_rest os (c # cs) = bindE (child_wait os c) (\<lambda>_. wait_rest os cs)"

text \<open>The loop; \<open>None\<close> when it falls through its end.\<close>

fun wait_loop :: "'e OS \<Rightarrow> child list \<Rightarrow> (status option, ('e, 'z) world_scheme) io" where
  "wait_loop os [] = ret None"
| "wait_loop os (c # cs) =
     bindE (child_wait os c) (\<lambda>s.
       if cs = [] then ret (Some s)
       else bindE (failed_status s) (\<lambda>failed.
              if failed then thenE (wait_rest os cs) (ret (Some s)) else wait_loop os cs))"

definition wait_children :: "'e OS \<Rightarrow> child list \<Rightarrow> (status, ('e, 'z) world_scheme) io" where
  "wait_children os cs =
     thenE (assertE (2 \<le> length cs) ''cs.size() >= 2'')
    (bindE (wait_loop os cs) (\<lambda>res.
       case res of Some s \<Rightarrow> ret s | None \<Rightarrow> throw (Abort ''false'')))"

section \<open>executable\_to\_progname\<close>

fun rfind_char :: "char \<Rightarrow> string \<Rightarrow> nat option" where
  "rfind_char c [] = None"
| "rfind_char c (x # xs) =
     (case rfind_char c xs of
        Some i \<Rightarrow> Some (Suc i)
      | None \<Rightarrow> if x = c then Some 0 else None)"

definition executable_to_progname :: "string \<Rightarrow> string" where
  "executable_to_progname exe =
     (let begin = (case rfind_char CHR ''/'' exe of None \<Rightarrow> 0 | Some slash \<Rightarrow> slash + 1)
      in drop begin exe)"


section \<open>Waiting for all\<close>

text \<open>
  What \<open>wait_children\<close> promises: every child is waited for, in order, and the status is that
  of the first that failed, or of the last.
\<close>

fun wait_each :: "'e OS \<Rightarrow> child list \<Rightarrow> (status list, ('e, 'z) world_scheme) io" where
  "wait_each os [] = ret []"
| "wait_each os (c # cs) =
     bindE (child_wait os c) (\<lambda>s. bindE (wait_each os cs) (\<lambda>ss. ret (s # ss)))"

definition failing :: "status \<Rightarrow> bool" where
  "failing s \<longleftrightarrow> \<not> exited s \<or> s div 256 mod 256 \<noteq> EXIT_SUCCESS"

definition first_failure :: "status list \<Rightarrow> status" where
  "first_failure ss = (case find failing ss of Some s \<Rightarrow> s | None \<Rightarrow> last ss)"

lemma first_failure_single: "first_failure [s] = s"
  by (simp add: first_failure_def)

lemma failed_status_eq: "failed_status s = ret (failing s)"
  by (simp add: failed_status_def failing_def exit_status_def thenE_def assertE_def)

lemma wait_rest_eq: "wait_rest os cs = bindE (wait_each os cs) (\<lambda>_. ret ())"
  by (induction cs) (simp_all add: bindE_assoc)

lemma wait_each_length: "wait_each os cs w = Some (Inr ss, w') \<Longrightarrow> length ss = length cs"
  by (induction cs arbitrary: w ss) (auto simp: ret_run bindE_Inr)

lemma bindE_cong_values:
  assumes "\<And>a w'. m w = Some (Inr a, w') \<Longrightarrow> f a w' = g a w'"
  shows "bindE m f w = bindE m g w"
  using assms by (auto simp: bindE_def split: option.splits sum.splits)

lemma wait_loop_eq:
  fixes w :: "('e, 'z) world_scheme"
  shows "cs \<noteq> [] \<Longrightarrow> wait_loop os cs w = bindE (wait_each os cs) (\<lambda>ss. ret (Some (first_failure ss))) w"
proof (induction cs arbitrary: w)
  case (Cons c cs)
  show ?case
  proof (cases "cs = []")
    case True
    then show ?thesis by (simp add: bindE_assoc first_failure_single)
  next
    case False
    have "bindE (failed_status s) (\<lambda>failed. if failed then thenE (wait_rest os cs) (ret (Some s))
          else wait_loop os cs) w' =
        bindE (wait_each os cs) (\<lambda>ss. ret (Some (first_failure (s # ss)))) w'" for s and w' :: "('e, 'z) world_scheme"
    proof (cases "failing s")
      case True
      then show ?thesis
        by (simp add: failed_status_eq thenE_def wait_rest_eq bindE_assoc first_failure_def)
    next
      case ok: False
      have "first_failure (s # ss) = first_failure ss" if "wait_each os cs w' = Some (Inr ss, w'')"
        for ss w''
        using ok wait_each_length [OF that] False by (auto simp: first_failure_def split: option.splits)
      then show ?thesis
        using ok Cons.IH [OF False] by (auto simp: failed_status_eq intro!: bindE_cong_values)
    qed
    then show ?thesis
      using False by (auto simp: bindE_assoc intro!: bindE_cong_values)
  qed
qed simp

text \<open>
  \<open>wait_children\<close> is the abstract machine that waits for every child, in order, and then
  gives the status of the first that failed, or of the last if none did; in result, in exceptions
  and in effect. It is for two children or more.
\<close>

lemma wait_children_first_failure:
  fixes w :: "('e, 'z) world_scheme"
  shows "wait_children os cs w =
     thenE (assertE (2 \<le> length cs) ''cs.size() >= 2'')
           (bindE (wait_each os cs) (\<lambda>ss. ret (first_failure ss))) w"
proof (cases "2 \<le> length cs")
  case True
  then have "(wait_loop os cs :: (_, ('e, 'z) world_scheme) io) = bindE (wait_each os cs) (\<lambda>ss. ret (Some (first_failure ss)))"
    by (intro ext wait_loop_eq) auto
  then show ?thesis using True by (simp add: wait_children_def thenE_def assertE_def bindE_assoc)
qed (simp add: wait_children_def thenE_def assertE_def)

section \<open>The name of a program\<close>

lemma rfind_char_None: "rfind_char c s = None \<longleftrightarrow> c \<notin> set s"
  by (induction s) (auto split: option.splits)

lemma rfind_char_append: "c \<notin> set ys \<Longrightarrow> rfind_char c (xs @ c # ys) = Some (length xs)"
  by (induction xs) (auto simp: rfind_char_None split: option.splits)

lemma executable_to_progname_plain: "CHR ''/'' \<notin> set name \<Longrightarrow> executable_to_progname name = name"
  by (simp add: executable_to_progname_def rfind_char_None [THEN iffD2])

lemma executable_to_progname_path:
  "CHR ''/'' \<notin> set name \<Longrightarrow> executable_to_progname (dir @ CHR ''/'' # name) = name"
  by (simp add: executable_to_progname_def rfind_char_append)

end
