(* ===== verification/Pipeline_Wiring.thy ===== *)
theory Pipeline_Wiring
  imports Boost_Pipeline
begin

text \<open>
  How \<open>launch_pipeline\<close> connects its children: the standard output of each is the pipe that is
  the standard input of the next, no child has another descriptor open than the three standard
  ones, and the parent keeps no end of a connecting pipe, so that every reader sees the end of
  its input when the writer before it ends.
\<close>

section \<open>What the system documents\<close>

text \<open>
  Descriptors: a new one is not in use and lies below the limit on open files. And \<open>spawned\<close>
  is a record, in the surroundings, of the children that were started and what became of them:
  only \<open>sys_child_runs\<close> adds to it.
\<close>

definition descriptors_documented :: "'e OS \<Rightarrow> int \<Rightarrow> bool" where
  "descriptors_documented os lim \<longleftrightarrow>
     pipe_documented os \<and> 2 < lim \<and>
     (\<forall>t e r wr e'. sys_pipe os t e = Some (Some (r, wr), e') \<longrightarrow> r < lim \<and> wr < lim) \<and>
     (\<forall>f t e fd e'. sys_child_open os f t e = Some (Some fd, e') \<longrightarrow>
        0 \<le> fd \<and> fd < lim \<and> t fd = None) \<and>
     (\<forall>e m e'. sys_open_max os e = Some (m, e') \<longrightarrow> (if m = -1 then 1024 else m) = lim)"

definition unnoticed :: "('e \<Rightarrow> 'v) \<Rightarrow> ('a, 'e) sys \<Rightarrow> bool" where
  "unnoticed f c \<longleftrightarrow> (\<forall>e a e'. c e = Some (a, e') \<longrightarrow> f e' = f e)"

definition notes_children :: "'e OS \<Rightarrow> ('e \<Rightarrow> (int \<times> child_fate) list) \<Rightarrow> bool" where
  "notes_children os spawned \<longleftrightarrow>
     (\<forall>t. unnoticed spawned (sys_pipe os t)) \<and> unnoticed spawned (sys_fork os) \<and>
     unnoticed spawned (sys_getids os) \<and> unnoticed spawned (sys_open_max os) \<and>
     (\<forall>f t. unnoticed spawned (sys_child_open os f t)) \<and>
     (\<forall>c. unnoticed spawned (sys_child_call os c)) \<and>
     (\<forall>pid fate e u e'. sys_child_runs os pid fate e = Some (u, e') \<longrightarrow>
        spawned e' = spawned e @ [(pid, fate)])"

lemma notes_childrenD:
  assumes "notes_children os f"
  shows "sys_pipe os t e = Some (p, e') \<Longrightarrow> f e' = f e"
    and "sys_fork os e = Some (pid, e') \<Longrightarrow> f e' = f e"
    and "sys_getids os e = Some (i, e') \<Longrightarrow> f e' = f e"
    and "sys_open_max os e = Some (m, e') \<Longrightarrow> f e' = f e"
    and "sys_child_open os file t e = Some (fd, e') \<Longrightarrow> f e' = f e"
    and "sys_child_call os c e = Some (b, e') \<Longrightarrow> f e' = f e"
    and "sys_child_runs os pid fate e = Some (u, e') \<Longrightarrow> f e' = f e @ [(pid, fate)]"
  using assms by (simp_all add: notes_children_def unnoticed_def)

section \<open>The descriptors of a child\<close>

text \<open>
  A table that is empty outside the limit, and the handles that a stream owns. The set-up of a
  stream changes its own descriptor and the handles it owns, and nothing else.
\<close>

definition below :: "int \<Rightarrow> fd_table \<Rightarrow> bool" where
  "below lim t \<longleftrightarrow> (\<forall>d. d < 0 \<or> lim \<le> d \<longrightarrow> t d = None)"

lemma below_upd: "below lim t \<Longrightarrow> 0 \<le> d \<and> d < lim \<or> v = None \<Longrightarrow> below lim (t(d := v))"
  by (auto simp: below_def)

definition owned :: "stream_info \<Rightarrow> int set" where
  "owned si = {h. valid h \<and> h \<in> {si_handle si, si_rend si, si_wend si}}"

definition owned_map :: "info_map \<Rightarrow> int set" where
  "owned_map info = (\<Union>(d, si) \<in> set info. owned si)"

lemma owned_map_simps [simp]:
  "owned_map [] = {}" "owned_map ((d, si) # info) = owned si \<union> owned_map info"
  by (auto simp: owned_map_def)

definition touches :: "int set \<Rightarrow> int \<Rightarrow> 'e child_state \<Rightarrow> 'e child_state \<Rightarrow> bool" where
  "touches D lim s s' \<longleftrightarrow>
     (\<forall>d. d \<notin> D \<longrightarrow> child_fds s' d = child_fds s d) \<and>
     (below lim (child_fds s) \<longrightarrow> below lim (child_fds s'))"

lemma touches_refl: "touches D lim s s"
  by (simp add: touches_def)

lemma touches_trans:
  "touches D lim s s' \<Longrightarrow> touches E lim s' s'' \<Longrightarrow> D \<union> E \<subseteq> F \<Longrightarrow> touches F lim s s''"
  unfolding touches_def by (metis UnCI subsetD)

lemma touches_mono: "touches D lim s s' \<Longrightarrow> D \<subseteq> E \<Longrightarrow> touches E lim s s'"
  by (auto simp: touches_def)

lemma posix_remap_Inr:
  assumes "posix_remap h d s = Some (Inr u, s')"
  shows "child_fds s' = (child_fds s)(d := child_fds s h, h := None)"
  using assms by (auto simp: posix_remap_def io_simps child_dup2_def child_close_def bindE_Inr
      thenE_def ret_run throw_run modifyE_run assertE_run split: if_splits)

lemma open_onto_touches:
  assumes os: "descriptors_documented os lim" and d: "0 \<le> d" "d < lim"
    and run: "open_onto os f d s = Some (Inr u, s')"
  shows "touches {d} lim s s'"
proof -
  obtain fd e s1 where fd: "sys_child_open os f (child_fds s) (child_env s) = Some (Some fd, e)"
    and s1: "s1 = s\<lparr>child_env := e, child_fds := (child_fds s)(fd := Some (Opened f))\<rparr>"
    and rest: "(if fd \<noteq> d then posix_remap fd d else ret ()) s1 = Some (Inr u, s')"
    using run
    by (auto simp: open_onto_def bindE_Inr getE_run child_syscall_def thenE_def modifyE_run throw_run
        split: option.splits)
  have fd': "0 \<le> fd" "fd < lim" "child_fds s fd = None"
    using os fd unfolding descriptors_documented_def by blast+
  show ?thesis
  proof (cases "fd = d")
    case True
    then show ?thesis using rest s1 d by (auto simp: touches_def ret_run intro: below_upd)
  next
    case False
    then have "child_fds s' = (child_fds s1)(d := child_fds s1 fd, fd := None)"
      using rest posix_remap_Inr by auto
    then show ?thesis
      using False s1 fd' d by (auto simp: touches_def intro!: below_upd)
  qed
qed


lemma remap_touches:
  assumes "(if h \<noteq> d then posix_remap h d else ret ()) s = Some (Inr u, s')" "0 \<le> d" "d < lim"
  shows "touches {d, h} lim s s' \<and> child_fds s' d = child_fds s h"
proof (cases "h = d")
  case True
  then show ?thesis using assms by (simp add: ret_run touches_refl)
next
  case False
  then have "child_fds s' = (child_fds s)(d := child_fds s h, h := None)"
    using assms posix_remap_Inr by auto
  then show ?thesis using assms(2,3) False by (auto simp: touches_def below_upd)
qed

lemma child_close_touches: "child_close h s = Some (Inr u, s') \<Longrightarrow> touches {h} lim s s'"
  by (auto simp: child_close_def modifyE_run touches_def intro!: below_upd)

lemma ownedI:
  "valid (si_handle si) \<Longrightarrow> si_handle si \<in> owned si"
  "valid (si_rend si) \<Longrightarrow> si_rend si \<in> owned si"
  "valid (si_wend si) \<Longrightarrow> si_wend si \<in> owned si"
  by (simp_all add: owned_def)

lemma assert_then_Inr:
  "thenE (assertE b x) m w = Some (Inr a, w') \<longleftrightarrow> b \<and> m w = Some (Inr a, w')"
  by (simp add: thenE_def assertE_def throw_run)

lemma then_Inr:
  "thenE m n w = Some (Inr a, w') \<longleftrightarrow> (\<exists>w1. m w = Some (Inr (), w1) \<and> n w1 = Some (Inr a, w'))"
  by (simp add: thenE_def bindE_Inr)

lemma assert_Inr: "assertE b x w = Some (Inr a, w') \<longleftrightarrow> b \<and> w' = w"
  by (auto simp: assertE_def ret_run throw_run)

text \<open>A pipe end that is closed while the other one goes onto the descriptor.\<close>

lemma pipe_onto_touches:
  assumes "child_close h s = Some (Inr (), s1)"
    and "(if d \<noteq> k then posix_remap k d else ret ()) s1 = Some (Inr u, s')"
    and "0 \<le> d" "d < lim" "{h, k} \<subseteq> D"
  shows "touches (insert d D) lim s s'"
proof -
  have "touches {d, k} lim s1 s'"
    using remap_touches [of k d s1 u s' lim] assms(2-4) by (cases "k = d") auto
  with child_close_touches [OF assms(1), of lim] show ?thesis
    using assms(5) touches_trans [of "{h}" lim s s1 "{d, k}" s' "insert d D"] by auto
qed

lemma setup_input_one_touches:
  assumes os: "descriptors_documented os lim" and d: "0 \<le> d"
    and run: "setup_input_one os lim d si s = Some (Inr u, s')"
  shows "touches (insert d (owned si)) lim s s' \<and>
    (si_type si = Type_Use_Handle \<longrightarrow> child_fds s' d = child_fds s (si_handle si))"
proof -
  have lim: "d < lim" using run by (simp add: setup_input_one_def assert_then_Inr)
  show ?thesis
  proof (cases "si_type si")
    case Type_Use_File
    then show ?thesis
      using run lim touches_mono [OF open_onto_touches [OF os d lim], of "si_file si" s u s']
      by (auto simp: setup_input_one_def assert_then_Inr)
  next
    case Type_Use_Handle
    then have "touches {d, si_handle si} lim s s' \<and> child_fds s' d = child_fds s (si_handle si)"
      and "valid (si_handle si)"
      using run remap_touches [of "si_handle si" d s u s' lim] d lim
      by (auto simp: setup_input_one_def assert_then_Inr)
    then show ?thesis by (auto elim!: touches_mono intro: ownedI)
  next
    case Type_Use_Pipe
    then obtain s1 where "child_close (si_wend si) s = Some (Inr (), s1)"
      "(if d \<noteq> si_rend si then posix_remap (si_rend si) d else ret ()) s1 = Some (Inr u, s')"
      "valid (si_rend si)" "valid (si_wend si)"
      using run by (auto simp: setup_input_one_def then_Inr assert_Inr)
    from pipe_onto_touches [OF this(1,2) d lim, of "owned si"] this(3,4) Type_Use_Pipe
    show ?thesis by (simp add: ownedI)
  qed (use run lim in \<open>auto simp: setup_input_one_def assert_then_Inr assert_Inr touches_refl\<close>)
qed

lemma setup_output_one_touches:
  assumes os: "descriptors_documented os lim" and d: "0 \<le> d"
    and run: "setup_output_one os lim d si s = Some (Inr u, s')"
  shows "touches (insert d (owned si)) lim s s' \<and>
    (si_type si = Type_Use_Handle \<longrightarrow> child_fds s' d = child_fds s (si_handle si))"
proof -
  have lim: "d < lim" using run by (simp add: setup_output_one_def assert_then_Inr)
  show ?thesis
  proof (cases "si_type si")
    case Type_Use_File
    then show ?thesis
      using run lim touches_mono [OF open_onto_touches [OF os d lim], of "si_file si" s u s']
      by (auto simp: setup_output_one_def assert_then_Inr)
  next
    case Type_Use_Handle
    then have "touches {d, si_handle si} lim s s' \<and> child_fds s' d = child_fds s (si_handle si)"
      and "valid (si_handle si)"
      using run remap_touches [of "si_handle si" d s u s' lim] d lim
      by (auto simp: setup_output_one_def assert_then_Inr)
    then show ?thesis by (auto elim!: touches_mono intro: ownedI)
  next
    case Type_Use_Pipe
    then obtain s1 where "child_close (si_rend si) s = Some (Inr (), s1)"
      "(if d \<noteq> si_wend si then posix_remap (si_wend si) d else ret ()) s1 = Some (Inr u, s')"
      "valid (si_rend si)" "valid (si_wend si)"
      using run by (auto simp: setup_output_one_def then_Inr assert_Inr)
    from pipe_onto_touches [OF this(1,2) d lim, of "owned si"] this(3,4) Type_Use_Pipe
    show ?thesis by (simp add: ownedI)
  qed (use run lim in \<open>auto simp: setup_output_one_def assert_then_Inr assert_Inr touches_refl ret_run\<close>)
qed


text \<open>All the streams of a map: its keys and the handles it owns are what changes.\<close>

lemma setup_input_touches:
  assumes os: "descriptors_documented os lim" and "\<forall>d \<in> fst ` set info. 0 \<le> d"
    and "setup_input os lim info s = Some (Inr u, s')"
  shows "touches (fst ` set info \<union> owned_map info) lim s s'"
  using assms(2,3)
proof (induction info arbitrary: s)
  case Nil
  then show ?case by (simp add: ret_run touches_refl)
next
  case (Cons p info)
  obtain d si where p: "p = (d, si)" by fastforce
  obtain s1 where s1: "setup_input_one os lim d si s = Some (Inr (), s1)"
    "setup_input os lim info s1 = Some (Inr u, s')"
    using Cons.prems by (auto simp: p then_Inr)
  have "touches (insert d (owned si)) lim s s1"
    using setup_input_one_touches [OF os _ s1(1)] Cons.prems p by auto
  moreover have "touches (fst ` set info \<union> owned_map info) lim s1 s'"
    using Cons.IH [OF _ s1(2)] Cons.prems by auto
  ultimately show ?case by (rule touches_trans) (auto simp: p)
qed

lemma setup_output_first_touches:
  assumes os: "descriptors_documented os lim" and "\<forall>d \<in> fst ` set info. 0 \<le> d"
    and "setup_output_first os lim info s = Some (Inr u, s')"
  shows "touches (fst ` set info \<union> owned_map info) lim s s'"
  using assms(2,3)
proof (induction info arbitrary: s)
  case Nil
  then show ?case by (simp add: ret_run touches_refl)
next
  case (Cons p info)
  obtain d si where p: "p = (d, si)" by fastforce
  obtain s1 where s1: "setup_output_one os lim d si s = Some (Inr (), s1)"
    "setup_output_first os lim info s1 = Some (Inr u, s')"
    using Cons.prems by (auto simp: p then_Inr)
  have "touches (insert d (owned si)) lim s s1"
    using setup_output_one_touches [OF os _ s1(1)] Cons.prems p by auto
  moreover have "touches (fst ` set info \<union> owned_map info) lim s1 s'"
    using Cons.IH [OF _ s1(2)] Cons.prems by auto
  ultimately show ?case by (rule touches_trans) (auto simp: p)
qed

definition redirected :: "info_map \<Rightarrow> int set" where
  "redirected info = {d. \<exists>si. (d, si) \<in> set info \<and> si_type si = Type_Redirect}"

lemma redirects_touch:
  assumes "\<forall>d \<in> fst ` set info. d < lim"
    and "setup_output_redirects info s = Some (Inr u, s')"
  shows "touches (redirected info) lim s s'"
  using assms
proof (induction info arbitrary: s)
  case Nil
  then show ?case by (simp add: ret_run touches_refl)
next
  case (Cons p info)
  obtain d si where p: "p = (d, si)" by fastforce
  obtain s1 where s1: "(if si_type si = Type_Redirect then posix_dup (si_desc_to si) d else ret ()) s =
      Some (Inr (), s1)" "setup_output_redirects info s1 = Some (Inr u, s')"
    using Cons.prems by (auto simp: p then_Inr)
  have "touches (redirected [(d, si)]) lim s s1"
    using s1(1) Cons.prems(1)
    by (auto simp: p redirected_def posix_dup_def bindE_Inr child_dup2_def ret_run throw_run touches_def
        intro!: below_upd split: if_splits)
  moreover have "touches (redirected info) lim s1 s'"
    using Cons.IH [OF _ s1(2)] Cons.prems by auto
  ultimately show ?case by (rule touches_trans) (auto simp: p redirected_def)
qed

lemma setup_first_keys:
  "setup_input os lim info s = Some (Inr u, s') \<Longrightarrow> \<forall>d \<in> fst ` set info. d < lim"
  "setup_output_first os lim info s = Some (Inr u, s') \<Longrightarrow> \<forall>d \<in> fst ` set info. d < lim"
proof (induction info arbitrary: s)
  case (Cons p info)
  obtain d si where p: "p = (d, si)" by fastforce
  { case 1 then show ?case using Cons.IH(1) p by (auto simp: then_Inr setup_input_one_def assert_Inr) }
  { case 2 then show ?case using Cons.IH(2) p by (auto simp: then_Inr setup_output_one_def assert_Inr) }
qed simp_all


section \<open>The whole set-up of a child\<close>

lemma child_setup_steps:
  assumes os: "descriptors_documented os lim"
    and run: "child_setup os infoin infoout pset s = Some (Inr u, s')"
  obtains s0 s1 s2 s3 where
    "child_fds s0 = child_fds s" "setup_input os lim infoin s0 = Some (Inr (), s1)"
    "setup_output_first os lim infoout s1 = Some (Inr (), s2)"
    "setup_output_redirects infoout s2 = Some (Inr (), s3)"
    "child_fds s' = (\<lambda>i. if 0 \<le> i \<and> i < lim \<and> i \<notin> fst ` set infoin \<union> fst ` set infoout
                        then None else child_fds s3 i)"
proof -
  obtain m e where m: "sys_open_max os (child_env s) = Some (m, e)"
    using run by (auto simp: child_setup_def bindE_Some child_syscall_def split: option.splits)
  then have lim: "(if m = -1 then 1024 else m) = lim"
    using os unfolding descriptors_documented_def by blast
  let ?s0 = "s\<lparr>child_env := e\<rparr>"
  have "thenE (setup_input os lim infoin) (thenE (setup_output os lim infoout)
      (thenE (close_unlisted lim (map fst infoin @ map fst infoout)) (run_posix_setup os pset))) ?s0 =
      Some (Inr u, s')"
    using run m lim by (simp add: child_setup_def bindE_def child_syscall_def Let_def)
  then obtain s1 s2 s3 s4 where s:
    "setup_input os lim infoin ?s0 = Some (Inr (), s1)"
    "setup_output_first os lim infoout s1 = Some (Inr (), s2)"
    "setup_output_redirects infoout s2 = Some (Inr (), s3)"
    "close_unlisted lim (map fst infoin @ map fst infoout) s3 = Some (Inr (), s4)"
    "run_posix_setup os pset s4 = Some (Inr u, s')"
    by (auto simp: then_Inr setup_output_def)
  have "child_fds s' = child_fds s4"
    using keepsD [OF keeps_run_posix_setup s(5)] .
  also have "\<dots> = (\<lambda>i. if 0 \<le> i \<and> i < lim \<and> i \<notin> fst ` set infoin \<union> fst ` set infoout
      then None else child_fds s3 i)"
    using s(4) by (auto simp: close_unlisted_def modifyE_run)
  finally show ?thesis using that [OF _ s(1-3)] by simp
qed

lemma redirected_Cons:
  "redirected ((d, si) # info) = (if si_type si = Type_Redirect then {d} else {}) \<union> redirected info"
  by (auto simp: redirected_def)

lemma redirected_keys: "redirected info \<subseteq> fst ` set info"
  by (force simp: redirected_def)

lemma touchesD: "touches D lim s s' \<Longrightarrow> d \<notin> D \<Longrightarrow> child_fds s' d = child_fds s d"
  by (simp add: touches_def)

lemma child_setup_wiring:
  assumes os: "descriptors_documented os lim"
    and below: "below lim (child_fds s)"
    and keys: "\<forall>d \<in> fst ` set infoin \<union> fst ` set infoout. 0 \<le> d"
    and run: "child_setup os infoin infoout pset s = Some (Inr u, s')"
  shows child_closes_rest: "d \<notin> fst ` set infoin \<union> fst ` set infoout \<Longrightarrow> child_fds s' d = None"
    and child_input_wired: "infoin = [(0, handle_info r)] \<Longrightarrow>
      0 \<notin> fst ` set infoout \<union> owned_map infoout \<Longrightarrow> child_fds s' 0 = child_fds s r"
    and child_output_wired: "infoout = (1, handle_info wr) # rest \<Longrightarrow>
      1 \<notin> fst ` set rest \<union> owned_map rest \<Longrightarrow>
      wr \<notin> fst ` set infoin \<union> owned_map infoin \<Longrightarrow> child_fds s' 1 = child_fds s wr"
proof -
  from os run obtain s0 s1 s2 s3 where s: "child_fds s0 = child_fds s"
    "setup_input os lim infoin s0 = Some (Inr (), s1)"
    "setup_output_first os lim infoout s1 = Some (Inr (), s2)"
    "setup_output_redirects infoout s2 = Some (Inr (), s3)"
    "child_fds s' = (\<lambda>i. if 0 \<le> i \<and> i < lim \<and> i \<notin> fst ` set infoin \<union> fst ` set infoout
                        then None else child_fds s3 i)"
    by (rule child_setup_steps)
  have inp: "touches (fst ` set infoin \<union> owned_map infoin) lim s0 s1"
    using setup_input_touches [OF os _ s(2)] keys by auto
  have out: "touches (fst ` set infoout \<union> owned_map infoout) lim s1 s2"
    using setup_output_first_touches [OF os _ s(3)] keys by auto
  have redir: "touches (redirected infoout) lim s2 s3"
    using redirects_touch [OF _ s(4)] setup_first_keys(2) [OF s(3)] by blast
  have "below lim (child_fds s3)"
    using below s(1) inp out redir by (simp add: touches_def)
  then show "child_fds s' d = None" if "d \<notin> fst ` set infoin \<union> fst ` set infoout"
    using that s(5) by (auto simp: below_def)
  show "child_fds s' 0 = child_fds s r"
    if i: "infoin = [(0, handle_info r)]" and o: "0 \<notin> fst ` set infoout \<union> owned_map infoout"
  proof -
    have "setup_input_one os lim 0 (handle_info r) s0 = Some (Inr (), s1)"
      using s(2) i by (auto simp: then_Inr ret_run)
    from setup_input_one_touches [OF os _ this] have "child_fds s1 0 = child_fds s r"
      using s(1) by (simp add: handle_info_def blank_stream_info_def)
    moreover have "child_fds s3 0 = child_fds s1 0"
      using touchesD [OF redir, of 0] touchesD [OF out, of 0] o redirected_keys [of infoout] by auto
    ultimately show ?thesis using s(5) i by simp
  qed
  show "child_fds s' 1 = child_fds s wr"
    if o: "infoout = (1, handle_info wr) # rest" and r: "1 \<notin> fst ` set rest \<union> owned_map rest"
      and w: "wr \<notin> fst ` set infoin \<union> owned_map infoin"
  proof -
    obtain sa where sa: "setup_output_one os lim 1 (handle_info wr) s1 = Some (Inr (), sa)"
      "setup_output_first os lim rest sa = Some (Inr (), s2)"
      using s(3) o by (auto simp: then_Inr)
    from setup_output_one_touches [OF os _ sa(1)] have "child_fds sa 1 = child_fds s1 wr"
      by (simp add: handle_info_def blank_stream_info_def)
    also have "\<dots> = child_fds s wr" using touchesD [OF inp, of wr] w s(1) by simp
    finally have "child_fds sa 1 = child_fds s wr" .
    moreover have "child_fds s2 1 = child_fds sa 1"
      using touchesD [OF setup_output_first_touches [OF os _ sa(2)]] keys o r by auto
    moreover have "child_fds s3 1 = child_fds s2 1"
      using touchesD [OF redir, of 1] r o redirected_keys [of rest]
      by (auto simp: redirected_Cons handle_info_def blank_stream_info_def)
    ultimately show ?thesis using s(5) o by simp
  qed
qed


section \<open>The descriptors of the parent\<close>

text \<open>\<open>moves f lim D w w'\<close>: only the descriptors in \<open>D\<close> changed, and nothing that \<open>f\<close> observes.\<close>

definition moves ::
  "('e \<Rightarrow> 'v) \<Rightarrow> int \<Rightarrow> int set \<Rightarrow> ('e, 'z) world_scheme \<Rightarrow> ('e, 'z) world_scheme \<Rightarrow> bool" where
  "moves f lim D w w' \<longleftrightarrow>
     (\<forall>d. d \<notin> D \<longrightarrow> fds w' d = fds w d) \<and>
     (below lim (fds w) \<longrightarrow> below lim (fds w')) \<and> f (env w') = f (env w)"

lemma moves_refl: "moves f lim D w w"
  by (simp add: moves_def)

lemma moves_trans:
  "moves f lim D w w' \<Longrightarrow> moves f lim E w' w'' \<Longrightarrow> D \<union> E \<subseteq> F \<Longrightarrow> moves f lim F w w''"
  unfolding moves_def by (metis UnCI subsetD)

text \<open>A new pipe, and the streams made from behaviours.\<close>

lemma new_pipe_moves:
  assumes os: "descriptors_documented os lim" and f: "notes_children os f"
    and run: "new_pipe os w = Some (Inr (r, wr), w')"
  shows "moves f lim {r, wr} w w' \<and> fds w r = None \<and> fds w wr = None \<and> r \<noteq> wr \<and> 0 \<le> r \<and> 0 \<le> wr \<and>
    fds w' r = Some (Pipe_Read_End (next_pipe w)) \<and>
    fds w' wr = Some (Pipe_Write_End (next_pipe w)) \<and> next_pipe w' = Suc (next_pipe w)"
proof -
  obtain e where e: "sys_pipe os (fds w) (env w) = Some (Some (r, wr), e)"
    and w': "w' = w\<lparr>env := e, fds := (fds w)(r := Some (Pipe_Read_End (next_pipe w)),
                wr := Some (Pipe_Write_End (next_pipe w))), next_pipe := Suc (next_pipe w)\<rparr>"
    using run
    by (auto simp: new_pipe_def bindE_Inr getE_run syscall_Some then_Inr modifyE_run ret_run throw_run
        split: option.splits)
  have "0 \<le> r \<and> 0 \<le> wr \<and> r \<noteq> wr \<and> fds w r = None \<and> fds w wr = None"
    using os e unfolding descriptors_documented_def pipe_documented_def by blast
  moreover have "r < lim \<and> wr < lim"
    using os e unfolding descriptors_documented_def by blast
  moreover have "f e = f (env w)"
    using notes_childrenD(1) [OF f e] .
  ultimately show ?thesis using w' by (auto simp: moves_def intro!: below_upd)
qed

definition made_stream :: "stream_info \<Rightarrow> bool" where
  "made_stream si \<longleftrightarrow>
     (if si_type si = Type_Use_Pipe
      then si_handle si = invalid_value \<and> 0 \<le> si_rend si \<and> 0 \<le> si_wend si
      else owned si = {} \<and> si_type si \<noteq> Type_Use_Handle)"

lemma blank_owned: "owned (blank_stream_info\<lparr>si_type := t\<rparr>) = {}"
  by (auto simp: owned_def blank_stream_info_def valid_def)

lemma new_stream_info_moves:
  assumes os: "descriptors_documented os lim" and f: "notes_children os f"
    and run: "new_stream_info os sb out w = Some (Inr si, w')"
  shows "moves f lim (owned si) w w' \<and> made_stream si \<and>
    (\<forall>d \<in> owned si. fds w d = None) \<and> (si_type si = Type_Use_Pipe \<longleftrightarrow> sb = Capture)"
proof (cases "sb = Capture")
  case True
  then obtain r wr where p: "new_pipe os w = Some (Inr (r, wr), w')"
    and si: "si = blank_stream_info\<lparr>si_type := Type_Use_Pipe, si_rend := r, si_wend := wr\<rparr>"
    using run by (auto simp: bindE_Inr ret_run)
  from new_pipe_moves [OF os f p] show ?thesis
    using True si
    by (auto simp: made_stream_def owned_def blank_stream_info_def valid_def invalid_value_def moves_def)
next
  case False
  then have "w' = w \<and> owned si = {} \<and> si_type si \<notin> {Type_Use_Pipe, Type_Use_Handle}"
    using run by (cases sb)
      (auto simp: ret_run owned_def blank_stream_info_def valid_def invalid_value_def)
  then show ?thesis using False by (auto simp: made_stream_def moves_refl)
qed

lemma on_throw_Inr: "on_throw m c w = Some (Inr a, w') \<longleftrightarrow> m w = Some (Inr a, w')"
  by (auto simp: on_throw_def split: option.splits sum.splits)

definition made_streams :: "info_map \<Rightarrow> bool" where
  "made_streams info \<longleftrightarrow> (\<forall>(d, si) \<in> set info. made_stream si)"

lemma made_streams_simps [simp]:
  "made_streams []" "made_streams ((d, si) # info) \<longleftrightarrow> made_stream si \<and> made_streams info"
  by (auto simp: made_streams_def)

lemma new_info_map_moves:
  assumes os: "descriptors_documented os lim" and f: "notes_children os f"
  shows "new_info_map os out bs w = Some (Inr info, w') \<Longrightarrow>
    moves f lim (owned_map info) w w' \<and> made_streams info \<and>
    (\<forall>d \<in> owned_map info. fds w d = None) \<and> fst ` set info \<subseteq> fst ` set bs"
proof (induction bs arbitrary: w info)
  case Nil
  then show ?case by (simp add: ret_run moves_refl)
next
  case (Cons b bs)
  obtain fd sb where b: "b = (fd, sb)" by fastforce
  show ?case
  proof (cases "sb = Close")
    case True
    then have "new_info_map os out bs w = Some (Inr info, w')" using Cons.prems b by simp
    from Cons.IH [OF this] show ?thesis by (auto simp: b)
  next
    case False
    then obtain si rest w1 where r: "new_stream_info os sb out w = Some (Inr si, w1)"
      "new_info_map os out bs w1 = Some (Inr rest, w')" "info = (fd, si) # rest"
      using Cons.prems b by (auto simp: bindE_Inr on_throw_Inr ret_run)
    note si = new_stream_info_moves [OF os f r(1)] and rest = Cons.IH [OF r(2)]
    have "moves f lim (owned_map info) w w'"
      using moves_trans [of f lim "owned si" w w1 "owned_map rest" w'] si rest r(3) by simp
    moreover have "fds w d = None" if "d \<in> owned_map info" for d
    proof (cases "d \<in> owned si")
      case False
      then have "fds w1 d = None" using that rest r(3) by simp
      then show ?thesis using si False by (simp add: moves_def)
    qed (use si in simp)
    ultimately show ?thesis using si rest r(3) b by auto
  qed
qed


section \<open>One child\<close>

text \<open>The set-up of a child goes unnoticed; only its fate is noted.\<close>

lemma keeps_noted [keeps_intros]:
  "unnoticed f c \<Longrightarrow> keeps (child_syscall c) (\<lambda>s. f (child_env s))"
  by (auto simp: keeps_def child_syscall_def unnoticed_def split: option.splits)

lemma keeps_child_fds_steps [keeps_intros]:
  "keeps (child_close h) (\<lambda>s. f (child_env s))"
  "keeps (child_dup2 h d) (\<lambda>s. f (child_env s))"
  "keeps (posix_remap h d) (\<lambda>s. f (child_env s))"
  "keeps (posix_dup h d) (\<lambda>s. f (child_env s))"
proof -
  show c: "keeps (child_close h) (\<lambda>s. f (child_env s))" for h
    unfolding child_close_def by (intro keeps_intros) simp
  show d: "keeps (child_dup2 h d) (\<lambda>s. f (child_env s))" for h d
    by (auto simp: keeps_def child_dup2_def split: if_splits)
  show "keeps (posix_remap h d) (\<lambda>s. f (child_env s))" "keeps (posix_dup h d) (\<lambda>s. f (child_env s))"
    unfolding posix_remap_def posix_dup_def by (intro keeps_intros c d)+
qed

lemma keeps_child_setup:
  assumes f: "notes_children os f"
  shows "keeps (child_setup os infoin infoout pset) (\<lambda>s. f (child_env s))"
proof -
  have u: "unnoticed f (sys_getids os)" "unnoticed f (sys_open_max os)"
    "unnoticed f (sys_child_open os fn t)" "unnoticed f (sys_child_call os c)" for fn t c
    using f by (simp_all add: notes_children_def)
  have o: "keeps (open_onto os fn d) (\<lambda>s. f (child_env s))" for fn d
    unfolding open_onto_def by (intro keeps_intros u) simp_all
  have "keeps (setup_input_one os m d si) (\<lambda>s. f (child_env s))" for m d si
    unfolding setup_input_one_def by (cases "si_type si") (auto intro!: keeps_intros o)
  then have i: "keeps (setup_input os m info) (\<lambda>s. f (child_env s))" for m info
    by (induction info) (auto intro!: keeps_intros)
  have "keeps (setup_output_one os m d si) (\<lambda>s. f (child_env s))" for m d si
    unfolding setup_output_one_def by (cases "si_type si") (auto intro!: keeps_intros o)
  then have o1: "keeps (setup_output_first os m info) (\<lambda>s. f (child_env s))" for m info
    by (induction info) (auto intro!: keeps_intros)
  have o2: "keeps (setup_output_redirects info) (\<lambda>s. f (child_env s))" for info
    by (induction info) (auto intro!: keeps_intros)
  show ?thesis
    unfolding child_setup_def setup_output_def close_unlisted_def run_posix_setup_def child_call_def Let_def
    by (intro keeps_intros u i o1 o2) simp_all
qed

lemma child_main_noted:
  assumes f: "notes_children os f"
    and "child_main os exe args envir infoin infoout pset s = (fate, e)"
  shows "f e = f (child_env s)"
proof (cases "child_setup os infoin infoout pset s")
  case None
  then show ?thesis using assms(2) by (simp add: child_main_def)
next
  case (Some p)
  obtain r s' where p: "p = (r, s')" by fastforce
  then have "e = child_env s'"
    using assms(2) Some by (auto simp: child_main_def split: sum.splits exn.splits if_splits)
  then show ?thesis using keepsD [OF keeps_child_setup [OF f] Some [unfolded p]] by simp
qed

lemma child_main_execs:
  assumes "child_main os exe args envir infoin infoout pset s = (Child_Execs img, e)"
  obtains u s' where "child_setup os infoin infoout pset s = Some (Inr u, s')"
    "image_fds img = child_fds s'" "image_argv img = collection_to_posix_argv args"
    "image_path img = c_str exe"
  using assms unfolding child_main_def
  by (auto split: option.splits sum.splits exn.splits if_splits)


text \<open>After the fork the parent closes the child's end of each pipe.\<close>

definition shut :: "bool \<Rightarrow> stream_info \<Rightarrow> stream_info" where
  "shut out si =
     (if si_type si = Type_Use_Pipe
      then if out then si\<lparr>si_wend := invalid_value\<rparr> else si\<lparr>si_rend := invalid_value\<rparr> else si)"

definition shut_map :: "bool \<Rightarrow> info_map \<Rightarrow> info_map" where
  "shut_map out info = map (\<lambda>(d, si). (d, shut out si)) info"

lemma owned_shut_map: "owned_map (shut_map out info) \<subseteq> owned_map info"
proof -
  have "owned (shut out si) \<subseteq> owned si" for si
    by (auto simp: shut_def owned_def valid_def)
  then show ?thesis by (auto simp: owned_map_def shut_map_def)
qed

definition closes :: "int set \<Rightarrow> ('e, 'z) world_scheme \<Rightarrow> ('e, 'z) world_scheme \<Rightarrow> bool" where
  "closes D w w' \<longleftrightarrow> (\<forall>d. fds w' d = (if d \<in> D then None else fds w d)) \<and> env w' = env w"

lemma closes_refl: "closes {} w w"
  by (simp add: closes_def)

lemma closes_trans: "closes D w w' \<Longrightarrow> closes E w' w'' \<Longrightarrow> closes (D \<union> E) w w''"
  by (auto simp: closes_def)

lemma close_handle_Inr:
  "close_handle h w = Some (Inr h', w') \<Longrightarrow> valid h \<and> h' = invalid_value \<and> closes {h} w w'"
  by (auto simp: close_handle_def assert_Inr then_Inr modifyE_run ret_run closes_def fd_close_def)

lemma close_child_ends_Inr:
  "close_child_ends out info w = Some (Inr info', w') \<Longrightarrow>
   info' = shut_map out info \<and> (\<exists>D. closes D w w' \<and> owned_map info \<subseteq> owned_map info' \<union> D \<and>
     D \<subseteq> owned_map info)"
proof (induction out info arbitrary: w info' rule: close_child_ends.induct)
  case (1 out)
  then show ?case by (auto simp: ret_run shut_map_def intro: closes_refl)
next
  case (2 out d si info)
  obtain si' w1 rest where r: "(if si_type si = Type_Use_Pipe
            then (if out
                  then bindE (close_handle (si_wend si)) (\<lambda>h. ret (si\<lparr>si_wend := h\<rparr>))
                  else bindE (close_handle (si_rend si)) (\<lambda>h. ret (si\<lparr>si_rend := h\<rparr>)))
            else ret si) w = Some (Inr si', w1)"
    "close_child_ends out info w1 = Some (Inr rest, w')" "info' = (d, si') # rest"
    using "2.prems" by (auto simp: bindE_Inr ret_run simp del: bindE_ret)
  have si': "si' = shut out si \<and> (\<exists>D. closes D w w1 \<and> owned si \<subseteq> owned si' \<union> D \<and> D \<subseteq> owned si)"
    using r(1)
    by (auto simp: bindE_Inr ret_run shut_def owned_def split: if_splits
        intro: closes_refl dest!: close_handle_Inr)
  from "2.IH" [OF r(2)] obtain E where E: "rest = shut_map out info" "closes E w1 w'"
    "owned_map info \<subseteq> owned_map rest \<union> E" "E \<subseteq> owned_map info"
    by blast
  from si' obtain D where D: "closes D w w1" "owned si \<subseteq> owned si' \<union> D" "D \<subseteq> owned si"
    by blast
  have "closes (D \<union> E) w w'" using D(1) E(2) by (rule closes_trans)
  moreover have "info' = shut_map out ((d, si) # info)"
    using r(3) E(1) si' by (simp add: shut_map_def)
  moreover have "owned_map ((d, si) # info) \<subseteq> owned_map info' \<union> (D \<union> E)"
    "D \<union> E \<subseteq> owned_map ((d, si) # info)"
    using D E r(3) by auto
  ultimately show ?case by blast
qed

lemma start_child_Inr:
  assumes f: "notes_children os f"
    and run: "start_child os exe args ctx infoin infoout w = Some (Inr (pid, infoin', infoout'), w')"
  shows "infoin' = shut_map False infoin \<and> infoout' = shut_map True infoout \<and>
    (\<exists>fate e0 e1 pset D. child_main os exe args (cx_environment ctx) infoin infoout pset
        \<lparr>child_fds = fds w, child_env = e0\<rparr> = (fate, e1) \<and>
      f (env w') = f (env w) @ [(pid, fate)] \<and>
      (\<forall>d. fds w' d = (if d \<in> D then None else fds w d)) \<and>
      D \<subseteq> owned_map infoin \<union> owned_map infoout \<and>
      owned_map infoin \<union> owned_map infoout \<subseteq> owned_map infoin' \<union> owned_map infoout' \<union> D)"
proof -
  obtain pset w1 where pset: "new_posix_setup os (cx_work_directory ctx) w = Some (Inr pset, w1)"
    and start: "posix_start os exe args (cx_environment ctx) infoin infoout pset w1 =
      Some (Inr (pid, infoin', infoout'), w')"
    using run by (auto simp: start_child_def on_throw_Inr bindE_Inr)
  obtain e where w1: "w1 = w\<lparr>env := e\<rparr>" "f e = f (env w)"
    using pset notes_childrenD(3) [OF f]
    by (auto simp: new_posix_setup_def bindE_Inr syscall_Some ret_run)
  let ?child = "child_main os exe args (cx_environment ctx) infoin infoout pset"
  obtain pid' e0 where fork: "sys_fork os e = Some (pid', e0)"
    using start w1 by (auto simp: posix_start_def bindE_Inr syscall_Some)
  obtain fate e1 where fate: "?child \<lparr>child_fds = fds w, child_env = e0\<rparr> = (fate, e1)" by fastforce
  then have "run_child ?child (w\<lparr>env := e0\<rparr>) = Some (Inr fate, w\<lparr>env := e1\<rparr>)"
    using run_child_run [of ?child "w\<lparr>env := e0\<rparr>" fate e1] by simp
  then obtain e2 w2 where e2: "sys_child_runs os pid fate e1 = Some ((), e2)"
    "close_child_ends False infoin (w\<lparr>env := e2\<rparr>) = Some (Inr infoin', w2)"
    "close_child_ends True infoout w2 = Some (Inr infoout', w')"
    using start fork w1(1)
    by (auto simp: posix_start_def bindE_Inr syscall_Some then_Inr assert_Inr ret_run throw_run
        split: if_splits)
  from close_child_ends_Inr [OF e2(2)] obtain D where D: "infoin' = shut_map False infoin"
    "closes D (w\<lparr>env := e2\<rparr>) w2" "owned_map infoin \<subseteq> owned_map infoin' \<union> D" "D \<subseteq> owned_map infoin"
    by blast
  from close_child_ends_Inr [OF e2(3)] obtain E where E: "infoout' = shut_map True infoout"
    "closes E w2 w'" "owned_map infoout \<subseteq> owned_map infoout' \<union> E" "E \<subseteq> owned_map infoout"
    by blast
  have cl: "closes (D \<union> E) (w\<lparr>env := e2\<rparr>) w'" using D(2) E(2) by (rule closes_trans)
  have "f e2 = f (env w) @ [(pid, fate)]"
    using notes_childrenD(2) [OF f fork] notes_childrenD(7) [OF f e2(1)] child_main_noted [OF f fate]
      w1(2) by simp
  then have "f (env w') = f (env w) @ [(pid, fate)]" using cl by (simp add: closes_def)
  moreover have "\<forall>d. fds w' d = (if d \<in> D \<union> E then None else fds w d)"
    using cl by (simp add: closes_def)
  ultimately show ?thesis using fate D E by blast
qed


text \<open>What is captured leaves its map; what is left is closed at the end of the block.\<close>

definition kept_ends :: "bool \<Rightarrow> info_map \<Rightarrow> bool" where
  "kept_ends out info \<longleftrightarrow> distinct (map fst info) \<and>
     (\<forall>(d, si) \<in> set info. si_type si = Type_Use_Pipe \<longrightarrow>
        owned si \<subseteq> {if out then si_rend si else si_wend si})"

lemma shut_kept_ends:
  assumes "made_streams info" and "distinct (map fst info)"
  shows "kept_ends out (shut_map out info)"
proof -
  have "owned (shut out si) \<subseteq> {if out then si_rend (shut out si) else si_wend (shut out si)}"
    if "(d, si) \<in> set info" "si_type (shut out si) = Type_Use_Pipe" for d si
    using that assms(1)
    by (auto simp: made_streams_def made_stream_def shut_def owned_def valid_def split: if_splits)
  then have "si_type si \<noteq> Type_Use_Pipe \<or> owned si \<subseteq> {if out then si_rend si else si_wend si}"
    if "(d, si) \<in> set (shut_map out info)" for d si
    using that by (fastforce simp: shut_map_def)
  moreover have "map fst (shut_map out info) = map fst info"
    by (simp add: shut_map_def case_prod_unfold comp_def)
  ultimately show ?thesis
    using assms(2) unfolding kept_ends_def by fastforce
qed

lemma owned_map_filter:
  assumes "distinct (map fst info)" and "map_of info desc = Some si"
  shows "owned_map info = owned_map (filter (\<lambda>(d, _). d \<noteq> desc) info) \<union> owned si"
  using assms
proof (induction info)
  case (Cons p info)
  obtain d si' where p: "p = (d, si')" by fastforce
  show ?case
  proof (cases "d = desc")
    case True
    then have "filter (\<lambda>(d, _). d \<noteq> desc) info = info"
      using Cons.prems p by (force intro!: filter_True)
    then show ?thesis using True Cons.prems p by auto
  next
    case False
    then show ?thesis using Cons p by auto
  qed
qed simp

lemma captured_end_Inr:
  assumes kept: "kept_ends out info"
    and run: "captured_end sb info desc out w = Some (Inr (fh, info'), w')"
  shows "w' = w \<and> owned_map info \<subseteq> owned_map info' \<union> {h. valid h \<and> h = fh} \<and> kept_ends out info' \<and>
    owned_map info' \<subseteq> owned_map info \<and> (valid fh \<longrightarrow> fh \<in> owned_map info)"
proof (cases "sb = Capture")
  case False
  then show ?thesis using run kept by (auto simp: captured_end_def ret_run valid_def)
next
  case True
  then have loc: "posix_info_locate_pipe info desc out w = Some (Inr (fh, info'), w')"
    and fh: "valid fh"
    using run by (auto simp: captured_end_def bindE_Inr then_Inr assert_Inr ret_run)
  then obtain si where si: "map_of info desc = Some si"
    by (auto simp: posix_info_locate_pipe_def ret_run valid_def split: option.splits)
  then have pipe: "si_type si = Type_Use_Pipe" "w' = w"
      "fh = (if out then si_rend si else si_wend si)"
      "info' = filter (\<lambda>(d, _). d \<noteq> desc) info"
    using loc fh by (auto simp: posix_info_locate_pipe_def Let_def ret_run then_Inr assert_Inr
        valid_def split: if_splits)
  have "owned si \<subseteq> {fh}"
    using kept map_of_SomeD [OF si] pipe unfolding kept_ends_def by fastforce
  moreover have "fh \<in> owned_map info"
    using map_of_SomeD [OF si] fh pipe(3) unfolding owned_map_def owned_def by (force split: if_splits)
  ultimately have "owned_map info \<subseteq> owned_map info' \<union> {h. valid h \<and> h = fh}" "owned_map info' \<subseteq> owned_map info"
    using owned_map_filter [OF _ si] kept pipe(4) fh by (auto simp: kept_ends_def)
  moreover have "kept_ends out info'"
    using kept pipe(4) by (auto simp: kept_ends_def distinct_map_filter)
  ultimately show ?thesis using pipe(2) \<open>fh \<in> owned_map info\<close> by blast
qed

lemma new_child_Inr:
  assumes "new_child pid h0 h1 h2 w = Some (Inr c, w')"
  shows "w' = w \<and> child_id c = pid \<and> set (stream_handles c) = {h. valid h \<and> h \<in> {h0, h1, h2}}"
  using assms
  by (auto simp: new_child_def stream_of_handle_def bindE_Inr ret_run then_Inr assert_Inr
      stream_handles_def split: if_splits)

lemma destroy_handle_fds:
  "fds (destroy_handle h w) = (\<lambda>d. if valid h \<and> d = h then None else fds w d)"
  "env (destroy_handle h w) = env w"
  by (auto simp: destroy_handle_def fd_close_def)

lemma destroy_stream_info_closes: "closes (owned si) w (destroy_stream_info si w)"
  by (auto simp: closes_def destroy_stream_info_def destroy_handle_fds owned_def)

lemma destroy_info_map_closes: "closes (owned_map info) w (destroy_info_map info w)"
  unfolding destroy_info_map_def
proof (induction info arbitrary: w)
  case (Cons p info)
  obtain d si where p: "p = (d, si)" by fastforce
  show ?case
    using closes_trans [OF destroy_stream_info_closes [of si w] Cons.IH] by (simp add: p)
qed (simp add: closes_refl)

text \<open>
  A launch from its fork to the end of its block: one child is noted, and all that its two maps
  own is closed but for what the child object holds.
\<close>

lemma launch_block:
  assumes f: "notes_children os f"
    and start: "start_child os exe args ctx infoin infoout w = Some (Inr (pid, infoin1, infoout1), w1)"
    and held: "owned_map infoin1 \<subseteq> owned_map infoin2 \<union> H" "owned_map infoout1 \<subseteq> owned_map infoout2 \<union> H"
    and subs: "owned_map infoin2 \<subseteq> owned_map infoin1" "owned_map infoout2 \<subseteq> owned_map infoout1"
    and w2: "w2 = destroy_info_map infoin2 (destroy_info_map infoout2 w1)"
  shows "\<exists>fate e0 e1 pset. child_main os exe args (cx_environment ctx) infoin infoout pset
        \<lparr>child_fds = fds w, child_env = e0\<rparr> = (fate, e1) \<and>
      f (env w2) = f (env w) @ [(pid, fate)] \<and>
      (\<forall>d. d \<notin> owned_map infoin \<union> owned_map infoout \<longrightarrow> fds w2 d = fds w d) \<and>
      (\<forall>d. d \<in> owned_map infoin \<union> owned_map infoout \<longrightarrow> d \<notin> H \<longrightarrow> fds w2 d = None) \<and>
      (below lim (fds w) \<longrightarrow> below lim (fds w2))"
proof -
  from start_child_Inr [OF f start] obtain fate e0 e1 pset D where s:
    "child_main os exe args (cx_environment ctx) infoin infoout pset
        \<lparr>child_fds = fds w, child_env = e0\<rparr> = (fate, e1)"
    "f (env w1) = f (env w) @ [(pid, fate)]"
    "\<forall>d. fds w1 d = (if d \<in> D then None else fds w d)"
    "D \<subseteq> owned_map infoin \<union> owned_map infoout"
    "owned_map infoin \<union> owned_map infoout \<subseteq> owned_map infoin1 \<union> owned_map infoout1 \<union> D"
    and shut: "infoin1 = shut_map False infoin" "infoout1 = shut_map True infoout"
    by blast
  from subs have sub: "owned_map infoout2 \<union> owned_map infoin2 \<subseteq> owned_map infoin \<union> owned_map infoout"
    using owned_shut_map [of False infoin] owned_shut_map [of True infoout] unfolding shut by blast
  have cl: "closes (owned_map infoout2 \<union> owned_map infoin2) w1 w2"
    unfolding w2 by (rule closes_trans [OF destroy_info_map_closes destroy_info_map_closes])
  have "f (env w2) = f (env w) @ [(pid, fate)]"
    using cl s(2) by (simp add: closes_def)
  moreover have "fds w2 d = fds w d" if "d \<notin> owned_map infoin \<union> owned_map infoout" for d
    using that cl s(3,4) sub by (auto simp: closes_def)
  moreover have "fds w2 d = None" if "d \<in> owned_map infoin \<union> owned_map infoout" "d \<notin> H" for d
    using that cl s(3,5) held by (auto simp: closes_def)
  moreover have "below lim (fds w) \<longrightarrow> below lim (fds w2)"
    using cl s(3) by (auto simp: closes_def below_def)
  ultimately show ?thesis using s(1) by blast
qed


section \<open>The blocks of launch\_pipeline\<close>

text \<open>
  \<open>wired e i out fate\<close>: if the child of the entry \<open>e\<close> calls \<open>execve\<close>, it is for the program
  and with the arguments of the entry, its standard input and output are \<open>i\<close> and \<open>out\<close>, where
  given, and beyond the standard descriptors it has none.
\<close>

definition wired ::
  "pipeline_entry \<Rightarrow> open_file option \<Rightarrow> open_file option \<Rightarrow> child_fate \<Rightarrow> bool" where
  "wired e i out fate \<longleftrightarrow>
     (\<forall>img. fate = Child_Execs img \<longrightarrow>
        image_path img = c_str (pe_executable e) \<and> image_argv img = map c_str (pe_arguments e) \<and>
        (i \<noteq> None \<longrightarrow> image_fds img 0 = i) \<and> (out \<noteq> None \<longrightarrow> image_fds img 1 = out) \<and>
        (\<forall>d. d \<notin> {0, 1, 2} \<longrightarrow> image_fds img d = None))"

lemma owned_handle_info: "valid h \<Longrightarrow> owned (handle_info h) = {h}"
  by (auto simp: owned_def handle_info_def blank_stream_info_def valid_def)

lemma handle_info_inject [simp]: "handle_info h = handle_info h' \<longleftrightarrow> h = h'"
  by (simp add: handle_info_def blank_stream_info_def)

lemma release_Inr:
  "release_rend i ps w = Some (Inr (h, ps'), w') \<longleftrightarrow>
     w' = w \<and> valid h \<and> h = fst (ps ! i) \<and> ps' = ps[i := (invalid_value, snd (ps ! i))]"
  "release_wend i ps w = Some (Inr (h, ps'), w') \<longleftrightarrow>
     w' = w \<and> valid h \<and> h = snd (ps ! i) \<and> ps' = ps[i := (fst (ps ! i), invalid_value)]"
  by (auto simp: release_rend_def release_wend_def release_def bindE_Inr then_Inr assert_Inr ret_run)

lemmas run_block = Let_def bindE_Inr then_Inr assert_Inr on_throw_Inr release_Inr ret_run modifyE_run
  fileno_defs

declare new_info_map.simps(2) [simp del]

text \<open>What a block starts from: the limit is kept and the standard descriptors are open.\<close>

definition tidy :: "int \<Rightarrow> ('e, 'z) world_scheme \<Rightarrow> bool" where
  "tidy lim w \<longleftrightarrow> below lim (fds w) \<and> fds w 0 \<noteq> None \<and> fds w 1 \<noteq> None \<and> fds w 2 \<noteq> None"

lemma child_main_wired:
  assumes os: "descriptors_documented os lim" and below: "below lim t"
    and keys: "fst ` set infoin \<subseteq> {0}" "fst ` set infoout \<subseteq> {1, 2}"
    and main: "child_main os (pe_executable e) (pe_arguments e) envir infoin infoout pset
        \<lparr>child_fds = t, child_env = e0\<rparr> = (fate, e1)"
    and i: "i \<noteq> None \<Longrightarrow> \<exists>r. infoin = [(0, handle_info r)] \<and> t r = i \<and> 0 \<notin> owned_map infoout"
    and out: "out \<noteq> None \<Longrightarrow> \<exists>wr rest. infoout = (1, handle_info wr) # rest \<and> t wr = out \<and>
        1 \<notin> fst ` set rest \<union> owned_map rest \<and> wr \<notin> fst ` set infoin \<union> owned_map infoin"
  shows "wired e i out fate"
proof -
  { fix img assume "fate = Child_Execs img"
    then obtain u s' where s': "child_setup os infoin infoout pset \<lparr>child_fds = t, child_env = e0\<rparr> =
        Some (Inr u, s')" and img: "image_fds img = child_fds s'"
      "image_argv img = collection_to_posix_argv (pe_arguments e)" "image_path img = c_str (pe_executable e)"
      using main child_main_execs by metis
    have nonneg: "\<forall>d \<in> fst ` set infoin \<union> fst ` set infoout. 0 \<le> d" using keys by force
    have b: "below lim (child_fds \<lparr>child_fds = t, child_env = e0\<rparr>)" using below by simp
    have "image_fds img d = None" if "d \<notin> {0, 1, 2}" for d
      using child_closes_rest [OF os b nonneg s', of d] img(1) keys that by auto
    moreover have "image_fds img 0 = i" if "i \<noteq> None"
      using child_input_wired [OF os b nonneg s'] i [OF that] img(1) keys(2) by fastforce
    moreover have "image_fds img 1 = out" if "out \<noteq> None"
      using child_output_wired [OF os b nonneg s'] out [OF that] img(1) by fastforce
    ultimately have "(i \<noteq> None \<longrightarrow> image_fds img 0 = i) \<and> (out \<noteq> None \<longrightarrow> image_fds img 1 = out) \<and>
        (\<forall>d. d \<notin> {0, 1, 2} \<longrightarrow> image_fds img d = None)" by blast
    then have "image_path img = c_str (pe_executable e) \<and> image_argv img = map c_str (pe_arguments e) \<and>
        (i \<noteq> None \<longrightarrow> image_fds img 0 = i) \<and> (out \<noteq> None \<longrightarrow> image_fds img 1 = out) \<and>
        (\<forall>d. d \<notin> {0, 1, 2} \<longrightarrow> image_fds img d = None)"
      using img(2,3) by (simp add: collection_to_posix_argv_def) }
  then show ?thesis unfolding wired_def by blast
qed


text \<open>What a block does: one child is noted, which is wired, and the handles \<open>X\<close> are closed.\<close>

definition launches ::
  "('e \<Rightarrow> (int \<times> child_fate) list) \<Rightarrow> int \<Rightarrow> int set \<Rightarrow> pipeline_entry \<Rightarrow>
   open_file option \<Rightarrow> open_file option \<Rightarrow> child \<Rightarrow> ('e, 'z) world_scheme \<Rightarrow> ('e, 'z) world_scheme \<Rightarrow> bool" where
  "launches f lim X e i out c w w' \<longleftrightarrow>
     (\<exists>fate. f (env w') = f (env w) @ [(child_id c, fate)] \<and> wired e i out fate) \<and>
     (\<forall>d. d \<notin> X \<union> set (stream_handles c) \<longrightarrow> fds w' d = fds w d) \<and>
     (\<forall>d \<in> X. fds w' d = None) \<and>
     (\<forall>h \<in> set (stream_handles c). fds w h = None) \<and> below lim (fds w')"

lemma moves_below: "moves f lim D w w' \<Longrightarrow> below lim (fds w) \<Longrightarrow> below lim (fds w')"
  by (simp add: moves_def)

lemma movesD: "moves f lim D w w' \<Longrightarrow> d \<notin> D \<Longrightarrow> fds w' d = fds w d"
  by (simp add: moves_def)

text \<open>
  From the block's start \<open>w0\<close>, where the streams made for it are not open yet and the handles
  \<open>X\<close> are.
\<close>

lemma launch_block_launches:
  assumes f: "notes_children os f"
    and made: "moves f lim D w0 w" "\<forall>d \<in> D. fds w0 d = None"
    and below: "below lim (fds w0)"
    and owned: "owned_map infoin \<union> owned_map infoout = D \<union> X" "D \<inter> X = {}"
    and start: "start_child os exe args ctx infoin infoout w = Some (Inr (pid, infoin1, infoout1), w1)"
    and held: "owned_map infoin1 \<subseteq> owned_map infoin2 \<union> H" "owned_map infoout1 \<subseteq> owned_map infoout2 \<union> H"
    and subs: "owned_map infoin2 \<subseteq> owned_map infoin1" "owned_map infoout2 \<subseteq> owned_map infoout1"
    and c: "child_id c = pid" "set (stream_handles c) = H" "H \<subseteq> D"
    and w2: "w2 = destroy_info_map infoin2 (destroy_info_map infoout2 w1)"
    and wire: "\<And>fate e0 e1 pset. child_main os exe args (cx_environment ctx) infoin infoout pset
        \<lparr>child_fds = fds w, child_env = e0\<rparr> = (fate, e1) \<Longrightarrow> wired e i out fate"
  shows "launches f lim X e i out c w0 w2"
proof -
  from launch_block [OF f start held subs w2, of lim] obtain fate where
    s: "f (env w2) = f (env w) @ [(pid, fate)]" "wired e i out fate"
      "\<forall>d. d \<notin> D \<union> X \<longrightarrow> fds w2 d = fds w d" "\<forall>d. d \<in> D \<union> X \<longrightarrow> d \<notin> H \<longrightarrow> fds w2 d = None"
      "below lim (fds w) \<longrightarrow> below lim (fds w2)"
    using wire unfolding owned(1) by blast
  have "fds w2 d = fds w0 d" if "d \<notin> X \<union> H" for d
    using that s(3,4) made movesD [OF made(1), of d] by (cases "d \<in> D") auto
  moreover have "\<forall>d \<in> X. fds w2 d = None" using s(4) c(3) owned(2) by auto
  moreover have "f (env w2) = f (env w0) @ [(child_id c, fate)]"
    using s(1) c(1) made(1) by (simp add: moves_def)
  moreover have "below lim (fds w2)" using s(5) moves_below [OF made(1) below] by blast
  ultimately show ?thesis
    using s(2) c made(2) unfolding launches_def by blast
qed

lemma keys_of_one: "fst ` set info \<subseteq> fst ` set [(d, sb)] \<Longrightarrow> fst ` set info \<subseteq> {d}"
  by simp

lemma launch_middle_launches:
  assumes os: "descriptors_documented os lim" and f: "notes_children os f" and tidy: "tidy lim w"
    and ends: "r = fst (ps ! (i - 1))" "wr = snd (ps ! i)" "r \<noteq> wr" "{r, wr} \<inter> {0, 1, 2} = {}"
      "fds w r \<noteq> None" "fds w wr \<noteq> None"
    and i: "0 < i" "i < length ps"
    and run: "launch_middle os e i ps w = Some (Inr (c, ps'), w')"
  shows "launches f lim {r, wr} e (fds w r) (fds w wr) c w w' \<and> stream_handles c = [] \<and>
    ps' = ps[i - 1 := (invalid_value, snd (ps ! (i - 1))), i := (fst (ps ! i), invalid_value)]"
proof -
  let ?ctx = "pe_context e"
  obtain w1 errs pid infoin1 infoout1 w2 w3 where
    v: "valid r" "valid wr"
    and ps': "ps' = ps[i - 1 := (invalid_value, snd (ps ! (i - 1))), i := (fst (ps ! i), invalid_value)]"
    and errs: "new_info_map os True [(2, stderr_behavior ?ctx)] w = Some (Inr errs, w1)"
    and start: "start_child os (pe_executable e) (pe_arguments e) ?ctx
        [(0, handle_info r)] ((1, handle_info wr) # errs) w1 = Some (Inr (pid, infoin1, infoout1), w2)"
    and c: "new_child pid invalid_value invalid_value invalid_value w2 = Some (Inr c, w3)"
    and w': "w' = destroy_info_map infoin1 (destroy_info_map infoout1 w3)"
    using run i ends(1,2) by (auto simp: launch_middle_def run_block)
  note made = new_info_map_moves [OF os f errs] and child = new_child_Inr [OF c]
  have keys: "fst ` set errs \<subseteq> {2}" using made by simp
  then have one: "1 \<notin> fst ` set errs" by auto
  have old: "r \<notin> owned_map errs" "wr \<notin> owned_map errs" "0 \<notin> owned_map errs" "1 \<notin> owned_map errs"
    using made ends(5,6) tidy unfolding tidy_def by metis+
  have same: "fds w1 r = fds w r" "fds w1 wr = fds w wr"
    using made old by (simp_all add: moves_def)
  have "launches f lim {r, wr} e (fds w r) (fds w wr) c w w'"
  proof (rule launch_block_launches [OF f _ _ _ _ _ start, where D = "owned_map errs" and H = "{}"])
    show "wired e (fds w r) (fds w wr) fate" if "child_main os (pe_executable e) (pe_arguments e)
        (cx_environment ?ctx) [(0, handle_info r)] ((1, handle_info wr) # errs) pset
        \<lparr>child_fds = fds w1, child_env = e0\<rparr> = (fate, e1)" for fate e0 e1 pset
      using that made tidy keys one old same ends v
      by (intro child_main_wired [OF os _ _ _ that])
         (auto simp: tidy_def owned_handle_info dest: moves_below)
  qed (use made tidy old v child w' in \<open>auto simp: tidy_def owned_handle_info valid_def\<close>)
  then show ?thesis using ps' child by (auto simp: valid_def)
qed


lemma new_info_map_distinct:
  assumes "new_info_map os out bs w = Some (Inr info, w')" and "distinct (map fst bs)"
  shows "distinct (map fst info)"
proof -
  have "map fst info = map fst (filter (\<lambda>(d, sb). sb \<noteq> Close) bs)"
    using assms(1)
  proof (induction bs arbitrary: w info)
    case (Cons b bs)
    obtain fd sb where b: "b = (fd, sb)" by fastforce
    show ?case
    proof (cases "sb = Close")
      case False
      then obtain si rest w1 where "new_info_map os out bs w1 = Some (Inr rest, w')" "info = (fd, si) # rest"
        using Cons.prems b by (auto simp: new_info_map.simps(2) bindE_Inr on_throw_Inr ret_run)
      then show ?thesis using Cons.IH b False by auto
    qed (use Cons b in \<open>simp add: new_info_map.simps(2)\<close>)
  qed (simp add: ret_run)
  then show ?thesis using assms(2) by (simp add: distinct_map_filter)
qed

lemma both_move:
  assumes "moves f lim A w w0" "\<forall>d \<in> A. fds w d = None"
    and "moves f lim B w0 w1" "\<forall>d \<in> B. fds w0 d = None"
  shows "moves f lim (A \<union> B) w w1" "\<forall>d \<in> A \<union> B. fds w d = None"
proof -
  show "moves f lim (A \<union> B) w w1" using assms(1,3) by (rule moves_trans) simp
  show "\<forall>d \<in> A \<union> B. fds w d = None" using assms by (metis UnE movesD)
qed

text \<open>What is captured for the child object, from the maps as they are after the fork.\<close>

lemma captured_after_start:
  assumes f: "notes_children os f"
    and start: "start_child os exe args ctx infoin infoout w = Some (Inr (pid, infoin1, infoout1), w1)"
  shows "made_streams infoin \<Longrightarrow> distinct (map fst infoin) \<Longrightarrow> kept_ends False infoin1"
    and "made_streams infoout \<Longrightarrow> distinct (map fst infoout) \<Longrightarrow> kept_ends True infoout1"
    and "owned_map infoin1 \<subseteq> owned_map infoin" "owned_map infoout1 \<subseteq> owned_map infoout"
  using start_child_Inr [OF f start] shut_kept_ends owned_shut_map by auto

lemma launch_first_launches:
  assumes os: "descriptors_documented os lim" and f: "notes_children os f" and tidy: "tidy lim w"
    and ends: "wr = snd (ps ! i)" "wr \<notin> {0, 1, 2}" "fds w wr \<noteq> None" and i: "i < length ps"
    and run: "launch_first os e i ps w = Some (Inr (c, ps'), w')"
  shows "launches f lim {wr} e None (fds w wr) c w w' \<and> ps' = ps[i := (fst (ps ! i), invalid_value)]"
proof -
  let ?ctx = "pe_context e"
  obtain w0 infoin w1 errs pid infoin1 infoout1 w2 infoin2 fh w3 w4 where
    v: "valid wr"
    and ps': "ps' = ps[i := (fst (ps ! i), invalid_value)]"
    and inp: "new_info_map os False [(0, stdin_behavior ?ctx)] w = Some (Inr infoin, w0)"
    and errs: "new_info_map os True [(2, stderr_behavior ?ctx)] w0 = Some (Inr errs, w1)"
    and start: "start_child os (pe_executable e) (pe_arguments e) ?ctx
        infoin ((1, handle_info wr) # errs) w1 = Some (Inr (pid, infoin1, infoout1), w2)"
    and cap: "captured_end (stdin_behavior ?ctx) infoin1 0 False w2 = Some (Inr (fh, infoin2), w3)"
    and c: "new_child pid fh invalid_value invalid_value w3 = Some (Inr c, w4)"
    and w': "w' = destroy_info_map infoin2 (destroy_info_map infoout1 w4)"
    using run i ends(1) by (auto simp: launch_first_def run_block)
  note made = new_info_map_moves [OF os f inp] new_info_map_moves [OF os f errs]
    and child = new_child_Inr [OF c]
  let ?D = "owned_map infoin \<union> owned_map errs"
  have moves: "moves f lim ?D w w1" and fresh: "\<forall>d \<in> ?D. fds w d = None"
    using both_move [of f lim "owned_map infoin" w w0 "owned_map errs" w1] made by auto
  have keys: "fst ` set errs \<subseteq> {2}" "fst ` set infoin \<subseteq> {0}" using made by simp_all
  then have one: "1 \<notin> fst ` set errs" by auto
  have old: "wr \<notin> ?D" "1 \<notin> ?D" using fresh ends(3) tidy unfolding tidy_def by metis+
  then have same: "fds w1 wr = fds w wr" using moves by (simp add: moves_def)
  note after = captured_after_start [OF f start]
  have "kept_ends False infoin1"
    using after(1) made(1) new_info_map_distinct [OF inp] by simp
  note cap = captured_end_Inr [OF this cap]
  have "launches f lim {wr} e None (fds w wr) c w w'"
  proof (rule launch_block_launches [OF f moves fresh _ _ _ start,
        where H = "{h. valid h \<and> h = fh}"])
    show "wired e None (fds w wr) fate" if "child_main os (pe_executable e) (pe_arguments e)
        (cx_environment ?ctx) infoin ((1, handle_info wr) # errs) pset
        \<lparr>child_fds = fds w1, child_env = e0\<rparr> = (fate, e1)" for fate e0 e1 pset
      using that moves tidy keys one old same ends v
      by (intro child_main_wired [OF os _ _ _ that])
         (auto simp: tidy_def owned_handle_info dest: moves_below)
  qed (use after cap tidy old v child w' in
      \<open>auto simp: tidy_def owned_handle_info valid_def\<close>)
  then show ?thesis using ps' by blast
qed


lemma launch_last_launches:
  assumes os: "descriptors_documented os lim" and f: "notes_children os f" and tidy: "tidy lim w"
    and ends: "r = fst (ps ! (i - 1))" "r \<notin> {0, 1, 2}" "fds w r \<noteq> None" and i: "0 < i" "i \<le> length ps"
    and run: "launch_last os e i ps w = Some (Inr (c, ps'), w')"
  shows "launches f lim {r} e (fds w r) None c w w' \<and>
    ps' = ps[i - 1 := (invalid_value, snd (ps ! (i - 1)))]"
proof -
  let ?ctx = "pe_context e"
  obtain w1 infoout pid infoin1 infoout1 w2 infoout2 fh1 w3 infoout3 fh2 w4 w5 where
    v: "valid r"
    and ps': "ps' = ps[i - 1 := (invalid_value, snd (ps ! (i - 1)))]"
    and out: "new_info_map os True [(1, stdout_behavior ?ctx), (2, stderr_behavior ?ctx)] w =
        Some (Inr infoout, w1)"
    and start: "start_child os (pe_executable e) (pe_arguments e) ?ctx
        [(0, handle_info r)] infoout w1 = Some (Inr (pid, infoin1, infoout1), w2)"
    and cap1: "captured_end (stdout_behavior ?ctx) infoout1 1 True w2 = Some (Inr (fh1, infoout2), w3)"
    and cap2: "captured_end (stderr_behavior ?ctx) infoout2 2 True w3 = Some (Inr (fh2, infoout3), w4)"
    and c: "new_child pid invalid_value fh1 fh2 w4 = Some (Inr c, w5)"
    and w': "w' = destroy_info_map infoin1 (destroy_info_map infoout3 w5)"
    using run i ends(1) by (auto simp: launch_last_def run_block)
  note made = new_info_map_moves [OF os f out] and child = new_child_Inr [OF c]
  have keys: "fst ` set infoout \<subseteq> {1, 2}" using made by simp
  have old: "r \<notin> owned_map infoout" "0 \<notin> owned_map infoout"
    using made ends(3) tidy unfolding tidy_def by metis+
  have same: "fds w1 r = fds w r" using made old by (simp add: moves_def)
  note after = captured_after_start [OF f start]
  have "kept_ends True infoout1"
    using after(2) made new_info_map_distinct [OF out] by simp
  note cap1 = captured_end_Inr [OF this cap1]
  then have "kept_ends True infoout2" by blast
  note cap2 = captured_end_Inr [OF this cap2]
  have "launches f lim {r} e (fds w r) None c w w'"
  proof (rule launch_block_launches [OF f _ _ _ _ _ start, where D = "owned_map infoout"
        and H = "{h. valid h \<and> h \<in> {fh1, fh2}}"])
    show "wired e (fds w r) None fate" if "child_main os (pe_executable e) (pe_arguments e)
        (cx_environment ?ctx) [(0, handle_info r)] infoout pset
        \<lparr>child_fds = fds w1, child_env = e0\<rparr> = (fate, e1)" for fate e0 e1 pset
      using that made tidy keys old same ends v
      by (intro child_main_wired [OF os _ _ _ that])
         (auto simp: tidy_def owned_handle_info dest: moves_below)
    show "owned_map infoout1 \<subseteq> owned_map infoout3 \<union> {h. valid h \<and> h \<in> {fh1, fh2}}"
      using cap1 cap2 by blast
    show "owned_map infoout3 \<subseteq> owned_map infoout1" using cap1 cap2 by blast
    show "{h. valid h \<and> h \<in> {fh1, fh2}} \<subseteq> owned_map infoout" using cap1 cap2 after(4) by blast
    show "set (stream_handles c) = {h. valid h \<and> h \<in> {fh1, fh2}}"
      using child by (auto simp: valid_def)
    show "w' = destroy_info_map infoin1 (destroy_info_map infoout3 w2)"
      using w' cap1 cap2 child by simp
  qed (use made tidy old v child in \<open>auto simp: tidy_def owned_handle_info\<close>)
  then show ?thesis using ps' by blast
qed

text \<open>The pipes of the array: distinct new descriptors that are their ends.\<close>

lemma new_pipes_moves:
  assumes os: "descriptors_documented os lim" and f: "notes_children os f"
  shows "new_pipes os n w = Some (Inr ps, w') \<Longrightarrow>
    length ps = n \<and> moves f lim (set (map fst ps @ map snd ps)) w w' \<and>
    (\<forall>d \<in> set (map fst ps @ map snd ps). 0 \<le> d \<and> fds w d = None) \<and>
    distinct (map fst ps @ map snd ps) \<and>
    (\<forall>i < n. fds w' (fst (ps ! i)) = Some (Pipe_Read_End (next_pipe w + i)) \<and>
             fds w' (snd (ps ! i)) = Some (Pipe_Write_End (next_pipe w + i)))"
proof (induction n arbitrary: w ps)
  case 0
  then show ?case by (auto simp: ret_run moves_refl)
next
  case (Suc n)
  obtain r wr w1 qs where p: "new_pipe os w = Some (Inr (r, wr), w1)"
    "new_pipes os n w1 = Some (Inr qs, w')" "ps = (r, wr) # qs"
    using Suc.prems by (auto simp: bindE_Inr on_throw_Inr ret_run)
  note new = new_pipe_moves [OF os f p(1)] and rest = Suc.IH [OF p(2)]
  let ?D = "set (map fst qs @ map snd qs)"
  have fresh: "\<forall>d \<in> ?D. fds w1 d = None" using rest by blast
  have out: "r \<notin> ?D" "wr \<notin> ?D"
    using bspec [OF fresh, of r] bspec [OF fresh, of wr] new by (auto simp del: set_append set_map)
  have steps: "moves f lim {r, wr} w w1" "\<forall>d \<in> {r, wr}. fds w d = None" "moves f lim ?D w1 w'"
    using new rest by auto
  note both = both_move [OF steps fresh]
  have "fds w' r = fds w1 r" "fds w' wr = fds w1 wr"
    using movesD [OF steps(3)] out by blast+
  then have at: "fds w' (fst (ps ! i)) = Some (Pipe_Read_End (next_pipe w + i)) \<and>
      fds w' (snd (ps ! i)) = Some (Pipe_Write_End (next_pipe w + i))" if "i < Suc n" for i
    using that new rest p(3) by (cases i) auto
  have "set (map fst ps @ map snd ps) = {r, wr} \<union> ?D" using p(3) by auto
  moreover have "distinct (map fst ps @ map snd ps)" using rest out new p(3) by auto
  ultimately show ?case using both at rest new p(3) by auto
qed


section \<open>The pipeline\<close>

text \<open>
  \<open>plumbed P k i ps w\<close>: before the launch of child \<open>i\<close>, of the pipes \<open>P\<close>, which have the
  numbers from \<open>k\<close> on, the read ends before \<open>i - 1\<close> and the write ends before \<open>i\<close> have been
  released and are closed, and the others are there.
\<close>

definition plumbed ::
  "pipe_ends list \<Rightarrow> nat \<Rightarrow> nat \<Rightarrow> pipe_ends list \<Rightarrow> ('e, 'z) world_scheme \<Rightarrow> bool" where
  "plumbed P k i ps w \<longleftrightarrow> length ps = length P \<and>
     (\<forall>j < length P.
        ps ! j = (if j < i - 1 then invalid_value else fst (P ! j),
                  if j < i then invalid_value else snd (P ! j)) \<and>
        fds w (fst (P ! j)) = (if j < i - 1 then None else Some (Pipe_Read_End (k + j))) \<and>
        fds w (snd (P ! j)) = (if j < i then None else Some (Pipe_Write_End (k + j))))"

definition pipe_array :: "pipe_ends list \<Rightarrow> bool" where
  "pipe_array P \<longleftrightarrow> distinct (map fst P @ map snd P) \<and>
     set (map fst P @ map snd P) \<inter> {0, 1, 2} = {}"

lemma pipe_array_ends:
  assumes "pipe_array P" and "j < length P" and "j' < length P"
  shows "fst (P ! j) = fst (P ! j') \<longleftrightarrow> j = j'" and "snd (P ! j) = snd (P ! j') \<longleftrightarrow> j = j'"
    and "fst (P ! j) \<noteq> snd (P ! j')" and "fst (P ! j) \<notin> {0, 1, 2}" and "snd (P ! j) \<notin> {0, 1, 2}"
proof -
  define A B where "A = set (map fst P)" and "B = set (map snd P)"
  then have d: "distinct (map fst P)" "distinct (map snd P)" "A \<inter> B = {}"
    "A \<inter> {0, 1, 2} = {}" "B \<inter> {0, 1, 2} = {}"
    using assms(1) unfolding pipe_array_def by auto
  have m: "fst (P ! i) \<in> A" "snd (P ! i) \<in> B" if "i < length P" for i
    using that by (auto simp: A_def B_def)
  show "fst (P ! j) = fst (P ! j') \<longleftrightarrow> j = j'" "snd (P ! j) = snd (P ! j') \<longleftrightarrow> j = j'"
    using d(1,2) assms(2,3) nth_eq_iff_index_eq [of "map fst P" j j']
      nth_eq_iff_index_eq [of "map snd P" j j'] by simp_all
  show "fst (P ! j) \<noteq> snd (P ! j')" 
    using d(3) m(1) [OF assms(2)] m(2) [OF assms(3)] by (metis disjoint_iff)
  show "fst (P ! j) \<notin> {0, 1, 2}" using d(4) m(1) [OF assms(2)] by blast
  show "snd (P ! j) \<notin> {0, 1, 2}" using d(5) m(2) [OF assms(2)] by blast
qed

lemma launchesD:
  assumes "launches f lim X e i out c w w'"
  shows "\<exists>fate. f (env w') = f (env w) @ [(child_id c, fate)] \<and> wired e i out fate"
    and "d \<notin> X \<Longrightarrow> d \<notin> set (stream_handles c) \<Longrightarrow> fds w' d = fds w d"
    and "d \<in> X \<Longrightarrow> fds w' d = None"
    and "fds w d \<noteq> None \<Longrightarrow> d \<notin> set (stream_handles c)" and "below lim (fds w')"
  using assms by (auto simp: launches_def)

lemma launches_tidy:
  assumes "launches f lim X e i out c w w'" and "tidy lim w" and "X \<inter> {0, 1, 2} = {}"
  shows "tidy lim w'"
proof -
  have "fds w' d = fds w d" if "fds w d \<noteq> None" "d \<in> {0, 1, 2}" for d
    using launchesD(2,4) [OF assms(1), of d] that assms(3) by blast
  then show ?thesis using assms(2) launchesD(5) [OF assms(1)] by (simp add: tidy_def)
qed

lemma plumbed_first:
  assumes "pipe_array P" "0 < length P" and pl: "plumbed P k 0 P w"
    and l: "launches f lim {snd (P ! 0)} e i out c w w'"
  shows "plumbed P k 1 (P[0 := (fst (P ! 0), invalid_value)]) w'"
proof -
  have same: "fds w' d = fds w d" if "d \<noteq> snd (P ! 0)" "fds w d \<noteq> None" for d
    using launchesD(2,4) [OF l, of d] that by blast
  have "fds w' (fst (P ! j)) = Some (Pipe_Read_End (k + j))"
    "fds w' (snd (P ! j)) = (if j < 1 then None else Some (Pipe_Write_End (k + j)))" if "j < length P" for j
    using that same [of "fst (P ! j)"] same [of "snd (P ! j)"] pl launchesD(3) [OF l]
      pipe_array_ends(1-3) [OF assms(1) that assms(2)]
    by (auto simp: plumbed_def)
  then show ?thesis using pl by (auto simp: plumbed_def nth_list_update)
qed

lemma plumbed_middle:
  assumes "pipe_array P" "0 < i" "i < length P" and pl: "plumbed P k i ps w"
    and l: "launches f lim {fst (P ! (i - 1)), snd (P ! i)} e a b c w w'" "stream_handles c = []"
  shows "plumbed P k (Suc i)
    (ps[i - 1 := (invalid_value, snd (ps ! (i - 1))), i := (fst (ps ! i), invalid_value)]) w'"
proof -
  have i1: "i - 1 < length P" using assms by simp
  have same: "fds w' d = fds w d" if "d \<noteq> fst (P ! (i - 1))" "d \<noteq> snd (P ! i)" for d
    using launchesD(2) [OF l(1), of d] l(2) that by simp
  have gone: "fds w' (fst (P ! (i - 1))) = None" "fds w' (snd (P ! i)) = None"
    using launchesD(3) [OF l(1)] by blast+
  have "fds w' (fst (P ! j)) = (if j < i then None else Some (Pipe_Read_End (k + j)))"
    "fds w' (snd (P ! j)) = (if j < Suc i then None else Some (Pipe_Write_End (k + j)))"
    if "j < length P" for j
    using that same [of "fst (P ! j)"] same [of "snd (P ! j)"] pl gone assms(2,3)
      pipe_array_ends(1-3) [OF assms(1) that i1] pipe_array_ends(1-3) [OF assms(1) that assms(3)]
      pipe_array_ends(3) [OF assms(1) i1 that]
    by (auto simp: plumbed_def less_Suc_eq)
  then show ?thesis using pl assms(2,3) by (auto simp: plumbed_def nth_list_update)
qed


definition ends :: "pipe_ends list \<Rightarrow> int set" where
  "ends P = fst ` set P \<union> snd ` set P"

lemma ends_nth: "j < length P \<Longrightarrow> fst (P ! j) \<in> ends P \<and> snd (P ! j) \<in> ends P"
  by (auto simp: ends_def)

lemma plumbedD:
  assumes "plumbed P k i ps w" and "j < length P"
  shows "ps ! j = (if j < i - 1 then invalid_value else fst (P ! j),
                   if j < i then invalid_value else snd (P ! j))"
    and "fds w (fst (P ! j)) = (if j < i - 1 then None else Some (Pipe_Read_End (k + j)))"
    and "fds w (snd (P ! j)) = (if j < i then None else Some (Pipe_Write_End (k + j)))"
  using assms by (simp_all add: plumbed_def)

lemma launch_middles_wired:
  assumes os: "descriptors_documented os lim" and f: "notes_children os f" and P: "pipe_array P"
  shows "launch_middles os es i ps w = Some (Inr (cs, ps'), w') \<Longrightarrow> tidy lim w \<Longrightarrow>
    plumbed P k i ps w \<Longrightarrow> 0 < i \<Longrightarrow> i + length es \<le> length P \<Longrightarrow>
    tidy lim w' \<and> plumbed P k (i + length es) ps' w' \<and> (\<forall>c \<in> set cs. stream_handles c = []) \<and>
    (\<forall>d. d \<notin> ends P \<longrightarrow> fds w' d = fds w d) \<and>
    (\<exists>log. f (env w') = f (env w) @ log \<and> map fst log = map child_id cs \<and> length log = length es \<and>
      (\<forall>j < length es. wired (es ! j) (Some (Pipe_Read_End (k + (i + j - 1))))
         (Some (Pipe_Write_End (k + (i + j)))) (snd (log ! j))))"
proof (induction es arbitrary: i ps w cs)
  case Nil
  then show ?case by (simp add: ret_run)
next
  case (Cons e es)
  obtain c ps1 w1 cs1 where m: "launch_middle os e i ps w = Some (Inr (c, ps1), w1)"
    "launch_middles os es (Suc i) ps1 w1 = Some (Inr (cs1, ps'), w')" "cs = c # cs1"
    using Cons.prems(1) by (auto simp: bindE_Inr on_throw_Inr ret_run)
  note tidy = Cons.prems(2) and pl = Cons.prems(3)
  have i: "0 < i" "i < length P" "i - 1 < length P" "i < length ps"
    using Cons.prems pl by (auto simp: plumbed_def)
  let ?r = "fst (P ! (i - 1))" and ?wr = "snd (P ! i)"
  have e: "fst (ps ! (i - 1)) = ?r" "snd (ps ! i) = ?wr"
    "fds w ?r = Some (Pipe_Read_End (k + (i - 1)))" "fds w ?wr = Some (Pipe_Write_End (k + i))"
    using plumbedD [OF pl i(3)] plumbedD [OF pl i(2)] i(1) by auto
  note E = pipe_array_ends [OF P i(3,2)] pipe_array_ends [OF P i(2,3)]
  have r: "?r \<noteq> ?wr" "{?r, ?wr} \<inter> {0, 1, 2} = {}" using E by auto
  have "fds w ?r \<noteq> None" "fds w ?wr \<noteq> None" using e by simp_all
  from launch_middle_launches [OF os f tidy e(1,2) [symmetric] r this i(1,4) m(1), unfolded e(3,4)]
  have l: "launches f lim {?r, ?wr} e (Some (Pipe_Read_End (k + (i - 1))))
      (Some (Pipe_Write_End (k + i))) c w w1" and c: "stream_handles c = []"
    and ps1: "ps1 = ps[i - 1 := (invalid_value, snd (ps ! (i - 1))), i := (fst (ps ! i), invalid_value)]"
    by blast+
  note tidy1 = launches_tidy [OF l tidy r(2)]
  note pl1 = plumbed_middle [OF P i(1,2) pl l c, folded ps1]
  have frame1: "fds w1 d = fds w d" if "d \<notin> ends P" for d
    using launchesD(2) [OF l, of d] c that ends_nth [OF i(2)] ends_nth [OF i(3)] by auto
  obtain fate where fate: "f (env w1) = f (env w) @ [(child_id c, fate)]"
    "wired e (Some (Pipe_Read_End (k + (i - 1)))) (Some (Pipe_Write_End (k + i))) fate"
    using launchesD(1) [OF l] by blast
  from Cons.IH [OF m(2) tidy1 pl1] Cons.prems(5) obtain log where
    IH: "tidy lim w'" "plumbed P k (i + length (e # es)) ps' w'" "\<forall>c \<in> set cs1. stream_handles c = []"
      "\<forall>d. d \<notin> ends P \<longrightarrow> fds w' d = fds w1 d"
    and log: "f (env w') = f (env w1) @ log" "map fst log = map child_id cs1" "length log = length es"
      "\<forall>j < length es. wired (es ! j) (Some (Pipe_Read_End (k + (Suc i + j - 1))))
         (Some (Pipe_Write_End (k + (Suc i + j)))) (snd (log ! j))"
    by auto
  have "wired ((e # es) ! j) (Some (Pipe_Read_End (k + (i + j - 1)))) (Some (Pipe_Write_End (k + (i + j))))
      (snd (((child_id c, fate) # log) ! j))" if "j < length (e # es)" for j
    using that fate(2) log(4) by (cases j) auto
  then have "f (env w') = f (env w) @ (child_id c, fate) # log \<and>
      map fst ((child_id c, fate) # log) = map child_id cs \<and>
      length ((child_id c, fate) # log) = length (e # es) \<and>
      (\<forall>j < length (e # es). wired ((e # es) ! j) (Some (Pipe_Read_End (k + (i + j - 1))))
         (Some (Pipe_Write_End (k + (i + j)))) (snd (((child_id c, fate) # log) ! j)))"
    using fate(1) log m(3) by simp
  moreover have "\<forall>c \<in> set cs. stream_handles c = []" using IH(3) c m(3) by simp
  moreover have "\<forall>d. d \<notin> ends P \<longrightarrow> fds w' d = fds w d" using IH(4) frame1 by simp
  ultimately show ?case using IH(1,2) by blast
qed

lemma destroy_released_pipes:
  assumes "\<forall>p \<in> set ps. p = (invalid_value, invalid_value)"
  shows "destroy_pipes ps w = w"
proof -
  have "fold destroy_pipe qs w = w" if "\<forall>p \<in> set qs. p = (invalid_value, invalid_value)" for qs
    using that by (induction qs) (auto simp: destroy_pipe_def destroy_handle_def valid_def)
  then show ?thesis using assms by (simp add: destroy_pipes_def)
qed


text \<open>The array and the first child.\<close>

lemma pipeline_begins:
  assumes os: "descriptors_documented os lim" and f: "notes_children os f" and tidy: "tidy lim w"
    and pipes: "new_pipes os n w = Some (Inr P, w1)" and n: "0 < n"
    and first: "launch_first os e 0 P w1 = Some (Inr (c, ps), w2)"
  shows "length P = n \<and> pipe_array P \<and> (\<forall>x \<in> ends P. fds w x = None) \<and> tidy lim w2 \<and>
    plumbed P (next_pipe w) 1 ps w2 \<and>
    (\<forall>x. x \<notin> ends P \<longrightarrow> x \<notin> set (stream_handles c) \<longrightarrow> fds w2 x = fds w x) \<and>
    (\<exists>fate. f (env w2) = f (env w) @ [(child_id c, fate)] \<and>
      wired e None (Some (Pipe_Write_End (next_pipe w))) fate)"
proof -
  from new_pipes_moves [OF os f pipes] have len: "length P = n"
    and mv: "moves f lim (set (map fst P @ map snd P)) w w1"
    and fresh: "\<forall>x \<in> ends P. fds w x = None" and dist: "distinct (map fst P @ map snd P)"
    and at: "\<forall>i < n. fds w1 (fst (P ! i)) = Some (Pipe_Read_End (next_pipe w + i)) \<and>
             fds w1 (snd (P ! i)) = Some (Pipe_Write_End (next_pipe w + i))"
    by (auto simp: ends_def)
  have std: "x \<notin> ends P" if "x \<in> {0, 1, 2}" for x
    using that fresh tidy unfolding tidy_def by auto
  have P: "pipe_array P" using dist std unfolding pipe_array_def ends_def by auto
  have same: "fds w1 x = fds w x" if "x \<notin> ends P" for x
    using movesD [OF mv] that by (auto simp: ends_def)
  have tidy1: "tidy lim w1"
    using moves_below [OF mv] tidy same std unfolding tidy_def by simp
  have pos: "0 < length P" using n len by simp
  have pl: "plumbed P (next_pipe w) 0 P w1" using at len by (simp add: plumbed_def)
  note E0 = pipe_array_ends [OF P pos pos] and P0 = plumbedD [OF pl pos]
  have l: "launches f lim {snd (P ! 0)} e None (Some (Pipe_Write_End (next_pipe w))) c w1 w2"
    and ps: "ps = P[0 := (fst (P ! 0), invalid_value)]"
    using launch_first_launches [OF os f tidy1 refl E0(5) _ pos first] P0(3) by simp_all
  have "tidy lim w2" using launches_tidy [OF l tidy1] E0(5) by simp
  moreover note plumbed_first [OF P pos pl l, folded ps]
  moreover have "fds w2 x = fds w x" if "x \<notin> ends P" "x \<notin> set (stream_handles c)" for x
    using launchesD(2) [OF l, of x] that same ends_nth [OF pos] by auto
  ultimately show ?thesis using len P fresh launchesD(1) [OF l] mv by (auto simp: moves_def)
qed

text \<open>The last child: after it the parent has no end of the array left.\<close>

lemma pipeline_ends:
  assumes P: "pipe_array P" "0 < length P" and pl: "plumbed P k (length P) ps w"
    and l: "launches f lim {fst (P ! (length P - 1))} e a b c w w'"
    and ps': "ps' = ps[length P - 1 := (invalid_value, snd (ps ! (length P - 1)))]"
  shows "x \<in> ends P \<Longrightarrow> x \<notin> set (stream_handles c) \<Longrightarrow> fds w' x = None"
    and "destroy_pipes ps' w' = w'"
proof -
  let ?m = "length P - 1"
  have m: "?m < length P" using P(2) by simp
  show "fds w' x = None" if x: "x \<in> ends P" "x \<notin> set (stream_handles c)"
  proof (cases "x = fst (P ! ?m)")
    case True
    then show ?thesis using launchesD(3) [OF l] by simp
  next
    case False
    obtain j where j: "j < length P" "x = fst (P ! j) \<or> x = snd (P ! j)"
      using x(1) by (force simp: ends_def in_set_conv_nth)
    then have "fds w x = None"
      using plumbedD(2,3) [OF pl j(1)] False by (cases "j = ?m") auto
    then show ?thesis using launchesD(2) [OF l, of x] False x(2) by simp
  qed
  have len: "length ps = length P" using pl by (simp add: plumbed_def)
  have "ps' ! j = (invalid_value, invalid_value)" if "j < length P" for j
    using plumbedD(1) [OF pl that] plumbedD(1) [OF pl m] that len unfolding ps'
    by (cases "j = ?m") (auto simp: nth_list_update)
  then show "destroy_pipes ps' w' = w'"
    using len by (intro destroy_released_pipes) (metis in_set_conv_nth length_list_update ps')
qed

lemma nth_first_middles_last:
  assumes "2 \<le> length xs" "length ys = length (butlast (tl xs))" and i: "i < length xs"
    and "R 0 (hd xs) y" "\<forall>j < length ys. R (Suc j) (butlast (tl xs) ! j) (ys ! j)"
    and "R (length xs - 1) (last xs) z"
  shows "R i (xs ! i) ((y # ys @ [z]) ! i)"
proof -
  consider "i = 0" | "i = length xs - 1" "0 < i" | j where "i = Suc j" "j < length ys"
    using i assms(2) by (cases i) (auto, linarith)
  then show ?thesis
  proof cases
    case 1
    then show ?thesis using assms(1,4) by (cases xs) auto
  next
    case 2
    moreover have "xs \<noteq> []" using assms(1) by auto
    ultimately have "(y # ys @ [z]) ! i = z" "xs ! i = last xs"
      using assms(1,2) by (auto simp: nth_append nth_Cons' last_conv_nth)
    then show ?thesis using assms(6) 2(1) by simp
  next
    case 3
    then have "(y # ys @ [z]) ! i = ys ! j" "xs ! i = butlast (tl xs) ! j"
      using assms(2) by (auto simp: nth_append nth_butlast nth_tl)
    then show ?thesis using assms(5) 3 by simp
  qed
qed

text \<open>
  C36: the children of a pipeline are connected in order. When \<open>launch_pipeline\<close> returns, one
  child was started for each entry, with its program and arguments; the pipe that is the standard
  output of a child is the standard input of the next; a child has no descriptor beyond the three
  standard ones; and the parent is left with its own descriptors and those its child objects hold,
  in particular with no end of a connecting pipe.
\<close>

theorem pipeline_connects_children:
  assumes os: "descriptors_documented os lim" and f: "notes_children os spawned" and tidy: "tidy lim w"
    and run: "launch_pipeline os entries w = Some (Inr cs, w')"
  shows "(\<exists>log. spawned (env w') = spawned (env w) @ log \<and> map fst log = map child_id cs \<and>
      length log = length entries \<and>
      (\<forall>i < length entries. wired (entries ! i)
        (if i = 0 then None else Some (Pipe_Read_End (next_pipe w + (i - 1))))
        (if i = length entries - 1 then None else Some (Pipe_Write_End (next_pipe w + i)))
        (snd (log ! i)))) \<and>
    (\<forall>d. d \<notin> (\<Union>c \<in> set cs. set (stream_handles c)) \<longrightarrow> fds w' d = fds w d)"
proof -
  obtain w1 P c w2 ps1 ms w3 ps2 d w4 ps3 where two: "2 \<le> length entries"
    and r: "new_pipes os (length entries - 1) w = Some (Inr P, w1)"
      "launch_first os (hd entries) 0 P w1 = Some (Inr (c, ps1), w2)"
      "launch_middles os (butlast (tl entries)) 1 ps1 w2 = Some (Inr (ms, ps2), w3)"
      "launch_last os (last entries) (length entries - 1) ps2 w3 = Some (Inr (d, ps3), w4)"
    and cs: "cs = c # ms @ [d]" and w': "w' = destroy_pipes ps3 w4"
    using run by (auto simp: launch_pipeline_def bindE_Inr then_Inr assert_Inr on_throw_Inr modifyE_run ret_run)
  let ?n = "length entries - 1" and ?k = "next_pipe w"
  have n: "0 < ?n" using two by simp
  from pipeline_begins [OF os f tidy r(1) n r(2)] obtain fate0 where len: "length P = ?n"
    and P: "pipe_array P" and fresh: "\<forall>x \<in> ends P. fds w x = None" and tidy2: "tidy lim w2"
    and pl2: "plumbed P ?k 1 ps1 w2"
    and same2: "\<forall>x. x \<notin> ends P \<longrightarrow> x \<notin> set (stream_handles c) \<longrightarrow> fds w2 x = fds w x"
    and fate0: "spawned (env w2) = spawned (env w) @ [(child_id c, fate0)]"
      "wired (hd entries) None (Some (Pipe_Write_End ?k)) fate0"
    by blast
  have lm: "1 + length (butlast (tl entries)) = length P" using two len by simp
  from launch_middles_wired [OF os f P r(3) tidy2 pl2] lm obtain log where
    tidy3: "tidy lim w3" and pl3: "plumbed P ?k (length P) ps2 w3"
    and same3: "\<forall>x. x \<notin> ends P \<longrightarrow> fds w3 x = fds w2 x"
    and log: "spawned (env w3) = spawned (env w2) @ log" "map fst log = map child_id ms"
      "length log = length (butlast (tl entries))"
      "\<forall>j < length log. wired (butlast (tl entries) ! j)
         (Some (Pipe_Read_End (?k + j))) (Some (Pipe_Write_End (?k + (1 + j)))) (snd (log ! j))"
    by auto
  let ?m = "length P - 1"
  have m: "?m < length P" "0 < length P" "length P \<le> length ps2"
    using n len pl3 by (simp_all add: plumbed_def)
  have last: "launches spawned lim {fst (P ! ?m)} (last entries) (Some (Pipe_Read_End (?k + ?m))) None d w3 w4"
    and ps3: "ps3 = ps2[?m := (invalid_value, snd (ps2 ! ?m))]"
    using launch_last_launches [OF os f tidy3 _ _ _ m(2,3) r(4) [folded len], of "fst (P ! ?m)"]
      pipe_array_ends(4) [OF P m(1) m(1)] plumbedD [OF pl3 m(1)]
    by simp_all
  note finish = pipeline_ends [OF P m(2) pl3 last ps3]
  have w4: "w' = w4" using finish(2) w' by simp
  have parent: "fds w' x = fds w x" if "x \<notin> (\<Union>c \<in> set cs. set (stream_handles c))" for x
    using finish(1) [of x] fresh that w4 cs launchesD(2) [OF last, of x] same2 same3 ends_nth [OF m(1)]
    by (cases "x \<in> ends P") auto
  obtain fate1 where fate1: "spawned (env w4) = spawned (env w3) @ [(child_id d, fate1)]"
    "wired (last entries) (Some (Pipe_Read_End (?k + ?m))) None fate1"
    using launchesD(1) [OF last] by blast
  let ?log = "(child_id c, fate0) # log @ [(child_id d, fate1)]"
  have "wired (entries ! i) (if i = 0 then None else Some (Pipe_Read_End (?k + (i - 1))))
      (if i = ?n then None else Some (Pipe_Write_End (?k + i))) (snd (?log ! i))"
    if "i < length entries" for i
    by (rule nth_first_middles_last [OF two log(3) that, where R = "\<lambda>i e x. wired e
          (if i = 0 then None else Some (Pipe_Read_End (?k + (i - 1))))
          (if i = ?n then None else Some (Pipe_Write_End (?k + i))) (snd x)"])
       (use fate0 fate1 log(3,4) n len in auto)
  moreover have "map fst ?log = map child_id cs" "length ?log = length entries"
    using log(2,3) cs two by auto
  ultimately show ?thesis using fate0(1) log(1) fate1(1) parent w4 by auto
qed


text \<open>A system on which three programs are started in a pipeline.\<close>

definition shell_os :: "(int \<times> child_fate) list OS" where
  "shell_os =
     \<lparr>sys_time = (\<lambda>e. Some (0, e)), sys_rand = (\<lambda>e. Some (0, e)), sys_sleep = (\<lambda>n e. Some ((), e)),
      sys_getenv = (\<lambda>s e. Some (None, e)), sys_access_x = (\<lambda>f e. Some (True, e)),
      sys_getcwd = (\<lambda>e. Some (Some ''/'', e)), sys_open_max = (\<lambda>e. Some (16, e)),
      sys_getids = (\<lambda>e. Some (\<lparr>id_uid = 0, id_euid = 0, id_gid = 0, id_egid = 0\<rparr>, e)),
      sys_pipe = (\<lambda>t e. Some (if t 3 = None \<and> t 4 = None then Some (3, 4)
                                else if t 5 = None \<and> t 6 = None then Some (5, 6)
                                else if t 7 = None \<and> t 8 = None then Some (7, 8) else None, e)),
      sys_fork = (\<lambda>e. Some (100 + int (length e), e)), sys_child_open = (\<lambda>s t e. Some (None, e)),
      sys_child_call = (\<lambda>c e. Some (True, e)), sys_child_runs = (\<lambda>p f e. Some ((), e @ [(p, f)])),
      sys_read = (\<lambda>f n e. Some (None, e)), sys_waitpid = (\<lambda>p e. Some (Some 0, e)),
      sys_list_directory = (\<lambda>s e. Some (None, e)), sys_exists = (\<lambda>s e. Some (None, e)),
      sys_send_udp = (\<lambda>p s e. Some (False, e))\<rparr>"

definition shell_world :: "(int \<times> child_fate) list world" where
  "shell_world =
     \<lparr>child_pid_global = -1, host_name_static = None,
      fds = (\<lambda>d. if d \<in> {0, 1, 2} then Some (Opened ''/dev/tty'') else None), next_pipe = 0,
      env = []\<rparr>"

definition shell_entry :: "string \<Rightarrow> stream_behavior \<Rightarrow> stream_behavior \<Rightarrow> pipeline_entry" where
  "shell_entry prog i out =
     \<lparr>pe_executable = prog, pe_arguments = [prog],
      pe_context = \<lparr>cx_work_directory = ''/'', cx_environment = [], stdin_behavior = i,
                    stdout_behavior = out, stderr_behavior = Inherit\<rparr>\<rparr>"

definition shell_entries :: "pipeline_entry list" where
  "shell_entries = [shell_entry ''ls'' Inherit Close, shell_entry ''sort'' Close Close,
     shell_entry ''head'' Close Capture]"

lemma shell_os_documented: "descriptors_documented shell_os 16"
proof -
  have pipe: "0 \<le> r" "0 \<le> wr" "r \<noteq> wr" "t r = None" "t wr = None" "r < 16" "wr < 16"
    if "sys_pipe shell_os t e = Some (Some (r, wr), e')" for t e r wr e'
    using that by (auto simp: shell_os_def split: if_splits)
  have rest: "sys_child_open shell_os f t e = Some (None, e)" "sys_open_max shell_os e = Some (16, e)" for f t e
    by (simp_all add: shell_os_def)
  show ?thesis
    unfolding descriptors_documented_def pipe_documented_def
    by (intro conjI allI impI; (erule pipe)?) (simp_all add: rest)
qed

lemma shell_os_notes: "notes_children shell_os (\<lambda>e. e)"
  by (simp add: notes_children_def unnoticed_def shell_os_def)

lemma shell_world_tidy: "tidy 16 shell_world"
  by (simp add: tidy_def below_def shell_world_def)

lemma shell_pipeline_runs:
  "\<exists>cs w'. launch_pipeline shell_os shell_entries shell_world = Some (Inr cs, w') \<and>
    map child_id cs = [100, 101, 102]"
proof -
  have "(case launch_pipeline shell_os shell_entries shell_world of
      Some (Inr cs, w') \<Rightarrow> map child_id cs = [100, 101, 102] | _ \<Rightarrow> False)"
    by code_simp
  then show ?thesis by (auto split: option.splits prod.splits sum.splits)
qed


theorem pipeline_connects_children_witness:
  "\<exists>log. length log = 3 \<and> map fst log = [100, 101, 102 :: int] \<and>
    wired (shell_entry ''ls'' Inherit Close) None (Some (Pipe_Write_End 0)) (snd (log ! 0)) \<and>
    wired (shell_entry ''sort'' Close Close) (Some (Pipe_Read_End 0)) (Some (Pipe_Write_End 1))
      (snd (log ! 1)) \<and>
    wired (shell_entry ''head'' Close Capture) (Some (Pipe_Read_End 1)) None (snd (log ! 2))"
proof -
  obtain cs w' where run: "launch_pipeline shell_os shell_entries shell_world = Some (Inr cs, w')"
    and ids: "map child_id cs = [100, 101, 102]"
    using shell_pipeline_runs by (elim exE conjE)
  obtain log where log: "map fst log = map child_id cs" "length log = length shell_entries"
    "\<forall>i < length shell_entries. wired (shell_entries ! i)
        (if i = 0 then None else Some (Pipe_Read_End (next_pipe shell_world + (i - 1))))
        (if i = length shell_entries - 1 then None else Some (Pipe_Write_End (next_pipe shell_world + i)))
        (snd (log ! i))"
    using pipeline_connects_children [OF shell_os_documented shell_os_notes shell_world_tidy run] by blast
  have "length shell_entries = 3" "next_pipe shell_world = 0"
    by (simp_all add: shell_entries_def shell_world_def)
  with log(3) have "wired (shell_entries ! 0) None (Some (Pipe_Write_End 0)) (snd (log ! 0))"
    "wired (shell_entries ! 1) (Some (Pipe_Read_End 0)) (Some (Pipe_Write_End 1)) (snd (log ! 1))"
    "wired (shell_entries ! 2) (Some (Pipe_Read_End 1)) None (snd (log ! 2))"
    by (auto dest: spec [of _ 0] spec [of _ 1] spec [of _ 2])
  then show ?thesis using log(1,2) ids by (intro exI [of _ log]) (auto simp: shell_entries_def)
qed

end
