(* ===== verification/Boost_Streams.thy ===== *)
theory Boost_Streams
  imports Boost_Process
begin

text \<open>
  What Boost.Process offers beside launching: the statuses of POSIX, termination of a process,
  the environment of the caller, and the stream to a child's input, \<open>postream\<close>, with the output
  side of its buffer. \<open>write(2)\<close> and \<open>kill(2)\<close> are parameters of the definitions.
\<close>

section \<open>Statuses (posix\_status.hpp)\<close>

text \<open>
  The macros of \<^verbatim>\<open>sys/wait.h\<close> on Linux: the low seven bits are the terminating signal, 0 for
  an exit and 127 for a stop; bit 7 says that core was dumped; the next byte is the exit code or
  the stop signal.
\<close>

definition signaled :: "status \<Rightarrow> bool" where
  "signaled flags \<longleftrightarrow> flags mod 128 \<noteq> 0 \<and> flags mod 128 \<noteq> 127"

definition term_signal :: "status \<Rightarrow> (int, 'w) io" where
  "term_signal flags = thenE (assertE (signaled flags) ''signaled()'') (ret (flags mod 128))"

definition dumped_core :: "status \<Rightarrow> (bool, 'w) io" where
  "dumped_core flags =
     thenE (assertE (signaled flags) ''signaled()'') (ret (flags div 128 mod 2 = 1))"

definition stopped :: "status \<Rightarrow> bool" where
  "stopped flags \<longleftrightarrow> flags mod 256 = 127"

definition stop_signal :: "status \<Rightarrow> (int, 'w) io" where
  "stop_signal flags = thenE (assertE (stopped flags) ''stopped()'') (ret (flags div 256 mod 256))"

lemma status_exclusive:
  "\<not> (exited s \<and> signaled s)" "\<not> (exited s \<and> stopped s)" "\<not> (signaled s \<and> stopped s)"
proof -
  have "s mod 128 = s mod 256 mod 128" by (simp add: mod_mod_cancel)
  then show "\<not> (exited s \<and> signaled s)" "\<not> (exited s \<and> stopped s)" "\<not> (signaled s \<and> stopped s)"
    by (auto simp: exited_def signaled_def stopped_def)
qed

text \<open>Which of the accessors may be called: each status that \<open>waitpid\<close> makes answers its own.\<close>

lemma status_of_exit:
  "0 \<le> code \<Longrightarrow> code < 256 \<Longrightarrow> exited (code * 256) \<and> exit_status (code * 256) = ret code"
  by (simp add: exited_def exit_status_def thenE_def assertE_def)

lemma status_of_signal:
  assumes "0 < sig" "sig < 127"
  shows "signaled (sig + 128 * of_bool core)" "term_signal (sig + 128 * of_bool core) = ret sig"
    "dumped_core (sig + 128 * of_bool core) = ret core"
  using assms by (auto simp: signaled_def term_signal_def dumped_core_def thenE_def assertE_def)

section \<open>Processes (process.hpp, self.hpp)\<close>

definition SIGKILL :: int where "SIGKILL = 9"
definition SIGTERM :: int where "SIGTERM = 15"

definition terminate_process ::
  "(int \<Rightarrow> int \<Rightarrow> (bool, 'e) sys) \<Rightarrow> int \<Rightarrow> bool \<Rightarrow> (unit, ('e, 'z) world_scheme) io" where
  "terminate_process kill pid force =
     bindE (syscall (kill pid (if force then SIGKILL else SIGTERM))) (\<lambda>ok.
       if ok then ret () else throw (System_Error ''process::terminate: kill(2) failed''))"

text \<open>
  The instance of \<open>self\<close>, made by the first call: its identifier is the one of that time, also in
  a child that was forked since.
\<close>

definition get_instance ::
  "(int, 'e) sys \<Rightarrow> int option \<Rightarrow> (int \<times> int option, ('e, 'z) world_scheme) io" where
  "get_instance getpid inst =
     (case inst of
        None \<Rightarrow> bindE (syscall getpid) (\<lambda>pid. ret (pid, Some pid))
      | Some pid \<Rightarrow> ret (pid, inst))"

lemma get_instance_cached:
  assumes "get_instance getpid None w = Some (Inr (pid, inst), w')"
  shows "get_instance getpid' inst w2 = Some (Inr (pid, inst), w2)"
  using assms by (auto simp: get_instance_def bindE_Inr ret_run)

text \<open>
  The environment, from the strings of \<open>environ\<close>. In a string without an equals sign
  \<open>find\<close> gives \<open>npos\<close>, and \<open>npos + 1\<close> wraps around to 0: name and value are the whole string.
\<close>

definition environment_entry :: "string \<Rightarrow> string \<times> string" where
  "environment_entry s =
     (if CHR ''='' \<in> set s
      then (takeWhile (\<lambda>c. c \<noteq> CHR ''='') s, tl (dropWhile (\<lambda>c. c \<noteq> CHR ''='') s))
      else (s, s))"

definition get_environment :: "string list \<Rightarrow> (string \<times> string) list" where
  "get_environment envp =
     fold (\<lambda>s e. case environment_entry s of (name, v) \<Rightarrow> map_insert name v e) envp []"

lemma environment_entry_of: "CHR ''='' \<notin> set k \<Longrightarrow> environment_entry (k @ ''='' @ v) = (k, v)"
  by (simp add: environment_entry_def) (induction k; auto)


text \<open>A map with ascending keys, where each new key is above those before it.\<close>

lemma map_insert_last: "\<forall>x \<in> fst ` set m. x < k \<Longrightarrow> map_insert k v m = m @ [(k, v)]"
  by (induction k v m rule: map_insert.induct) (auto simp: order.asym)

lemma fold_map_insert:
  "sorted (map fst (acc @ m)) \<Longrightarrow> distinct (map fst (acc @ m)) \<Longrightarrow>
   fold (\<lambda>(k, v). map_insert k v) m acc = acc @ m"
proof (induction m arbitrary: acc)
  case (Cons p m)
  obtain k v where p: "p = (k, v)" by fastforce
  have "x < k" if "x \<in> fst ` set acc" for x
    using Cons.prems that by (force simp: p sorted_append order.strict_iff_order)
  then have "map_insert k v acc = acc @ [(k, v)]" by (intro map_insert_last) simp
  then show ?case using Cons.IH [of "acc @ [(k, v)]"] Cons.prems by (simp add: p)
qed simp

text \<open>
  The environment that a child gets is the one it reads. For an environment as
  \<open>std::map\<close> holds it, with names without an equals sign and no null characters, the strings
  that \<open>environment_to_envp\<close> makes for \<open>execve\<close> are read back by \<open>get_environment\<close> as the same map.
\<close>

lemma environment_roundtrip:
  assumes "sorted (map fst m)" and "distinct (map fst m)"
    and names: "\<forall>(k, v) \<in> set m. CHR ''='' \<notin> set k \<and> CHR 0x00 \<notin> set k \<union> set v"
  shows "get_environment (environment_to_envp m) = m"
proof -
  have entry: "environment_entry (c_str (k @ ''='' @ v)) = (k, v)" if "(k, v) \<in> set m" for k v
  proof -
    have "CHR 0x00 \<notin> set (k @ ''='' @ v)" using names that by auto
    then show ?thesis using c_str_id environment_entry_of names that by auto
  qed
  have "get_environment (environment_to_envp m) = fold (\<lambda>(k, v). map_insert k v) m []"
    unfolding get_environment_def environment_to_envp_def fold_map
    by (rule fold_cong) (use entry in auto)
  then show ?thesis using fold_map_insert [of "[]" m] assms(1,2) by simp
qed

lemma environment_roundtrip_witness:
  "get_environment (environment_to_envp [(''HOME'', ''/root''), (''PS1'', ''a=b'')]) =
    [(''HOME'', ''/root''), (''PS1'', ''a=b'')]"
  by (rule environment_roundtrip) (simp_all add: less_char_def order.order_iff_strict)

lemma environment_without_equals: "CHR ''='' \<notin> set s \<Longrightarrow> get_environment [s] = [(s, s)]"
  by (simp add: get_environment_def environment_entry_def)

section \<open>Copies of a handle (file\_handle.hpp)\<close>

text \<open>
  A copy takes the descriptor from its source, and so does an assignment; the results are the
  target and the source. What the target of an assignment owned before is not closed.
\<close>

definition copy_handle :: "file_handle \<Rightarrow> file_handle \<times> file_handle" where
  "copy_handle fh = (fh, invalid_value)"

definition assign_handle :: "file_handle \<Rightarrow> file_handle \<Rightarrow> file_handle \<times> file_handle" where
  "assign_handle lhs rhs = (rhs, invalid_value)"

lemma copy_handle_closed_once:
  "copy_handle h = (h1, h2) \<Longrightarrow> destroy_handle h1 (destroy_handle h2 w) = destroy_handle h w"
  by (auto simp: copy_handle_def destroy_handle_def valid_def)

lemma assign_handle_leaks:
  "assign_handle lhs rhs = (h1, h2) \<Longrightarrow> lhs \<noteq> rhs \<Longrightarrow>
   fds (destroy_handle h1 (destroy_handle h2 w)) lhs = fds w lhs"
  by (auto simp: assign_handle_def destroy_handle_def valid_def fd_close_def)

section \<open>The output buffer (systembuf.hpp)\<close>

text \<open>
  The put area of the buffer is what was put and not yet written. \<open>write(2)\<close> takes an open file
  and bytes and returns how many it wrote, or -1; on a descriptor that is not open it fails.
\<close>

record out_buf =
  ob_handle :: file_handle
  ob_pending :: string

type_synonym 'e write_call = "open_file \<Rightarrow> string \<Rightarrow> (int, 'e) sys"

definition sync_buf ::
  "'e write_call \<Rightarrow> out_buf \<Rightarrow> (bool \<times> out_buf, ('e, 'z) world_scheme) io" where
  "sync_buf write b =
     bindE (getE (\<lambda>w. fds w (ob_handle b))) (\<lambda>f.
       case f of
         None \<Rightarrow> ret (False, b)
       | Some opened \<Rightarrow>
           bindE (syscall (write opened (ob_pending b))) (\<lambda>cnt.
             let written = (cnt = int (length (ob_pending b)))
             in ret (written, if written then b\<lparr>ob_pending := []\<rparr> else b)))"

text \<open>\<open>overflow\<close>: false stands for \<open>eof\<close>, and no character for the argument \<open>eof\<close>.\<close>

definition overflow ::
  "'e write_call \<Rightarrow> out_buf \<Rightarrow> char option \<Rightarrow> (bool \<times> out_buf, ('e, 'z) world_scheme) io" where
  "overflow write b c =
     thenE (assertE (bufsize \<le> length (ob_pending b)) ''pptr() >= epptr()'')
    (bindE (sync_buf write b) (\<lambda>(ok, b').
       if \<not> ok then ret (False, b')
       else ret (True, case c of None \<Rightarrow> b' | Some x \<Rightarrow> b'\<lparr>ob_pending := ob_pending b' @ [x]\<rparr>)))"

text \<open>
  \<open>sputc\<close> and \<open>sputn\<close> of \<open>std::streambuf\<close>, by which an output stream puts its characters: into
  the put area while there is room, else by \<open>overflow\<close>, up to the first \<open>eof\<close>.
\<close>

definition sputc ::
  "'e write_call \<Rightarrow> char \<Rightarrow> out_buf \<Rightarrow> (bool \<times> out_buf, ('e, 'z) world_scheme) io" where
  "sputc write x b =
     (if length (ob_pending b) < bufsize then ret (True, b\<lparr>ob_pending := ob_pending b @ [x]\<rparr>)
      else overflow write b (Some x))"

fun sputn ::
  "'e write_call \<Rightarrow> string \<Rightarrow> out_buf \<Rightarrow> (nat \<times> out_buf, ('e, 'z) world_scheme) io" where
  "sputn write [] b = ret (0, b)"
| "sputn write (x # xs) b =
     bindE (sputc write x b) (\<lambda>(ok, b1).
       if ok then bindE (sputn write xs b1) (\<lambda>(n, b2). ret (Suc n, b2)) else ret (0, b1))"

section \<open>The stream to a child's input (postream.hpp)\<close>

record postream =
  ps_handle :: file_handle
  ps_buf :: out_buf

definition new_postream :: "file_handle \<Rightarrow> (postream, 'w) io" where
  "new_postream fh =
     thenE (assertE (valid fh) ''valid()'')
    (thenE (assertE (0 \<le> fh) ''handle_ >= 0'')
    (ret \<lparr>ps_handle = fh, ps_buf = \<lparr>ob_handle = fh, ob_pending = []\<rparr>\<rparr>))"

definition put_string ::
  "'e write_call \<Rightarrow> string \<Rightarrow> postream \<Rightarrow> (nat \<times> postream, ('e, 'z) world_scheme) io" where
  "put_string write s p =
     bindE (sputn write s (ps_buf p)) (\<lambda>(n, b). ret (n, p\<lparr>ps_buf := b\<rparr>))"

text \<open>\<open>close\<close> ignores the result of \<open>sync\<close>; the destructor does not call it.\<close>

definition close_postream ::
  "'e write_call \<Rightarrow> postream \<Rightarrow> (postream, ('e, 'z) world_scheme) io" where
  "close_postream write p =
     bindE (sync_buf write (ps_buf p)) (\<lambda>(_, b).
     bindE (close_handle (ps_handle p)) (\<lambda>h. ret (p\<lparr>ps_handle := h, ps_buf := b\<rparr>)))"

definition destroy_postream :: "postream \<Rightarrow> ('e, 'z) world_scheme \<Rightarrow> ('e, 'z) world_scheme" where
  "destroy_postream p = destroy_handle (ps_handle p)"


section \<open>What is put is written\<close>

text \<open>
  A descriptor that takes all that is written to it; \<open>sent\<close> is the record of the writes.
\<close>

definition takes_all :: "'e write_call \<Rightarrow> ('e \<Rightarrow> (open_file \<times> string) list) \<Rightarrow> bool" where
  "takes_all write sent \<longleftrightarrow>
     (\<forall>f s e. \<exists>e'. write f s e = Some (int (length s), e') \<and> sent e' = sent e @ [(f, s)])"

lemma sync_buf_all:
  assumes "takes_all write sent" and "fds w (ob_handle b) = Some f"
  shows "\<exists>e. sync_buf write b w = Some (Inr (True, b\<lparr>ob_pending := []\<rparr>), w\<lparr>env := e\<rparr>) \<and>
    sent e = sent (env w) @ [(f, ob_pending b)]"
proof -
  obtain e where "write f (ob_pending b) (env w) = Some (int (length (ob_pending b)), e)"
    "sent e = sent (env w) @ [(f, ob_pending b)]"
    using assms(1) unfolding takes_all_def by blast
  then show ?thesis using assms(2) by (intro exI [of _ e]) (simp add: sync_buf_def io_simps)
qed

text \<open>Putting characters writes full buffers, in order, and keeps the rest.\<close>

lemma sputc_all:
  assumes "takes_all write sent" and "fds w (ob_handle b) = Some f" and "length (ob_pending b) \<le> bufsize"
  shows "\<exists>b' e blocks. sputc write x b w = Some (Inr (True, b'), w\<lparr>env := e\<rparr>) \<and>
    sent e = sent (env w) @ map (Pair f) blocks \<and> concat blocks @ ob_pending b' = ob_pending b @ [x] \<and>
    (\<forall>bl \<in> set blocks. length bl = bufsize) \<and> length (ob_pending b') \<le> bufsize \<and>
    ob_handle b' = ob_handle b"
proof (cases "length (ob_pending b) < bufsize")
  case True
  then have "sputc write x b w = Some (Inr (True, b\<lparr>ob_pending := ob_pending b @ [x]\<rparr>), w\<lparr>env := env w\<rparr>)"
    by (simp add: sputc_def ret_run)
  then show ?thesis using True
    by (intro exI [of _ "b\<lparr>ob_pending := ob_pending b @ [x]\<rparr>"] exI [of _ "env w"] exI [of _ "[]"]) simp
next
  case False
  obtain e where e: "sync_buf write b w = Some (Inr (True, b\<lparr>ob_pending := []\<rparr>), w\<lparr>env := e\<rparr>)"
    "sent e = sent (env w) @ [(f, ob_pending b)]"
    using sync_buf_all [OF assms(1,2)] by blast
  have "sputc write x b w = Some (Inr (True, b\<lparr>ob_pending := [x]\<rparr>), w\<lparr>env := e\<rparr>)"
    using False e(1) by (simp add: sputc_def overflow_def thenE_def assertE_def bindE_value ret_run)
  then show ?thesis using False e(2) assms(3)
    by (intro exI [of _ "b\<lparr>ob_pending := [x]\<rparr>"] exI [of _ e] exI [of _ "[ob_pending b]"])
       (simp add: bufsize_def)
qed

lemma sputn_all:
  assumes all: "takes_all write sent"
  shows "fds w (ob_handle b) = Some f \<Longrightarrow> length (ob_pending b) \<le> bufsize \<Longrightarrow>
    \<exists>b' e blocks. sputn write s b w = Some (Inr (length s, b'), w\<lparr>env := e\<rparr>) \<and>
    sent e = sent (env w) @ map (Pair f) blocks \<and> concat blocks @ ob_pending b' = ob_pending b @ s \<and>
    (\<forall>bl \<in> set blocks. length bl = bufsize) \<and> length (ob_pending b') \<le> bufsize \<and>
    ob_handle b' = ob_handle b"
proof (induction s arbitrary: b w)
  case Nil
  then show ?case
    by (intro exI [of _ b] exI [of _ "env w"] exI [of _ "[]"]) (simp add: ret_run)
next
  case (Cons x s)
  from sputc_all [OF all Cons.prems] obtain b1 e1 bl1 where c:
    "sputc write x b w = Some (Inr (True, b1), w\<lparr>env := e1\<rparr>)"
    "sent e1 = sent (env w) @ map (Pair f) bl1" "concat bl1 @ ob_pending b1 = ob_pending b @ [x]"
    "\<forall>bl \<in> set bl1. length bl = bufsize" "length (ob_pending b1) \<le> bufsize" "ob_handle b1 = ob_handle b"
    by blast
  from Cons.IH [of "w\<lparr>env := e1\<rparr>" b1] c(5,6) Cons.prems(1) obtain b2 e2 bl2 where r:
    "sputn write s b1 (w\<lparr>env := e1\<rparr>) = Some (Inr (length s, b2), w\<lparr>env := e2\<rparr>)"
    "sent e2 = sent e1 @ map (Pair f) bl2" "concat bl2 @ ob_pending b2 = ob_pending b1 @ s"
    "\<forall>bl \<in> set bl2. length bl = bufsize" "length (ob_pending b2) \<le> bufsize" "ob_handle b2 = ob_handle b1"
    by auto
  have "sputn write (x # s) b w = Some (Inr (length (x # s), b2), w\<lparr>env := e2\<rparr>)"
    using c(1) r(1) by (simp add: bindE_value ret_run)
  moreover have "concat (bl1 @ bl2) @ ob_pending b2 = ob_pending b @ x # s"
    using r(3) c(3) by (metis append_assoc append_Cons append_Nil concat_append)
  ultimately show ?case using c r
    by (intro exI [of _ b2] exI [of _ e2] exI [of _ "bl1 @ bl2"]) auto
qed

text \<open>
  C37: the stream to a child's input delivers what is put into it. On a descriptor that takes
  all that is written, opening the stream over the handle, putting a string and closing writes
  exactly the string, in buffers of 8192 bytes and a last one of at most that, and leaves the
  handle closed.
\<close>

theorem postream_delivers:
  fixes w :: "('e, 'z) world_scheme"
  assumes all: "takes_all write sent" and h: "0 \<le> h" "fds w h = Some f"
  shows "\<exists>blocks rest p e.
    bindE (new_postream h) (\<lambda>p. bindE (put_string write s p) (\<lambda>(n, p).
      bindE (close_postream write p) (\<lambda>p. ret (n, p)))) w =
      Some (Inr (length s, p), w\<lparr>env := e, fds := (fds w)(h := None)\<rparr>) \<and>
    \<not> valid (ps_handle p) \<and> sent e = sent (env w) @ map (Pair f) (blocks @ [rest]) \<and>
    concat blocks @ rest = s \<and> (\<forall>bl \<in> set blocks. length bl = bufsize) \<and> length rest \<le> bufsize"
proof -
  let ?b = "\<lparr>ob_handle = h, ob_pending = []\<rparr>"
  let ?p = "\<lparr>ps_handle = h, ps_buf = ?b\<rparr>"
  have v: "valid h" using h(1) by (simp add: valid_def invalid_value_def)
  have new: "new_postream h w = Some (Inr ?p, w)"
    using h(1) v by (simp add: new_postream_def thenE_def assertE_def ret_run)
  from sputn_all [OF all, of w ?b f s] h(2) obtain b e blocks where put:
    "sputn write s ?b w = Some (Inr (length s, b), w\<lparr>env := e\<rparr>)"
    "sent e = sent (env w) @ map (Pair f) blocks" "concat blocks @ ob_pending b = s"
    "\<forall>bl \<in> set blocks. length bl = bufsize" "length (ob_pending b) \<le> bufsize" "ob_handle b = h"
    by auto
  from sync_buf_all [OF all, of "w\<lparr>env := e\<rparr>" b f] put(6) h(2) obtain e' where sync:
    "sync_buf write b (w\<lparr>env := e\<rparr>) = Some (Inr (True, b\<lparr>ob_pending := []\<rparr>), w\<lparr>env := e'\<rparr>)"
    "sent e' = sent e @ [(f, ob_pending b)]"
    by auto
  have "close_handle h (w\<lparr>env := e'\<rparr>) =
      Some (Inr invalid_value, w\<lparr>env := e', fds := (fds w)(h := None)\<rparr>)"
    using v by (simp add: close_handle_def io_simps fd_close_def)
  then have "close_postream write (?p\<lparr>ps_buf := b\<rparr>) (w\<lparr>env := e\<rparr>) =
      Some (Inr \<lparr>ps_handle = invalid_value, ps_buf = b\<lparr>ob_pending := []\<rparr>\<rparr>,
        w\<lparr>env := e', fds := (fds w)(h := None)\<rparr>)"
    using sync(1) by (simp add: close_postream_def bindE_value ret_run)
  then show ?thesis
    using new put sync(2)
    by (intro exI [of _ blocks] exI [of _ "ob_pending b"]
        exI [of _ "\<lparr>ps_handle = invalid_value, ps_buf = b\<lparr>ob_pending := []\<rparr>\<rparr>"] exI [of _ e'])
       (simp add: bindE_value put_string_def ret_run valid_def)
qed

definition write_all :: "(open_file \<times> string) list write_call" where
  "write_all f s e = Some (int (length s), e @ [(f, s)])"

definition stdin_world :: "(open_file \<times> string) list world" where
  "stdin_world =
     \<lparr>child_pid_global = -1, host_name_static = None,
      fds = (\<lambda>d. if d = 4 then Some (Pipe_Write_End 0) else None), next_pipe = 1, env = []\<rparr>"

theorem postream_delivers_witness:
  "\<exists>blocks rest p e.
    bindE (new_postream 4) (\<lambda>p. bindE (put_string write_all ''yes'' p) (\<lambda>(n, p).
      bindE (close_postream write_all p) (\<lambda>p. ret (n, p)))) stdin_world =
      Some (Inr (3, p), stdin_world\<lparr>env := e, fds := (fds stdin_world)(4 := None)\<rparr>) \<and>
    e = map (Pair (Pipe_Write_End 0)) (blocks @ [rest]) \<and> concat blocks @ rest = ''yes''"
proof -
  have "takes_all write_all (\<lambda>e. e)" by (simp add: takes_all_def write_all_def)
  from postream_delivers [OF this, of 4 stdin_world "Pipe_Write_End 0" "''yes''"] show ?thesis
    by (simp add: stdin_world_def numeral_3_eq_3) blast
qed

text \<open>
  A short write. \<open>sync\<close> fails and keeps all that was pending, so the next one writes again what
  the first wrote. And a stream that is destroyed without \<open>close\<close> loses what is pending.
\<close>

lemma sync_buf_short:
  assumes "fds w (ob_handle b) = Some f"
    and "write f (ob_pending b) (env w) = Some (cnt, e)" and "cnt < int (length (ob_pending b))"
  shows "sync_buf write b w = Some (Inr (False, b), w\<lparr>env := e\<rparr>)"
  using assms by (simp add: sync_buf_def io_simps)

lemma destroy_postream_drops: "env (destroy_postream p w) = env w"
  by (simp add: destroy_postream_def destroy_handle_def fd_close_def)


section \<open>The streams of a child (child.hpp, posix\_child.hpp)\<close>

definition get_stdin :: "'c child_scheme \<Rightarrow> (file_handle, 'w) io" where
  "get_stdin c = (case child_stdin c of None \<Rightarrow> throw (Abort ''stdin_'') | Some h \<Rightarrow> ret h)"

definition get_stderr :: "'c child_scheme \<Rightarrow> (file_handle, 'w) io" where
  "get_stderr c = (case child_stderr c of None \<Rightarrow> throw (Abort ''stderr_'') | Some h \<Rightarrow> ret h)"

definition get_input :: "posix_child \<Rightarrow> int \<Rightarrow> (file_handle, 'w) io" where
  "get_input c desc =
     (if desc = STDIN_FILENO then get_stdin c
      else case map_of (input_map_of c) desc of
             None \<Rightarrow> throw (Abort ''it != input_map_.end()'')
           | Some h \<Rightarrow> ret h)"

definition get_output :: "posix_child \<Rightarrow> int \<Rightarrow> (file_handle, ('e, 'z) world_scheme) io" where
  "get_output c desc =
     (if desc = STDOUT_FILENO then get_stdout c
      else if desc = STDERR_FILENO then get_stderr c
      else case map_of (output_map_of c) desc of
             None \<Rightarrow> throw (Abort ''it != output_map_.end()'')
           | Some h \<Rightarrow> ret h)"

text \<open>Every stream that can be had belongs to the child object, which closes it in the end.\<close>

lemma get_streams_owned:
  "get_stdin c w = Some (Inr h, w') \<Longrightarrow> h \<in> set (stream_handles c)"
  "get_stdout c w1 = Some (Inr h, w1') \<Longrightarrow> h \<in> set (stream_handles c)"
  "get_stderr c w = Some (Inr h, w') \<Longrightarrow> h \<in> set (stream_handles c)"
  by (auto simp: get_stdin_def get_stdout_def get_stderr_def stream_handles_def ret_run throw_run
      split: option.splits)

lemma map_of_handle: "map_of m desc = Some h \<Longrightarrow> h \<in> snd ` set m"
  by (force dest: map_of_SomeD)

lemma get_input_owned: "get_input c desc w = Some (Inr h, w') \<Longrightarrow> h \<in> set (child_handles c)"
  using get_streams_owned(1) [of c w h w'] map_of_handle [of "input_map_of c" desc h]
  by (auto simp: get_input_def child_handles_def ret_run throw_run split: if_splits option.splits)

lemma get_output_owned:
  fixes w :: "('e, 'z) world_scheme"
  assumes "get_output c desc w = Some (Inr h, w')"
  shows "h \<in> set (child_handles c)"
  using assms get_streams_owned(2) [of c w h w'] get_streams_owned(3) [of c w h w']
    map_of_handle [of "output_map_of c" desc h]
  by (auto simp: get_output_def child_handles_def ret_run throw_run split: if_splits option.splits)

section \<open>The stream from a child (pistream.hpp)\<close>

text \<open>
  A stream with its handle, and what its buffer still holds. \<open>run_command\<close> reads it by
  \<open>istreambuf_iterator\<close>, character by character (\<open>sgetc\<close> and \<open>sbumpc\<close>); \<open>read_to_end\<close>, which appends
  whole buffers, is shown to be the same.
\<close>

record pistream =
  is_handle :: file_handle
  is_pending :: string

definition new_pistream :: "file_handle \<Rightarrow> (pistream, 'w) io" where
  "new_pistream fh =
     thenE (assertE (valid fh) ''valid()'')
    (thenE (assertE (0 \<le> fh) ''handle_ >= 0'')
    (ret \<lparr>is_handle = fh, is_pending = []\<rparr>))"

definition sgetc :: "'e OS \<Rightarrow> pistream \<Rightarrow> (char option \<times> pistream, ('e, 'z) world_scheme) io" where
  "sgetc os st =
     (case is_pending st of
        c # _ \<Rightarrow> ret (Some c, st)
      | [] \<Rightarrow> bindE (underflow os (is_handle st)) (\<lambda>r.
          case r of
            None \<Rightarrow> ret (None, st)
          | Some bytes \<Rightarrow> ret (Some (hd bytes), st\<lparr>is_pending := bytes\<rparr>)))"

definition sbumpc :: "pistream \<Rightarrow> pistream" where
  "sbumpc st = st\<lparr>is_pending := tl (is_pending st)\<rparr>"

text \<open>\<open>string(istreambuf_iterator(is), istreambuf_iterator())\<close>, which ends with the stream.\<close>

partial_function (option) read_chars ::
  "'e OS \<Rightarrow> string \<Rightarrow> pistream \<Rightarrow> ('e, 'z) world_scheme \<Rightarrow>
   ((exn + string) \<times> ('e, 'z) world_scheme) option" where
  "read_chars os acc st w =
     (case sgetc os st w of
        None \<Rightarrow> None
      | Some (Inl e, w') \<Rightarrow> Some (Inl e, w')
      | Some (Inr (None, st'), w') \<Rightarrow> Some (Inr acc, w')
      | Some (Inr (Some c, st'), w') \<Rightarrow> read_chars os (acc @ [c]) (sbumpc st') w')"

definition close_pistream :: "pistream \<Rightarrow> (pistream, ('e, 'z) world_scheme) io" where
  "close_pistream st = bindE (close_handle (is_handle st)) (\<lambda>h. ret (st\<lparr>is_handle := h\<rparr>))"

lemma underflow_nonempty: "underflow os h w = Some (Inr (Some bytes), w') \<Longrightarrow> bytes \<noteq> []"
  by (auto simp: underflow_def bindE_def getE_def ret_def syscall_def split: option.splits if_splits sum.splits)

lemma sgetc_pending: "is_pending st = c # cs \<Longrightarrow> sgetc os st w = Some (Inr (Some c, st), w)"
  by (simp add: sgetc_def ret_run)

lemma sgetc_empty:
  "is_pending st = [] \<Longrightarrow> sgetc os st w =
    (case underflow os (is_handle st) w of
       None \<Rightarrow> None
     | Some (Inl e, w') \<Rightarrow> Some (Inl e, w')
     | Some (Inr None, w') \<Rightarrow> Some (Inr (None, st), w')
     | Some (Inr (Some bytes), w') \<Rightarrow> Some (Inr (Some (hd bytes), st\<lparr>is_pending := bytes\<rparr>), w'))"
  by (simp add: sgetc_def bindE_def ret_def split: option.splits sum.splits)

lemma no_pending [simp]: "is_pending st = [] \<Longrightarrow> st\<lparr>is_pending := []\<rparr> = st"
  by (cases st) simp

text \<open>What is pending is read next.\<close>

lemma read_chars_pending:
  "read_chars os acc st w = read_chars os (acc @ is_pending st) (st\<lparr>is_pending := []\<rparr>) w"
proof (induction "is_pending st" arbitrary: acc st)
  case Nil
  then show ?case by (simp add: Nil [symmetric])
next
  case (Cons c cs)
  have step: "read_chars os acc st w = read_chars os (acc @ [c]) (sbumpc st) w"
    using Cons.hyps(2) by (subst read_chars.simps) (simp add: sgetc_pending [of st c cs])
  have "is_pending (sbumpc st) = cs" "(sbumpc st)\<lparr>is_pending := []\<rparr> = st\<lparr>is_pending := []\<rparr>"
    using Cons.hyps(2) [symmetric] by (simp_all add: sbumpc_def)
  then show ?case using step Cons.hyps(1) [of "sbumpc st" "acc @ [c]"] Cons.hyps(2) [symmetric] by simp
qed

lemma read_chars_step:
  assumes "is_pending st = []"
  shows "read_chars os acc st w =
    (case underflow os (is_handle st) w of
       None \<Rightarrow> None
     | Some (Inl e, w') \<Rightarrow> Some (Inl e, w')
     | Some (Inr None, w') \<Rightarrow> Some (Inr acc, w')
     | Some (Inr (Some bytes), w') \<Rightarrow> read_chars os (acc @ bytes) st w')"
proof -
  have "read_chars os (acc @ [hd bytes]) (sbumpc (st\<lparr>is_pending := bytes\<rparr>)) w' = read_chars os (acc @ bytes) st w'"
    if "bytes \<noteq> []" for bytes w'
    using that assms read_chars_pending [of os "acc @ [hd bytes]" "sbumpc (st\<lparr>is_pending := bytes\<rparr>)" w']
    by (simp add: sbumpc_def)
  then show ?thesis
    using underflow_nonempty [of os "is_handle st" w]
    by (subst read_chars.simps) (auto simp: sgetc_empty [OF assms] split: option.splits sum.splits)
qed


lemma read_chars_is_read_to_end:
  assumes "read_chars os acc st w = Some p"
  shows "read_to_end os (is_handle st) (acc @ is_pending st) w = Some p"
proof (rule read_chars.raw_induct [where P = "\<lambda>os acc st w p.
      read_to_end os (is_handle st) (acc @ is_pending st) w = Some p", OF _ assms])
  fix rec os acc st w p
  assume IH: "\<And>os acc st w p. rec os acc st w = Some p \<Longrightarrow>
      read_to_end os (is_handle st) (acc @ is_pending st) w = Some p"
    and step: "(case sgetc os st w of None \<Rightarrow> None
      | Some (Inl e, w') \<Rightarrow> Some (Inl e, w')
      | Some (Inr (None, st'), w') \<Rightarrow> Some (Inr acc, w')
      | Some (Inr (Some c, st'), w') \<Rightarrow> rec os (acc @ [c]) (sbumpc st') w') = Some p"
  show "read_to_end os (is_handle st) (acc @ is_pending st) w = Some p"
  proof (cases "is_pending st")
    case Nil
    then show ?thesis
      using step underflow_nonempty [of os "is_handle st" w]
      by (subst read_to_end.simps)
        (auto simp: sgetc_empty sbumpc_def split: option.splits sum.splits dest!: IH)
  next
    case (Cons c cs)
    then show ?thesis using IH [of os "acc @ [c]" "sbumpc st" w p] step
      by (simp add: sgetc_pending sbumpc_def)
  qed
qed

lemma read_to_end_is_read_chars:
  assumes "read_to_end os h acc w = Some p"
  shows "read_chars os acc \<lparr>is_handle = h, is_pending = []\<rparr> w = Some p"
proof (rule read_to_end.raw_induct [where P = "\<lambda>os h acc w p.
      read_chars os acc \<lparr>is_handle = h, is_pending = []\<rparr> w = Some p", OF _ assms])
  fix rec os h acc w p
  assume IH: "\<And>os h acc w p. rec os h acc w = Some p \<Longrightarrow> read_chars os acc \<lparr>is_handle = h, is_pending = []\<rparr> w = Some p"
    and step: "(case underflow os h w of None \<Rightarrow> None
      | Some (Inl e, w') \<Rightarrow> Some (Inl e, w')
      | Some (Inr None, w') \<Rightarrow> Some (Inr acc, w')
      | Some (Inr (Some bytes), w') \<Rightarrow> rec os h (acc @ bytes) w') = Some p"
  show "read_chars os acc \<lparr>is_handle = h, is_pending = []\<rparr> w = Some p"
    using step by (subst read_chars_step) (auto split: option.splits sum.splits intro: IH)
qed

text \<open>
  Reading the stream of a child by characters is reading its buffers to the end, also in when it does not
  return; so what is shown of \<open>read_to_end\<close> holds of the loop that the code has.
\<close>

lemma read_chars_equals:
  fixes w :: "('e, 'z) world_scheme" and os :: "'e OS"
  assumes "new_pistream h w = Some (Inr st, w')"
  shows "w' = w" and "read_chars os [] st v = read_to_end os h [] (v :: ('e, 'z) world_scheme)"
proof -
  have st: "st = \<lparr>is_handle = h, is_pending = []\<rparr>" and same: "w' = w"
    using assms by (auto simp: new_pistream_def assertE_def thenE_def bindE_def ret_def throw_def split: if_splits)
  show "w' = w" by (rule same)
  show "read_chars os [] st v = read_to_end os h [] v"
  proof (cases "read_to_end os h [] v")
    case None
    then show ?thesis using read_chars_is_read_to_end [of os "[]" st v] st
      by (cases "read_chars os [] st v") simp_all
  next
    case (Some p)
    then show ?thesis using read_to_end_is_read_chars [OF Some] st by simp
  qed
qed

end
