(* ===== verification/Spec2Isabelle.thy ===== *)
theory Spec2Isabelle
  imports Agent_Main Rsync_Service Monitor_Threads Elpp_Printf Elpp_Crash Elpp_Registry Elpp_Performance Elpp_Debug Loggen Agent_Logging Round_Logging Test_Suite Pipeline_Wiring Boost_Streams
begin

text \<open>
  Barn ships the log files of services to a central store. This development models and
  verifies \<^emph>\<open>barn-agent\<close>, the C++ program that runs beside a service (\<^verbatim>\<open>src/barn-agent/src\<close>),
  with its vendored copies of Boost.Process, as far as it concerns POSIX, and of the logging
  library Easylogging++ (\<^verbatim>\<open>external/easylogging++.h\<close>).

  \<^bold>\<open>The program.\<close> \<open>main\<close> reads the command line and runs one of two loops. The agent loop
  (\<^verbatim>\<open>barn-agent.cpp\<close>) repeats rounds: a channel selector picks the primary or the backup
  destination (\<^verbatim>\<open>channel_selector.h\<close>); the log directory is listed (\<^verbatim>\<open>files.cpp\<close>) and a dry
  run of rsync tells what the destination lacks (\<^verbatim>\<open>rsync.cpp\<close>); the missing files that are
  newer than all the destination has are shipped one by one, oldest first; metrics are sent as
  UDP datagrams (\<^verbatim>\<open>localreport.cpp\<close>); the agent sleeps or waits for a new file; and a round
  that got anything done, or had nothing to do, is a heartbeat of the channel. Every program
  is run by \<open>run_command\<close> (\<^verbatim>\<open>process.cpp\<close>), which registers the child so that a SIGTERM to the
  agent is passed on to it (\<^verbatim>\<open>sighandle.cpp\<close>). The monitor loop (\<^verbatim>\<open>barn-agent-monitor.cpp\<close>)
  collects the datagrams and publishes their sums with gmetric (\<^verbatim>\<open>ganglia.cpp\<close>).

  \<^bold>\<open>How effects are modelled.\<close> A computation is a function from the state to \<open>None\<close> (it does
  not return) or to a new state with a value or an abnormal outcome: a C++ exception, or a
  failed assertion, which nothing catches (\<open>io\<close> in Barn\_Prelude). Destructors are \<open>on_exit\<close>
  and \<open>on_throw\<close>. The state, \<open>world\<close>, holds the globals of the process and its descriptor
  table, and is extended by the selector for the agent and by the repository for the monitor.
  The operating system is a parameter, the record \<open>OS\<close> of calls over arbitrary
  surroundings; so are the library functions whose code is not in the repository
  (\<open>boost::split\<close>, \<open>boost::program_options\<close>, \<open>boost::circular_buffer::push_back\<close>). What a
  theorem needs of them is a hypothesis in terms of their documentation (\<open>pipe_documented\<close>,
  \<open>split_documented\<close>, \<open>circular_documented\<close>), and a witness runs it on a concrete one. The logging
  library has a state and a system of its own (\<open>storage\<close>, \<open>log_os\<close>); where the code has no defined
  behaviour (a null pointer, the end of a map, a read past a buffer) the model has no result
  (\<open>stuck\<close>, \<open>defined\<close>), and \<open>device_works\<close> says what is relied on of files and output.

  \<^bold>\<open>The theories\<close>, in the order they build on each other.
  \<^item> Barn\_Prelude: computations, the rules that run them (\<open>io_simps\<close>), frames (\<open>keeps\<close>: what a
    computation leaves alone, \<open>keeps_intros\<close>), sorted lists.
  \<^item> Barn\_World: descriptors, calls to the system, the state of the process, 32-bit \<open>int\<close>.
  \<^item> Helpers (\<^verbatim>\<open>helpers.h\<close>, \<^verbatim>\<open>helpers.cpp\<close>): \<open>Validation\<close>, \<open>split\<close>, and the two list algorithms.
    \<open>tail_intersection\<close> is shown to be the longest common suffix, and on listings the files
    newer than all that the destination has; \<open>count_missing\<close> a multiset difference.
  \<^item> Metrics (\<^verbatim>\<open>metrics.h\<close>): names and interface.
  \<^item> Channel\_Selector (\<^verbatim>\<open>channel_selector.h\<close>): both selectors under one contract, the locale
    \<open>selector_contract\<close>; how often the failover selector may change sides, that a primary heard
    from in time is kept, and the failover and the way back.
  \<^item> Params (\<^verbatim>\<open>params.h\<close>, \<^verbatim>\<open>params.cpp\<close>): which configurations are accepted.
  \<^item> File\_Ops (\<^verbatim>\<open>files.h\<close>): the class \<open>FileOps\<close> as a record and what the agent relies on as
    locales: sorted listings, operations that leave the selector alone, and a destination
    that behaves as a store (\<open>file_store\<close>).
  \<^item> Barn\_Agent (\<^verbatim>\<open>barn-agent.cpp\<close>): one round over any \<open>FileOps\<close>. \<open>attempts\<close> is the
    specification of the shipping loop, \<open>newer_than_remote\<close> that of the candidates.
  \<^item> Test\_Doubles (\<^verbatim>\<open>test/barn-agent-test.cpp\<close>): the fakes of the tests, which are a \<open>file_store\<close>.
  \<^item> Agent\_Properties: what a round ships, reports, and when it heartbeats and sleeps.
  \<^item> Boost\_Process (\<^verbatim>\<open>external/boost/process\<close>): finding an executable, pipes, what the child does
    with its descriptors between fork and exec, the parent's ends, reading to the end, status.
  \<^item> Process (\<^verbatim>\<open>process.cpp\<close>): \<open>run_command\<close>, of which \<open>launch_command\<close> is the part up to the
    started child. \<open>run_command_cases\<close> takes any run apart into the launch, the child's bytes and
    its status; the properties follow: output and exit code, the arguments and descriptors of the
    child, which are closed up to the limit that it read from \<open>sysconf\<close>, no leak in the parent,
    what the signal handler is left with. How a reading ended (\<open>reading_end\<close>) is told apart, since
    the code takes a failed \<open>read\<close> for the end of the output.
  \<^item> Sighandle (\<^verbatim>\<open>sighandle.cpp\<close>): the handler and its interleavings with \<open>run_command\<close> as a step
    relation, failing launches, failing waits and the failed assertion among its steps; an
    invariant of the reachable states.
  \<^item> Rsync (\<^verbatim>\<open>rsync.cpp\<close>): retries, the list of missing files read back from the output, targets.
  \<^item> Files (\<^verbatim>\<open>files.cpp\<close>): listing, emergency stop, waiting; \<open>file_ops\<close> is the \<open>FileOps\<close> the agent
    runs with, and the interpretations \<open>real_ops\<close>, \<open>real_selector\<close> and \<open>real_host_name\<close> show
    that it keeps the contracts of File\_Ops.
  \<^item> Plain\_System: \<open>run_command\<close> run as a whole on a system where nothing is in its way (locale
    \<open>plain_system\<close>): it returns what the program printed and its exit code.
  \<^item> Rsync\_Service: an rsync and a directory as documented (locale \<open>rsync_service\<close>), over which
    the real \<open>file_ops\<close> is a \<open>file_store\<close> (the \<open>sublocale store\<close>), so that what rounds ship is
    stated of the agent as it runs; and a concrete host that satisfies the hypotheses.
  \<^item> Boost\_Pipeline (\<^verbatim>\<open>context.hpp\<close>, \<^verbatim>\<open>operations.hpp\<close>): the portable launches, shells, pipelines and
    waiting for all children of one. Pipeline\_Wiring: what a launched pipeline is connected to
    (\<open>wired\<close>), over systems that record their children (\<open>notes_children\<close>) and hand out descriptors
    as documented (\<open>descriptors_documented\<close>); three lemmas, one for each kind of entry.
  \<^item> Boost\_Streams (\<^verbatim>\<open>posix_status.hpp\<close>, \<^verbatim>\<open>self.hpp\<close>, \<^verbatim>\<open>process.hpp\<close>, \<^verbatim>\<open>postream.hpp\<close>,
    \<^verbatim>\<open>pistream.hpp\<close>, \<^verbatim>\<open>systembuf.hpp\<close>):
    statuses, termination, the environment there and back, ownership of handles, and the
    buffered stream to a child; \<open>write\<close>, \<open>kill\<close> and \<open>getpid\<close> are parameters. The stream from a child,
    read by characters as the code does it, is \<open>read_to_end\<close>.
  \<^item> Local\_Report (\<^verbatim>\<open>localreport.cpp\<close>): datagrams and their round trip.
  \<^item> Monitor (\<^verbatim>\<open>barn-agent-monitor.cpp\<close>, \<^verbatim>\<open>ganglia.cpp\<close>): sums, the zeroes of an interval, a full
    buffer, the timer. Monitor\_Threads: its two threads as an \<open>inductive\<close> step relation, with a
    mutex, the datagrams that arrived and the clock; an invariant of the reachable states, and a
    simulation by a machine that adds and takes reports at once.
  \<^item> Agent\_Main (\<^verbatim>\<open>barn-agent.cpp\<close>, \<^verbatim>\<open>main.cpp\<close>): creation of selector and metrics, the main
    loop over the real file operations, \<open>main\<close>.
  \<^item> The logging library, from its leaves. Elpp\_Enums: levels, types and flags, as the bits they
    are. Elpp\_Str, Elpp\_DateTime: strings, file names, times; what replacing and matching do and
    when they end. Elpp\_Configurations: the values of a logger and their parser, which reads back
    what is written. Elpp\_Format: the parsing of a format. Elpp\_Typed: typed values by level and the
    files that are opened for them. Elpp\_Verbose: verbose levels by module, hit counters.
    Elpp\_Logger: loggers, their registry and the storage. Elpp\_Writer: building a line, dispatch, the
    writer of a statement.
  \<^item> Elpp\_Log\_Line: what one statement writes; the invariant \<open>ready\<close> of a logger between two
    statements, and \<open>holding\<close>, with text left in its stream. Elpp\_Log\_Setup (\<^verbatim>\<open>main.cpp\<close>): the library
    as it starts and is configured by \<open>main\<close> is \<open>ready\<close> and has written nothing (\<open>quietly\<close>).
    Elpp\_Printf: formats with values, against the specification \<open>expand\<close>, and containers.
  \<^item> Elpp\_Crash: the handler of crashes. The agent is built without the default one
    (\<^verbatim>\<open>params.h\<close>), so it installs none; for a program that sets one, the signals that are handled
    and what is logged before it aborts.
  \<^item> Elpp\_Macros: the statements beside \<open>LOG\<close>, which are conditional, counted, verbose, add the error of
    a system call or check, and when they write. Elpp\_Performance: trackers of time and what they log.
  \<^item> Elpp\_Registry: the registries of pointers over an explicit store of objects; a \<open>Registry\<close> is
    a map of values that frees what it owns once (\<open>keeps_house\<close>), which is why the other theories
    keep loggers and configurations by value. Keys are passed by reference (\<open>key_ref\<close>):
    unregistering by a key inside the registered object, as \<open>RegisteredLoggers::unregister\<close> does,
    reads the key after the object is deleted, and has no result here and in Elpp\_Logger.
    Unregistering from a \<open>RegistryWithPred\<close> deletes the wrong object.
    Elpp\_Debug: stack traces, and the names of user and host.
  \<^item> Agent\_Logging (\<^verbatim>\<open>barn-agent.cpp\<close>): the rounds with their log statements, on pairs of the agent's
    state and the library's, over the selectors and any \<open>FileOps\<close> that log as well. Without them
    they are the rounds of Barn\_Agent (\<open>erases\<close>); with the library's \<open>LOG\<close> they do the same and
    write what they say (\<open>alike\<close>); what a run over candidates says, for any \<open>FileOps\<close>.
  \<^item> Round\_Logging (\<^verbatim>\<open>files.cpp\<close>, \<^verbatim>\<open>rsync.cpp\<close>): the real file operations with their log statements;
    \<open>round_says\<close> specifies what a whole round of the agent says, by what happened in it, and the
    log file and the output are shown to grow by exactly the lines of that.
  \<^item> Loggen (\<^verbatim>\<open>src/testing/loggen/loggen.cpp\<close>): the load generator; what it writes in a second.
  \<^item> Test\_Suite: the test cases of the repository, evaluated on the model.

  \<^bold>\<open>Loops and bounds.\<close> Loops over lists are structural; the search through the path and the
  retries of rsync have measures (the rest of the path; tries left, at most three), and so have
  the parsers and tokenisers of the logging library (the rest of the text). Reading a child's
  output, the main loop and the replacing of all occurrences of a text may run forever: they are
  partial functions whose value is then \<open>None\<close>, and for the last it is shown when it is not. No
  fuel is used: \<open>agent_rounds\<close> counts rounds only to state what the main loop went through.

  \<^bold>\<open>Choices.\<close> After a fork the child's steps are run before the parent's next ones; the two share
  only the surroundings. Counters of files and the seconds of the clock are unbounded
  integers; values that the code converts to \<open>int\<close> are wrapped where it does; flags and counters
  of the logging library are kept at their width where it shows. Log messages and the text of
  exceptions are left out of the world of the agent, except the texts that tell exceptions apart;
  Agent\_Logging and Round\_Logging put the messages of the rounds back. The locks of the logging library are left
  out: the programs log from one thread only.

  \<^bold>\<open>Not modelled.\<close> Of the logging library: syslog, locks, and what is compiled for
  Windows, Android, Qt and wxWidgets only. Of Boost.Process: Windows. The other programs of the
  repository (barn-hdfs in Scala, barn-master in shell, contrib), the test frameworks, and the four
  tests of the agent with a mocked selector.
\<close>

end
